(* ===== verification/Retry_Policy.thy ===== *)
theory Retry_Policy
  imports Prelude
begin

text \<open>
  The pure delivery policy of \<open>internal/delivery\<close>: status classification
  (\<open>classify.go\<close>), saturating durations (\<open>backoff.go\<close>), the retry ladder with jitter and
  Retry-After (\<open>policy.go\<close>, \<open>retryafter.go\<close>), the local lease bound and poll interval
  (\<open>hold.go\<close>), the payload and snippet bounds (\<open>payload.go\<close>, \<open>snippet.go\<close>).
  Every function is total on 64-bit inputs; the lemmas compare the saturating arithmetic with
  unbounded reference arithmetic.
\<close>

section \<open>Outcomes\<close>

datatype Outcome = OutcomeTerminal | OutcomeSuccess | OutcomeRetryable

fun outcome_String :: "Outcome \<Rightarrow> string" where
  "outcome_String OutcomeSuccess = ''success''"
| "outcome_String OutcomeRetryable = ''retryable''"
| "outcome_String OutcomeTerminal = ''terminal''"

definition ClassifyStatus :: "int \<Rightarrow> Outcome" where
  "ClassifyStatus status =
     (if status \<ge> 200 \<and> status \<le> 299 then OutcomeSuccess
      else if status = 408 \<or> status = 429 \<or> status \<ge> 500 \<and> status \<le> 599 then OutcomeRetryable
      else OutcomeTerminal)"

text \<open>An \<open>error\<close> value is an option: \<open>nil\<close> is \<open>None\<close>.\<close>

definition ClassifyError :: "string option \<Rightarrow> Outcome" where
  "ClassifyError err = (if err \<noteq> None then OutcomeRetryable else OutcomeTerminal)"

section \<open>Saturating durations\<close>

definition positiveDuration :: "duration \<Rightarrow> duration" where
  "positiveDuration value = (if value < 0 then 0 else value)"

definition clampDuration :: "duration \<Rightarrow> duration \<Rightarrow> duration" where
  "clampDuration value maximum = (if maximum > 0 \<and> value > maximum then maximum else value)"

definition multiplyDuration :: "duration \<Rightarrow> int \<Rightarrow> duration" where
  "multiplyDuration value factor =
     (if value \<le> 0 \<or> factor \<le> 0 then 0
      else if factor > max_int64 sdiv value then max_int64
      else wrap64 (value * factor))"

definition powerOfTwo :: "int \<Rightarrow> int" where
  "powerOfTwo exponent =
     (if exponent \<le> 0 then 1
      else if exponent \<ge> 63 then max_int64
      else if exponent = 62 then 4611686018427387904
      else wrap64 (push_bit (nat exponent) 1))"

section \<open>The retry policy\<close>

type_synonym jitter = "(int \<Rightarrow> int) option"

record Policy =
  MaxAttempts :: int
  Backoff :: string
  InitialInterval :: duration
  MaxInterval :: duration
  Jitter :: bool

definition Ladder :: "Policy \<Rightarrow> int \<Rightarrow> duration" where
  "Ladder p attempt0 =
     (let attempt = (if attempt0 < 1 then 1 else attempt0);
          base = positiveDuration (InitialInterval p);
          delay = (if Backoff p = ''linear'' then multiplyDuration base attempt
                   else if Backoff p = ''exponential'' then multiplyDuration base (powerOfTwo (attempt - 1))
                   else base)
      in clampDuration delay (MaxInterval p))"

definition DelayWith :: "Policy \<Rightarrow> int \<Rightarrow> jitter \<Rightarrow> duration" where
  "DelayWith p attempt draw =
     (let limit = Ladder p attempt in
      case draw of
        None \<Rightarrow> limit
      | Some d \<Rightarrow>
          if \<not> Jitter p \<or> limit \<le> 0 then limit
          else let n = limit;
                   bound = (if n < max_int64 then n + 1 else n);
                   value = d bound;
                   value = (if value < 0 then 0 else value)
               in if value > n then n else value)"

definition EffectiveDelay :: "duration \<Rightarrow> duration \<Rightarrow> duration \<Rightarrow> duration" where
  "EffectiveDelay ladder retryAfter maxInterval =
     (let delay = positiveDuration ladder;
          delay = (if retryAfter > delay then retryAfter else delay)
      in clampDuration delay maxInterval)"

definition DelayAfter :: "Policy \<Rightarrow> int \<Rightarrow> duration \<Rightarrow> jitter \<Rightarrow> duration" where
  "DelayAfter p attempt retryAfter draw =
     EffectiveDelay (DelayWith p attempt draw) retryAfter (MaxInterval p)"

definition Terminal :: "Policy \<Rightarrow> int \<Rightarrow> bool" where
  "Terminal p attempt \<longleftrightarrow> MaxAttempts p \<le> 0 \<or> attempt \<ge> MaxAttempts p"

definition ShouldRetry :: "Policy \<Rightarrow> int \<Rightarrow> Outcome \<Rightarrow> bool" where
  "ShouldRetry p attempt outcome \<longleftrightarrow> outcome = OutcomeRetryable \<and> \<not> Terminal p attempt"

section \<open>Retry-After\<close>

text \<open>
  \<open>strings.TrimSpace\<close> removes leading and trailing Unicode white space. On bytes that is one of
  these UTF-8 encodings at either end.
\<close>

definition space_encodings :: "string list" where
  "space_encodings =
     [[CHR 0x09], [CHR 0x0A], [CHR 0x0B], [CHR 0x0C], [CHR 0x0D], [CHR 0x20],
      [CHR 0xC2, CHR 0x85], [CHR 0xC2, CHR 0xA0], [CHR 0xE1, CHR 0x9A, CHR 0x80],
      [CHR 0xE2, CHR 0x80, CHR 0x80], [CHR 0xE2, CHR 0x80, CHR 0x81], [CHR 0xE2, CHR 0x80, CHR 0x82],
      [CHR 0xE2, CHR 0x80, CHR 0x83], [CHR 0xE2, CHR 0x80, CHR 0x84], [CHR 0xE2, CHR 0x80, CHR 0x85],
      [CHR 0xE2, CHR 0x80, CHR 0x86], [CHR 0xE2, CHR 0x80, CHR 0x87], [CHR 0xE2, CHR 0x80, CHR 0x88],
      [CHR 0xE2, CHR 0x80, CHR 0x89], [CHR 0xE2, CHR 0x80, CHR 0x8A], [CHR 0xE2, CHR 0x80, CHR 0xA8],
      [CHR 0xE2, CHR 0x80, CHR 0xA9], [CHR 0xE2, CHR 0x80, CHR 0xAF], [CHR 0xE2, CHR 0x81, CHR 0x9F],
      [CHR 0xE3, CHR 0x80, CHR 0x80]]"

fun trim_left_fuel :: "nat \<Rightarrow> string \<Rightarrow> string" where
  "trim_left_fuel 0 s = s"
| "trim_left_fuel (Suc n) s =
     (case find (HasPrefix s) space_encodings of
        None \<Rightarrow> s
      | Some e \<Rightarrow> trim_left_fuel n (drop (length e) s))"

fun trim_right_fuel :: "nat \<Rightarrow> string \<Rightarrow> string" where
  "trim_right_fuel 0 s = s"
| "trim_right_fuel (Suc n) s =
     (case find (HasSuffix s) space_encodings of
        None \<Rightarrow> s
      | Some e \<Rightarrow> trim_right_fuel n (take (length s - length e) s))"

definition TrimSpace :: "string \<Rightarrow> string" where
  "TrimSpace s = (let t = trim_left_fuel (length s) s in trim_right_fuel (length t) t)"

definition time_second :: duration where
  "time_second = 1000000000"

definition parseDeltaSeconds :: "string \<Rightarrow> duration option" where
  "parseDeltaSeconds value =
     (if \<not> list_all is_digit value then None
      else if value = [] \<or> dec_value value \<ge> 2 ^ 64 then Some max_int64
      else let seconds = int (dec_value value) in
           if seconds > max_int64 div time_second then Some max_int64
           else Some (wrap64 (seconds * time_second)))"

text \<open>\<open>time.Time.Sub\<close> saturates at the ends of the duration range.\<close>

definition time_Sub :: "instant \<Rightarrow> instant \<Rightarrow> duration" where
  "time_Sub a b = (if a - b < min_int64 then min_int64 else if a - b > max_int64 then max_int64 else a - b)"

text \<open>The HTTP-date grammar of \<open>net/http\<close> is the parameter \<open>parseTime\<close>.\<close>

definition ParseRetryAfter :: "(string \<Rightarrow> instant option) \<Rightarrow> string \<Rightarrow> instant \<Rightarrow> duration option" where
  "ParseRetryAfter parseTime value0 now =
     (let value = TrimSpace value0 in
      if value = [] then None
      else case parseDeltaSeconds value of
             Some delay \<Rightarrow> Some delay
           | None \<Rightarrow>
               (case parseTime value of
                  None \<Rightarrow> None
                | Some when_at \<Rightarrow>
                    (let delay = time_Sub when_at now in
                     if delay \<le> 0 then None else Some delay)))"

section \<open>Payload and snippet bounds\<close>

definition checkPayloadSize :: "bytes \<Rightarrow> int \<Rightarrow> bool \<times> string" where
  "checkPayloadSize payload limit =
     (if int (length payload) \<le> limit then (True, [])
      else (False, ''payload size '' @ FormatInt (int (length payload)) @ '' exceeds limit '' @ FormatInt limit))"

definition maxSnippetBytes :: nat where
  "maxSnippetBytes = 2048"

definition TruncateSnippet :: "bytes \<Rightarrow> string" where
  "TruncateSnippet body =
     (if length body \<le> maxSnippetBytes then body else take maxSnippetBytes body)"

section \<open>The local lease bound\<close>

definition defaultLeaseTimeout :: duration where
  "defaultLeaseTimeout = 5 * 60 * time_second"

definition effective_lease :: "duration \<Rightarrow> duration" where
  "effective_lease lease = (if lease \<le> 0 then defaultLeaseTimeout else lease)"

definition leaseHoldLimit :: "duration \<Rightarrow> duration" where
  "leaseHoldLimit leaseTimeout =
     (let lease = effective_lease leaseTimeout;
          margin = lease sdiv 10;
          margin = (if margin < 1000000 then 1000000 else margin);
          margin = (if margin \<ge> lease then lease sdiv 2 else margin)
      in lease - margin)"

definition pollInterval :: "duration \<Rightarrow> duration \<Rightarrow> duration" where
  "pollInterval leaseTimeout interval0 =
     (let interval = (if interval0 \<le> 0 then time_second else interval0);
          bound = leaseHoldLimit leaseTimeout sdiv 2;
          bound = (if bound \<le> 0 then leaseHoldLimit leaseTimeout else bound)
      in if interval > bound then bound else interval)"

section \<open>Lemmas: the saturating arithmetic\<close>

lemma positiveDuration_max: "positiveDuration d = max 0 d"
  by (simp add: positiveDuration_def max_def)

lemma clampDuration_min: "clampDuration v m = (if m > 0 then min m v else v)"
  by (auto simp: clampDuration_def min_def)

lemma multiplyDuration_min:
  assumes "0 \<le> v" "v \<le> max_int64" "0 \<le> f"
  shows "multiplyDuration v f = min max_int64 (v * f)"
proof (cases "v = 0 \<or> f = 0")
  case True
  then show ?thesis by (auto simp: multiplyDuration_def min_def max_int64_def)
next
  case False
  with assms have pos: "0 < v" "0 < f" by auto
  then have over: "max_int64 sdiv v < f \<longleftrightarrow> max_int64 < v * f"
    by (simp add: sdiv_nonneg int_div_less_iff mult.commute max_int64_pos [THEN less_imp_le])
  have "0 < v * f" using pos by simp
  then have "v * f \<le> max_int64 \<Longrightarrow> wrap64 (v * f) = v * f"
    by (intro wrap64_id) (simp add: in_int64_def min_int64_def)
  with pos over show ?thesis
    by (auto simp: multiplyDuration_def)
qed

lemma powerOfTwo_min: "powerOfTwo e = min max_int64 (2 ^ nat e)"
proof -
  consider "e \<le> 0" | "0 < e" "e < 62" | "e = 62" | "63 \<le> e" by linarith
  then show ?thesis
  proof cases
    case 2
    then have "nat e \<le> 61" by simp
    then have le: "(2::int) ^ nat e \<le> 2 ^ 61" by (intro power_increasing) auto
    then have "in_int64 (2 ^ nat e)"
      by (simp add: in_int64_def min_int64_def max_int64_def order_trans [of _ 0])
    with 2 le show ?thesis
      by (simp add: powerOfTwo_def push_bit_eq_mult wrap64_id max_int64_def)
  next
    case 4
    then have "63 \<le> nat e" by simp
    then have "(2::int) ^ 63 \<le> 2 ^ nat e" by (intro power_increasing) auto
    with 4 show ?thesis by (simp add: powerOfTwo_def max_int64_def)
  qed (simp_all add: powerOfTwo_def max_int64_def)
qed

lemma min_mult_saturate:
  assumes "0 \<le> v" "(0::int) \<le> f" "0 \<le> m" "v \<le> m"
  shows "min m (v * min m f) = min m (v * f)"
proof (cases "f \<le> m \<or> v = 0")
  case False
  with assms have "m \<le> v * m" "v * m \<le> v * f"
    by (auto simp: mult_le_cancel_right1)
  with False show ?thesis by (simp add: min_def)
qed (auto simp: min_def)

section \<open>Lemmas: the ladder against unbounded arithmetic\<close>

text \<open>The reference: what the configured mode means on unbounded integers, and the two caps.\<close>

definition ladder_reference :: "Policy \<Rightarrow> int \<Rightarrow> int" where
  "ladder_reference p attempt =
     (let n = max 1 attempt; b = max 0 (InitialInterval p) in
      if Backoff p = ''linear'' then b * n
      else if Backoff p = ''exponential'' then b * 2 ^ nat (n - 1)
      else b)"

definition capped :: "duration \<Rightarrow> int \<Rightarrow> duration" where
  "capped cap x = (if cap > 0 then min cap (min max_int64 x) else min max_int64 x)"

lemma capped_mono: "x \<le> y \<Longrightarrow> capped c x \<le> capped c y"
  by (auto simp: capped_def)

lemma ladder_reference_nonneg: "0 \<le> ladder_reference p a"
  by (simp add: ladder_reference_def Let_def)

lemma ladder_reference_mono: "a \<le> b \<Longrightarrow> ladder_reference p a \<le> ladder_reference p b"
  by (auto simp: ladder_reference_def Let_def intro!: mult_left_mono power_increasing)

lemma Ladder_capped:
  assumes "in_int64 (InitialInterval p)"
  shows "Ladder p a = capped (MaxInterval p) (ladder_reference p a)"
proof -
  let ?n = "if a < 1 then 1 else a"
  let ?b = "max 0 (InitialInterval p)"
  have n: "?n = max 1 a" by simp
  have b: "0 \<le> ?b" "?b \<le> max_int64"
    using assms by (simp_all add: in_int64_def max_int64_def)
  have lin: "multiplyDuration ?b (max 1 a) = min max_int64 (?b * max 1 a)"
    by (rule multiplyDuration_min) (use b in auto)
  have "multiplyDuration ?b (powerOfTwo (max 1 a - 1)) = min max_int64 (?b * powerOfTwo (max 1 a - 1))"
    by (rule multiplyDuration_min) (use b in \<open>auto simp: powerOfTwo_min max_int64_def\<close>)
  also have "\<dots> = min max_int64 (?b * 2 ^ nat (max 1 a - 1))"
    unfolding powerOfTwo_min by (rule min_mult_saturate) (use b in \<open>auto simp: max_int64_def\<close>)
  finally have expo: "multiplyDuration ?b (powerOfTwo (max 1 a - 1)) = \<dots>" .
  have fixed: "min max_int64 ?b = ?b" using b by simp
  show ?thesis
    unfolding Ladder_def Let_def n positiveDuration_max lin expo clampDuration_min capped_def
      ladder_reference_def
    using fixed by auto
qed

lemma Ladder_bounds:
  assumes "in_int64 (InitialInterval p)"
  shows "0 \<le> Ladder p a" "Ladder p a \<le> max_int64" "0 < MaxInterval p \<Longrightarrow> Ladder p a \<le> MaxInterval p"
  using ladder_reference_nonneg [of p a] by (auto simp: Ladder_capped [OF assms] capped_def max_int64_def)

lemma DelayWith_bounds:
  assumes "in_int64 (InitialInterval p)"
  shows "0 \<le> DelayWith p a draw" "DelayWith p a draw \<le> Ladder p a"
  using Ladder_bounds [OF assms, of a]
  by (auto simp: DelayWith_def Let_def split: option.splits)

lemma EffectiveDelay_max:
  "EffectiveDelay l r m = (if m > 0 then min m (max (max 0 l) r) else max (max 0 l) r)"
  by (auto simp: EffectiveDelay_def Let_def positiveDuration_max clampDuration_min max_def)

section \<open>Lemmas: Retry-After and the lease bound\<close>

lemma parseDeltaSeconds_saturates:
  assumes "list_all is_digit v" "v \<noteq> []"
  shows "parseDeltaSeconds v = Some (min max_int64 (int (dec_value v) * time_second))"
proof -
  let ?n = "int (dec_value v)"
  have second: "0 < time_second" by (simp add: time_second_def)
  have over: "max_int64 div time_second < ?n \<longleftrightarrow> max_int64 < ?n * time_second"
    by (rule int_div_less_iff [OF second])
  have big: "max_int64 < ?n * time_second" if "2 ^ 64 \<le> dec_value v"
  proof -
    from that have "(2::int) ^ 64 \<le> ?n" by (metis of_nat_le_iff of_nat_numeral of_nat_power)
    then show ?thesis by (simp add: max_int64_def time_second_def)
  qed
  have "wrap64 (?n * time_second) = ?n * time_second" if "?n * time_second \<le> max_int64"
    using that by (intro wrap64_id) (simp add: in_int64_def min_int64_def time_second_def)
  with assms over big show ?thesis
    by (auto simp: parseDeltaSeconds_def Let_def)
qed

lemma ParseRetryAfter_delta:
  assumes "list_all is_digit (TrimSpace v)" "TrimSpace v \<noteq> []"
  shows "ParseRetryAfter pt v now = Some (min max_int64 (int (dec_value (TrimSpace v)) * time_second))"
  using assms by (simp add: ParseRetryAfter_def parseDeltaSeconds_saturates)

lemma ParseRetryAfter_range:
  assumes "ParseRetryAfter pt v now = Some d"
  shows "0 \<le> d \<and> d \<le> max_int64"
proof -
  have nonneg: "0 \<le> min max_int64 (int k * time_second)" for k
    by (simp add: max_int64_def time_second_def)
  show ?thesis
  proof (cases "list_all is_digit (TrimSpace v)")
    case True
    with assms have "TrimSpace v \<noteq> []" by (auto simp: ParseRetryAfter_def)
    with True assms nonneg show ?thesis by (auto simp: ParseRetryAfter_delta)
  next
    case False
    then have "parseDeltaSeconds (TrimSpace v) = None" by (simp add: parseDeltaSeconds_def)
    with assms show ?thesis
      by (auto simp: ParseRetryAfter_def Let_def time_Sub_def max_int64_def min_int64_def
          split: if_splits option.splits)
  qed
qed

lemma effective_lease_pos: "0 < effective_lease l"
  by (simp add: effective_lease_def defaultLeaseTimeout_def time_second_def)

lemma leaseHoldLimit_bounds:
  "0 < leaseHoldLimit l" "leaseHoldLimit l \<le> effective_lease l"
  "2 \<le> effective_lease l \<Longrightarrow> leaseHoldLimit l < effective_lease l"
proof -
  let ?e = "effective_lease l"
  have e: "0 < ?e" by (rule effective_lease_pos)
  have tenth: "?e sdiv 10 = ?e div 10" and half: "?e sdiv 2 = ?e div 2"
    using e by (auto simp: sdiv_nonneg)
  have lim: "leaseHoldLimit l =
      (let m = max 1000000 (?e div 10) in if m \<ge> ?e then ?e - ?e div 2 else ?e - m)"
    by (auto simp: leaseHoldLimit_def Let_def tenth half max_def)
  show "0 < leaseHoldLimit l" "leaseHoldLimit l \<le> ?e" "2 \<le> ?e \<Longrightarrow> leaseHoldLimit l < ?e"
    unfolding lim Let_def using e by (auto simp: max_def)
qed

lemma pollInterval_bounds:
  "0 < pollInterval l i" "pollInterval l i \<le> leaseHoldLimit l"
  "2 \<le> leaseHoldLimit l \<Longrightarrow> 2 * pollInterval l i \<le> leaseHoldLimit l"
proof -
  let ?h = "leaseHoldLimit l"
  have h: "0 < ?h" by (rule leaseHoldLimit_bounds)
  have half: "?h sdiv 2 = ?h div 2" using h by (simp add: sdiv_nonneg)
  show "0 < pollInterval l i" "pollInterval l i \<le> ?h" "2 \<le> ?h \<Longrightarrow> 2 * pollInterval l i \<le> ?h"
    using h by (auto simp: pollInterval_def Let_def half time_second_def)
qed

section \<open>Properties\<close>

text \<open>C5. The overflow-guarded retry ladder of \<open>Policy.Ladder\<close> equals unbounded arithmetic for the
  configured mode (initial times attempt, initial times a power of two, or the initial interval),
  capped at the largest duration and at a positive \<open>MaxInterval\<close>; it never decreases as the
  attempt number grows.\<close>

theorem ladder_matches_unbounded_reference:
  assumes "in_int64 (InitialInterval p)"
  shows "Ladder p a = capped (MaxInterval p) (ladder_reference p a) \<and>
    (\<forall>b. a \<le> b \<longrightarrow> Ladder p a \<le> Ladder p b)"
  using assms by (simp add: Ladder_capped capped_mono ladder_reference_mono)

theorem ladder_matches_unbounded_reference_witness:
  "Ladder \<lparr>MaxAttempts = 5, Backoff = ''exponential'', InitialInterval = 10000000000,
      MaxInterval = 3600000000000, Jitter = True\<rparr> 4 = 80000000000"
proof -
  let ?p = "\<lparr>MaxAttempts = 5, Backoff = ''exponential'', InitialInterval = 10000000000,
      MaxInterval = 3600000000000, Jitter = True\<rparr>"
  have "in_int64 (InitialInterval ?p)" by code_simp
  from ladder_matches_unbounded_reference [OF this, of 4]
  show ?thesis by (simp add: capped_def ladder_reference_def max_int64_def)
qed

text \<open>The delay the worker schedules (\<open>Policy.DelayAfter\<close>) is non-negative and within a positive
  \<open>MaxInterval\<close> whatever the jitter source draws; a Retry-After value is a floor up to that cap;
  without one the delay never exceeds the ladder.\<close>

theorem delay_after_bounds:
  assumes "in_int64 (InitialInterval p)"
  shows "0 \<le> DelayAfter p a r draw \<and>
    (0 < MaxInterval p \<longrightarrow> DelayAfter p a r draw \<le> MaxInterval p) \<and>
    (if 0 < MaxInterval p then min r (MaxInterval p) else r) \<le> DelayAfter p a r draw \<and>
    (r \<le> 0 \<longrightarrow> DelayAfter p a r draw \<le> Ladder p a)"
  using DelayWith_bounds [OF assms, of a draw]
  by (auto simp: DelayAfter_def EffectiveDelay_max)

theorem delay_after_bounds_witness:
  "DelayAfter \<lparr>MaxAttempts = 5, Backoff = ''linear'', InitialInterval = 10, MaxInterval = 25,
      Jitter = True\<rparr> 9 1000 (Some (\<lambda>n. n + 7)) \<le> 25"
proof -
  let ?p = "\<lparr>MaxAttempts = 5, Backoff = ''linear'', InitialInterval = 10, MaxInterval = 25,
      Jitter = True\<rparr>"
  have "in_int64 (InitialInterval ?p)" by code_simp
  from delay_after_bounds [OF this, of 9 1000 "Some (\<lambda>n. n + 7)"] show ?thesis by simp
qed

text \<open>\<open>ParseRetryAfter\<close> answers a decimal delta-seconds header with exactly that many seconds,
  saturated at the largest duration however long the numeral is, and every answer it gives (the
  HTTP-date form included) is a non-negative representable duration.\<close>

theorem retry_after_saturates:
  "(list_all is_digit (TrimSpace v) \<and> TrimSpace v \<noteq> [] \<longrightarrow>
      ParseRetryAfter pt v now = Some (min max_int64 (int (dec_value (TrimSpace v)) * 1000000000))) \<and>
   (\<forall>d. ParseRetryAfter pt v now = Some d \<longrightarrow> 0 \<le> d \<and> d \<le> max_int64)"
  using ParseRetryAfter_delta [of v pt now] ParseRetryAfter_range [of pt v now]
  by (auto simp: time_second_def)

theorem retry_after_saturates_witness:
  "ParseRetryAfter (\<lambda>_. None) '' 120 '' 0 = Some 120000000000"
proof -
  have trim: "TrimSpace '' 120 '' = ''120''" by code_simp
  have "list_all is_digit ''120''" "dec_value ''120'' = 120" by code_simp+
  with retry_after_saturates [of "'' 120 ''" "\<lambda>_. None" 0] trim show ?thesis
    by (simp add: max_int64_def)
qed

text \<open>The local hold bound stays positive and strictly inside every source lease of at least two
  nanoseconds, and the poll interval is positive and lets a held event be looked at twice before
  that bound.\<close>

theorem hold_limit_inside_lease:
  "0 < leaseHoldLimit l \<and> leaseHoldLimit l \<le> effective_lease l \<and>
   (2 \<le> effective_lease l \<longrightarrow> leaseHoldLimit l < effective_lease l) \<and>
   0 < pollInterval l i \<and> pollInterval l i \<le> leaseHoldLimit l \<and>
   (2 \<le> leaseHoldLimit l \<longrightarrow> 2 * pollInterval l i \<le> leaseHoldLimit l)"
  using leaseHoldLimit_bounds [of l] pollInterval_bounds [of l i] by blast

theorem hold_limit_inside_lease_witness:
  "leaseHoldLimit 1000000000 < effective_lease 1000000000 \<and>
   2 * pollInterval 1000000000 10000000000 \<le> leaseHoldLimit 1000000000"
proof -
  have "2 \<le> effective_lease 1000000000" "2 \<le> leaseHoldLimit 1000000000" by code_simp+
  with hold_limit_inside_lease [of 1000000000 10000000000] show ?thesis by blast
qed

end
