(* ===== verification/Quoting.thy ===== *)
theory Quoting
  imports Prelude
begin

text \<open>
  Names and literals on their way into SQL text: the identifier boundary of
  \<open>internal/schema/identifier.go\<close>, the truncate-plus-hash names of
  \<open>internal/schema/objectname.go\<close>, the inverse reader \<open>SplitQualified\<close>, the literal quoter and
  the dollar-quote tag of \<open>internal/source\<close>. The driver's quoter
  (\<open>pgx.Identifier.Sanitize\<close>) is a parameter \<open>san\<close>; \<open>sanitizer_law\<close> states what the sources
  document of it. \<open>sql_literal\<close> and \<open>dollar_body\<close> are PostgreSQL's reading rules, against which the
  writers are proved.
\<close>

section \<open>Identifiers\<close>

datatype IdentifierFault = IdentifierOK | IdentifierEmpty | IdentifierHoldsNUL | IdentifierTooLong

fun fault_text :: "IdentifierFault \<Rightarrow> string" where
  "fault_text IdentifierOK = ''ok''"
| "fault_text IdentifierEmpty = ''is empty, and PostgreSQL rejects a zero-length identifier''"
| "fault_text IdentifierHoldsNUL = ''holds a NUL byte, which the driver's quoter deletes''"
| "fault_text IdentifierTooLong = ''is over the 63-byte identifier limit''"

definition MaxIdentifierBytes :: nat where
  "MaxIdentifierBytes = 63"

definition NUL :: char where
  "NUL = CHR 0x00"

definition DQ :: char where
  "DQ = CHR 0x22"

definition WhyUnusable :: "string \<Rightarrow> IdentifierFault" where
  "WhyUnusable name =
     (if name = [] then IdentifierEmpty
      else if NUL \<in> set name then IdentifierHoldsNUL
      else if length name > MaxIdentifierBytes then IdentifierTooLong
      else IdentifierOK)"

type_synonym sanitizer = "string list \<Rightarrow> string"

definition Quoted :: "sanitizer \<Rightarrow> string \<Rightarrow> string \<times> IdentifierFault" where
  "Quoted san name =
     (if WhyUnusable name \<noteq> IdentifierOK then ([], WhyUnusable name) else (san [name], IdentifierOK))"

definition Qualified :: "sanitizer \<Rightarrow> string \<Rightarrow> string \<Rightarrow> string \<times> IdentifierFault" where
  "Qualified san schema name =
     (if WhyUnusable schema \<noteq> IdentifierOK then ([], WhyUnusable schema)
      else if WhyUnusable name \<noteq> IdentifierOK then ([], WhyUnusable name)
      else (san [schema, name], IdentifierOK))"

definition lower_ascii :: "char \<Rightarrow> char" where
  "lower_ascii c =
     (if 65 \<le> (of_char c :: nat) \<and> (of_char c :: nat) \<le> 90 then char_of ((of_char c :: nat) + 32) else c)"

definition claimsReservedSchemaPrefix :: "string \<Rightarrow> bool" where
  "claimsReservedSchemaPrefix name \<longleftrightarrow> length name \<ge> 3 \<and> map lower_ascii (take 3 name) = ''pg_''"

text \<open>
  What \<open>identifier.go\<close> documents of the driver's quoter: each part in double quotes with every
  quote inside it doubled, the parts joined by dots.
\<close>

definition dquoted :: "string \<Rightarrow> string" where
  "dquoted s = DQ # ReplaceChar DQ [DQ, DQ] s @ [DQ]"

definition sanitizer_law :: "sanitizer \<Rightarrow> bool" where
  "sanitizer_law san \<longleftrightarrow>
     (\<forall>parts. (\<forall>p \<in> set parts. NUL \<notin> set p) \<longrightarrow> san parts = Join (map dquoted parts) ''.'')"

section \<open>Object names\<close>

definition fnv32a :: "string \<Rightarrow> 32 word" where
  "fnv32a s = foldl (\<lambda>h c. (xor h (of_char c)) * 16777619) 2166136261 s"

definition hex_digit :: "nat \<Rightarrow> char" where
  "hex_digit n = (if n < 10 then char_of (48 + n) else char_of (87 + n))"

fun hex_fixed :: "nat \<Rightarrow> nat \<Rightarrow> string" where
  "hex_fixed 0 n = []"
| "hex_fixed (Suc w) n = hex_fixed w (n div 16) @ [hex_digit (n mod 16)]"

definition RuneStart :: "char \<Rightarrow> bool" where
  "RuneStart c \<longleftrightarrow> \<not> (128 \<le> (of_char c :: nat) \<and> (of_char c :: nat) < 192)"

fun runeBoundaryAtOrBefore :: "string \<Rightarrow> nat \<Rightarrow> nat" where
  "runeBoundaryAtOrBefore text 0 = 0"
| "runeBoundaryAtOrBefore text (Suc limit) =
     (if \<not> RuneStart (text ! Suc limit) then runeBoundaryAtOrBefore text limit else Suc limit)"

definition ObjectName :: "string \<Rightarrow> string \<Rightarrow> string" where
  "ObjectName base suffix =
     (let full = base @ ''_'' @ suffix in
      if length full \<le> MaxIdentifierBytes then full
      else let tag = hex_fixed 8 (unat (fnv32a full))
           in take (runeBoundaryAtOrBefore full (MaxIdentifierBytes - length tag - 1)) full @ ''_'' @ tag)"

section \<open>Reading a qualified name back\<close>

text \<open>
  \<open>splitQualifiedPart\<close> of the source walks an index; here the walk is over the remaining text and
  the part read is returned with what follows it.
\<close>

fun split_part_body :: "string \<Rightarrow> (string \<times> string) option" where
  "split_part_body [] = None"
| "split_part_body (c # rest) =
     (if c \<noteq> DQ then map_option (\<lambda>(part, next). (c # part, next)) (split_part_body rest)
      else case rest of
             [] \<Rightarrow> Some ([], rest)
           | d # rest' \<Rightarrow>
               if d = DQ then map_option (\<lambda>(part, next). (DQ # part, next)) (split_part_body rest')
               else Some ([], rest))"

definition splitQualifiedPart :: "string \<Rightarrow> (string \<times> string) option" where
  "splitQualifiedPart stored =
     (case stored of [] \<Rightarrow> None | c # rest \<Rightarrow> if c \<noteq> DQ then None else split_part_body rest)"

definition SplitQualified :: "string \<Rightarrow> (string \<times> string) option" where
  "SplitQualified stored =
     (case splitQualifiedPart stored of
        None \<Rightarrow> None
      | Some (schemaName, next) \<Rightarrow>
          (case next of
             [] \<Rightarrow> None
           | c # after \<Rightarrow>
               if c \<noteq> CHR ''.'' then None
               else (case splitQualifiedPart after of
                       None \<Rightarrow> None
                     | Some (tableName, end) \<Rightarrow>
                         if end \<noteq> [] \<or> schemaName = [] \<or> tableName = [] then None
                         else Some (schemaName, tableName))))"

section \<open>Literals\<close>

definition SQ :: char where
  "SQ = CHR 0x27"

definition BS :: char where
  "BS = CHR 0x5C"

definition quoteLiteral :: "string \<Rightarrow> string" where
  "quoteLiteral value =
     (if BS \<in> set value
      then ''E'' @ [SQ] @ ReplaceChar SQ [SQ, SQ] (ReplaceChar BS [BS, BS] value) @ [SQ]
      else [SQ] @ ReplaceChar SQ [SQ, SQ] value @ [SQ])"

text \<open>
  PostgreSQL's reading of a string constant: between single quotes a doubled quote is one quote; in
  an \<open>E\<close> constant a backslash pair is one backslash (the only escape the writer emits, any other is
  refused here). The reader returns the value and the text after the constant.
\<close>

fun sql_literal_body :: "bool \<Rightarrow> string \<Rightarrow> (string \<times> string) option" where
  "sql_literal_body esc [] = None"
| "sql_literal_body esc (c # rest) =
     (if c = SQ then
        (case rest of
           [] \<Rightarrow> Some ([], rest)
         | d # rest' \<Rightarrow>
             if d = SQ then map_option (\<lambda>(v, next). (SQ # v, next)) (sql_literal_body esc rest')
             else Some ([], rest))
      else if esc \<and> c = BS then
        (case rest of
           [] \<Rightarrow> None
         | d # rest' \<Rightarrow>
             if d = BS then map_option (\<lambda>(v, next). (BS # v, next)) (sql_literal_body esc rest')
             else None)
      else map_option (\<lambda>(v, next). (c # v, next)) (sql_literal_body esc rest))"

definition sql_literal :: "string \<Rightarrow> (string \<times> string) option" where
  "sql_literal s =
     (case s of
        [] \<Rightarrow> None
      | c # rest \<Rightarrow>
          if c = SQ then sql_literal_body False rest
          else if c = CHR ''E'' then
            (case rest of [] \<Rightarrow> None | d # rest' \<Rightarrow> if d = SQ then sql_literal_body True rest' else None)
          else None)"

section \<open>Dollar quotes\<close>

definition dollar_tag :: "nat \<Rightarrow> string" where
  "dollar_tag suffix = (if suffix > 0 then ''fn_'' @ dec_nat suffix else ''fn'')"

definition dollar_delim :: "nat \<Rightarrow> string" where
  "dollar_delim suffix = ''$'' @ dollar_tag suffix @ ''$''"

lemma length_dec_nat_bound: "n < 10 ^ length (dec_nat n)"
proof (induction n rule: dec_nat.induct)
  case (1 n)
  show ?case
  proof (cases "n < 10")
    case False
    with 1 have "n div 10 < 10 ^ length (dec_nat (n div 10))" by simp
    then have "n < 10 * 10 ^ length (dec_nat (n div 10))"
      by (simp add: div_less_iff_less_mult mult.commute)
    with False show ?thesis by (simp add: dec_nat.simps [of n])
  qed (simp add: dec_nat.simps [of n])
qed

lemma finite_contained_delims: "finite {k. Contains body (dollar_delim k)}"
proof (rule finite_subset)
  show "{k. Contains body (dollar_delim k)} \<subseteq> {..10 ^ length body}"
  proof
    fix k assume "k \<in> {k. Contains body (dollar_delim k)}"
    then have "length (dollar_delim k) \<le> length body"
      by (auto simp: Contains_iff)
    then have "k > 0 \<Longrightarrow> length (dec_nat k) \<le> length body"
      by (simp add: dollar_delim_def dollar_tag_def)
    then have "k > 0 \<Longrightarrow> k < 10 ^ length body"
      using length_dec_nat_bound [of k] by (meson less_le_trans one_le_numeral power_increasing)
    then show "k \<in> {..10 ^ length body}" by (cases "k = 0") auto
  qed
qed simp

function dollar_search :: "string \<Rightarrow> nat \<Rightarrow> string" where
  "dollar_search renderedBody suffix =
     (if \<not> Contains renderedBody (dollar_delim suffix) then dollar_tag suffix
      else dollar_search renderedBody (Suc suffix))"
  by pat_completeness auto
termination
proof (relation "measure (\<lambda>(body, k). card {j. k \<le> j \<and> Contains body (dollar_delim j)})", goal_cases)
  case (2 body k)
  have "{j. Suc k \<le> j \<and> Contains body (dollar_delim j)} \<subset>
      {j. k \<le> j \<and> Contains body (dollar_delim j)}"
  proof (rule psubsetI)
    show "{j. Suc k \<le> j \<and> Contains body (dollar_delim j)} \<noteq> {j. k \<le> j \<and> Contains body (dollar_delim j)}"
      using 2 by (metis (mono_tags, lifting) mem_Collect_eq not_less_eq_eq order_refl)
  qed auto
  moreover have "finite {j. k \<le> j \<and> Contains body (dollar_delim j)}"
    by (rule finite_subset [OF _ finite_contained_delims]) auto
  ultimately show ?case by (simp add: psubset_card_mono)
qed simp

declare dollar_search.simps [simp del]

definition dollarQuoteTag :: "string \<Rightarrow> string" where
  "dollarQuoteTag renderedBody = dollar_search renderedBody 0"

section \<open>Lemmas: identifiers\<close>

lemma WhyUnusable_OK:
  "WhyUnusable name = IdentifierOK \<longleftrightarrow>
     name \<noteq> [] \<and> NUL \<notin> set name \<and> length name \<le> MaxIdentifierBytes"
  by (auto simp: WhyUnusable_def)

lemma Quoted_OK:
  "Quoted san name = (q, IdentifierOK) \<longleftrightarrow> WhyUnusable name = IdentifierOK \<and> q = san [name]"
  by (auto simp: Quoted_def)

lemma Qualified_OK:
  "Qualified san s t = (q, IdentifierOK) \<longleftrightarrow>
     WhyUnusable s = IdentifierOK \<and> WhyUnusable t = IdentifierOK \<and> q = san [s, t]"
  by (auto simp: Qualified_def)

lemma split_part_body_dquoted:
  assumes "rest = [] \<or> hd rest \<noteq> DQ"
  shows "split_part_body (ReplaceChar DQ [DQ, DQ] s @ DQ # rest) = Some (s, rest)"
  using assms by (induction s) (auto split: list.splits)

lemma splitQualifiedPart_dquoted:
  "rest = [] \<or> hd rest \<noteq> DQ \<Longrightarrow> splitQualifiedPart (dquoted s @ rest) = Some (s, rest)"
  by (simp add: splitQualifiedPart_def dquoted_def split_part_body_dquoted)

lemma SplitQualified_dquoted:
  assumes "s \<noteq> []" "t \<noteq> []"
  shows "SplitQualified (dquoted s @ ''.'' @ dquoted t) = Some (s, t)"
proof -
  have "splitQualifiedPart (dquoted s @ ''.'' @ dquoted t) = Some (s, ''.'' @ dquoted t)"
    by (rule splitQualifiedPart_dquoted) (simp add: DQ_def)
  moreover have "splitQualifiedPart (dquoted t) = Some (t, [])"
    using splitQualifiedPart_dquoted [of "[]" t] by simp
  ultimately show ?thesis using assms by (simp add: SplitQualified_def)
qed

lemma split_part_body_sound:
  "split_part_body s = Some (part, rest) \<Longrightarrow>
     s = ReplaceChar DQ [DQ, DQ] part @ DQ # rest \<and> (rest = [] \<or> hd rest \<noteq> DQ)"
proof (induction s arbitrary: part rule: split_part_body.induct)
  case (2 c s)
  show ?case
  proof (cases "c = DQ")
    case False
    with "2.prems" obtain p where "split_part_body s = Some (p, rest)" "part = c # p"
      by (auto split: if_splits)
    with "2.IH"(1) [OF False] False show ?thesis by auto
  next
    case c: True
    show ?thesis
    proof (cases s)
      case Nil
      with "2.prems" c show ?thesis by simp
    next
      case (Cons d s')
      show ?thesis
      proof (cases "d = DQ")
        case True
        with "2.prems" c Cons obtain p where "split_part_body s' = Some (p, rest)" "part = DQ # p"
          by auto
        with "2.IH"(2) [of d s'] c Cons True show ?thesis by auto
      next
        case False
        with "2.prems" c Cons show ?thesis by auto
      qed
    qed
  qed
qed simp

lemma splitQualifiedPart_sound:
  "splitQualifiedPart s = Some (part, rest) \<Longrightarrow> s = dquoted part @ rest"
  by (auto simp: splitQualifiedPart_def dquoted_def split: list.splits if_splits
      dest: split_part_body_sound)

lemma SplitQualified_sound:
  assumes "SplitQualified q = Some (s, t)"
  shows "q = dquoted s @ ''.'' @ dquoted t \<and> s \<noteq> [] \<and> t \<noteq> []"
proof -
  from assms obtain after where
    "splitQualifiedPart q = Some (s, CHR ''.'' # after)" "splitQualifiedPart after = Some (t, [])"
    "s \<noteq> []" "t \<noteq> []"
    by (auto simp: SplitQualified_def split: option.splits list.splits if_splits prod.splits)
  then show ?thesis by (auto dest!: splitQualifiedPart_sound)
qed

section \<open>Lemmas: object names\<close>

lemma length_hex_fixed [simp]: "length (hex_fixed w n) = w"
  by (induction w arbitrary: n) auto

lemma runeBoundary_le: "runeBoundaryAtOrBefore text limit \<le> limit"
  by (induction limit) auto

lemma runeBoundary_start:
  "runeBoundaryAtOrBefore text limit = 0 \<or> RuneStart (text ! runeBoundaryAtOrBefore text limit)"
  by (induction limit) auto

lemma length_ObjectName: "length (ObjectName base suffix) \<le> MaxIdentifierBytes"
proof -
  let ?cut = "runeBoundaryAtOrBefore (base @ ''_'' @ suffix) 54"
  have "length (take ?cut (base @ ''_'' @ suffix)) \<le> 54"
    using runeBoundary_le [of "base @ ''_'' @ suffix" 54] by (metis length_take min.coboundedI2)
  then show ?thesis
    unfolding ObjectName_def Let_def MaxIdentifierBytes_def by (simp del: length_take append_Cons)
qed

lemma hex_digit_not_NUL: "n < 16 \<Longrightarrow> hex_digit n \<noteq> NUL"
proof -
  assume "n < 16"
  then have "of_char (hex_digit n) \<noteq> (0::nat)" by (simp add: hex_digit_def)
  then show ?thesis by (auto simp: NUL_def)
qed

lemma NUL_hex_fixed: "NUL \<notin> set (hex_fixed w n)"
proof (induction w arbitrary: n)
  case (Suc w)
  have "hex_digit (n mod 16) \<noteq> NUL" by (rule hex_digit_not_NUL) simp
  with Suc show ?case by auto
qed simp

lemma NUL_ObjectName: "NUL \<notin> set base \<Longrightarrow> NUL \<notin> set suffix \<Longrightarrow> NUL \<notin> set (ObjectName base suffix)"
  using NUL_hex_fixed
  by (auto simp: ObjectName_def Let_def dest!: in_set_takeD) (simp_all add: NUL_def)

lemma ObjectName_nonempty: "ObjectName base suffix \<noteq> []"
  by (simp add: ObjectName_def Let_def)

section \<open>Lemmas: literals\<close>

lemma sql_literal_body_plain:
  assumes "BS \<notin> set v" "rest = [] \<or> hd rest \<noteq> SQ"
  shows "sql_literal_body False (ReplaceChar SQ [SQ, SQ] v @ SQ # rest) = Some (v, rest)"
  using assms by (induction v) (auto split: list.splits)

lemma sql_literal_body_escaped:
  assumes "rest = [] \<or> hd rest \<noteq> SQ"
  shows "sql_literal_body True (ReplaceChar SQ [SQ, SQ] (ReplaceChar BS [BS, BS] v) @ SQ # rest) =
    Some (v, rest)"
proof -
  have "BS \<noteq> SQ" by (simp add: BS_def SQ_def)
  with assms show ?thesis by (induction v) (auto split: list.splits)
qed

lemma sql_literal_quoteLiteral:
  assumes "rest = [] \<or> hd rest \<noteq> SQ"
  shows "sql_literal (quoteLiteral v @ rest) = Some (v, rest)"
proof -
  have "CHR ''E'' \<noteq> SQ" by (simp add: SQ_def)
  with assms show ?thesis
    by (auto simp: sql_literal_def quoteLiteral_def sql_literal_body_plain sql_literal_body_escaped)
qed

section \<open>Lemmas: dollar quotes\<close>

lemma dollar_search_result:
  "\<exists>k \<ge> suffix. dollar_search body suffix = dollar_tag k \<and> \<not> Contains body (dollar_delim k) \<and>
     (\<forall>j. suffix \<le> j \<and> j < k \<longrightarrow> Contains body (dollar_delim j))"
proof (induction body suffix rule: dollar_search.induct)
  case (1 body suffix)
  show ?case
  proof (cases "Contains body (dollar_delim suffix)")
    case True
    from "1.IH" True obtain k where k: "Suc suffix \<le> k" "dollar_search body (Suc suffix) = dollar_tag k"
      "\<not> Contains body (dollar_delim k)" "\<forall>j. Suc suffix \<le> j \<and> j < k \<longrightarrow> Contains body (dollar_delim j)"
      by auto
    then have "\<forall>j. suffix \<le> j \<and> j < k \<longrightarrow> Contains body (dollar_delim j)"
      using True by (metis Suc_leI le_neq_implies_less)
    with k True show ?thesis
      by (intro exI [of _ k]) (simp add: dollar_search.simps [of body suffix])
  next
    case False
    then show ?thesis
      by (intro exI [of _ suffix]) (auto simp: dollar_search.simps [of body suffix])
  qed
qed

lemma dollar_tag_chars: "c \<in> set (dollar_tag k) \<Longrightarrow> c \<noteq> CHR ''$'' \<and> c \<noteq> CHR 0x0A"
  using dec_nat_digits [of c k] by (auto simp: dollar_tag_def is_digit_def split: if_splits)

text \<open>PostgreSQL ends a dollar-quoted string at the first occurrence of its own delimiter.\<close>

definition dollar_body :: "string \<Rightarrow> string \<Rightarrow> (string \<times> string) option" where
  "dollar_body tag text_after_opener = Cut text_after_opener (''$'' @ tag @ ''$'')"

lemma Cut_first:
  assumes "sep \<noteq> []" "\<And>a b. s @ sep @ t = a @ sep @ b \<Longrightarrow> length s \<le> length a"
  shows "Cut (s @ sep @ t) sep = Some (s, t)"
  using assms
proof (induction s)
  case Nil
  then show ?case by (cases sep) (simp_all add: HasPrefix_def)
next
  case (Cons c s)
  have no: "\<not> HasPrefix (c # s @ sep @ t) sep"
  proof
    assume "HasPrefix (c # s @ sep @ t) sep"
    then obtain b where "(c # s) @ sep @ t = [] @ sep @ b" by (auto simp: HasPrefix_iff)
    from Cons.prems(2) [OF this] show False by simp
  qed
  have "Cut (s @ sep @ t) sep = Some (s, t)"
  proof (rule Cons.IH [OF Cons.prems(1)])
    fix a b assume "s @ sep @ t = a @ sep @ b"
    then have "(c # s) @ sep @ t = (c # a) @ sep @ b" by simp
    from Cons.prems(2) [OF this] show "length s \<le> length a" by simp
  qed
  with no show ?case by simp
qed

lemma dollar_body_exact:
  assumes free: "\<not> Contains body sep" and nl: "CHR 0x0A \<notin> set sep" and ne: "sep \<noteq> []"
  shows "Cut (CHR 0x0A # body @ CHR 0x0A # sep @ t) sep = Some (CHR 0x0A # body @ [CHR 0x0A], t)"
proof -
  let ?s = "CHR 0x0A # body @ [CHR 0x0A]"
  have "Cut (?s @ sep @ t) sep = Some (?s, t)"
  proof (rule Cut_first [OF ne], rule ccontr)
    fix a b assume eq: "?s @ sep @ t = a @ sep @ b" and "\<not> length ?s \<le> length a"
    then have short: "length a \<le> Suc (length body)" by simp
    have at: "(?s @ sep @ t) ! i \<in> set sep" if "length a \<le> i" "i < length a + length sep" for i
    proof -
      from that have "i - length a < length sep" by linarith
      with that show ?thesis unfolding eq by (simp add: nth_append)
    qed
    have at_nl: "(?s @ sep @ t) ! Suc (length body) = CHR 0x0A"
      by (simp add: nth_append)
    have inside: "length a + length sep \<le> Suc (length body)"
    proof (rule ccontr)
      assume "\<not> length a + length sep \<le> Suc (length body)"
      with short at [of "Suc (length body)"] at_nl nl show False by simp
    qed
    from ne have "0 < length sep" by simp
    then obtain a' where a: "a = CHR 0x0A # a'"
      using eq nl ne by (cases a) (auto simp: Cons_eq_append_conv)
    with eq inside have "body @ CHR 0x0A # sep @ t = a' @ sep @ b" "length (a' @ sep) \<le> length body"
      by auto
    then have "body = (a' @ sep) @ drop (length (a' @ sep)) body"
      by (metis append_assoc append_eq_conv_conj append_take_drop_id take_append take_all
          diff_is_0_eq take_0 append_Nil2 nle_le)
    then have "Contains body sep" by (auto simp: Contains_iff)
    with free show False by simp
  qed
  then show ?thesis by simp
qed

section \<open>Properties\<close>

text \<open>A qualified name rendered through the driver's quoter reads back, by \<open>SplitQualified\<close>, as
  exactly the schema and table it was rendered from, whatever quotes and dots they hold, and no
  other pair renders to the same text.\<close>

theorem qualified_split_roundtrip:
  assumes law: "sanitizer_law san" and ok: "Qualified san s t = (q, IdentifierOK)"
  shows "SplitQualified q = Some (s, t) \<and>
    (\<forall>s' t'. Qualified san s' t' = (q, IdentifierOK) \<longrightarrow> s' = s \<and> t' = t)"
proof -
  have render: "SplitQualified q = Some (s', t')" if "Qualified san s' t' = (q, IdentifierOK)" for s' t'
  proof -
    from that have use: "WhyUnusable s' = IdentifierOK" "WhyUnusable t' = IdentifierOK" "q = san [s', t']"
      by (simp_all add: Qualified_OK)
    then have "q = dquoted s' @ ''.'' @ dquoted t'"
      using law by (simp add: sanitizer_law_def WhyUnusable_OK)
    moreover have "s' \<noteq> []" "t' \<noteq> []" using use by (simp_all add: WhyUnusable_OK)
    ultimately show ?thesis using SplitQualified_dquoted by metis
  qed
  from render [OF ok] render show ?thesis by auto
qed

theorem qualified_split_roundtrip_witness:
  "SplitQualified (fst (Qualified (\<lambda>ps. Join (map dquoted ps) ''.'') ''pub.lic'' (''or'' @ [DQ] @ ''ders''))) =
    Some (''pub.lic'', ''or'' @ [DQ] @ ''ders'')"
proof -
  let ?san = "\<lambda>ps. Join (map dquoted ps) ''.''"
  have "sanitizer_law ?san" by (simp add: sanitizer_law_def)
  moreover have "Qualified ?san ''pub.lic'' (''or'' @ [DQ] @ ''ders'') =
      (fst (Qualified ?san ''pub.lic'' (''or'' @ [DQ] @ ''ders'')), IdentifierOK)"
    by (simp add: Qualified_def WhyUnusable_def NUL_def DQ_def MaxIdentifierBytes_def)
  ultimately show ?thesis
    using qualified_split_roundtrip by blast
qed

text \<open>A generated object name never exceeds PostgreSQL's 63-byte identifier limit, is usable as an
  identifier whenever its parts hold no NUL byte, and is the plain joined name when that already
  fits.\<close>

theorem object_name_usable:
  assumes "NUL \<notin> set base" "NUL \<notin> set suffix"
  shows "WhyUnusable (ObjectName base suffix) = IdentifierOK \<and>
    (length base + 1 + length suffix \<le> MaxIdentifierBytes \<longrightarrow> ObjectName base suffix = base @ ''_'' @ suffix)"
  using assms
  by (simp add: WhyUnusable_OK ObjectName_nonempty NUL_ObjectName length_ObjectName)
     (simp add: ObjectName_def)

theorem object_name_usable_witness:
  "WhyUnusable (ObjectName ''pg_noty_a_listener_with_a_name_that_is_far_too_long_for_postgres'' ''ins'') =
    IdentifierOK"
proof -
  have "NUL \<notin> set ''pg_noty_a_listener_with_a_name_that_is_far_too_long_for_postgres''" "NUL \<notin> set ''ins''"
    by (simp_all add: NUL_def)
  from object_name_usable [OF this] show ?thesis by blast
qed



text \<open>The tag search of \<open>dollarQuoteTag\<close> terminates for every rendered body, and the body wrapped
  the way the CREATE FUNCTION text wraps it is read back by PostgreSQL's dollar-quote rule as
  exactly that body: the first closing delimiter is the one the statement wrote.\<close>

theorem dollar_quote_exact:
  "dollar_body (dollarQuoteTag body)
     (CHR 0x0A # body @ CHR 0x0A # (''$'' @ dollarQuoteTag body @ ''$'') @ rest) =
   Some (CHR 0x0A # body @ [CHR 0x0A], rest)"
proof -
  obtain k where k: "dollarQuoteTag body = dollar_tag k" "\<not> Contains body (dollar_delim k)"
    using dollar_search_result [of 0 body] by (auto simp: dollarQuoteTag_def)
  have "CHR 0x0A \<notin> set (dollar_delim k)"
    using dollar_tag_chars [of "CHR 0x0A" k] by (auto simp: dollar_delim_def)
  from dollar_body_exact [OF k(2) this] k(1) show ?thesis
    by (simp add: dollar_body_def dollar_delim_def)
qed

end
