(* ===== verification/Signing.thy ===== *)
theory Signing
  imports Quoting
begin

text \<open>
  Request signing of \<open>internal/delivery/signing.go\<close>, with the HMAC-SHA256 and hexadecimal codec of
  Go's standard library written out on bytes. The lemmas show that a header written by
  \<open>SignAll\<close> verifies under each of its secrets, that verification accepts nothing but well-formed
  headers carrying the secret's own digest, and that the signed message determines timestamp and
  body.
\<close>

unbundle bit_operations_syntax

section \<open>SHA-256 and HMAC\<close>

type_synonym w32 = "32 word"

definition sha_K :: "w32 list" where
  "sha_K =
    [1116352408, 1899447441, 3049323471, 3921009573, 961987163, 1508970993, 2453635748, 2870763221,
     3624381080, 310598401, 607225278, 1426881987, 1925078388, 2162078206, 2614888103, 3248222580,
     3835390401, 4022224774, 264347078, 604807628, 770255983, 1249150122, 1555081692, 1996064986,
     2554220882, 2821834349, 2952996808, 3210313671, 3336571891, 3584528711, 113926993, 338241895,
     666307205, 773529912, 1294757372, 1396182291, 1695183700, 1986661051, 2177026350, 2456956037,
     2730485921, 2820302411, 3259730800, 3345764771, 3516065817, 3600352804, 4094571909, 275423344,
     430227734, 506948616, 659060556, 883997877, 958139571, 1322822218, 1537002063, 1747873779,
     1955562222, 2024104815, 2227730452, 2361852424, 2428436474, 2756734187, 3204031479, 3329325298]"

datatype sha_state = Sha w32 w32 w32 w32 w32 w32 w32 w32

definition sha_init :: sha_state where
  "sha_init = Sha 0x6a09e667 0xbb67ae85 0x3c6ef372 0xa54ff53a 0x510e527f 0x9b05688c 0x1f83d9ab 0x5be0cd19"

fun sha_round :: "sha_state \<Rightarrow> w32 \<times> w32 \<Rightarrow> sha_state" where
  "sha_round (Sha a b c d e f g h) (k, w) =
     (let s1 = word_rotr 6 e XOR word_rotr 11 e XOR word_rotr 25 e;
          ch = (e AND f) XOR ((NOT e) AND g);
          t1 = h + s1 + ch + k + w;
          s0 = word_rotr 2 a XOR word_rotr 13 a XOR word_rotr 22 a;
          maj = (a AND b) XOR (a AND c) XOR (b AND c)
      in Sha (t1 + s0 + maj) a b c (d + t1) e f g)"

fun sha_plus :: "sha_state \<Rightarrow> sha_state \<Rightarrow> sha_state" where
  "sha_plus (Sha a b c d e f g h) (Sha a' b' c' d' e' f' g' h') =
     Sha (a + a') (b + b') (c + c') (d + d') (e + e') (f + f') (g + g') (h + h')"

text \<open>The message schedule, newest word first while it grows.\<close>

fun sha_extend :: "nat \<Rightarrow> w32 list \<Rightarrow> w32 list" where
  "sha_extend 0 ws = ws"
| "sha_extend (Suc n) ws =
     (let w15 = ws ! 14; w2 = ws ! 1;
          s0 = word_rotr 7 w15 XOR word_rotr 18 w15 XOR drop_bit 3 w15;
          s1 = word_rotr 17 w2 XOR word_rotr 19 w2 XOR drop_bit 10 w2
      in sha_extend n ((ws ! 15 + s0 + ws ! 6 + s1) # ws))"

fun be_words :: "bytes \<Rightarrow> w32 list" where
  "be_words (a # b # c # d # rest) =
     (((of_char a * 256 + of_char b) * 256 + of_char c) * 256 + of_char d) # be_words rest"
| "be_words _ = []"

definition sha_block :: "sha_state \<Rightarrow> bytes \<Rightarrow> sha_state" where
  "sha_block st block =
     sha_plus st (foldl sha_round st (zip sha_K (rev (sha_extend 48 (rev (be_words block))))))"

fun sha_blocks :: "nat \<Rightarrow> sha_state \<Rightarrow> bytes \<Rightarrow> sha_state" where
  "sha_blocks 0 st bs = st"
| "sha_blocks (Suc n) st bs = sha_blocks n (sha_block st (take 64 bs)) (drop 64 bs)"

definition be_bytes :: "nat \<Rightarrow> nat \<Rightarrow> bytes" where
  "be_bytes n v = map (\<lambda>i. char_of (v div 256 ^ (n - 1 - i) mod 256)) [0..<n]"

definition sha_pad :: "bytes \<Rightarrow> bytes" where
  "sha_pad m = m @ [CHR 0x80] @ replicate ((119 - length m mod 64) mod 64) NUL @ be_bytes 8 (8 * length m)"

fun sha_out :: "sha_state \<Rightarrow> bytes" where
  "sha_out (Sha a b c d e f g h) = concat (map (\<lambda>w. be_bytes 4 (unat w)) [a, b, c, d, e, f, g, h])"

definition sha256 :: "bytes \<Rightarrow> bytes" where
  "sha256 m = (let p = sha_pad m in sha_out (sha_blocks (length p div 64) sha_init p))"

definition xor_byte :: "nat \<Rightarrow> char \<Rightarrow> char" where
  "xor_byte n c = char_of ((of_char c :: nat) XOR n)"

definition hmac_key :: "bytes \<Rightarrow> bytes" where
  "hmac_key key =
     (let k = (if length key > 64 then sha256 key else key) in k @ replicate (64 - length k) NUL)"

definition hmac_sha256 :: "bytes \<Rightarrow> bytes \<Rightarrow> bytes" where
  "hmac_sha256 key msg =
     (let k = hmac_key key in
      sha256 (map (xor_byte 0x5c) k @ sha256 (map (xor_byte 0x36) k @ msg)))"

section \<open>Hexadecimal\<close>

definition hex_EncodeToString :: "bytes \<Rightarrow> string" where
  "hex_EncodeToString bs = concat (map (\<lambda>c. [hex_digit (of_char c div 16), hex_digit (of_char c mod 16)]) bs)"

definition hex_value :: "char \<Rightarrow> nat option" where
  "hex_value c =
     (let n = of_char c in
      if 48 \<le> n \<and> n \<le> 57 then Some (n - 48)
      else if 97 \<le> n \<and> n \<le> 102 then Some (n - 87)
      else if 65 \<le> n \<and> n \<le> 70 then Some (n - 55)
      else None)"

fun hex_DecodeString :: "string \<Rightarrow> bytes option" where
  "hex_DecodeString [] = Some []"
| "hex_DecodeString [c] = None"
| "hex_DecodeString (c # d # rest) =
     (case (hex_value c, hex_value d) of
        (Some h, Some l) \<Rightarrow> map_option (\<lambda>bs. char_of (16 * h + l) # bs) (hex_DecodeString rest)
      | _ \<Rightarrow> None)"

section \<open>Signatures\<close>

definition sha256_Size :: nat where
  "sha256_Size = 32"

text \<open>The bytes the three \<open>mac.Write\<close> calls feed to the MAC, in order.\<close>

definition signed_bytes :: "int \<Rightarrow> bytes \<Rightarrow> bytes" where
  "signed_bytes timestamp body = FormatInt timestamp @ ''.'' @ body"

definition signatureDigest :: "bytes \<Rightarrow> int \<Rightarrow> bytes \<Rightarrow> bytes" where
  "signatureDigest secret timestamp body = hmac_sha256 secret (signed_bytes timestamp body)"

definition Sign :: "bytes \<Rightarrow> int \<Rightarrow> bytes \<Rightarrow> string" where
  "Sign secret timestamp body = hex_EncodeToString (signatureDigest secret timestamp body)"

definition SignAll :: "bytes list \<Rightarrow> int \<Rightarrow> bytes \<Rightarrow> string" where
  "SignAll secrets timestamp body = Join (map (\<lambda>secret. ''v1='' @ Sign secret timestamp body) secrets) '',''"

definition isLowerHex :: "string \<Rightarrow> bool" where
  "isLowerHex value \<longleftrightarrow>
     value \<noteq> [] \<and>
     list_all (\<lambda>c. is_digit c \<or> 97 \<le> (of_char c :: nat) \<and> (of_char c :: nat) \<le> 102) value"

definition Verify :: "bytes \<Rightarrow> int \<Rightarrow> bytes \<Rightarrow> string \<Rightarrow> bool" where
  "Verify secret timestamp body candidate =
     (if length candidate \<noteq> sha256_Size * 2 \<or> \<not> isLowerHex candidate then False
      else case hex_DecodeString candidate of
             None \<Rightarrow> False
           | Some want \<Rightarrow> signatureDigest secret timestamp body = want)"

fun verify_terms :: "bytes \<Rightarrow> int \<Rightarrow> bytes \<Rightarrow> bool \<Rightarrow> string list \<Rightarrow> bool" where
  "verify_terms secret timestamp body matched [] = matched"
| "verify_terms secret timestamp body matched (t # ts) =
     (if \<not> HasPrefix t ''v1='' then False
      else let candidate = TrimPrefix t ''v1='' in
           if length candidate \<noteq> sha256_Size * 2 \<or> \<not> isLowerHex candidate then False
           else verify_terms secret timestamp body
                  (if Verify secret timestamp body candidate then True else matched) ts)"

definition VerifyHeader :: "bytes \<Rightarrow> int \<Rightarrow> bytes \<Rightarrow> string \<Rightarrow> bool" where
  "VerifyHeader secret timestamp body header =
     verify_terms secret timestamp body False (SplitChar (CHR '','') header)"

text \<open>A \<open>Signer\<close> is its list of secrets.\<close>

type_synonym Signer = "bytes list"

definition NewSigner :: "string list \<Rightarrow> Signer" where
  "NewSigner secrets = map (\<lambda>secret. secret) secrets"

definition signer_Header :: "Signer \<Rightarrow> int \<Rightarrow> bytes \<Rightarrow> string" where
  "signer_Header s timestamp body = SignAll s timestamp body"

fun signer_Verify :: "Signer \<Rightarrow> int \<Rightarrow> bytes \<Rightarrow> string \<Rightarrow> bool" where
  "signer_Verify [] timestamp body header = False"
| "signer_Verify (secret # rest) timestamp body header =
     (if VerifyHeader secret timestamp body header then True
      else signer_Verify rest timestamp body header)"

section \<open>Lemmas: digests and hexadecimal\<close>

lemma length_be_bytes [simp]: "length (be_bytes n v) = n"
  by (simp add: be_bytes_def)

lemma length_sha256 [simp]: "length (sha256 m) = 32"
  by (cases "sha_blocks (length (sha_pad m) div 64) sha_init (sha_pad m)") (simp add: sha256_def Let_def)

lemma length_signatureDigest [simp]: "length (signatureDigest s t b) = sha256_Size"
  by (simp add: signatureDigest_def hmac_sha256_def Let_def sha256_Size_def)

lemma of_char_div16 [simp]: "of_char (c :: char) div 16 < (16::nat)"
  using nat_of_char_less_256 [of c] by presburger

lemma hex_value_digit [simp]: "n < 16 \<Longrightarrow> hex_value (hex_digit n) = Some n"
  by (simp add: hex_value_def hex_digit_def Let_def)

lemma hex_value_Some:
  assumes "hex_value c = Some n" "is_digit c \<or> 97 \<le> (of_char c :: nat) \<and> (of_char c :: nat) \<le> 102"
  shows "n < 16 \<and> c = hex_digit n"
proof -
  have c: "char_of (of_char c :: nat) = c" by simp
  from assms show ?thesis
    by (auto simp: hex_value_def hex_digit_def Let_def is_digit_def c split: if_splits)
qed

lemma hex_digit_lower:
  "n < 16 \<Longrightarrow> is_digit (hex_digit n) \<or> 97 \<le> (of_char (hex_digit n) :: nat) \<and> (of_char (hex_digit n) :: nat) \<le> 102"
  by (auto simp: hex_digit_def is_digit_def)

lemma hex_encode_Cons:
  "hex_EncodeToString (c # bs) = hex_digit (of_char c div 16) # hex_digit (of_char c mod 16) # hex_EncodeToString bs"
  by (simp add: hex_EncodeToString_def)

lemma hex_encode_Nil [simp]: "hex_EncodeToString [] = []"
  by (simp add: hex_EncodeToString_def)

lemma hex_roundtrip [simp]: "hex_DecodeString (hex_EncodeToString bs) = Some bs"
  by (induction bs) (simp_all add: hex_encode_Cons)

lemma length_hex_encode [simp]: "length (hex_EncodeToString bs) = 2 * length bs"
  by (induction bs) (simp_all add: hex_encode_Cons)

lemma isLowerHex_encode: "bs \<noteq> [] \<Longrightarrow> isLowerHex (hex_EncodeToString bs)"
proof -
  have "list_all (\<lambda>c. is_digit c \<or> 97 \<le> (of_char c :: nat) \<and> (of_char c :: nat) \<le> 102) (hex_EncodeToString bs)"
    by (induction bs) (auto simp: hex_encode_Cons dest: hex_digit_lower intro!: hex_digit_lower)
  then show "bs \<noteq> [] \<Longrightarrow> isLowerHex (hex_EncodeToString bs)"
    by (cases bs) (simp_all add: isLowerHex_def hex_encode_Cons)
qed

lemma hex_decode_lower:
  assumes "hex_DecodeString s = Some bs"
    "list_all (\<lambda>c. is_digit c \<or> 97 \<le> (of_char c :: nat) \<and> (of_char c :: nat) \<le> 102) s"
  shows "s = hex_EncodeToString bs"
  using assms
proof (induction s arbitrary: bs rule: hex_DecodeString.induct)
  case (3 c d rest)
  from "3.prems"(1) obtain h l bs' where parts: "hex_value c = Some h" "hex_value d = Some l"
    "hex_DecodeString rest = Some bs'" "bs = char_of (16 * h + l) # bs'"
    by (auto split: option.splits)
  with "3.prems"(2) have digits: "h < 16" "c = hex_digit h" "l < 16" "d = hex_digit l"
    by (auto dest!: hex_value_Some)
  have "rest = hex_EncodeToString bs'"
    using "3.IH" [OF refl parts(1,2,3)] "3.prems"(2) by simp
  with parts digits show ?case by (simp add: hex_encode_Cons)
qed auto

section \<open>Lemmas: verification\<close>

lemma length_Sign [simp]: "length (Sign s t b) = sha256_Size * 2"
  by (simp add: Sign_def)

lemma isLowerHex_Sign [simp]: "isLowerHex (Sign s t b)"
  unfolding Sign_def
  by (rule isLowerHex_encode) (metis length_signatureDigest length_0_conv sha256_Size_def zero_neq_numeral)

definition well_formed_term :: "string \<Rightarrow> bool" where
  "well_formed_term t \<longleftrightarrow> (\<exists>c. t = ''v1='' @ c \<and> length c = sha256_Size * 2 \<and> isLowerHex c)"

lemma Verify_iff: "Verify s ts b c \<longleftrightarrow> c = Sign s ts b"
proof
  assume "Verify s ts b c"
  then have "isLowerHex c" "hex_DecodeString c = Some (signatureDigest s ts b)"
    by (auto simp: Verify_def split: if_splits option.splits)
  then show "c = Sign s ts b" by (auto simp: Sign_def isLowerHex_def dest: hex_decode_lower)
next
  assume "c = Sign s ts b"
  then show "Verify s ts b c" by (simp add: Verify_def) (simp add: Sign_def)
qed

lemma verify_terms_iff:
  "verify_terms s ts b m terms \<longleftrightarrow>
     list_all well_formed_term terms \<and> (m \<or> ''v1='' @ Sign s ts b \<in> set terms)"
proof (induction terms arbitrary: m)
  case (Cons t terms)
  show ?case
  proof (cases "well_formed_term t")
    case True
    then obtain c where c: "t = ''v1='' @ c" "length c = sha256_Size * 2" "isLowerHex c"
      by (auto simp: well_formed_term_def)
    have prefix: "HasPrefix (''v1='' @ c) ''v1=''" "TrimPrefix (''v1='' @ c) ''v1='' = c"
      by (rule HasPrefix_append, rule TrimPrefix_append)
    show ?thesis
      using Cons c True prefix by (auto simp: Verify_iff)
  next
    case False
    then have "\<not> verify_terms s ts b m (t # terms)"
      by (auto simp: well_formed_term_def HasPrefix_iff TrimPrefix_def)
    with False show ?thesis by simp
  qed
qed simp

lemma comma_not_in_Sign: "CHR '','' \<notin> set (''v1='' @ Sign s t b)"
  using isLowerHex_Sign [of s t b] by (auto simp: isLowerHex_def list_all_iff is_digit_def)

lemma SplitChar_SignAll:
  "secrets \<noteq> [] \<Longrightarrow> SplitChar (CHR '','') (SignAll secrets t b) = map (\<lambda>s. ''v1='' @ Sign s t b) secrets"
  unfolding SignAll_def by (rule SplitChar_Join) (use comma_not_in_Sign in auto)

lemma signed_bytes_inj:
  assumes "signed_bytes t b = signed_bytes t' b'"
  shows "t = t' \<and> b = b'"
proof -
  have free: "\<forall>c \<in> set (FormatInt i). c \<noteq> CHR ''.''" for i
    using FormatInt_chars [of "CHR ''.''" i] by (auto simp: is_digit_def)
  have split: "takeWhile (\<lambda>c. c \<noteq> CHR ''.'') (signed_bytes i m) = FormatInt i" for i m
    using free [of i] by (simp add: signed_bytes_def takeWhile_tail)
  from assms split [of t b] split [of t' b'] have "FormatInt t = FormatInt t'" by simp
  with assms show ?thesis by (auto simp: signed_bytes_def dest: FormatInt_inj)
qed

section \<open>Properties\<close>

text \<open>C11. \<open>VerifyHeader\<close> accepts a header exactly when every comma-separated term is a
  \<open>v1=\<close> term holding 64 lowercase hexadecimal digits and one of them is the secret's own HMAC-SHA256
  over the timestamp, a dot and the body: unknown or malformed terms fail closed.\<close>

theorem verify_header_exact:
  "VerifyHeader secret timestamp body header \<longleftrightarrow>
     list_all well_formed_term (SplitChar (CHR '','') header) \<and>
     ''v1='' @ Sign secret timestamp body \<in> set (SplitChar (CHR '','') header)"
  by (simp add: VerifyHeader_def verify_terms_iff)

text \<open>C12. During rotation every configured secret verifies the header the signer writes, whatever
  the others are, and the signer's own \<open>Verify\<close> accepts it.\<close>

theorem sign_all_verifies_each_secret:
  assumes "secret \<in> set secrets"
  shows "VerifyHeader secret t body (SignAll secrets t body) \<and>
    signer_Verify secrets t body (signer_Header secrets t body)"
proof -
  from assms have ne: "secrets \<noteq> []" by auto
  have wf: "well_formed_term (''v1='' @ Sign s t body)" for s
    by (simp add: well_formed_term_def)
  have each: "VerifyHeader s t body (SignAll secrets t body)" if "s \<in> set secrets" for s
    using that by (auto simp: VerifyHeader_def verify_terms_iff SplitChar_SignAll [OF ne] list_all_iff wf
        simp del: append_Cons)
  have "signer_Verify ss t body h" if "\<exists>s \<in> set ss. VerifyHeader s t body h" for ss h
    using that by (induction ss) auto
  with each assms show ?thesis by (auto simp: signer_Header_def)
qed

theorem sign_all_verifies_each_secret_witness:
  "VerifyHeader ''old'' 1700000000 ''body'' (SignAll [''old'', ''secret''] 1700000000 ''body'')"
proof -
  have "''old'' \<in> set [''old'', ''secret'']" by simp
  from sign_all_verifies_each_secret [OF this] show ?thesis by blast
qed

text \<open>The byte string that is fed to the MAC determines both the timestamp and the body, so no
  two requests with a different timestamp or body share the message that is signed.\<close>

theorem signed_message_unambiguous:
  assumes "signed_bytes t b = signed_bytes t' b'"
  shows "t = t' \<and> b = b'"
  using assms by (rule signed_bytes_inj)

theorem signed_message_unambiguous_witness:
  "signed_bytes 17 ''.x'' = signed_bytes 17 ''.x'' \<and> (17::int) = 17 \<and> ''.x'' = ''.x''"
  using signed_message_unambiguous [of 17 "''.x''" 17 "''.x''"] by blast

end
