(* ===== verification/Ssrf_Guard.thy ===== *)
theory Ssrf_Guard
  imports Prelude
begin

text \<open>
  The connect-time address guard of \<open>internal/delivery/ssrf.go\<close>. An address is Go's \<open>net.IP\<close>, four
  or sixteen bytes; a network is \<open>net.IPNet\<close>, an address and a mask. \<open>To4\<close>, \<open>CIDRMask\<close> and
  \<open>Contains\<close> are the standard library's on those bytes. The text grammars of \<open>net.SplitHostPort\<close>,
  \<open>net.ParseIP\<close> and \<open>net.ParseCIDR\<close> are parameters, about which nothing is assumed.
\<close>

unbundle bit_operations_syntax

section \<open>Addresses and networks\<close>

type_synonym byte = "8 word"
type_synonym IP = "byte list"

record IPNet =
  net_IP :: IP
  net_Mask :: "byte list"

definition v4InV6Prefix :: "byte list" where
  "v4InV6Prefix = [0, 0, 0, 0, 0, 0, 0, 0, 0, 0, 255, 255]"

definition To4 :: "IP \<Rightarrow> IP option" where
  "To4 ip =
     (if length ip = 4 then Some ip
      else if length ip = 16 \<and> take 12 ip = v4InV6Prefix then Some (drop 12 ip)
      else None)"

definition mask_byte :: "nat \<Rightarrow> byte" where
  "mask_byte ones = push_bit (8 - min 8 ones) (mask (min 8 ones))"

definition CIDRMask :: "nat \<Rightarrow> nat \<Rightarrow> byte list" where
  "CIDRMask ones len = map (\<lambda>i. mask_byte (ones - 8 * i)) [0..<len]"

definition networkNumberAndMask :: "IPNet \<Rightarrow> (IP \<times> byte list) option" where
  "networkNumberAndMask n =
     (let ip = (case To4 (net_IP n) of Some x \<Rightarrow> x | None \<Rightarrow> net_IP n);
          m = net_Mask n in
      if length ip \<noteq> 4 \<and> length ip \<noteq> 16 then None
      else if length m = 4 then (if length ip \<noteq> 4 then None else Some (ip, m))
      else if length m = 16 then Some (ip, if length ip = 4 then drop 12 m else m)
      else None)"

definition net_Contains :: "IPNet \<Rightarrow> IP \<Rightarrow> bool" where
  "net_Contains n ip0 =
     (let ip = (case To4 ip0 of Some x \<Rightarrow> x | None \<Rightarrow> ip0) in
      case networkNumberAndMask n of
        None \<Rightarrow> length ip = 0
      | Some (nn, m) \<Rightarrow>
          length ip = length nn \<and>
          list_all (\<lambda>(x, y, z). x AND z = y AND z) (zip nn (zip ip m)))"

text \<open>
  When the network is malformed Go compares against a nil number and mask, which only an empty
  address matches.
\<close>

definition cidr4 :: "byte \<Rightarrow> byte \<Rightarrow> byte \<Rightarrow> byte \<Rightarrow> nat \<Rightarrow> IPNet" where
  "cidr4 a b c d ones = \<lparr>net_IP = [a, b, c, d], net_Mask = CIDRMask ones 4\<rparr>"

definition cidr16 :: "byte list \<Rightarrow> nat \<Rightarrow> IPNet" where
  "cidr16 prefix ones = \<lparr>net_IP = prefix @ replicate (16 - length prefix) 0, net_Mask = CIDRMask ones 16\<rparr>"

section \<open>The guard\<close>

definition blockedRanges :: "IPNet list" where
  "blockedRanges =
     [cidr4 0 0 0 0 8, cidr4 10 0 0 0 8, cidr4 100 64 0 0 10, cidr4 127 0 0 0 8,
      cidr4 169 254 0 0 16, cidr4 172 16 0 0 12,
      cidr4 192 0 0 0 24, cidr4 192 168 0 0 16, cidr4 198 18 0 0 15, cidr4 224 0 0 0 4,
      cidr4 240 0 0 0 4,
      cidr16 [] 128, cidr16 [0, 0, 0, 0, 0, 0, 0, 0, 0, 0, 0, 0, 0, 0, 0, 1] 128, cidr16 [0, 0x64, 0xff, 0x9b] 96,
      cidr16 [0x20, 0x02] 16, cidr16 [0xfc] 7,
      cidr16 [0xfe, 0x80] 10, cidr16 [0xff] 8]"

fun contained_in_any :: "IPNet list \<Rightarrow> IP \<Rightarrow> bool" where
  "contained_in_any [] ip = False"
| "contained_in_any (network # rest) ip = (if net_Contains network ip then True else contained_in_any rest ip)"

definition blockedAddress :: "IP \<Rightarrow> IPNet list \<Rightarrow> bool" where
  "blockedAddress ip0 exempt =
     (let ip = (case To4 ip0 of Some mapped \<Rightarrow> mapped | None \<Rightarrow> ip0) in
      if contained_in_any exempt ip then False else contained_in_any blockedRanges ip)"

fun ParseAllowedDestinations ::
  "(string \<Rightarrow> IPNet option) \<Rightarrow> (string \<Rightarrow> string) \<Rightarrow> string list \<Rightarrow> string + IPNet list" where
  "ParseAllowedDestinations parseCIDR trim [] = Inr []"
| "ParseAllowedDestinations parseCIDR trim (value # values) =
     (case parseCIDR (trim value) of
        None \<Rightarrow> Inl value
      | Some network \<Rightarrow>
          (case ParseAllowedDestinations parseCIDR trim values of
             Inl e \<Rightarrow> Inl e
           | Inr networks \<Rightarrow> Inr (network # networks)))"

datatype ssrf_refusal = UnsplitAddress | NotAnIP | BlockedAddress IP

definition strip_brackets :: "string \<Rightarrow> string" where
  "strip_brackets s =
     (let p = \<lambda>c. c = CHR ''['' \<or> c = CHR '']'' in rev (dropWhile p (rev (dropWhile p s))))"

definition strip_zone :: "string \<Rightarrow> string" where
  "strip_zone s =
     (if CHR ''%'' \<in> set s then rev (tl (dropWhile (\<lambda>c. c \<noteq> CHR ''%'') (rev s))) else s)"

definition refuseUnsafeAddress ::
  "(string \<Rightarrow> (string \<times> string) option) \<Rightarrow> (string \<Rightarrow> IP option) \<Rightarrow> string \<Rightarrow> IPNet list \<Rightarrow> ssrf_refusal option" where
  "refuseUnsafeAddress splitHostPort parseIP address exempt =
     (case splitHostPort address of
        None \<Rightarrow> Some UnsplitAddress
      | Some (host, port) \<Rightarrow>
          (case parseIP (strip_zone (strip_brackets host)) of
             None \<Rightarrow> Some NotAnIP
           | Some ip \<Rightarrow> if blockedAddress ip exempt then Some (BlockedAddress ip) else None))"

section \<open>Lemmas\<close>

lemma byte_cases:
  assumes "list_all (\<lambda>n. P (word_of_nat n :: byte)) [0..<256]"
  shows "P x"
proof -
  have "unat x < 2 ^ 8" using unsigned_less [of x, where 'a = nat] by simp
  then have "unat x \<in> set [0..<256]" by simp
  with assms have "P (word_of_nat (unat x))" by (simp only: list_all_iff)
  then show ?thesis by simp
qed

lemma and_192_64: "(b::byte) AND 192 = 64 \<longleftrightarrow> 64 \<le> b \<and> b < 128"
  by (rule byte_cases) code_simp

lemma and_240_16: "(b::byte) AND 240 = 16 \<longleftrightarrow> 16 \<le> b \<and> b < 32"
  by (rule byte_cases) code_simp

lemma and_254_18: "(b::byte) AND 254 = 18 \<longleftrightarrow> b = 18 \<or> b = 19"
  by (rule byte_cases) code_simp

lemma and_240_high: "(b::byte) AND 240 = 224 \<or> b AND 240 = 240 \<longleftrightarrow> 224 \<le> b"
  by (rule byte_cases) code_simp

lemma and_254_fc: "(b::byte) AND 254 = 252 \<longleftrightarrow> b = 252 \<or> b = 253"
  by (rule byte_cases) code_simp

lemma and_192_128: "(b::byte) AND 192 = 128 \<longleftrightarrow> 128 \<le> b \<and> b < 192"
  by (rule byte_cases) code_simp

lemma mask_bytes [simp]:
  "mask_byte 0 = 0" "mask_byte 2 = 192" "mask_byte 4 = 240" "mask_byte 7 = 254"
  "mask_byte 8 = 255" "n \<ge> 8 \<Longrightarrow> mask_byte n = 255"
  by (simp_all add: mask_byte_def min_def mask_eq_exp_minus_1 push_bit_eq_mult)

lemma and_255 [simp]: "(b::byte) AND 255 = b"
proof -
  have "(255::byte) = - 1" by simp
  then show ?thesis by (simp only: and.right_neutral)
qed

lemma and_0_0 [simp]: "(x::byte) AND 0 = 0"
  by simp

lemma upt_4 [simp]: "[0..<4] = [0, 1, 2, 3::nat]" and
  upt_16 [simp]: "[0..<16] = [0, 1, 2, 3, 4, 5, 6, 7, 8, 9, 10, 11, 12, 13, 14, 15::nat]"
  by (simp_all add: upt_conv_Cons)

lemmas net_simps =
  net_Contains_def networkNumberAndMask_def To4_def cidr4_def cidr16_def CIDRMask_def v4InV6Prefix_def

lemma contains_cidr4:
  "net_Contains (cidr4 p q r t ones) [a, b, c, d] \<longleftrightarrow>
     p AND mask_byte ones = a AND mask_byte ones \<and>
     q AND mask_byte (ones - 8) = b AND mask_byte (ones - 8) \<and>
     r AND mask_byte (ones - 16) = c AND mask_byte (ones - 16) \<and>
     t AND mask_byte (ones - 24) = d AND mask_byte (ones - 24)"
  by (auto simp: net_simps Let_def)

lemma not_contains_v6net:
  assumes "length (net_IP n) = 16" "To4 (net_IP n) = None"
  shows "\<not> net_Contains n [a, b, c, d]"
  using assms by (auto simp: net_Contains_def networkNumberAndMask_def Let_def To4_def [of "[a, b, c, d]"])

lemma not_contains_cidr16:
  assumes "length prefix \<le> 10"
  shows "\<not> net_Contains (cidr16 prefix ones) [a, b, c, d]"
proof (rule not_contains_v6net)
  let ?ip = "prefix @ replicate (16 - length prefix) (0::byte)"
  show len: "length (net_IP (cidr16 prefix ones)) = 16" using assms by (simp add: cidr16_def)
  have "take 12 ?ip \<noteq> v4InV6Prefix"
  proof
    assume "take 12 ?ip = v4InV6Prefix"
    then have "take 12 ?ip ! 11 = v4InV6Prefix ! 11" by simp
    then show False using assms by (simp add: v4InV6Prefix_def nth_append)
  qed
  then show "To4 (net_IP (cidr16 prefix ones)) = None"
    using len by (simp add: To4_def cidr16_def)
qed

lemma not_contains_loopback6:
  "\<not> net_Contains (cidr16 [0, 0, 0, 0, 0, 0, 0, 0, 0, 0, 0, 0, 0, 0, 0, 1] 128) [a, b, c, d]"
  by (rule not_contains_v6net) (simp_all add: cidr16_def To4_def v4InV6Prefix_def)

definition unsafe_v4 :: "byte \<Rightarrow> byte \<Rightarrow> byte \<Rightarrow> byte \<Rightarrow> bool" where
  "unsafe_v4 a b c d \<longleftrightarrow>
     a = 0 \<or> a = 10 \<or> a = 127 \<or> a = 100 \<and> 64 \<le> b \<and> b < 128 \<or> a = 169 \<and> b = 254 \<or>
     a = 172 \<and> 16 \<le> b \<and> b < 32 \<or> a = 192 \<and> b = 0 \<and> c = 0 \<or> a = 192 \<and> b = 168 \<or>
     a = 198 \<and> (b = 18 \<or> b = 19) \<or> 224 \<le> a"

lemma contained_in_any_iff: "contained_in_any ns ip \<longleftrightarrow> (\<exists>n \<in> set ns. net_Contains n ip)"
  by (induction ns) auto

lemma blockedRanges_v4: "contained_in_any blockedRanges [a, b, c, d] \<longleftrightarrow> unsafe_v4 a b c d"
proof -
  have sym: "(x::byte) = y AND m \<longleftrightarrow> y AND m = x" for x y m by auto
  have "contained_in_any blockedRanges [a, b, c, d] \<longleftrightarrow>
      0 = a \<or> 10 = a \<or> (100 = a \<and> b AND 192 = 64) \<or> 127 = a \<or> (169 = a \<and> 254 = b) \<or>
      (172 = a \<and> b AND 240 = 16) \<or> (192 = a \<and> 0 = b \<and> 0 = c) \<or> (192 = a \<and> 168 = b) \<or>
      (198 = a \<and> b AND 254 = 18) \<or> a AND 240 = 224 \<or> a AND 240 = 240"
    by (simp add: contained_in_any_iff blockedRanges_def contains_cidr4 not_contains_cidr16
        not_contains_loopback6 sym)
  also have "\<dots> \<longleftrightarrow> unsafe_v4 a b c d"
    unfolding and_192_64 and_240_16 and_254_18 unsafe_v4_def
    using and_240_high [of a] by metis
  finally show ?thesis .
qed

lemma To4_four [simp]: "To4 [a, b, c, d] = Some [a, b, c, d]"
  by (simp add: To4_def)

lemma To4_mapped [simp]: "To4 (v4InV6Prefix @ [a, b, c, d]) = Some [a, b, c, d]"
  by (simp add: To4_def v4InV6Prefix_def)

lemma blockedAddress_To4: "To4 ip = Some ip4 \<Longrightarrow> blockedAddress ip ex = blockedAddress ip4 ex"
  by (auto simp: blockedAddress_def To4_def split: if_splits)

definition unsafe_v6 :: "IP \<Rightarrow> bool" where
  "unsafe_v6 ip \<longleftrightarrow>
     ip = replicate 16 0 \<or> ip = replicate 15 0 @ [1] \<or>
     take 12 ip = [0, 0x64, 0xff, 0x9b, 0, 0, 0, 0, 0, 0, 0, 0] \<or> take 2 ip = [0x20, 0x02] \<or>
     ip ! 0 = 0xfc \<or> ip ! 0 = 0xfd \<or> ip ! 0 = 0xfe \<and> 0x80 \<le> ip ! 1 \<and> ip ! 1 < 0xc0 \<or> ip ! 0 = 0xff"

lemma not_contains_v4net:
  assumes "To4 ip = None" "length ip = 16"
  shows "\<not> net_Contains (cidr4 p q r t ones) ip"
  using assms by (simp add: net_Contains_def networkNumberAndMask_def cidr4_def Let_def CIDRMask_def)

lemma contains_cidr16:
  assumes "To4 ip = None" "length ip = 16" "length pre \<le> 16" "To4 (pre @ replicate (16 - length pre) 0) = None"
  shows "net_Contains (cidr16 pre ones) ip \<longleftrightarrow>
    list_all (\<lambda>(x, y, z). x AND z = y AND z)
      (zip (pre @ replicate (16 - length pre) 0) (zip ip (CIDRMask ones 16)))"
  using assms by (simp add: net_Contains_def networkNumberAndMask_def cidr16_def Let_def CIDRMask_def)

lemma list16: "length ip = 16 \<Longrightarrow> \<exists>a b c d e f g h i j k l m n p q.
   ip = [a, b, c, d, e, f, g, h, i, j, k, l, m, n, p, q]"
  by (auto simp: numeral_eq_Suc length_Suc_conv)

lemma replicate_numeral_Cons: "replicate (numeral k) x = x # replicate (pred_numeral k) x"
  by (simp add: numeral_eq_Suc)

lemma blockedRanges_v6:
  assumes none: "To4 ip = None" and len: "length ip = 16"
  shows "contained_in_any blockedRanges ip \<longleftrightarrow> unsafe_v6 ip"
proof -
  obtain a b c d e f g h i j k l m n p q where
    ip: "ip = [a, b, c, d, e, f, g, h, i, j, k, l, m, n, p, q]"
    using list16 [OF len] by blast
  note in16 = contains_cidr16 [OF none len]
  note ev = To4_def v4InV6Prefix_def CIDRMask_def ip replicate_numeral_Cons
  have "net_Contains (cidr16 [] 128) ip \<longleftrightarrow> ip = replicate 16 0"
    by (subst in16) (auto simp: ev)
  moreover have "net_Contains (cidr16 [0, 0, 0, 0, 0, 0, 0, 0, 0, 0, 0, 0, 0, 0, 0, 1] 128) ip \<longleftrightarrow>
      ip = replicate 15 0 @ [1]"
    by (subst in16) (auto simp: ev)
  moreover have "net_Contains (cidr16 [0, 0x64, 0xff, 0x9b] 96) ip \<longleftrightarrow>
      take 12 ip = [0, 0x64, 0xff, 0x9b, 0, 0, 0, 0, 0, 0, 0, 0]"
    by (subst in16) (auto simp: ev)
  moreover have "net_Contains (cidr16 [0x20, 0x02] 16) ip \<longleftrightarrow> take 2 ip = [0x20, 0x02]"
    by (subst in16) (auto simp: ev)
  moreover have "net_Contains (cidr16 [0xfc] 7) ip \<longleftrightarrow> ip ! 0 = 0xfc \<or> ip ! 0 = 0xfd"
    using and_254_fc [of a] by (subst in16) (auto simp: ev)
  moreover have "net_Contains (cidr16 [0xfe, 0x80] 10) ip \<longleftrightarrow>
      ip ! 0 = 0xfe \<and> 0x80 \<le> ip ! 1 \<and> ip ! 1 < 0xc0"
    using and_192_128 [of b] by (subst in16) (auto simp: ev)
  moreover have "net_Contains (cidr16 [0xff] 8) ip \<longleftrightarrow> ip ! 0 = 0xff"
    by (subst in16) (auto simp: ev)
  ultimately show ?thesis
    using not_contains_v4net [OF none len]
    by (simp add: contained_in_any_iff blockedRanges_def unsafe_v6_def)
qed

section \<open>Properties\<close>

text \<open>C13. Without exemptions the guard refuses an IPv4 address exactly when it lies in a listed
  special range (this network, private, carrier-grade NAT, loopback, link-local and metadata,
  protocol assignments, benchmarking, multicast, reserved), treats the IPv4-mapped IPv6 form of
  every address identically, with any exemptions, and refuses a sixteen-byte address that is not IPv4-mapped
  exactly when it is unspecified, loopback, NAT64 (64:ff9b::/96), 6to4 (2002::/16), unique-local,
  link-local or multicast.\<close>

theorem blocked_addresses_exactly:
  "blockedAddress [a, b, c, d] [] = unsafe_v4 a b c d \<and>
   blockedAddress (v4InV6Prefix @ [a, b, c, d]) exempt = blockedAddress [a, b, c, d] exempt \<and>
   (length ip = 16 \<and> To4 ip = None \<longrightarrow> blockedAddress ip [] = unsafe_v6 ip)"
  using blockedAddress_To4 [OF To4_mapped [of a b c d], of exempt]
  by (simp add: blockedAddress_def blockedRanges_v4 blockedRanges_v6)

theorem blocked_addresses_exactly_witness:
  "blockedAddress [0x20, 2, 0x7f, 0, 0, 1, 0, 0, 0, 0, 0, 0, 0, 0, 0, 0] []"
proof -
  let ?ip = "[0x20, 2, 0x7f, 0, 0, 1, 0, 0, 0, 0, 0, 0, 0, 0, 0, 0] :: IP"
  have "length ?ip = 16 \<and> To4 ?ip = None" by (simp add: To4_def v4InV6Prefix_def)
  with blocked_addresses_exactly [of 0 0 0 0 "[]" ?ip] show ?thesis by (simp add: unsafe_v6_def)
qed

text \<open>An operator's exemption only ever widens reach to the addresses its own networks contain:
  an address is refused exactly when no exempt network contains it and it is refused without
  exemptions, and a connection is allowed only for an address that parsed and is not refused.\<close>

theorem exemption_is_exact:
  "(blockedAddress ip exempt \<longleftrightarrow>
     blockedAddress ip [] \<and> \<not> (\<exists>n \<in> set exempt. net_Contains n (case To4 ip of Some m \<Rightarrow> m | None \<Rightarrow> ip))) \<and>
   (refuseUnsafeAddress splitHostPort parseIP address exempt = None \<longleftrightarrow>
     (\<exists>host port dialled. splitHostPort address = Some (host, port) \<and>
        parseIP (strip_zone (strip_brackets host)) = Some dialled \<and> \<not> blockedAddress dialled exempt))"
  by (auto simp: blockedAddress_def contained_in_any_iff Let_def refuseUnsafeAddress_def
      split: option.splits)

end
