(* ===== verification/Storable_Text.thy ===== *)
theory Storable_Text
  imports Quoting
begin

text \<open>
  UTF-8 as Go's \<open>unicode/utf8\<close> reads and writes it, on bytes, and \<open>storableText\<close> of
  \<open>internal/source/storabletext.go\<close>, which every text parameter of a settlement passes through: a
  text PostgreSQL refuses would abort the settlement transaction. The property is that its result
  is always valid UTF-8 without a NUL, and that it leaves storable text alone.
\<close>

section \<open>UTF-8\<close>

definition RuneError :: nat where
  "RuneError = 65533"

definition byte_at :: "char \<Rightarrow> nat" where
  "byte_at c = of_char c"

definition is_cont :: "nat \<Rightarrow> bool" where
  "is_cont b \<longleftrightarrow> 128 \<le> b \<and> b \<le> 191"

text \<open>The first-byte table: sequence size and the accepted range of the second byte.\<close>

definition lead :: "nat \<Rightarrow> (nat \<times> nat \<times> nat) option" where
  "lead b =
     (if 194 \<le> b \<and> b \<le> 223 then Some (2, 128, 191)
      else if b = 224 then Some (3, 160, 191)
      else if b = 237 then Some (3, 128, 159)
      else if 225 \<le> b \<and> b \<le> 239 then Some (3, 128, 191)
      else if b = 240 then Some (4, 144, 191)
      else if 241 \<le> b \<and> b \<le> 243 then Some (4, 128, 191)
      else if b = 244 then Some (4, 128, 143)
      else None)"

definition decode_tail :: "nat \<Rightarrow> nat \<Rightarrow> nat \<Rightarrow> nat \<Rightarrow> string \<Rightarrow> nat \<times> nat" where
  "decode_tail p0 sz lo hi r0 =
     (case r0 of
        [] \<Rightarrow> (RuneError, 1)
      | c1 # r1 \<Rightarrow>
          let b1 = byte_at c1 in
          if \<not> (lo \<le> b1 \<and> b1 \<le> hi) then (RuneError, 1)
          else if sz = 2 then ((p0 - 192) * 64 + (b1 - 128), 2)
          else (case r1 of
                  [] \<Rightarrow> (RuneError, 1)
                | c2 # r2 \<Rightarrow>
                    let b2 = byte_at c2 in
                    if \<not> is_cont b2 then (RuneError, 1)
                    else if sz = 3 then ((p0 - 224) * 4096 + (b1 - 128) * 64 + (b2 - 128), 3)
                    else (case r2 of
                            [] \<Rightarrow> (RuneError, 1)
                          | c3 # _ \<Rightarrow>
                              let b3 = byte_at c3 in
                              if \<not> is_cont b3 then (RuneError, 1)
                              else ((p0 - 240) * 262144 + (b1 - 128) * 4096 + (b2 - 128) * 64 + (b3 - 128), 4))))"

definition DecodeRune :: "string \<Rightarrow> nat \<times> nat" where
  "DecodeRune s =
     (case s of
        [] \<Rightarrow> (RuneError, 0)
      | c0 # r0 \<Rightarrow>
          let p0 = byte_at c0 in
          if p0 < 128 then (p0, 1)
          else (case lead p0 of
                  None \<Rightarrow> (RuneError, 1)
                | Some (sz, lo, hi) \<Rightarrow> decode_tail p0 sz lo hi r0))"

definition EncodeRune :: "nat \<Rightarrow> string" where
  "EncodeRune r =
     (if r < 128 then [char_of r]
      else if r < 2048 then [char_of (192 + r div 64), char_of (128 + r mod 64)]
      else if 1114111 < r \<or> 55296 \<le> r \<and> r \<le> 57343 then [CHR 0xEF, CHR 0xBF, CHR 0xBD]
      else if r < 65536 then [char_of (224 + r div 4096), char_of (128 + r div 64 mod 64), char_of (128 + r mod 64)]
      else [char_of (240 + r div 262144), char_of (128 + r div 4096 mod 64), char_of (128 + r div 64 mod 64),
            char_of (128 + r mod 64)])"

lemma DecodeRune_width: "DecodeRune s = (r, w) \<Longrightarrow> w \<le> length s"
  by (auto simp: DecodeRune_def decode_tail_def Let_def split: list.splits option.splits if_splits)

function ValidString :: "string \<Rightarrow> bool" where
  "ValidString s =
     (if s = [] then True
      else if fst (DecodeRune s) = RuneError \<and> snd (DecodeRune s) \<le> 1 then False
      else ValidString (drop (max (snd (DecodeRune s)) 1) s))"
  by pat_completeness auto
termination
  by (relation "measure length") auto

declare ValidString.simps [simp del]

section \<open>Storable text\<close>

function replace_runes :: "string \<Rightarrow> string" where
  "replace_runes text =
     (if text = [] then []
      else let decoded = fst (DecodeRune text); width = snd (DecodeRune text);
               decoded' = (if decoded = 0 \<or> decoded = RuneError \<and> width \<le> 1 then RuneError else decoded)
           in EncodeRune decoded' @ replace_runes (drop (max width 1) text))"
  by pat_completeness auto
termination
  by (relation "measure length") (auto simp: Let_def)

declare replace_runes.simps [simp del]

definition storableText :: "string \<Rightarrow> string" where
  "storableText text = (if ValidString text \<and> NUL \<notin> set text then text else replace_runes text)"

section \<open>Lemmas\<close>

lemma byte_at_less [simp]: "byte_at c < 256"
  by (simp add: byte_at_def nat_of_char_less_256)

lemma char_of_byte_at [simp]: "char_of (byte_at c) = c"
  by (simp add: byte_at_def)

lemma div_mod_64: "b < 64 \<Longrightarrow> (a * 64 + b) div 64 = a \<and> (a * 64 + b) mod 64 = (b::nat)"
  by simp

lemma encode2:
  assumes "194 \<le> p0" "p0 \<le> 223" "128 \<le> b1" "b1 \<le> 191"
  shows "EncodeRune ((p0 - 192) * 64 + (b1 - 128)) = [char_of p0, char_of b1]"
proof -
  let ?r = "(p0 - 192) * 64 + (b1 - 128)"
  have "128 \<le> ?r" "?r < 2048" "192 + ?r div 64 = p0" "128 + ?r mod 64 = b1"
    using assms div_mod_64 [of "b1 - 128" "p0 - 192"] by auto
  then show ?thesis by (simp add: EncodeRune_def)
qed

lemma range3:
  fixes x y z :: nat
  assumes "x \<le> 15" "y \<le> 63" "z \<le> 63" "x = 0 \<Longrightarrow> 32 \<le> y" "x = 13 \<Longrightarrow> y \<le> 31"
  shows "2048 \<le> x * 4096 + y * 64 + z" "x * 4096 + y * 64 + z < 65536"
    "\<not> (55296 \<le> x * 4096 + y * 64 + z \<and> x * 4096 + y * 64 + z \<le> 57343)"
proof -
  show "2048 \<le> x * 4096 + y * 64 + z" using assms(4) by (cases "x = 0") auto
  show "x * 4096 + y * 64 + z < 65536" using assms(1-3) by linarith
  consider "x \<le> 12" | "x = 13" | "14 \<le> x" by linarith
  then show "\<not> (55296 \<le> x * 4096 + y * 64 + z \<and> x * 4096 + y * 64 + z \<le> 57343)"
    using assms(2,3,5) by cases linarith+
qed

lemma range4:
  fixes x y z t :: nat
  assumes "x \<le> 4" "y \<le> 63" "z \<le> 63" "t \<le> 63" "x = 0 \<Longrightarrow> 16 \<le> y" "x = 4 \<Longrightarrow> y \<le> 15"
  shows "65536 \<le> x * 262144 + y * 4096 + z * 64 + t" "x * 262144 + y * 4096 + z * 64 + t \<le> 1114111"
proof -
  show "65536 \<le> x * 262144 + y * 4096 + z * 64 + t" using assms(5) by (cases "x = 0") auto
  consider "x \<le> 3" | "x = 4" using assms(1) by linarith
  then show "x * 262144 + y * 4096 + z * 64 + t \<le> 1114111"
    using assms(2-4,6) by cases linarith+
qed

lemma digits3:
  fixes x y z :: nat
  assumes "y \<le> 63" "z \<le> 63"
  shows "(x * 4096 + y * 64 + z) div 4096 = x" "(x * 4096 + y * 64 + z) div 64 mod 64 = y"
    "(x * 4096 + y * 64 + z) mod 64 = z"
proof -
  have r: "x * 4096 + y * 64 + z = (x * 64 + y) * 64 + z" by simp
  have one: "((x * 64 + y) * 64 + z) div 64 = x * 64 + y" "((x * 64 + y) * 64 + z) mod 64 = z"
    using assms div_mod_64 [of z "x * 64 + y"] by simp_all
  have two: "(x * 64 + y) div 64 = x" "(x * 64 + y) mod 64 = y"
    using assms div_mod_64 [of y x] by simp_all
  have "a div 4096 = a div 64 div 64" for a :: nat by (simp add: div_mult2_eq [symmetric])
  then show "(x * 4096 + y * 64 + z) div 4096 = x" unfolding r by (simp only: one two)
  show "(x * 4096 + y * 64 + z) div 64 mod 64 = y" "(x * 4096 + y * 64 + z) mod 64 = z"
    unfolding r by (simp_all only: one two)
qed

lemma digits4:
  fixes x y z t :: nat
  assumes "y \<le> 63" "z \<le> 63" "t \<le> 63"
  shows "(x * 262144 + y * 4096 + z * 64 + t) div 262144 = x"
    "(x * 262144 + y * 4096 + z * 64 + t) div 4096 mod 64 = y"
    "(x * 262144 + y * 4096 + z * 64 + t) div 64 mod 64 = z"
    "(x * 262144 + y * 4096 + z * 64 + t) mod 64 = t"
proof -
  let ?q = "x * 4096 + y * 64 + z"
  have r: "x * 262144 + y * 4096 + z * 64 + t = ?q * 64 + t" by simp
  have one: "(?q * 64 + t) div 64 = ?q" "(?q * 64 + t) mod 64 = t"
    using assms div_mod_64 [of t ?q] by simp_all
  have big: "a div 262144 = a div 64 div 4096" "a div 4096 = a div 64 div 64" for a :: nat
    by (simp_all add: div_mult2_eq [symmetric])
  show "(x * 262144 + y * 4096 + z * 64 + t) div 262144 = x"
    unfolding r big(1) one using digits3(1) [OF assms(1,2)] .
  show "(x * 262144 + y * 4096 + z * 64 + t) div 4096 mod 64 = y"
    unfolding r big(2) one using digits3(2) [OF assms(1,2)] .
  show "(x * 262144 + y * 4096 + z * 64 + t) div 64 mod 64 = z"
    unfolding r one using digits3(3) [OF assms(1,2)] .
  show "(x * 262144 + y * 4096 + z * 64 + t) mod 64 = t" unfolding r by (rule one)
qed

lemma encode3:
  assumes "x \<le> 15" "y \<le> 63" "z \<le> 63" "x = 0 \<Longrightarrow> 32 \<le> y" "x = 13 \<Longrightarrow> y \<le> 31"
  shows "EncodeRune (x * 4096 + y * 64 + z) = [char_of (224 + x), char_of (128 + y), char_of (128 + z)]"
proof -
  note r = range3 [OF assms] digits3 [OF assms(2,3), of x]
  let ?r = "x * 4096 + y * 64 + z"
  have "\<not> ?r < 128" "\<not> ?r < 2048" "\<not> (1114111 < ?r \<or> 55296 \<le> ?r \<and> ?r \<le> 57343)"
    using r(1-3) by linarith+
  then show ?thesis unfolding EncodeRune_def r(4-6) using r(2) by (simp only: if_False if_True)
qed

lemma encode4:
  assumes "x \<le> 4" "y \<le> 63" "z \<le> 63" "t \<le> 63" "x = 0 \<Longrightarrow> 16 \<le> y" "x = 4 \<Longrightarrow> y \<le> 15"
  shows "EncodeRune (x * 262144 + y * 4096 + z * 64 + t) =
    [char_of (240 + x), char_of (128 + y), char_of (128 + z), char_of (128 + t)]"
proof -
  note r = range4 [OF assms] digits4 [OF assms(2-4), of x]
  let ?r = "x * 262144 + y * 4096 + z * 64 + t"
  have "\<not> ?r < 128" "\<not> ?r < 2048" "\<not> (1114111 < ?r \<or> 55296 \<le> ?r \<and> ?r \<le> 57343)" "\<not> ?r < 65536"
    using r(1,2) by linarith+
  then show ?thesis unfolding EncodeRune_def r(3-6) by (simp only: if_False)
qed

lemma lead_Some:
  assumes "lead p = Some (sz, lo, hi)"
  shows "sz = 2 \<and> 194 \<le> p \<and> p \<le> 223 \<and> lo = 128 \<and> hi = 191 \<or>
    sz = 3 \<and> 224 \<le> p \<and> p \<le> 239 \<and> 128 \<le> lo \<and> hi \<le> 191 \<and> (p = 224 \<longrightarrow> lo = 160) \<and> (p = 237 \<longrightarrow> hi = 159) \<or>
    sz = 4 \<and> 240 \<le> p \<and> p \<le> 244 \<and> 128 \<le> lo \<and> hi \<le> 191 \<and> (p = 240 \<longrightarrow> lo = 144) \<and> (p = 244 \<longrightarrow> hi = 143)"
  using assms by (auto simp: lead_def split: if_splits)

lemma decode_two:
  assumes "lead (byte_at c0) = Some (2, lo, hi)" "lo \<le> byte_at c1" "byte_at c1 \<le> hi"
  shows "DecodeRune (c0 # c1 # rest) = ((byte_at c0 - 192) * 64 + (byte_at c1 - 128), 2)"
  using assms lead_Some [OF assms(1)] by (simp add: DecodeRune_def decode_tail_def)

lemma decode_three:
  assumes "lead (byte_at c0) = Some (3, lo, hi)" "lo \<le> byte_at c1" "byte_at c1 \<le> hi" "is_cont (byte_at c2)"
  shows "DecodeRune (c0 # c1 # c2 # rest) =
    ((byte_at c0 - 224) * 4096 + (byte_at c1 - 128) * 64 + (byte_at c2 - 128), 3)"
  using assms lead_Some [OF assms(1)] by (simp add: DecodeRune_def decode_tail_def)

lemma decode_four:
  assumes "lead (byte_at c0) = Some (4, lo, hi)" "lo \<le> byte_at c1" "byte_at c1 \<le> hi" "is_cont (byte_at c2)"
    "is_cont (byte_at c3)"
  shows "DecodeRune (c0 # c1 # c2 # c3 # rest) =
    ((byte_at c0 - 240) * 262144 + (byte_at c1 - 128) * 4096 + (byte_at c2 - 128) * 64 + (byte_at c3 - 128), 4)"
  using assms lead_Some [OF assms(1)] by (simp add: DecodeRune_def decode_tail_def)

lemma decode_cases:
  assumes dec: "DecodeRune s = (r, w)" and good: "\<not> (r = RuneError \<and> w \<le> 1)" and ne: "s \<noteq> []"
  obtains c0 rest where "s = c0 # rest" "byte_at c0 < 128" "r = byte_at c0" "w = 1"
  | c0 c1 rest lo hi where "s = c0 # c1 # rest" "lead (byte_at c0) = Some (2, lo, hi)"
      "lo \<le> byte_at c1" "byte_at c1 \<le> hi" "w = 2"
  | c0 c1 c2 rest lo hi where "s = c0 # c1 # c2 # rest" "lead (byte_at c0) = Some (3, lo, hi)"
      "lo \<le> byte_at c1" "byte_at c1 \<le> hi" "is_cont (byte_at c2)" "w = 3"
  | c0 c1 c2 c3 rest lo hi where "s = c0 # c1 # c2 # c3 # rest" "lead (byte_at c0) = Some (4, lo, hi)"
      "lo \<le> byte_at c1" "byte_at c1 \<le> hi" "is_cont (byte_at c2)" "is_cont (byte_at c3)" "w = 4"
proof -
  obtain c0 r0 where s: "s = c0 # r0" using ne by (cases s) auto
  show ?thesis
  proof (cases "byte_at c0 < 128")
    case True
    with s dec that(1) show ?thesis by (auto simp: DecodeRune_def)
  next
    case False
    with s dec good obtain sz lo hi where l: "lead (byte_at c0) = Some (sz, lo, hi)"
      and tl: "decode_tail (byte_at c0) sz lo hi r0 = (r, w)"
      by (auto simp: DecodeRune_def Let_def split: option.splits)
    consider "sz = 2" | "sz = 3" | "sz = 4" using lead_Some [OF l] by blast
    then show ?thesis
    proof cases
      case 1
      with tl good that(2) s l show ?thesis
        by (auto simp: decode_tail_def Let_def split: list.splits if_splits)
    next
      case 2
      with tl good that(3) s l show ?thesis
        by (auto simp: decode_tail_def Let_def split: list.splits if_splits)
    next
      case 3
      with tl good that(4) s l show ?thesis
        by (auto simp: decode_tail_def Let_def split: list.splits if_splits)
    qed
  qed
qed

lemma byte_at_NUL [simp]: "byte_at NUL = 0"
  by (simp add: byte_at_def NUL_def)

lemma NUL_byte: "c = NUL \<longleftrightarrow> byte_at c = 0"
  by (metis byte_at_NUL char_of_byte_at)

lemma NUL_sym: "NUL = c \<longleftrightarrow> byte_at c = 0"
  using NUL_byte [of c] by auto

lemma decode_good:
  assumes "DecodeRune s = (r, w)" "\<not> (r = RuneError \<and> w \<le> 1)" "s \<noteq> []"
  shows "EncodeRune r = take w s \<and> 0 < w \<and> DecodeRune (take w s @ rest) = (r, w) \<and>
    (r \<noteq> 0 \<longrightarrow> NUL \<notin> set (take w s))"
  using assms
proof (cases rule: decode_cases)
  case (1 c0 rest')
  then show ?thesis by (auto simp: EncodeRune_def DecodeRune_def NUL_sym)
next
  case (2 c0 c1 rest' lo hi)
  note L = lead_Some [OF 2(2)]
  then have "EncodeRune r = [c0, c1]"
    using encode2 [of "byte_at c0" "byte_at c1"] 2 assms(1) decode_two [OF 2(2-4)] by simp
  with 2 L assms(1) show ?thesis
    using decode_two [OF 2(2-4)] by (auto simp: NUL_sym)
next
  case (3 c0 c1 c2 rest' lo hi)
  note L = lead_Some [OF 3(2)]
  have "EncodeRune ((byte_at c0 - 224) * 4096 + (byte_at c1 - 128) * 64 + (byte_at c2 - 128)) =
      [char_of (224 + (byte_at c0 - 224)), char_of (128 + (byte_at c1 - 128)), char_of (128 + (byte_at c2 - 128))]"
    by (rule encode3) (use 3 L in \<open>auto simp: is_cont_def\<close>)
  then have "EncodeRune r = [c0, c1, c2]"
    using 3 L assms(1) decode_three [OF 3(2-5)] by (simp add: is_cont_def)
  with 3 L assms(1) show ?thesis
    using decode_three [OF 3(2-5)] by (auto simp: NUL_sym is_cont_def)
next
  case (4 c0 c1 c2 c3 rest' lo hi)
  note L = lead_Some [OF 4(2)]
  have "EncodeRune ((byte_at c0 - 240) * 262144 + (byte_at c1 - 128) * 4096 + (byte_at c2 - 128) * 64 +
        (byte_at c3 - 128)) =
      [char_of (240 + (byte_at c0 - 240)), char_of (128 + (byte_at c1 - 128)),
       char_of (128 + (byte_at c2 - 128)), char_of (128 + (byte_at c3 - 128))]"
    by (rule encode4) (use 4 L in \<open>auto simp: is_cont_def\<close>)
  then have "EncodeRune r = [c0, c1, c2, c3]"
    using 4 L assms(1) decode_four [OF 4(2-6)] by (simp add: is_cont_def)
  with 4 L assms(1) show ?thesis
    using decode_four [OF 4(2-6)] by (auto simp: NUL_sym is_cont_def)
qed


lemma decode_good_full:
  assumes "\<not> (fst (DecodeRune s) = RuneError \<and> snd (DecodeRune s) \<le> 1)" "s \<noteq> []"
  shows "EncodeRune (fst (DecodeRune s)) = take (snd (DecodeRune s)) s" "0 < snd (DecodeRune s)"
    "DecodeRune (take (snd (DecodeRune s)) s @ rest) = DecodeRune s"
    "fst (DecodeRune s) \<noteq> 0 \<Longrightarrow> NUL \<notin> set (take (snd (DecodeRune s)) s)"
    "snd (DecodeRune s) \<le> length s"
  using decode_good [of s "fst (DecodeRune s)" "snd (DecodeRune s)" rest] assms
    DecodeRune_width [of s "fst (DecodeRune s)" "snd (DecodeRune s)"]
  by auto

definition storable :: "string \<Rightarrow> bool" where
  "storable s \<longleftrightarrow> ValidString s \<and> NUL \<notin> set s"

lemma Valid_chunk:
  assumes "DecodeRune (chunk @ rest) = (r, length chunk)" "\<not> (r = RuneError \<and> length chunk \<le> 1)" "chunk \<noteq> []"
  shows "ValidString (chunk @ rest) = ValidString rest"
proof -
  have "max (length chunk) 1 = length chunk" using assms(3) by (cases chunk) auto
  with assms show ?thesis by (subst ValidString.simps) auto
qed

lemma encode_replacement: "EncodeRune RuneError = [char_of (239::nat), char_of (191::nat), char_of (189::nat)]"
  by (simp add: EncodeRune_def RuneError_def)

lemma byte_at_char_of [simp]: "b < 256 \<Longrightarrow> byte_at (char_of b) = b"
  by (simp add: byte_at_def)

lemma decode_replacement: "DecodeRune (EncodeRune RuneError @ rest) = (RuneError, 3)"
proof -
  have l: "lead 239 = Some (3, 128, 191)" by (simp add: lead_def)
  show ?thesis
    unfolding encode_replacement by (simp add: l DecodeRune_def decode_tail_def is_cont_def RuneError_def)
qed

lemma length_replacement: "length (EncodeRune RuneError) = 3" "NUL \<notin> set (EncodeRune RuneError)"
  unfolding encode_replacement by (auto simp: NUL_sym)

lemma storable_replacement:
  assumes "storable rest"
  shows "storable (EncodeRune RuneError @ rest)"
proof -
  have ne: "EncodeRune RuneError \<noteq> []" by (simp add: encode_replacement)
  have "ValidString (EncodeRune RuneError @ rest) = ValidString rest"
    by (rule Valid_chunk [where r = RuneError]) (simp_all add: ne decode_replacement length_replacement)
  with assms length_replacement(2) show ?thesis by (auto simp: storable_def)
qed

lemma storable_replace_runes: "storable (replace_runes s)"
proof (induction s rule: replace_runes.induct)
  case (1 s)
  show ?case
  proof (cases "s = []")
    case True
    then show ?thesis by (simp add: replace_runes.simps [of "[]"] storable_def ValidString.simps [of "[]"])
  next
    case ne: False
    let ?r = "fst (DecodeRune s)" and ?w = "snd (DecodeRune s)"
    let ?rest = "replace_runes (drop (max ?w 1) s)"
    have IH: "storable ?rest" by (rule "1.IH" [OF ne refl refl refl])
    show ?thesis
    proof (cases "?r = 0 \<or> ?r = RuneError \<and> ?w \<le> 1")
      case True
      then have "replace_runes s = EncodeRune RuneError @ ?rest"
        using ne by (simp add: replace_runes.simps [of s] Let_def)
      with storable_replacement [OF IH] show ?thesis by simp
    next
      case False
      then have good: "\<not> (?r = RuneError \<and> ?w \<le> 1)" by blast
      note g = decode_good_full [OF good ne]
      have eq: "replace_runes s = take ?w s @ ?rest"
        using ne False g(1) by (auto simp: replace_runes.simps [of s] Let_def)
      have "ValidString (take ?w s @ ?rest) = ValidString ?rest"
        by (rule Valid_chunk [where r = ?r]) (use g good ne in \<open>auto simp: min_absorb2\<close>)
      moreover have "NUL \<notin> set (take ?w s)" by (rule g(4)) (use False in simp)
      ultimately show ?thesis using IH eq by (auto simp: storable_def)
    qed
  qed
qed

text \<open>C15. Whatever bytes a destination or an error message contains, the text handed to a settlement
  statement is valid UTF-8 without a NUL, so PostgreSQL cannot refuse it; text that was already
  storable is handed over unchanged, and the function is idempotent.\<close>

theorem storable_text_always_storable:
  "ValidString (storableText t) \<and> NUL \<notin> set (storableText t) \<and>
   storableText (storableText t) = storableText t \<and>
   (ValidString t \<and> NUL \<notin> set t \<longrightarrow> storableText t = t)"
  using storable_replace_runes [of t] by (auto simp: storable_def storableText_def)

theorem storable_text_always_storable_witness:
  "storableText ''ok'' = ''ok''"
proof -
  have "DecodeRune ''ok'' = (111, 1)" "DecodeRune ''k'' = (107, 1)"
    by (simp_all add: DecodeRune_def byte_at_def)
  then have "ValidString ''ok''"
    by (simp add: ValidString.simps [of "''ok''"] ValidString.simps [of "''k''"] ValidString.simps [of "[]"]
        RuneError_def)
  moreover have "NUL \<notin> set ''ok''" by (simp add: NUL_def)
  ultimately show ?thesis using storable_text_always_storable [of "''ok''"] by blast
qed

end
