(* ===== verification/Event_Queue.thy ===== *)
theory Event_Queue
  imports Storable_Text Retry_Policy "HOL-Library.Product_Lexorder"
begin

text \<open>
  The PostgreSQL-backed event source of \<open>internal/source\<close>: the three service tables it writes
  (\<open>events\<close>, \<open>event_queue\<close>, \<open>deliveries\<close>), the delivery port (\<open>Claim\<close>, \<open>Ack\<close>, \<open>Nack\<close>, \<open>Dead\<close>), the
  lease sweep (\<open>ReclaimExpired\<close>), the operator's port (\<open>RetryBatch\<close>, \<open>ListEvents\<close>, \<open>ObserveQueue\<close>), the
  rows the generated trigger inserts, and the drain loop of \<open>pg_noty events retry\<close>. Each operation
  is the whole Go method: guards, the transaction, the SQL statement's effect on the tables, every
  error return. What one call observes of the server and the driver is a record \<open>pg\<close>: the
  transaction's clock, the rows other transactions hold locked, the order RETURNING yields, how a
  Go duration becomes an interval, and which round trip fails (the transaction then rolls back,
  or, in the last case, commits without the acknowledgement reaching the process).
\<close>

section \<open>Tables and vocabulary\<close>

datatype queue_status = Pending | Delivering | Dead_status

fun status_text :: "queue_status \<Rightarrow> string" where
  "status_text Pending = ''pending''"
| "status_text Delivering = ''delivering''"
| "status_text Dead_status = ''dead''"

record event_row =
  e_id :: int
  e_listener :: string
  e_table_name :: string
  e_operation :: string
  e_payload :: string
  e_txid :: "64 word"
  e_occurred_at :: instant

record queue_row =
  q_event_id :: int
  q_occurred_at :: instant
  q_listener :: string
  q_status :: queue_status
  q_attempts :: int
  q_next_attempt_at :: instant
  q_leased_until :: "instant option"
  q_leased_by :: "string option"
  q_dead_reason :: "string option"

record delivery_row =
  d_event_id :: int
  d_attempt :: int
  d_http_status :: "int option"
  d_response_snippet :: "string option"
  d_error :: "string option"
  d_duration_ms :: int
  d_created_at :: instant

record db =
  events :: "event_row list"
  event_queue :: "queue_row list"
  deliveries :: "delivery_row list"

text \<open>\<open>Event\<close> and \<open>Delivery\<close> of \<open>event.go\<close>.\<close>

record Event =
  ev_ID :: int
  ev_Listener :: string
  ev_Operation :: string
  ev_OccurredAt :: instant
  ev_Table :: string
  ev_TXID :: "64 word"
  ev_Payload :: string
  ev_Attempt :: int

record Delivery =
  dl_HTTPStatus :: int
  dl_Snippet :: string
  dl_Err :: string
  dl_Duration :: duration

text \<open>The fields of \<open>TriggerSource\<close> its queue operations read.\<close>

record TriggerSource =
  src_pool :: bool
  src_schema :: string
  src_LeasedBy :: string
  src_Lease :: duration
  src_closed :: bool

datatype source_error =
    ErrEventNotClaimed
  | ErrSourceClosed
  | ErrNoPool
  | ErrUnusableIdentifier IdentifierFault
  | ErrBegin
  | ErrStatement
  | ErrRead
  | ErrRecord
  | ErrCommit
  | ErrRetryLimit
  | ErrUnknownStatus string
  | ErrSelectorRequired
  | ErrSelectorCombined
  | ErrSelectorIncomplete
  | ErrCancelled

section \<open>What one call observes of the server\<close>

datatype pg_fault =
    NoFault | BeginFault | StatementFault | ReadFault | RecordFault | CommitLost | CommitUnacknowledged

record pg =
  pg_now :: instant
  pg_clock :: instant
  pg_locked :: "int \<Rightarrow> bool"
  pg_returning :: "int list \<Rightarrow> int list"
  pg_interval :: "duration \<Rightarrow> int"
  pg_sanitize :: sanitizer
  pg_fault :: pg_fault

text \<open>RETURNING yields the updated rows in an order the server chooses; a non-negative duration is
  never encoded as a negative interval.\<close>

definition pg_laws :: "pg \<Rightarrow> bool" where
  "pg_laws pg \<longleftrightarrow> (\<forall>ids. mset (pg_returning pg ids) = mset ids) \<and> (\<forall>d \<ge> 0. 0 \<le> pg_interval pg d)"

definition fits_int4 :: "int \<Rightarrow> bool" where
  "fits_int4 x \<longleftrightarrow> - 2147483648 \<le> x \<and> x \<le> 2147483647"

text \<open>\<open>UPDATE rows SET .. WHERE p\<close>, and the sum-type sequencing of fallible steps.\<close>

definition update_where :: "('r \<Rightarrow> bool) \<Rightarrow> ('r \<Rightarrow> 'r) \<Rightarrow> 'r list \<Rightarrow> 'r list" where
  "update_where p f rows = map (\<lambda>r. if p r then f r else r) rows"

fun bindE :: "'e + 'a \<Rightarrow> ('a \<Rightarrow> 'e + 'b) \<Rightarrow> 'e + 'b" where
  "bindE (Inl e) k = Inl e"
| "bindE (Inr a) k = k a"

text \<open>The end of a transaction: an error before the commit rolls back.\<close>

fun finish_tx :: "pg \<Rightarrow> db \<Rightarrow> source_error + (db \<times> 'a) \<Rightarrow> db \<times> (source_error + 'a)" where
  "finish_tx pg before (Inl e) = (before, Inl e)"
| "finish_tx pg before (Inr (after, a)) =
     (case pg_fault pg of
        CommitLost \<Rightarrow> (before, Inl ErrCommit)
      | CommitUnacknowledged \<Rightarrow> (after, Inl ErrCommit)
      | _ \<Rightarrow> (after, Inr a))"

definition raise_if :: "bool \<Rightarrow> source_error \<Rightarrow> source_error + unit" where
  "raise_if b e = (if b then Inl e else Inr ())"

section \<open>The delivery port\<close>

definition ensureUsable :: "TriggerSource \<Rightarrow> source_error + unit" where
  "ensureUsable s =
     (if src_closed s then Inl ErrSourceClosed else if \<not> src_pool s then Inl ErrNoPool else Inr ())"

definition qualifiedServiceTable :: "sanitizer \<Rightarrow> string \<Rightarrow> string \<Rightarrow> source_error + string" where
  "qualifiedServiceTable san serviceSchema table =
     (case Qualified san serviceSchema table of
        (qualified, fault) \<Rightarrow> if fault \<noteq> IdentifierOK then Inl (ErrUnusableIdentifier fault) else Inr qualified)"

definition TableEventQueue :: string where
  "TableEventQueue = ''event_queue''"

definition TableEvents :: string where
  "TableEvents = ''events''"

definition TableDeliveries :: string where
  "TableDeliveries = ''deliveries''"

text \<open>The text of the claim statement. Its effect is \<open>claim_select\<close> and \<open>claim_set\<close> below.\<close>

definition claimQueryFor :: "sanitizer \<Rightarrow> string \<Rightarrow> source_error + string" where
  "claimQueryFor san serviceSchema =
     bindE (qualifiedServiceTable san serviceSchema TableEventQueue) (\<lambda>queue.
     bindE (qualifiedServiceTable san serviceSchema TableEvents) (\<lambda>evs.
     Inr (''UPDATE '' @ queue @ '' q'' @ [CHR 0x0A] @
          ''  SET status='' @ quoteLiteral ''delivering'' @ '', leased_by=$1, leased_until=now()+$2,'' @ [CHR 0x0A] @
          ''      attempts = attempts + 1'' @ [CHR 0x0A] @
          ''WHERE q.event_id IN ('' @ [CHR 0x0A] @
          ''  SELECT event_id FROM '' @ queue @ [CHR 0x0A] @
          ''   WHERE status='' @ quoteLiteral ''pending'' @ '' AND next_attempt_at <= now()'' @ [CHR 0x0A] @
          ''   ORDER BY next_attempt_at, event_id'' @ [CHR 0x0A] @
          ''   LIMIT $3 FOR UPDATE SKIP LOCKED)'' @ [CHR 0x0A] @
          ''RETURNING q.event_id;        -- payloads then fetched from '' @ evs @ '' by id'' @ [CHR 0x0A])))"

definition claim_due :: "pg \<Rightarrow> queue_row \<Rightarrow> bool" where
  "claim_due pg r \<longleftrightarrow> q_status r = Pending \<and> q_next_attempt_at r \<le> pg_now pg"

definition claim_select :: "pg \<Rightarrow> nat \<Rightarrow> queue_row list \<Rightarrow> queue_row list" where
  "claim_select pg n rows =
     take n (sort_key (\<lambda>r. (q_next_attempt_at r, q_event_id r))
       (filter (\<lambda>r. claim_due pg r \<and> \<not> pg_locked pg (q_event_id r)) rows))"

definition claim_set :: "TriggerSource \<Rightarrow> pg \<Rightarrow> queue_row \<Rightarrow> queue_row" where
  "claim_set s pg r = r\<lparr>q_status := Delivering, q_leased_by := Some (src_LeasedBy s),
     q_leased_until := Some (pg_now pg + pg_interval pg (src_Lease s)), q_attempts := q_attempts r + 1\<rparr>"

definition claim_update :: "TriggerSource \<Rightarrow> pg \<Rightarrow> int list \<Rightarrow> queue_row list \<Rightarrow> queue_row list" where
  "claim_update s pg ids rows = update_where (\<lambda>r. q_event_id r \<in> set ids) (claim_set s pg) rows"

text \<open>The read-back joins the queue to the log on the composite key; the result follows \<open>ids\<close>.\<close>

definition event_of :: "event_row \<Rightarrow> queue_row \<Rightarrow> Event" where
  "event_of e q = \<lparr>ev_ID = e_id e, ev_Listener = e_listener e, ev_Operation = e_operation e,
     ev_OccurredAt = e_occurred_at e, ev_Table = e_table_name e, ev_TXID = e_txid e,
     ev_Payload = e_payload e, ev_Attempt = q_attempts q\<rparr>"

definition joined :: "db \<Rightarrow> (queue_row \<Rightarrow> bool) \<Rightarrow> (queue_row \<times> event_row) list" where
  "joined db p =
     [(q, e). q \<leftarrow> event_queue db, p q, e \<leftarrow> events db, e_id e = q_event_id q \<and> e_occurred_at e = q_occurred_at q]"

definition readClaimedEvents :: "db \<Rightarrow> int list \<Rightarrow> Event list" where
  "readClaimedEvents db ids =
     (let byID = foldl (\<lambda>m (q, e). m(e_id e \<mapsto> event_of e q)) Map.empty
                   (joined db (\<lambda>q. q_event_id q \<in> set ids))
      in List.map_filter byID ids)"

definition Claim :: "TriggerSource \<Rightarrow> pg \<Rightarrow> int \<Rightarrow> db \<Rightarrow> db \<times> (source_error + Event list)" where
  "Claim s pg n db =
     (case ensureUsable s of
        Inl e \<Rightarrow> (db, Inl e)
      | Inr _ \<Rightarrow>
          if n \<le> 0 then (db, Inr [])
          else finish_tx pg db
            (bindE (claimQueryFor (pg_sanitize pg) (src_schema s)) (\<lambda>_.
             bindE (raise_if (pg_fault pg = BeginFault) ErrBegin) (\<lambda>_.
             let chosen = claim_select pg (nat n) (event_queue db);
                 ids = pg_returning pg (map q_event_id chosen);
                 db' = db\<lparr>event_queue := claim_update s pg (map q_event_id chosen) (event_queue db)\<rparr>
             in bindE (raise_if (pg_fault pg = StatementFault \<or> (\<exists>r \<in> set chosen. \<not> fits_int4 (q_attempts r + 1)))
                        ErrStatement) (\<lambda>_.
                if ids = [] then Inr (db', [])
                else bindE (raise_if (pg_fault pg = ReadFault) ErrRead) (\<lambda>_.
                     Inr (db', readClaimedEvents db' ids)))))))"

definition claimed_by :: "TriggerSource \<Rightarrow> int \<Rightarrow> queue_row \<Rightarrow> bool" where
  "claimed_by s i r \<longleftrightarrow> q_event_id r = i \<and> q_status r = Delivering \<and> q_leased_by r = Some (src_LeasedBy s)"

definition beginTransition :: "TriggerSource \<Rightarrow> pg \<Rightarrow> source_error + unit" where
  "beginTransition s pg = bindE (ensureUsable s) (\<lambda>_. raise_if (pg_fault pg = BeginFault) ErrBegin)"

text \<open>The guard statement returns the row it changed; no row is the late settlement.\<close>

definition guardTransition :: "pg \<Rightarrow> queue_row list \<Rightarrow> source_error + unit" where
  "guardTransition pg returned =
     (if pg_fault pg = StatementFault then Inl ErrStatement
      else if returned = [] then Inl ErrEventNotClaimed else Inr ())"

definition upsert_delivery :: "delivery_row \<Rightarrow> delivery_row list \<Rightarrow> delivery_row list" where
  "upsert_delivery d rows =
     (if \<exists>r \<in> set rows. d_event_id r = d_event_id d \<and> d_attempt r = d_attempt d
      then update_where (\<lambda>r. d_event_id r = d_event_id d \<and> d_attempt r = d_attempt d) (\<lambda>_. d) rows
      else rows @ [d])"

definition delivery_row_of :: "pg \<Rightarrow> Event \<Rightarrow> Delivery \<Rightarrow> delivery_row" where
  "delivery_row_of pg event delivery =
     \<lparr>d_event_id = ev_ID event, d_attempt = ev_Attempt event,
      d_http_status = (if dl_HTTPStatus delivery > 0 then Some (dl_HTTPStatus delivery) else None),
      d_response_snippet = (if dl_Snippet delivery \<noteq> [] then Some (storableText (dl_Snippet delivery)) else None),
      d_error = (if dl_Err delivery \<noteq> [] then Some (storableText (dl_Err delivery)) else None),
      d_duration_ms = dl_Duration delivery sdiv 1000000,
      d_created_at = pg_clock pg\<rparr>"

text \<open>The driver encodes the integer parameters as int4 and refuses a value that does not fit.\<close>

definition recordable :: "Event \<Rightarrow> Delivery \<Rightarrow> bool" where
  "recordable event delivery \<longleftrightarrow> fits_int4 (ev_Attempt event) \<and> fits_int4 (dl_Duration delivery sdiv 1000000) \<and>
     (dl_HTTPStatus delivery > 0 \<longrightarrow> fits_int4 (dl_HTTPStatus delivery))"

definition recordDelivery :: "TriggerSource \<Rightarrow> pg \<Rightarrow> Event \<Rightarrow> Delivery \<Rightarrow> db \<Rightarrow> source_error + db" where
  "recordDelivery s pg event delivery db =
     bindE (qualifiedServiceTable (pg_sanitize pg) (src_schema s) TableDeliveries) (\<lambda>_.
     bindE (raise_if (pg_fault pg = RecordFault \<or> \<not> recordable event delivery) ErrRecord) (\<lambda>_.
     Inr (db\<lparr>deliveries := upsert_delivery (delivery_row_of pg event delivery) (deliveries db)\<rparr>)))"

definition Ack :: "TriggerSource \<Rightarrow> pg \<Rightarrow> Event \<Rightarrow> Delivery \<Rightarrow> db \<Rightarrow> db \<times> (source_error + unit)" where
  "Ack s pg event delivery db =
     finish_tx pg db
       (bindE (beginTransition s pg) (\<lambda>_.
        bindE (qualifiedServiceTable (pg_sanitize pg) (src_schema s) TableEventQueue) (\<lambda>_.
        bindE (guardTransition pg (filter (claimed_by s (ev_ID event)) (event_queue db))) (\<lambda>_.
        bindE (recordDelivery s pg event delivery
                 (db\<lparr>event_queue := filter (\<lambda>r. \<not> claimed_by s (ev_ID event) r) (event_queue db)\<rparr>)) (\<lambda>db'.
        Inr (db', ()))))))"

definition retryDelay :: "instant \<Rightarrow> instant \<Rightarrow> duration" where
  "retryDelay now retryAt = (let delay = time_Sub retryAt now in if delay < 0 then 0 else delay)"

definition nack_set :: "pg \<Rightarrow> duration \<Rightarrow> queue_row \<Rightarrow> queue_row" where
  "nack_set pg delay r = r\<lparr>q_status := Pending, q_next_attempt_at := pg_now pg + pg_interval pg delay,
     q_leased_until := None, q_leased_by := None\<rparr>"

definition Nack :: "TriggerSource \<Rightarrow> pg \<Rightarrow> instant \<Rightarrow> Event \<Rightarrow> Delivery \<Rightarrow> instant \<Rightarrow> db \<Rightarrow> db \<times> (source_error + unit)"
where
  "Nack s pg now event delivery retryAt db =
     finish_tx pg db
       (bindE (beginTransition s pg) (\<lambda>_.
        bindE (qualifiedServiceTable (pg_sanitize pg) (src_schema s) TableEventQueue) (\<lambda>_.
        bindE (guardTransition pg (filter (claimed_by s (ev_ID event)) (event_queue db))) (\<lambda>_.
        bindE (recordDelivery s pg event delivery
                 (db\<lparr>event_queue := update_where (claimed_by s (ev_ID event)) (nack_set pg (retryDelay now retryAt))
                                     (event_queue db)\<rparr>)) (\<lambda>db'.
        Inr (db', ()))))))"

definition dead_set :: "string \<Rightarrow> queue_row \<Rightarrow> queue_row" where
  "dead_set reason r = r\<lparr>q_status := Dead_status, q_dead_reason := Some reason, q_leased_until := None,
     q_leased_by := None\<rparr>"

definition Dead :: "TriggerSource \<Rightarrow> pg \<Rightarrow> Event \<Rightarrow> Delivery \<Rightarrow> string \<Rightarrow> db \<Rightarrow> db \<times> (source_error + unit)" where
  "Dead s pg event delivery reason db =
     finish_tx pg db
       (bindE (beginTransition s pg) (\<lambda>_.
        bindE (qualifiedServiceTable (pg_sanitize pg) (src_schema s) TableEventQueue) (\<lambda>_.
        bindE (guardTransition pg (filter (claimed_by s (ev_ID event)) (event_queue db))) (\<lambda>_.
        bindE (recordDelivery s pg event delivery
                 (db\<lparr>event_queue := update_where (claimed_by s (ev_ID event)) (dead_set (storableText reason))
                                     (event_queue db)\<rparr>)) (\<lambda>db'.
        Inr (db', ()))))))"

section \<open>The lease sweep\<close>

definition lease_expired :: "pg \<Rightarrow> queue_row \<Rightarrow> bool" where
  "lease_expired pg r \<longleftrightarrow>
     q_status r = Delivering \<and> (case q_leased_until r of None \<Rightarrow> False | Some u \<Rightarrow> u < pg_now pg)"

definition reclaim_set :: "queue_row \<Rightarrow> queue_row" where
  "reclaim_set r = r\<lparr>q_status := Pending, q_leased_by := None, q_leased_until := None\<rparr>"

definition ReclaimExpired :: "TriggerSource \<Rightarrow> pg \<Rightarrow> db \<Rightarrow> db \<times> (source_error + nat)" where
  "ReclaimExpired s pg db =
     finish_tx pg db
       (bindE (ensureUsable s) (\<lambda>_.
        bindE (qualifiedServiceTable (pg_sanitize pg) (src_schema s) TableEventQueue) (\<lambda>_.
        bindE (raise_if (pg_fault pg \<in> {BeginFault, StatementFault}) ErrStatement) (\<lambda>_.
        Inr (db\<lparr>event_queue := update_where (lease_expired pg) reclaim_set (event_queue db)\<rparr>,
             length (filter (lease_expired pg) (event_queue db)))))))"

section \<open>The operator's port\<close>

record QueueSelector =
  sel_ID :: "int option"
  sel_Listener :: string
  sel_Status :: string

definition validateStatus :: "string \<Rightarrow> source_error + unit" where
  "validateStatus status =
     (if status = [] \<or> status = ''pending'' \<or> status = ''delivering'' \<or> status = ''dead'' then Inr ()
      else Inl (ErrUnknownStatus status))"

definition ValidateForRetry :: "QueueSelector \<Rightarrow> source_error + unit" where
  "ValidateForRetry s =
     bindE (validateStatus (sel_Status s)) (\<lambda>_.
       if sel_ID s = None \<and> sel_Status s = [] \<and> sel_Listener s = [] then Inl ErrSelectorRequired
       else if sel_ID s \<noteq> None \<and> (sel_Status s \<noteq> [] \<or> sel_Listener s \<noteq> []) then Inl ErrSelectorCombined
       else if sel_ID s = None \<and> (sel_Status s = [] \<or> sel_Listener s = []) then Inl ErrSelectorIncomplete
       else Inr ())"

text \<open>The WHERE clauses a selector renders to, each with its bound argument.\<close>

datatype clause = ClauseID int | ClauseListener string | ClauseStatus string

fun clause_holds :: "queue_row \<Rightarrow> clause \<Rightarrow> bool" where
  "clause_holds r (ClauseID i) = (q_event_id r = i)"
| "clause_holds r (ClauseListener l) = (q_listener r = l)"
| "clause_holds r (ClauseStatus t) = (status_text (q_status r) = t)"

definition selectorPredicateQualified :: "QueueSelector \<Rightarrow> bool \<Rightarrow> source_error + clause list" where
  "selectorPredicateQualified selector retry =
     bindE (validateStatus (sel_Status selector)) (\<lambda>_.
     bindE (if retry then ValidateForRetry selector else Inr ()) (\<lambda>_.
     Inr ((case sel_ID selector of None \<Rightarrow> [] | Some i \<Rightarrow> [ClauseID i]) @
          (if sel_Listener selector \<noteq> [] then [ClauseListener (sel_Listener selector)] else []) @
          (if sel_Status selector \<noteq> [] then [ClauseStatus (sel_Status selector)] else []))))"

definition selector_holds :: "clause list \<Rightarrow> queue_row \<Rightarrow> bool" where
  "selector_holds cs r \<longleftrightarrow> list_all (clause_holds r) cs"

definition alreadyRetried :: "pg \<Rightarrow> queue_row \<Rightarrow> bool" where
  "alreadyRetried pg r \<longleftrightarrow>
     q_status r = Pending \<and> q_attempts r = 0 \<and> q_dead_reason r = None \<and> q_next_attempt_at r \<le> pg_now pg"

definition retry_select :: "pg \<Rightarrow> clause list \<Rightarrow> nat \<Rightarrow> queue_row list \<Rightarrow> queue_row list" where
  "retry_select pg cs n rows =
     take n (sort_key q_event_id
       (filter (\<lambda>r. selector_holds cs r \<and> \<not> alreadyRetried pg r \<and> \<not> pg_locked pg (q_event_id r)) rows))"

definition retry_set :: "pg \<Rightarrow> queue_row \<Rightarrow> queue_row" where
  "retry_set pg r = r\<lparr>q_status := Pending, q_attempts := 0, q_next_attempt_at := pg_now pg, q_dead_reason := None\<rparr>"

definition RetryBatch :: "TriggerSource \<Rightarrow> pg \<Rightarrow> QueueSelector \<Rightarrow> int \<Rightarrow> db \<Rightarrow> db \<times> (source_error + nat)" where
  "RetryBatch s pg selector limit db =
     finish_tx pg db
       (bindE (ensureUsable s) (\<lambda>_.
        bindE (raise_if (limit \<le> 0) ErrRetryLimit) (\<lambda>_.
        bindE (selectorPredicateQualified selector True) (\<lambda>cs.
        bindE (qualifiedServiceTable (pg_sanitize pg) (src_schema s) TableEventQueue) (\<lambda>_.
        bindE (raise_if (pg_fault pg = BeginFault) ErrBegin) (\<lambda>_.
        bindE (raise_if (pg_fault pg = StatementFault) ErrStatement) (\<lambda>_.
        let ids = map q_event_id (retry_select pg cs (nat limit) (event_queue db))
        in Inr (db\<lparr>event_queue := update_where (\<lambda>r. q_event_id r \<in> set ids) (retry_set pg) (event_queue db)\<rparr>,
                length (filter (\<lambda>r. q_event_id r \<in> set ids) (event_queue db))))))))))"

record QueueEvent =
  qe_event :: Event
  qe_Status :: string
  qe_Attempts :: int
  qe_NextAttemptAt :: instant
  qe_DeadReason :: "string option"

definition ListEvents :: "TriggerSource \<Rightarrow> pg \<Rightarrow> QueueSelector \<Rightarrow> db \<Rightarrow> source_error + QueueEvent list" where
  "ListEvents s pg selector db =
     bindE (ensureUsable s) (\<lambda>_.
     bindE (selectorPredicateQualified selector False) (\<lambda>cs.
     bindE (qualifiedServiceTable (pg_sanitize pg) (src_schema s) TableEventQueue) (\<lambda>_.
     bindE (qualifiedServiceTable (pg_sanitize pg) (src_schema s) TableEvents) (\<lambda>_.
     bindE (raise_if (pg_fault pg \<in> {BeginFault, StatementFault}) ErrStatement) (\<lambda>_.
     bindE (raise_if (pg_fault pg = ReadFault) ErrRead) (\<lambda>_.
     Inr (map (\<lambda>(q, e). \<lparr>qe_event = event_of e q, qe_Status = status_text (q_status q), qe_Attempts = q_attempts q,
                          qe_NextAttemptAt = q_next_attempt_at q, qe_DeadReason = q_dead_reason q\<rparr>)
            (sort_key (\<lambda>(q, e). e_id e) (joined db (selector_holds cs))))))))))"

record QueueObservation =
  ob_Pending :: nat
  ob_Delivering :: nat
  ob_Dead :: nat
  ob_OldestPendingAge :: duration
  ob_DeadByListener :: "(string \<times> nat) list"

text \<open>The inner query groups by listener and status; the outer one sums the groups.\<close>

definition grouped :: "queue_row list \<Rightarrow> ((string \<times> queue_status) \<times> nat \<times> instant) list" where
  "grouped rows =
     map (\<lambda>k. let g = filter (\<lambda>r. (q_listener r, q_status r) = k) rows
               in (k, length g, Min (set (map q_occurred_at g))))
       (remdups (map (\<lambda>r. (q_listener r, q_status r)) rows))"

definition depth_of :: "queue_status \<Rightarrow> ((string \<times> queue_status) \<times> nat \<times> instant) list \<Rightarrow> nat" where
  "depth_of st gs = sum_list (map (\<lambda>((l, t), n, o'). n) (filter (\<lambda>((l, t), n, o'). t = st) gs))"

definition ObserveQueue :: "TriggerSource \<Rightarrow> pg \<Rightarrow> db \<Rightarrow> source_error + QueueObservation" where
  "ObserveQueue s pg db =
     bindE (ensureUsable s) (\<lambda>_.
     bindE (qualifiedServiceTable (pg_sanitize pg) (src_schema s) TableEventQueue) (\<lambda>_.
     bindE (raise_if (pg_fault pg \<in> {BeginFault, StatementFault, ReadFault}) ErrStatement) (\<lambda>_.
     let gs = grouped (event_queue db);
         pending = filter (\<lambda>((l, t), n, o'). t = Pending) gs
     in Inr \<lparr>ob_Pending = depth_of Pending gs, ob_Delivering = depth_of Delivering gs, ob_Dead = depth_of Dead_status gs,
             ob_OldestPendingAge = (if pending = [] then 0 else pg_now pg - Min (set (map (\<lambda>(k, n, o'). o') pending))),
             ob_DeadByListener = map (\<lambda>((l, t), n, o'). (l, n)) (filter (\<lambda>((l, t), n, o'). t = Dead_status) gs)\<rparr>)))"

section \<open>The generated trigger\<close>

text \<open>One firing inside the customer's transaction: the event and its queue row share one clock value,
  and the transaction-local setting \<open>pg_noty.n\<close> lets only the first firing notify.\<close>

record trigger_tx =
  tt_db :: db
  tt_setting :: "string option"
  tt_notifications :: nat

definition trigger_fire :: "int \<Rightarrow> instant \<Rightarrow> 64 word \<Rightarrow> string \<Rightarrow> string \<Rightarrow> string \<Rightarrow> string \<Rightarrow> trigger_tx \<Rightarrow> trigger_tx"
where
  "trigger_fire eid clock txid listener storedTable operationName payload tx =
     (let event = \<lparr>e_id = eid, e_listener = listener, e_table_name = storedTable, e_operation = operationName,
            e_payload = payload, e_txid = txid, e_occurred_at = clock\<rparr>;
          row = \<lparr>q_event_id = eid, q_occurred_at = clock, q_listener = listener, q_status = Pending, q_attempts = 0,
            q_next_attempt_at = clock, q_leased_until = None, q_leased_by = None, q_dead_reason = None\<rparr>;
          db' = (tt_db tx)\<lparr>events := events (tt_db tx) @ [event], event_queue := event_queue (tt_db tx) @ [row]\<rparr>
      in if (case tt_setting tx of None \<Rightarrow> [] | Some v \<Rightarrow> v) = []
         then \<lparr>tt_db = db', tt_setting = Some ''1'', tt_notifications = tt_notifications tx + 1\<rparr>
         else tx\<lparr>tt_db := db'\<rparr>)"

section \<open>The drain loop of events retry\<close>

definition retryBatchLimit :: int where
  "retryBatchLimit = 1000"

text \<open>Iteration \<open>i\<close> runs under the server observations \<open>pgs i\<close>; \<open>done i\<close> is the command context after it.
  The result is the counts printed; \<open>None\<close> means the fuel ran out.\<close>

fun retry_drain :: "nat \<Rightarrow> TriggerSource \<Rightarrow> (nat \<Rightarrow> pg) \<Rightarrow> (nat \<Rightarrow> bool) \<Rightarrow> QueueSelector \<Rightarrow> nat \<Rightarrow> db
    \<Rightarrow> (db \<times> (source_error + nat list)) option" where
  "retry_drain 0 s pgs done' selector i db = None"
| "retry_drain (Suc fuel) s pgs done' selector i db =
     (case RetryBatch s (pgs i) selector retryBatchLimit db of
        (db', Inl e) \<Rightarrow> Some (db', Inl e)
      | (db', Inr retried) \<Rightarrow>
          if retried = 0 then Some (db', Inr [])
          else if done' i then Some (db', Inl ErrCancelled)
          else (case retry_drain fuel s pgs done' selector (Suc i) db' of
                  None \<Rightarrow> None
                | Some (db'', Inl e) \<Rightarrow> Some (db'', Inl e)
                | Some (db'', Inr counts) \<Rightarrow> Some (db'', Inr (retried # counts))))"

definition events_retry :: "nat \<Rightarrow> TriggerSource \<Rightarrow> (nat \<Rightarrow> pg) \<Rightarrow> (nat \<Rightarrow> bool) \<Rightarrow> QueueSelector \<Rightarrow> bool \<Rightarrow> db
    \<Rightarrow> (db \<times> (source_error + nat list)) option" where
  "events_retry fuel s pgs done' selector dryRun db =
     (case ValidateForRetry selector of
        Inl e \<Rightarrow> Some (db, Inl e)
      | Inr _ \<Rightarrow>
          if dryRun then Some (db, Inr [])
          else if sel_ID selector \<noteq> None then
            (case RetryBatch s (pgs 0) selector retryBatchLimit db of
               (db', Inl e) \<Rightarrow> Some (db', Inl e)
             | (db', Inr retried) \<Rightarrow> Some (db', Inr [retried]))
          else retry_drain fuel s pgs done' selector 0 db)"

end
