(* ===== verification/Queue_Laws.thy ===== *)
theory Queue_Laws
  imports Event_Queue "HOL-Library.Sublist"
begin

text \<open>
  What the queue operations of \<open>Event_Queue\<close> promise: the invariant of the three tables and its
  preservation by every operation on every outcome, the exact effect of a claim and of a
  settlement, custody of a leased row, the append-only log, and the termination of the operator's
  drain loop. The interleaving of any number of workers, sweeps, operators and customers is the
  step relation \<open>queue_step\<close>; PostgreSQL runs each transaction as one step of it.
\<close>

section \<open>Sequencing and updates\<close>

lemma bindE_Inr [simp]: "bindE m k = Inr b \<longleftrightarrow> (\<exists>a. m = Inr a \<and> k a = Inr b)"
  by (cases m) auto

lemma raise_if_Inr [simp]: "raise_if c e = Inr u \<longleftrightarrow> \<not> c"
  by (auto simp: raise_if_def)

lemma finish_txD:
  assumes "finish_tx pg before m = (after, r)"
  shows "(after = before \<and> isl r) \<or>
    (\<exists>a. m = Inr (after, a) \<and> (r = Inr a \<or> r = Inl ErrCommit \<and> pg_fault pg = CommitUnacknowledged))"
  using assms
  by (cases m) (auto split: pg_fault.splits)

lemma finish_tx_ok: "pg_fault pg = NoFault \<Longrightarrow> finish_tx pg before (Inr (after, a)) = (after, Inr a)"
  by simp

lemma set_update_where: "r' \<in> set (update_where p f rows) \<longleftrightarrow>
    (\<exists>r \<in> set rows. r' = (if p r then f r else r))"
  by (auto simp: update_where_def)

lemma update_where_key [simp]:
  "(\<And>r. key (f r) = key r) \<Longrightarrow> map key (update_where p f rows) = map key rows"
  by (auto simp: update_where_def)

lemma update_where_cong_id: "(\<And>r. r \<in> set rows \<Longrightarrow> \<not> p r) \<Longrightarrow> update_where p f rows = rows"
  by (auto simp: update_where_def intro: map_idI)

lemma set_keys_update:
  "(\<And>r. key (f r) = key r) \<Longrightarrow> key ` set (update_where p f rows) = key ` set rows"
  by (metis list.set_map update_where_key)

lemma claim_set_key [simp]:
  "q_event_id (claim_set s pg r) = q_event_id r" "q_occurred_at (claim_set s pg r) = q_occurred_at r"
  by (simp_all add: claim_set_def)

lemma nack_set_key [simp]:
  "q_event_id (nack_set pg d r) = q_event_id r" "q_occurred_at (nack_set pg d r) = q_occurred_at r"
  by (simp_all add: nack_set_def)

lemma dead_set_key [simp]:
  "q_event_id (dead_set w r) = q_event_id r" "q_occurred_at (dead_set w r) = q_occurred_at r"
  by (simp_all add: dead_set_def)

lemma reclaim_set_key [simp]:
  "q_event_id (reclaim_set r) = q_event_id r" "q_occurred_at (reclaim_set r) = q_occurred_at r"
  by (simp_all add: reclaim_set_def)

lemma retry_set_key [simp]:
  "q_event_id (retry_set pg r) = q_event_id r" "q_occurred_at (retry_set pg r) = q_occurred_at r"
  by (simp_all add: retry_set_def)

lemmas row_effects = claim_set_def nack_set_def dead_set_def reclaim_set_def retry_set_def

section \<open>The invariant of the tables\<close>

definition row_ok :: "queue_row \<Rightarrow> bool" where
  "row_ok r \<longleftrightarrow> 0 \<le> q_attempts r \<and>
     (q_status r = Delivering \<longrightarrow> q_leased_by r \<noteq> None \<and> q_leased_until r \<noteq> None \<and> 1 \<le> q_attempts r) \<and>
     (q_status r = Dead_status \<longleftrightarrow> q_dead_reason r \<noteq> None) \<and>
     (q_status r = Dead_status \<longrightarrow> q_leased_by r = None \<and> q_leased_until r = None)"

definition queue_ok :: "db \<Rightarrow> bool" where
  "queue_ok db \<longleftrightarrow>
     distinct (map q_event_id (event_queue db)) \<and>
     distinct (map (\<lambda>e. (e_id e, e_occurred_at e)) (events db)) \<and>
     (\<lambda>r. (q_event_id r, q_occurred_at r)) ` set (event_queue db) \<subseteq> (\<lambda>e. (e_id e, e_occurred_at e)) ` set (events db) \<and>
     distinct (map (\<lambda>d. (d_event_id d, d_attempt d)) (deliveries db)) \<and>
     list_all row_ok (event_queue db)"

lemma queue_okD:
  assumes "queue_ok db"
  shows "distinct (map q_event_id (event_queue db))" "r \<in> set (event_queue db) \<Longrightarrow> row_ok r"
  using assms by (auto simp: queue_ok_def list_all_iff)

lemma queue_ok_update:
  assumes ok: "queue_ok db" and keys: "\<And>r. q_event_id (f r) = q_event_id r" "\<And>r. q_occurred_at (f r) = q_occurred_at r"
    and rows: "\<And>r. r \<in> set (event_queue db) \<Longrightarrow> row_ok r \<Longrightarrow> p r \<Longrightarrow> row_ok (f r)"
  shows "queue_ok (db\<lparr>event_queue := update_where p f (event_queue db)\<rparr>)"
proof -
  let ?k = "\<lambda>r. (q_event_id r, q_occurred_at r)"
  have "?k ` set (update_where p f (event_queue db)) = ?k ` set (event_queue db)"
    by (rule set_keys_update) (simp add: keys)
  moreover have "list_all row_ok (update_where p f (event_queue db))"
    using ok rows by (auto simp: queue_ok_def list_all_iff set_update_where)
  ultimately show ?thesis
    using ok keys by (simp add: queue_ok_def)
qed

lemma queue_ok_filter: "queue_ok db \<Longrightarrow> queue_ok (db\<lparr>event_queue := filter p (event_queue db)\<rparr>)"
  by (auto simp: queue_ok_def list_all_iff distinct_map_filter)

definition delivery_key :: "delivery_row \<Rightarrow> int \<times> int" where
  "delivery_key d = (d_event_id d, d_attempt d)"

lemma upsert_keys:
  "map delivery_key (upsert_delivery d rows) =
     (if delivery_key d \<in> delivery_key ` set rows then map delivery_key rows else map delivery_key rows @ [delivery_key d])"
  by (auto simp: upsert_delivery_def update_where_def delivery_key_def image_iff) metis

lemma upsert_distinct:
  "distinct (map delivery_key rows) \<Longrightarrow> distinct (map delivery_key (upsert_delivery d rows))"
  by (auto simp: upsert_keys)

lemma upsert_member: "d \<in> set (upsert_delivery d rows)"
  by (auto simp: upsert_delivery_def update_where_def image_iff)

lemma queue_ok_upsert:
  "queue_ok db \<Longrightarrow> queue_ok (db\<lparr>deliveries := upsert_delivery d (deliveries db)\<rparr>)"
  using upsert_distinct [of "deliveries db" d]
  by (simp add: queue_ok_def delivery_key_def [abs_def])

lemma row_ok_effects:
  "row_ok r \<Longrightarrow> q_status r = Pending \<Longrightarrow> row_ok (claim_set s pg r)"
  "row_ok r \<Longrightarrow> q_status r = Delivering \<Longrightarrow> row_ok (nack_set pg d r)"
  "row_ok r \<Longrightarrow> row_ok (dead_set w r)"
  "row_ok r \<Longrightarrow> q_status r = Delivering \<Longrightarrow> row_ok (reclaim_set r)"
  "row_ok r \<Longrightarrow> row_ok (retry_set pg r)"
  by (auto simp: row_ok_def row_effects)

section \<open>Effects\<close>

lemma set_claim_select:
  "r \<in> set (claim_select pg n rows) \<Longrightarrow> r \<in> set rows \<and> claim_due pg r \<and> \<not> pg_locked pg (q_event_id r)"
  unfolding claim_select_def by (drule in_set_takeD) auto

lemma distinct_claim_select:
  "distinct (map q_event_id rows) \<Longrightarrow> distinct (map q_event_id (claim_select pg n rows))"
proof -
  assume d: "distinct (map q_event_id rows)"
  let ?f = "filter (\<lambda>r. claim_due pg r \<and> \<not> pg_locked pg (q_event_id r)) rows"
  let ?s = "sort_key (\<lambda>r. (q_next_attempt_at r, q_event_id r)) ?f"
  have "distinct (map q_event_id ?f)" using d by (rule distinct_map_filter)
  moreover have "mset (map q_event_id ?s) = mset (map q_event_id ?f)" by simp
  ultimately have "distinct (map q_event_id ?s)" by (metis mset_eq_imp_distinct_iff)
  then show ?thesis by (simp add: claim_select_def take_map [symmetric])
qed

text \<open>A row of the queue whose id was selected is the selected row: ids are unique.\<close>

lemma id_determines:
  "distinct (map q_event_id rows) \<Longrightarrow> a \<in> set rows \<Longrightarrow> b \<in> set rows \<Longrightarrow> q_event_id a = q_event_id b \<Longrightarrow> a = b"
  by (auto simp: distinct_map dest: inj_onD)

lemma selected_iff:
  assumes "distinct (map q_event_id rows)" "set sel \<subseteq> set rows" "r \<in> set rows"
  shows "q_event_id r \<in> set (map q_event_id sel) \<longleftrightarrow> r \<in> set sel"
  using assms id_determines [OF assms(1)] by (auto simp: image_iff)

lemma Claim_result:
  assumes "Claim s pg n db = (db', r)"
  shows "db' = db \<or> db' = db\<lparr>event_queue :=
    claim_update s pg (map q_event_id (claim_select pg (nat n) (event_queue db))) (event_queue db)\<rparr>"
  using assms unfolding Claim_def
  by (auto simp: Let_def split: sum.splits if_splits dest!: finish_txD)

lemma recordDelivery_Inr:
  "recordDelivery s pg event delivery db = Inr db' \<Longrightarrow>
    db' = db\<lparr>deliveries := upsert_delivery (delivery_row_of pg event delivery) (deliveries db)\<rparr>"
  by (auto simp: recordDelivery_def)

lemma guard_Inr: "guardTransition pg rows = Inr u \<longleftrightarrow> pg_fault pg \<noteq> StatementFault \<and> rows \<noteq> []"
  by (auto simp: guardTransition_def)

definition settled :: "pg \<Rightarrow> Event \<Rightarrow> Delivery \<Rightarrow> queue_row list \<Rightarrow> db \<Rightarrow> db" where
  "settled pg event delivery rows db =
     db\<lparr>event_queue := rows, deliveries := upsert_delivery (delivery_row_of pg event delivery) (deliveries db)\<rparr>"

lemma Ack_result:
  assumes "Ack s pg event delivery db = (db', r)"
  shows "db' = db \<or> (\<exists>q \<in> set (event_queue db). claimed_by s (ev_ID event) q) \<and>
    db' = settled pg event delivery (filter (\<lambda>q. \<not> claimed_by s (ev_ID event) q) (event_queue db)) db"
  using assms unfolding Ack_def
  by (auto simp: guard_Inr settled_def filter_empty_conv dest!: finish_txD recordDelivery_Inr)

lemma Nack_result:
  assumes "Nack s pg now event delivery retryAt db = (db', r)"
  shows "db' = db \<or> (\<exists>q \<in> set (event_queue db). claimed_by s (ev_ID event) q) \<and>
    db' = settled pg event delivery
      (update_where (claimed_by s (ev_ID event)) (nack_set pg (retryDelay now retryAt)) (event_queue db)) db"
  using assms unfolding Nack_def
  by (auto simp: guard_Inr settled_def filter_empty_conv dest!: finish_txD recordDelivery_Inr)

lemma Dead_result:
  assumes "Dead s pg event delivery reason db = (db', r)"
  shows "db' = db \<or> (\<exists>q \<in> set (event_queue db). claimed_by s (ev_ID event) q) \<and>
    db' = settled pg event delivery
      (update_where (claimed_by s (ev_ID event)) (dead_set (storableText reason)) (event_queue db)) db"
  using assms unfolding Dead_def
  by (auto simp: guard_Inr settled_def filter_empty_conv dest!: finish_txD recordDelivery_Inr)

lemma Reclaim_result:
  assumes "ReclaimExpired s pg db = (db', r)"
  shows "db' = db \<or> db' = db\<lparr>event_queue := update_where (lease_expired pg) reclaim_set (event_queue db)\<rparr>"
  using assms unfolding ReclaimExpired_def by (auto dest!: finish_txD)

lemma Retry_result:
  assumes "RetryBatch s pg selector limit db = (db', r)"
  shows "db' = db \<or> (\<exists>ids. db' = db\<lparr>event_queue := update_where (\<lambda>q. q_event_id q \<in> ids) (retry_set pg) (event_queue db)\<rparr>)"
  using assms unfolding RetryBatch_def by (auto simp: Let_def dest!: finish_txD)

section \<open>Steps\<close>

datatype queue_op =
    OpEnqueue int instant
  | OpClaim TriggerSource pg int
  | OpAck TriggerSource pg Event Delivery
  | OpNack TriggerSource pg instant Event Delivery instant
  | OpDead TriggerSource pg Event Delivery string
  | OpReclaim TriggerSource pg
  | OpRetry TriggerSource pg QueueSelector int

inductive queue_step :: "queue_op \<Rightarrow> db \<Rightarrow> db \<Rightarrow> bool" where
  enqueue: "eid \<notin> e_id ` set (events db) \<Longrightarrow> tx = \<lparr>tt_db = db, tt_setting = setting, tt_notifications = k\<rparr> \<Longrightarrow>
    queue_step (OpEnqueue eid clock) db (tt_db (trigger_fire eid clock txid listener stored op payload tx))"
| claim: "Claim s pg n db = (db', r) \<Longrightarrow> queue_step (OpClaim s pg n) db db'"
| ack: "Ack s pg event delivery db = (db', r) \<Longrightarrow> queue_step (OpAck s pg event delivery) db db'"
| nack: "Nack s pg now event delivery retryAt db = (db', r) \<Longrightarrow>
    queue_step (OpNack s pg now event delivery retryAt) db db'"
| dead: "Dead s pg event delivery reason db = (db', r) \<Longrightarrow> queue_step (OpDead s pg event delivery reason) db db'"
| reclaim: "ReclaimExpired s pg db = (db', r) \<Longrightarrow> queue_step (OpReclaim s pg) db db'"
| retry: "RetryBatch s pg selector limit db = (db', r) \<Longrightarrow> queue_step (OpRetry s pg selector limit) db db'"

inductive queue_run :: "db \<Rightarrow> queue_op list \<Rightarrow> db \<Rightarrow> bool" where
  nil: "queue_run db [] db"
| snoc: "queue_run db ops db' \<Longrightarrow> queue_step op db' db'' \<Longrightarrow> queue_run db (ops @ [op]) db''"

inductive_cases queue_step_OpClaim: "queue_step (OpClaim s pg n) db db'"
inductive_cases queue_step_OpAck: "queue_step (OpAck s pg event delivery) db db'"

definition empty_db :: db where
  "empty_db = \<lparr>events = [], event_queue = [], deliveries = []\<rparr>"

lemma queue_ok_empty: "queue_ok empty_db"
  by (simp add: queue_ok_def empty_db_def)

lemma trigger_fire_db:
  "tt_db (trigger_fire eid clock txid listener stored op payload tx) =
     (tt_db tx)\<lparr>events := events (tt_db tx) @ [\<lparr>e_id = eid, e_listener = listener, e_table_name = stored,
         e_operation = op, e_payload = payload, e_txid = txid, e_occurred_at = clock\<rparr>],
       event_queue := event_queue (tt_db tx) @ [\<lparr>q_event_id = eid, q_occurred_at = clock, q_listener = listener,
         q_status = Pending, q_attempts = 0, q_next_attempt_at = clock, q_leased_until = None, q_leased_by = None,
         q_dead_reason = None\<rparr>]\<rparr>"
  by (simp add: trigger_fire_def Let_def)

lemma queue_ok_enqueue:
  assumes "queue_ok (tt_db tx)" "eid \<notin> e_id ` set (events (tt_db tx))"
  shows "queue_ok (tt_db (trigger_fire eid clock txid listener stored op payload tx))"
proof -
  have "eid \<notin> q_event_id ` set (event_queue (tt_db tx))"
  proof
    assume "eid \<in> q_event_id ` set (event_queue (tt_db tx))"
    then obtain r where "r \<in> set (event_queue (tt_db tx))" "q_event_id r = eid" by auto
    with assms(1) obtain e where "e \<in> set (events (tt_db tx))" "e_id e = eid"
      by (fastforce simp: queue_ok_def)
    with assms(2) show False by auto
  qed
  with assms show ?thesis
    unfolding trigger_fire_db by (auto simp: queue_ok_def row_ok_def)
qed

lemma queue_ok_settled_update:
  assumes "queue_ok db" "\<And>r. q_event_id (f r) = q_event_id r" "\<And>r. q_occurred_at (f r) = q_occurred_at r"
    and "\<And>r. row_ok r \<Longrightarrow> p r \<Longrightarrow> row_ok (f r)"
  shows "queue_ok (settled pg event delivery (update_where p f (event_queue db)) db)"
  using queue_ok_upsert [OF queue_ok_update [of db f p]] assms by (simp add: settled_def)

lemma queue_ok_claim:
  assumes "queue_ok db"
  shows "queue_ok (db\<lparr>event_queue :=
    claim_update s pg (map q_event_id (claim_select pg n (event_queue db))) (event_queue db)\<rparr>)"
  unfolding claim_update_def
proof (rule queue_ok_update [OF assms claim_set_key])
  fix r assume r: "r \<in> set (event_queue db)" "row_ok r"
    "q_event_id r \<in> set (map q_event_id (claim_select pg n (event_queue db)))"
  then have "r \<in> set (claim_select pg n (event_queue db))"
    using selected_iff [OF queue_okD(1) [OF assms], of "claim_select pg n (event_queue db)" r] set_claim_select by blast
  then have "q_status r = Pending" using set_claim_select by (auto simp: claim_due_def)
  with r(2) show "row_ok (claim_set s pg r)" by (rule row_ok_effects(1))
qed

lemma queue_ok_step:
  assumes "queue_step op db db'" "queue_ok db"
  shows "queue_ok db'"
  using assms
proof (induction rule: queue_step.induct)
  case (enqueue eid db tx setting k clock txid listener stored op payload)
  then show ?case by (intro queue_ok_enqueue) auto
next
  case (claim s pg n db db' r)
  then show ?case using Claim_result [OF claim.hyps] queue_ok_claim by auto
next
  case (ack s pg event delivery db db' r)
  then show ?case using Ack_result [OF ack.hyps] queue_ok_upsert [OF queue_ok_filter] by (auto simp: settled_def)
next
  case (nack s pg now event delivery retryAt db db' r)
  then show ?case using Nack_result [OF nack.hyps]
    by (auto intro!: queue_ok_settled_update row_ok_effects simp: claimed_by_def)
next
  case (dead s pg event delivery reason db db' r)
  then show ?case using Dead_result [OF dead.hyps]
    by (auto intro!: queue_ok_settled_update row_ok_effects)
next
  case (reclaim s pg db db' r)
  then show ?case using Reclaim_result [OF reclaim.hyps]
    by (auto intro!: queue_ok_update row_ok_effects simp: lease_expired_def)
next
  case (retry s pg selector limit db db' r)
  then show ?case using Retry_result [OF retry.hyps]
    by (auto intro!: queue_ok_update row_ok_effects)
qed

lemma queue_ok_run: "queue_run db ops db' \<Longrightarrow> queue_ok db \<Longrightarrow> queue_ok db'"
  by (induction rule: queue_run.induct) (auto dest: queue_ok_step)

section \<open>Reading claimed events back\<close>

lemma foldl_upd_map_of:
  "foldl (\<lambda>m (q, e). m(k e \<mapsto> v q e)) m0 xs = m0 ++ map_of (rev (map (\<lambda>(q, e). (k e, v q e)) xs))"
  by (induction xs arbitrary: m0) (auto simp: map_add_def fun_eq_iff split: option.splits)

lemma map_filter_total:
  "(\<And>x. x \<in> set xs \<Longrightarrow> \<exists>y. f x = Some y \<and> P x y) \<Longrightarrow>
    \<exists>ys. List.map_filter f xs = ys \<and> list_all2 P xs ys"
  by (induction xs) (fastforce simp: map_filter_simps)+

lemma joined_mem:
  "(q, e) \<in> set (joined db p) \<longleftrightarrow> q \<in> set (event_queue db) \<and> p q \<and> e \<in> set (events db) \<and>
     e_id e = q_event_id q \<and> e_occurred_at e = q_occurred_at q"
  by (auto simp: joined_def)

lemma readClaimedEvents_all:
  assumes ok: "queue_ok db" and ids: "set ids \<subseteq> q_event_id ` set (event_queue db)"
  shows "list_all2 (\<lambda>i ev. \<exists>q \<in> set (event_queue db). \<exists>e \<in> set (events db).
      q_event_id q = i \<and> e_id e = i \<and> ev = event_of e q) ids (readClaimedEvents db ids)"
proof -
  let ?xs = "joined db (\<lambda>q. q_event_id q \<in> set ids)"
  let ?byID = "map_of (rev (map (\<lambda>(q, e). (e_id e, event_of e q)) ?xs))"
  have read: "readClaimedEvents db ids = List.map_filter ?byID ids"
    by (simp add: readClaimedEvents_def foldl_upd_map_of)
  have "\<exists>ev. ?byID i = Some ev \<and> (\<exists>q \<in> set (event_queue db). \<exists>e \<in> set (events db).
      q_event_id q = i \<and> e_id e = i \<and> ev = event_of e q)" if "i \<in> set ids" for i
  proof -
    from that ids obtain q where q: "q \<in> set (event_queue db)" "q_event_id q = i" by auto
    with ok obtain e where e: "e \<in> set (events db)" "e_id e = q_event_id q" "e_occurred_at e = q_occurred_at q"
      by (fastforce simp: queue_ok_def)
    with q that have "(q, e) \<in> set ?xs" by (simp add: joined_mem)
    then have "(\<lambda>(q, e). (e_id e, event_of e q)) (q, e) \<in> (\<lambda>(q, e). (e_id e, event_of e q)) ` set ?xs"
      by (rule imageI)
    then have "(i, event_of e q) \<in> set (rev (map (\<lambda>(q, e). (e_id e, event_of e q)) ?xs))"
      using e(2) q(2) by simp
    then have "?byID i \<noteq> None" by (auto simp: map_of_eq_None_iff simp del: set_rev set_map intro: rev_image_eqI)
    then obtain ev where ev: "?byID i = Some ev" by blast
    then have "(i, ev) \<in> set (rev (map (\<lambda>(q, e). (e_id e, event_of e q)) ?xs))" by (rule map_of_SomeD)
    then obtain q' e' where "(q', e') \<in> set ?xs" "i = e_id e'" "ev = event_of e' q'" by auto
    with ev show ?thesis by (auto simp: joined_mem)
  qed
  then show ?thesis using map_filter_total [of ids ?byID] read by simp
qed

lemma list_all2_ids:
  assumes "list_all2 P is evs" "\<And>i ev. P i ev \<Longrightarrow> ev_ID ev = i"
  shows "map ev_ID evs = is"
  using assms by (induction rule: list_all2_induct) auto

lemma list_all2_right: "list_all2 P xs ys \<Longrightarrow> y \<in> set ys \<Longrightarrow> \<exists>x \<in> set xs. P x y"
  by (induction rule: list_all2_induct) auto

lemma take_sorted_le:
  assumes "sorted (map k xs)" "a \<in> set (take n xs)" "b \<in> set xs" "b \<notin> set (take n xs)"
  shows "k a \<le> k b"
proof -
  have "b \<in> set (drop n xs)" using assms(3,4) by (metis Un_iff append_take_drop_id set_append)
  moreover have "sorted (map k (take n xs) @ map k (drop n xs))" using assms(1) by (simp flip: map_append)
  ultimately show ?thesis using assms(2) by (auto simp: sorted_append)
qed

lemma Claim_ok:
  assumes "ensureUsable s = Inr ()" "claimQueryFor (pg_sanitize pg) (src_schema s) = Inr sql" "0 < n"
    "pg_fault pg = NoFault" "\<And>r. r \<in> set (event_queue db) \<Longrightarrow> fits_int4 (q_attempts r + 1)"
    and "ids = map q_event_id (claim_select pg (nat n) (event_queue db))"
    and "db' = db\<lparr>event_queue := claim_update s pg ids (event_queue db)\<rparr>"
  shows "Claim s pg n db = (db', Inr (readClaimedEvents db' (pg_returning pg ids)))"
proof -
  have "\<not> (\<exists>r \<in> set (claim_select pg (nat n) (event_queue db)). \<not> fits_int4 (q_attempts r + 1))"
    using assms(5) set_claim_select by blast
  then show ?thesis
    using assms(1-4) unfolding assms(6,7)
    by (auto simp: Claim_def Let_def raise_if_def readClaimedEvents_def map_filter_simps)
qed

lemma claim_select_first:
  fixes pg rows n
  defines "key \<equiv> \<lambda>r. (q_next_attempt_at r, q_event_id r)"
  assumes "a \<in> set (claim_select pg n rows)" "b \<in> set rows" "claim_due pg b" "\<not> pg_locked pg (q_event_id b)"
    "b \<notin> set (claim_select pg n rows)"
  shows "key a \<le> key b"
  using assms(2-) unfolding claim_select_def
  by (intro take_sorted_le [where n = n]) (simp_all add: key_def)

lemma claim_effect_events:
  assumes ok: "queue_ok db" and ret: "mset ret = mset ids"
    and ids: "ids = map q_event_id (claim_select pg n (event_queue db))"
    and db': "db' = db\<lparr>event_queue := claim_update s pg ids (event_queue db)\<rparr>"
  shows "map ev_ID (readClaimedEvents db' ret) = ret"
    "ev \<in> set (readClaimedEvents db' ret) \<Longrightarrow> \<exists>q \<in> set (claim_select pg n (event_queue db)). \<exists>e \<in> set (events db).
      q_event_id q = ev_ID ev \<and> e_id e = ev_ID ev \<and> ev = event_of e (claim_set s pg q)"
proof -
  let ?sel = "claim_select pg n (event_queue db)"
  have ok': "queue_ok db'" unfolding db' ids by (rule queue_ok_claim [OF ok])
  have rset: "set ret = set ids" using ret by (rule mset_eq_setD)
  have sub: "set ?sel \<subseteq> set (event_queue db)" using set_claim_select by blast
  then have "set ret \<subseteq> q_event_id ` set (event_queue db')"
    unfolding rset by (auto simp: ids db' claim_update_def set_keys_update)
  note all2 = readClaimedEvents_all [OF ok' this]
  show "map ev_ID (readClaimedEvents db' ret) = ret"
    by (rule list_all2_ids [OF all2]) (auto simp: event_of_def)
  assume "ev \<in> set (readClaimedEvents db' ret)"
  then obtain i q' e where i: "i \<in> set ret" and q': "q' \<in> set (event_queue db')" and e: "e \<in> set (events db')"
    and eq: "q_event_id q' = i" "e_id e = i" "ev = event_of e q'"
    using list_all2_right [OF all2] by blast
  from q' obtain q where q: "q \<in> set (event_queue db)"
    and q'q: "q' = (if q_event_id q \<in> set ids then claim_set s pg q else q)"
    by (auto simp: db' claim_update_def set_update_where)
  then have "q_event_id q = i" using eq(1) by (auto split: if_splits)
  moreover from this have "q \<in> set ?sel"
    using selected_iff [OF queue_okD(1) [OF ok] sub q] i rset by (simp add: ids)
  ultimately show "\<exists>q \<in> set ?sel. \<exists>e \<in> set (events db). q_event_id q = ev_ID ev \<and> e_id e = ev_ID ev \<and>
      ev = event_of e (claim_set s pg q)"
    using e eq i q'q rset by (intro bexI [of _ q] bexI [of _ e]) (simp_all add: event_of_def db')
qed

section \<open>A ready source\<close>

definition source_ready :: "TriggerSource \<Rightarrow> bool" where
  "source_ready s \<longleftrightarrow> src_pool s \<and> \<not> src_closed s \<and> WhyUnusable (src_schema s) = IdentifierOK"

lemma service_tables_usable [simp]:
  "WhyUnusable TableEventQueue = IdentifierOK" "WhyUnusable TableEvents = IdentifierOK"
  "WhyUnusable TableDeliveries = IdentifierOK"
  by (simp_all add: WhyUnusable_OK TableEventQueue_def TableEvents_def TableDeliveries_def NUL_def MaxIdentifierBytes_def)

lemma source_ready_usable: "source_ready s \<Longrightarrow> ensureUsable s = Inr ()"
  by (simp add: source_ready_def ensureUsable_def)

lemma source_ready_table:
  assumes "source_ready s" "WhyUnusable t = IdentifierOK"
  obtains q where "qualifiedServiceTable san (src_schema s) t = Inr q"
  using assms Qualified_OK [of san "src_schema s" t "san [src_schema s, t]"]
  by (fastforce simp: source_ready_def qualifiedServiceTable_def)

lemma source_ready_query:
  assumes "source_ready s"
  obtains sql where "claimQueryFor san (src_schema s) = Inr sql"
proof -
  obtain a where "qualifiedServiceTable san (src_schema s) TableEventQueue = Inr a"
    by (rule source_ready_table [OF assms service_tables_usable(1)])
  moreover obtain b where "qualifiedServiceTable san (src_schema s) TableEvents = Inr b"
    by (rule source_ready_table [OF assms service_tables_usable(2)])
  ultimately show thesis using that by (simp add: claimQueryFor_def)
qed

lemma recordDelivery_ready:
  assumes "source_ready s" "pg_fault pg = NoFault" "recordable event delivery"
  shows "recordDelivery s pg event delivery db =
    Inr (db\<lparr>deliveries := upsert_delivery (delivery_row_of pg event delivery) (deliveries db)\<rparr>)"
  by (rule source_ready_table [OF assms(1) service_tables_usable(3), of "pg_sanitize pg"])
    (use assms in \<open>simp add: recordDelivery_def raise_if_def\<close>)

lemma settle_ready:
  assumes "source_ready s" "pg_fault pg = NoFault" "recordable event delivery"
  shows "Ack s pg event delivery db =
      (if \<exists>q \<in> set (event_queue db). claimed_by s (ev_ID event) q
       then (settled pg event delivery (filter (\<lambda>q. \<not> claimed_by s (ev_ID event) q) (event_queue db)) db, Inr ())
       else (db, Inl ErrEventNotClaimed))"
    "Nack s pg now event delivery retryAt db =
      (if \<exists>q \<in> set (event_queue db). claimed_by s (ev_ID event) q
       then (settled pg event delivery (update_where (claimed_by s (ev_ID event)) (nack_set pg (retryDelay now retryAt))
               (event_queue db)) db, Inr ())
       else (db, Inl ErrEventNotClaimed))"
    "Dead s pg event delivery reason db =
      (if \<exists>q \<in> set (event_queue db). claimed_by s (ev_ID event) q
       then (settled pg event delivery (update_where (claimed_by s (ev_ID event)) (dead_set (storableText reason))
               (event_queue db)) db, Inr ())
       else (db, Inl ErrEventNotClaimed))"
proof -
  obtain q where q: "qualifiedServiceTable (pg_sanitize pg) (src_schema s) TableEventQueue = Inr q"
    by (rule source_ready_table [OF assms(1) service_tables_usable(1)])
  have b: "beginTransition s pg = Inr ()"
    using source_ready_usable [OF assms(1)] assms(2) by (simp add: beginTransition_def raise_if_def)
  note S = b q recordDelivery_ready [OF assms] guardTransition_def settled_def assms(2)
  show "Ack s pg event delivery db =
      (if \<exists>q \<in> set (event_queue db). claimed_by s (ev_ID event) q
       then (settled pg event delivery (filter (\<lambda>q. \<not> claimed_by s (ev_ID event) q) (event_queue db)) db, Inr ())
       else (db, Inl ErrEventNotClaimed))"
    by (auto simp: Ack_def S filter_empty_conv)
  show "Nack s pg now event delivery retryAt db =
      (if \<exists>q \<in> set (event_queue db). claimed_by s (ev_ID event) q
       then (settled pg event delivery (update_where (claimed_by s (ev_ID event)) (nack_set pg (retryDelay now retryAt))
               (event_queue db)) db, Inr ())
       else (db, Inl ErrEventNotClaimed))"
    by (auto simp: Nack_def S filter_empty_conv)
  show "Dead s pg event delivery reason db =
      (if \<exists>q \<in> set (event_queue db). claimed_by s (ev_ID event) q
       then (settled pg event delivery (update_where (claimed_by s (ev_ID event)) (dead_set (storableText reason))
               (event_queue db)) db, Inr ())
       else (db, Inl ErrEventNotClaimed))"
    by (auto simp: Dead_def S filter_empty_conv)
qed

section \<open>Custody\<close>

text \<open>An operation that leaves a row leased by \<open>owner\<close> until \<open>until\<close> alone: no settlement by that owner, no
  operator retry, and no sweep after the lease ran out.\<close>

fun honours :: "string \<Rightarrow> instant \<Rightarrow> queue_op \<Rightarrow> bool" where
  "honours owner until (OpAck s pg event delivery) = (src_LeasedBy s \<noteq> owner)"
| "honours owner until (OpNack s pg now event delivery retryAt) = (src_LeasedBy s \<noteq> owner)"
| "honours owner until (OpDead s pg event delivery reason) = (src_LeasedBy s \<noteq> owner)"
| "honours owner until (OpReclaim s pg) = (pg_now pg \<le> until)"
| "honours owner until (OpRetry s pg selector limit) = False"
| "honours owner until _ = True"

lemma leased_row_step:
  assumes step: "queue_step op db db'" and ok: "queue_ok db" and q: "q \<in> set (event_queue db)"
    and lease: "q_status q = Delivering" "q_leased_by q = Some owner" "q_leased_until q = Some until"
    and resp: "honours owner until op"
  shows "q \<in> set (event_queue db')"
  using step ok q resp
proof (induction rule: queue_step.induct)
  case (enqueue eid db tx setting k clock txid listener stored op payload)
  then show ?case by (simp add: trigger_fire_db)
next
  case (claim s pg n db db' r)
  let ?sel = "claim_select pg (nat n) (event_queue db)"
  have "q \<notin> set ?sel" using set_claim_select [of q] lease(1) by (auto simp: claim_due_def)
  moreover have "set ?sel \<subseteq> set (event_queue db)" using set_claim_select by blast
  ultimately have "q_event_id q \<notin> set (map q_event_id ?sel)"
    using selected_iff [OF queue_okD(1) [OF claim.prems(1)]] claim.prems(2) by blast
  then show ?case using Claim_result [OF claim.hyps] claim.prems(2)
    by (auto simp: claim_update_def set_update_where intro!: bexI [of _ q])
next
  case (ack s pg event delivery db db' r)
  then show ?case using Ack_result [OF ack.hyps] lease by (auto simp: settled_def claimed_by_def)
next
  case (nack s pg now event delivery retryAt db db' r)
  then show ?case using Nack_result [OF nack.hyps] lease
    by (auto simp: settled_def claimed_by_def set_update_where intro!: bexI [of _ q])
next
  case (dead s pg event delivery reason db db' r)
  then show ?case using Dead_result [OF dead.hyps] lease
    by (auto simp: settled_def claimed_by_def set_update_where intro!: bexI [of _ q])
next
  case (reclaim s pg db db' r)
  then show ?case using Reclaim_result [OF reclaim.hyps] lease
    by (auto simp: lease_expired_def set_update_where intro!: bexI [of _ q])
next
  case (retry s pg selector limit db db' r)
  then show ?case by simp
qed

lemma leased_row_run:
  assumes "queue_run db ops db'" "queue_ok db" "q \<in> set (event_queue db)"
    "q_status q = Delivering" "q_leased_by q = Some owner" "q_leased_until q = Some until" "list_all (honours owner until) ops"
  shows "q \<in> set (event_queue db')"
  using assms by (induction rule: queue_run.induct) (auto intro: leased_row_step queue_ok_run)

text \<open>Only an acknowledgement removes a queue row, and the log only grows.\<close>

lemma step_log: "queue_step op db db' \<Longrightarrow> prefix (events db) (events db')"
  by (induction rule: queue_step.induct)
    (auto simp: trigger_fire_db settled_def dest!: Claim_result Ack_result Nack_result Dead_result Reclaim_result Retry_result)

lemma step_loses:
  assumes "queue_step op db db'" "i \<in> q_event_id ` set (event_queue db)" "i \<notin> q_event_id ` set (event_queue db')"
  shows "\<exists>s pg event delivery. op = OpAck s pg event delivery \<and> ev_ID event = i"
  using assms
proof (induction rule: queue_step.induct)
  case (ack s pg event delivery db db' r)
  then show ?case using Ack_result [OF ack.hyps] by (auto simp: settled_def claimed_by_def)
next
  case (claim s pg n db db' r)
  then show ?case using Claim_result [OF claim.hyps] by (auto simp: claim_update_def set_keys_update)
next
  case (nack s pg now event delivery retryAt db db' r)
  then show ?case using Nack_result [OF nack.hyps] by (auto simp: settled_def set_keys_update)
next
  case (dead s pg event delivery reason db db' r)
  then show ?case using Dead_result [OF dead.hyps] by (auto simp: settled_def set_keys_update)
next
  case (reclaim s pg db db' r)
  then show ?case using Reclaim_result [OF reclaim.hyps] by (auto simp: set_keys_update)
next
  case (retry s pg selector limit db db' r)
  then show ?case using Retry_result [OF retry.hyps] by (auto simp: set_keys_update)
qed (auto simp: trigger_fire_db)

section \<open>The drain loop\<close>

definition unretried :: "pg \<Rightarrow> clause list \<Rightarrow> queue_row \<Rightarrow> bool" where
  "unretried pg cs r \<longleftrightarrow> selector_holds cs r \<and> \<not> alreadyRetried pg r"

lemma alreadyRetried_mono: "pg_now p \<le> pg_now p' \<Longrightarrow> alreadyRetried p r \<Longrightarrow> alreadyRetried p' r"
  by (auto simp: alreadyRetried_def)

lemma retry_set_alreadyRetried: "pg_now p \<le> pg_now p' \<Longrightarrow> alreadyRetried p' (retry_set p r)"
  by (simp add: alreadyRetried_def retry_set_def)

lemma RetryBatch_ready:
  assumes "source_ready s" "pg_fault pg = NoFault" "selectorPredicateQualified selector True = Inr cs" "0 < limit"
    and "ids = q_event_id ` set (retry_select pg cs (nat limit) (event_queue db))"
  shows "RetryBatch s pg selector limit db =
    (db\<lparr>event_queue := update_where (\<lambda>r. q_event_id r \<in> ids) (retry_set pg) (event_queue db)\<rparr>,
     Inr (length (filter (\<lambda>r. q_event_id r \<in> ids) (event_queue db))))"
  by (rule source_ready_table [OF assms(1) service_tables_usable(1), of "pg_sanitize pg"])
    (use assms source_ready_usable [OF assms(1)] in \<open>simp add: RetryBatch_def raise_if_def Let_def\<close>)

lemma sort_key_empty: "sort_key k xs = [] \<longleftrightarrow> xs = []"
  by (metis length_0_conv length_sort)

lemma set_retry_select:
  "r \<in> set (retry_select pg cs n rows) \<Longrightarrow> r \<in> set rows \<and> unretried pg cs r"
  unfolding retry_select_def unretried_def by (drule in_set_takeD) auto

lemma length_filter_less:
  assumes "\<And>x. x \<in> set xs \<Longrightarrow> Q x \<Longrightarrow> P x" "y \<in> set xs" "P y" "\<not> Q y"
  shows "length (filter Q xs) < length (filter P xs)"
proof -
  have "filter Q xs = filter Q (filter P xs)" using assms(1) by (auto intro: filter_cong)
  moreover have "length (filter Q (filter P xs)) < length (filter P xs)"
    by (rule filter_length_less [of y]) (use assms in auto)
  ultimately show ?thesis by simp
qed

lemma retry_batch_decreases:
  assumes ok: "queue_ok db" and mono: "pg_now p \<le> pg_now p'"
    and ids: "ids = q_event_id ` set (retry_select p cs n (event_queue db))"
    and some: "filter (\<lambda>r. q_event_id r \<in> ids) (event_queue db) \<noteq> []"
  shows "length (filter (unretried p' cs) (update_where (\<lambda>r. q_event_id r \<in> ids) (retry_set p) (event_queue db)))
    < length (filter (unretried p cs) (event_queue db))"
proof -
  let ?f = "\<lambda>r. if q_event_id r \<in> ids then retry_set p r else r"
  obtain y where y: "y \<in> set (event_queue db)" "q_event_id y \<in> ids" using some by (auto simp: filter_empty_conv)
  have sub: "set (retry_select p cs n (event_queue db)) \<subseteq> set (event_queue db)" using set_retry_select by blast
  have "unretried p cs y"
    using selected_iff [OF queue_okD(1) [OF ok] sub y(1)] y(2) set_retry_select [of y] by (auto simp: ids)
  have "filter (unretried p' cs) (update_where (\<lambda>r. q_event_id r \<in> ids) (retry_set p) (event_queue db)) =
      map ?f (filter (\<lambda>r. unretried p' cs (?f r)) (event_queue db))"
    by (simp add: update_where_def filter_map o_def)
  moreover have "length (filter (\<lambda>r. unretried p' cs (?f r)) (event_queue db)) < length (filter (unretried p cs) (event_queue db))"
  proof (rule length_filter_less [where y = y])
    show "y \<in> set (event_queue db)" by (rule y(1))
    show "unretried p cs y" by fact
    show "\<not> unretried p' cs (?f y)" using y(2) retry_set_alreadyRetried [OF mono] by (simp add: unretried_def)
    fix x assume "x \<in> set (event_queue db)" "unretried p' cs (?f x)"
    then show "unretried p cs x"
      using retry_set_alreadyRetried [OF mono, of x] alreadyRetried_mono [OF mono, of x]
      by (auto simp: unretried_def split: if_splits)
  qed
  ultimately show ?thesis by simp
qed

lemma retry_drain_ends:
  assumes ready: "source_ready s" "\<And>i. pg_fault (pgs i) = NoFault" "selectorPredicateQualified selector True = Inr cs"
    and mono: "\<And>i. pg_now (pgs i) \<le> pg_now (pgs (Suc i))" and alive: "\<And>i. \<not> done' i"
    and ok: "queue_ok db" and fuel: "length (filter (unretried (pgs i) cs) (event_queue db)) < fuel"
  shows "\<exists>db' counts j. retry_drain fuel s pgs done' selector i db = Some (db', Inr counts) \<and> i \<le> j \<and>
    (\<forall>r \<in> set (event_queue db'). unretried (pgs j) cs r \<longrightarrow> pg_locked (pgs j) (q_event_id r))"
  using ok fuel
proof (induction fuel arbitrary: i db)
  case (Suc fuel)
  let ?sel = "retry_select (pgs i) cs (nat retryBatchLimit) (event_queue db)"
  let ?ids = "q_event_id ` set ?sel"
  let ?db = "db\<lparr>event_queue := update_where (\<lambda>r. q_event_id r \<in> ?ids) (retry_set (pgs i)) (event_queue db)\<rparr>"
  let ?hit = "filter (\<lambda>r. q_event_id r \<in> ?ids) (event_queue db)"
  have batch: "RetryBatch s (pgs i) selector retryBatchLimit db = (?db, Inr (length ?hit))"
    using RetryBatch_ready [OF ready(1) ready(2) ready(3) _ refl] by (simp add: retryBatchLimit_def)
  show ?case
  proof (cases "?hit = []")
    case True
    have "set ?sel \<subseteq> set (event_queue db)" using set_retry_select by blast
    with True have "?sel = []" by (cases ?sel) (auto simp: filter_empty_conv)
    then have none: "filter (\<lambda>r. unretried (pgs i) cs r \<and> \<not> pg_locked (pgs i) (q_event_id r)) (event_queue db) = []"
      by (auto simp: retry_select_def retryBatchLimit_def unretried_def conj_assoc sort_key_empty)
    have "?db = db" using True by (simp add: update_where_cong_id filter_empty_conv)
    with batch True none show ?thesis
      by (intro exI [of _ db] exI [of _ "[]"] exI [of _ i]) (auto simp: filter_empty_conv)
  next
    case False
    have less: "length (filter (unretried (pgs (Suc i)) cs) (event_queue ?db)) < fuel"
      using retry_batch_decreases [OF Suc.prems(1) mono refl False] Suc.prems(2) by simp
    have "queue_ok ?db" by (rule queue_ok_step [OF queue_step.retry [OF batch] Suc.prems(1)])
    from Suc.IH [OF this less] obtain db' counts j where IH: "retry_drain fuel s pgs done' selector (Suc i) ?db = Some (db', Inr counts)"
      "Suc i \<le> j" "\<forall>r \<in> set (event_queue db'). unretried (pgs j) cs r \<longrightarrow> pg_locked (pgs j) (q_event_id r)" by blast
    show ?thesis
      by (intro exI [of _ db'] exI [of _ "length ?hit # counts"] exI [of _ j])
        (use batch False alive [of i] IH in auto)
  qed
qed simp

section \<open>Firings of one transaction\<close>

definition fire_all :: "(int \<times> instant \<times> string) list \<Rightarrow> 64 word \<Rightarrow> string \<Rightarrow> string \<Rightarrow> string \<Rightarrow> trigger_tx \<Rightarrow> trigger_tx" where
  "fire_all rows txid listener stored op tx =
     fold (\<lambda>(eid, clock, payload). trigger_fire eid clock txid listener stored op payload) rows tx"

lemma fire_silent:
  assumes "tt_setting tx = Some v" "v \<noteq> []"
  shows "tt_notifications (fire_all rows txid listener stored op tx) = tt_notifications tx"
  using assms
proof (induction rows arbitrary: tx)
  case (Cons row rows)
  obtain eid clock payload where row: "row = (eid, clock, payload)" by (cases row)
  let ?tx = "trigger_fire eid clock txid listener stored op payload tx"
  have "tt_setting ?tx = Some v" "tt_notifications ?tx = tt_notifications tx"
    using Cons.prems by (simp_all add: trigger_fire_def Let_def)
  with Cons.IH [of ?tx] Cons.prems(2) row show ?case by (simp add: fire_all_def)
qed (simp add: fire_all_def)

lemma fire_ids:
  "map q_event_id (event_queue (tt_db (fire_all rows txid listener stored op tx))) =
     map q_event_id (event_queue (tt_db tx)) @ map fst rows"
proof (induction rows arbitrary: tx)
  case (Cons row rows)
  obtain eid clock payload where row: "row = (eid, clock, payload)" by (cases row)
  show ?case
    using Cons.IH [of "trigger_fire eid clock txid listener stored op payload tx"] row
    by (simp add: fire_all_def trigger_fire_db)
qed (simp add: fire_all_def)

lemma claim_select_all:
  assumes "length rows \<le> n" "r \<in> set rows" "claim_due pg r" "\<not> pg_locked pg (q_event_id r)"
  shows "r \<in> set (claim_select pg n rows)"
proof -
  have "length (filter p rows) \<le> n" for p using assms(1) by (rule order.trans [OF length_filter_le])
  with assms(2-4) show ?thesis by (simp add: claim_select_def)
qed

section \<open>Sample values for the witnesses\<close>

definition sample_source :: TriggerSource where
  "sample_source = \<lparr>src_pool = True, src_schema = ''noty'', src_LeasedBy = ''w1'', src_Lease = 60, src_closed = False\<rparr>"

definition sample_pg :: pg where
  "sample_pg = \<lparr>pg_now = 100, pg_clock = 100, pg_locked = (\<lambda>i. False), pg_returning = (\<lambda>is. is),
     pg_interval = (\<lambda>d. d), pg_sanitize = (\<lambda>ps. Join (map dquoted ps) ''.''), pg_fault = NoFault\<rparr>"

definition sample_event :: "int \<Rightarrow> event_row" where
  "sample_event i = \<lparr>e_id = i, e_listener = ''orders'', e_table_name = ''t'', e_operation = ''insert'',
     e_payload = ''{}'', e_txid = 7, e_occurred_at = i\<rparr>"

definition sample_row :: "int \<Rightarrow> queue_status \<Rightarrow> queue_row" where
  "sample_row i st = \<lparr>q_event_id = i, q_occurred_at = i, q_listener = ''orders'', q_status = st, q_attempts = 1,
     q_next_attempt_at = i, q_leased_until = (if st = Delivering then Some 90 else None),
     q_leased_by = (if st = Delivering then Some ''w1'' else None),
     q_dead_reason = (if st = Dead_status then Some ''HTTP status 400'' else None)\<rparr>"

definition sample_db :: db where
  "sample_db = \<lparr>events = [sample_event 1, sample_event 2, sample_event 3],
     event_queue = [sample_row 1 Pending, sample_row 2 Delivering, sample_row 3 Dead_status], deliveries = []\<rparr>"

lemmas sample_defs = sample_source_def sample_pg_def sample_event_def sample_row_def sample_db_def

lemma sample_facts:
  "queue_ok sample_db" "pg_laws sample_pg" "pg_fault sample_pg = NoFault" "source_ready sample_source"
  by (simp_all add: sample_defs queue_ok_def row_ok_def pg_laws_def source_ready_def WhyUnusable_OK NUL_def
      MaxIdentifierBytes_def)

lemma sample_room: "r \<in> set (event_queue sample_db) \<Longrightarrow> fits_int4 (q_attempts r + 1)"
  by (auto simp: sample_defs fits_int4_def)

section \<open>Properties\<close>






text \<open>C6. Whatever interleaving of enqueues, claims, settlements, sweeps and operator retries runs
  against an empty schema, with any fault at any round trip: queue ids stay unique, every queue row
  keeps its event in the log, a delivering row carries a lease, a reason exists exactly on dead
  rows, and there is one delivery row per attempt.\<close>

theorem reachable_queue_ok:
  "queue_run empty_db ops db \<Longrightarrow> queue_ok db"
  using queue_ok_run queue_ok_empty by blast

theorem reachable_queue_ok_witness:
  "queue_ok (tt_db (trigger_fire 1 5 0 ''orders'' ''t'' ''insert'' ''{}'' \<lparr>tt_db = empty_db, tt_setting = None, tt_notifications = 0\<rparr>))"
proof (rule reachable_queue_ok)
  show "queue_run empty_db ([] @ [OpEnqueue 1 5])
     (tt_db (trigger_fire 1 5 0 ''orders'' ''t'' ''insert'' ''{}'' \<lparr>tt_db = empty_db, tt_setting = None, tt_notifications = 0\<rparr>))"
    by (rule queue_run.snoc [OF queue_run.nil], rule queue_step.enqueue [OF _ refl]) (simp add: empty_db_def)
qed

text \<open>C3. Custody: a row delivering under an owner's lease is not changed by any sequence of other
  workers' claims and settlements, enqueues and sweeps that run before the lease expires; only the
  owner's settlement, an operator retry or a sweep after expiry can end it.\<close>

theorem lease_is_exclusive:
  assumes "queue_ok db" "queue_run db ops db'" "q \<in> set (event_queue db)"
    and "q_status q = Delivering" "q_leased_by q = Some owner" "q_leased_until q = Some until"
    and "list_all (honours owner until) ops"
  shows "q \<in> set (event_queue db')"
  by (rule leased_row_run [OF assms(2,1,3-7)])

theorem lease_is_exclusive_witness:
  "sample_row 2 Delivering \<in> set (event_queue (fst (Claim (sample_source\<lparr>src_LeasedBy := ''w2''\<rparr>) sample_pg 5 sample_db)))"
proof -
  let ?s = "sample_source\<lparr>src_LeasedBy := ''w2''\<rparr>"
  have "Claim ?s sample_pg 5 sample_db = (fst (Claim ?s sample_pg 5 sample_db), snd (Claim ?s sample_pg 5 sample_db))" by simp
  note run = queue_run.snoc [OF queue_run.nil queue_step.claim [OF this]]
  have q: "sample_row 2 Delivering \<in> set (event_queue sample_db)" by (simp add: sample_db_def)
  show ?thesis
    by (rule lease_is_exclusive [OF sample_facts(1) run q, of "''w1''" 90]) (simp_all add: sample_row_def)
qed

text \<open>C4. No event is lost: the log only grows, and an id leaves the queue only through an Ack of that
  event. Retries, dead letters, sweeps and failed transactions all keep the row.\<close>

theorem only_ack_removes:
  assumes "queue_run db ops db'"
  shows "prefix (events db) (events db') \<and>
    (\<forall>i \<in> q_event_id ` set (event_queue db) - q_event_id ` set (event_queue db').
      \<exists>s pg event delivery. OpAck s pg event delivery \<in> set ops \<and> ev_ID event = i)"
  using assms
proof (induction rule: queue_run.induct)
  case (snoc db ops db' op db'')
  have "prefix (events db) (events db'')"
    using snoc.IH step_log [OF snoc.hyps(2)] by (auto intro: prefix_order.trans)
  moreover have "\<exists>s pg event delivery. OpAck s pg event delivery \<in> set (ops @ [op]) \<and> ev_ID event = i"
    if "i \<in> q_event_id ` set (event_queue db)" "i \<notin> q_event_id ` set (event_queue db'')" for i
    using that snoc.IH step_loses [OF snoc.hyps(2), of i] by (cases "i \<in> q_event_id ` set (event_queue db')") fastforce+
  ultimately show ?case by blast
qed simp

theorem only_ack_removes_witness:
  "prefix (events sample_db) (events (fst (ReclaimExpired sample_source sample_pg sample_db)))"
proof -
  have "ReclaimExpired sample_source sample_pg sample_db =
    (fst (ReclaimExpired sample_source sample_pg sample_db), snd (ReclaimExpired sample_source sample_pg sample_db))" by simp
  from only_ack_removes [OF queue_run.snoc [OF queue_run.nil queue_step.reclaim [OF this]]] show ?thesis by blast
qed



text \<open>C7. An abandoned delivery recovers: once a lease has expired, one sweep followed by one large
  enough claim, by any worker, hands the event out again with the attempt charged exactly once.\<close>

theorem abandoned_event_is_redelivered:
  assumes ok: "queue_ok db" and ready: "source_ready s" and laws: "pg_laws pg" and fault: "pg_fault pg = NoFault"
    and free: "\<And>i. \<not> pg_locked pg i" and n: "length (event_queue db) \<le> nat n" "0 < n"
    and room: "\<And>r. r \<in> set (event_queue db) \<Longrightarrow> fits_int4 (q_attempts r + 1)"
    and q: "q \<in> set (event_queue db)" "lease_expired pg q" "q_next_attempt_at q \<le> pg_now pg"
  shows "\<exists>db' evs ev. Claim s pg n (fst (ReclaimExpired s pg db)) = (db', Inr evs) \<and> ev \<in> set evs \<and>
    ev_ID ev = q_event_id q \<and> ev_Attempt ev = q_attempts q + 1"
proof -
  let ?q1 = "update_where (lease_expired pg) reclaim_set (event_queue db)"
  define db1 where "db1 = db\<lparr>event_queue := ?q1\<rparr>"
  have rec: "ReclaimExpired s pg db = (db1, Inr (length (filter (lease_expired pg) (event_queue db))))"
    by (rule source_ready_table [OF ready service_tables_usable(1), of "pg_sanitize pg"])
      (simp add: ReclaimExpired_def source_ready_usable [OF ready] raise_if_def fault db1_def)
  have ok1: "queue_ok db1" by (rule queue_ok_step [OF queue_step.reclaim [OF rec] ok])
  define ids where "ids = map q_event_id (claim_select pg (nat n) (event_queue db1))"
  define db' where "db' = db1\<lparr>event_queue := claim_update s pg ids (event_queue db1)\<rparr>"
  define evs where "evs = readClaimedEvents db' (pg_returning pg ids)"
  have ret: "mset (pg_returning pg ids) = mset ids" using laws by (simp add: pg_laws_def)
  note read = claim_effect_events [OF ok1 ret ids_def db'_def, folded evs_def]
  have room1: "fits_int4 (q_attempts r + 1)" if "r \<in> set (event_queue db1)" for r
    using that room by (auto simp: db1_def set_update_where reclaim_set_def)
  have claim: "Claim s pg n db1 = (db', Inr evs)"
    unfolding evs_def
    by (rule source_ready_query [OF ready, of "pg_sanitize pg"])
      (rule Claim_ok [OF source_ready_usable [OF ready] _ n(2) fault room1 ids_def db'_def])
  have q1: "reclaim_set q \<in> set (event_queue db1)" using q(1,2) by (auto simp: db1_def set_update_where)
  have "claim_due pg (reclaim_set q)" using q(3) by (simp add: claim_due_def reclaim_set_def)
  moreover have "length ?q1 \<le> nat n" using n(1) by (simp add: update_where_def)
  ultimately have "reclaim_set q \<in> set (claim_select pg (nat n) (event_queue db1))"
    using q1 free by (intro claim_select_all) (simp_all add: db1_def)
  then have "q_event_id (reclaim_set q) \<in> set ids" unfolding ids_def set_map by (rule imageI)
  then have "q_event_id q \<in> set (map ev_ID evs)" unfolding read(1) by (simp add: mset_eq_setD [OF ret])
  then obtain ev where ev: "ev \<in> set evs" "ev_ID ev = q_event_id q" by auto
  from read(2) [OF ev(1)] obtain q' e where q': "q' \<in> set (event_queue db1)" "q_event_id q' = ev_ID ev"
    "ev = event_of e (claim_set s pg q')" using set_claim_select by blast
  then have "q' = reclaim_set q" using id_determines [OF queue_okD(1) [OF ok1] _ q1] ev(2) by simp
  with q'(3) have "ev_Attempt ev = q_attempts q + 1" by (simp add: event_of_def claim_set_def reclaim_set_def)
  with claim ev rec show ?thesis by auto
qed

theorem abandoned_event_is_redelivered_witness:
  "\<exists>db' evs ev. Claim sample_source sample_pg 5 (fst (ReclaimExpired sample_source sample_pg sample_db)) = (db', Inr evs) \<and>
    ev \<in> set evs \<and> ev_ID ev = 2 \<and> ev_Attempt ev = 2"
proof -
  have "sample_row 2 Delivering \<in> set (event_queue sample_db)" "lease_expired sample_pg (sample_row 2 Delivering)"
    "q_next_attempt_at (sample_row 2 Delivering) \<le> pg_now sample_pg" "length (event_queue sample_db) \<le> nat 5"
    "\<And>i. \<not> pg_locked sample_pg i"
    by (simp_all add: sample_defs lease_expired_def)
  with abandoned_event_is_redelivered [OF sample_facts(1,4,2,3), of 5 "sample_row 2 Delivering"] sample_room
  show ?thesis by (simp add: sample_row_def)
qed

text \<open>C10. The operator's drain loop terminates: with more fuel than there are selected rows not yet
  retried it returns, whatever rows other transactions hold locked, and at its last batch every
  selected row that is not locked has been reset to pending with no attempts and no dead reason.\<close>

theorem retry_drain_terminates:
  assumes "queue_ok db" "source_ready s" "\<And>i. pg_fault (pgs i) = NoFault" "\<And>i. pg_now (pgs i) \<le> pg_now (pgs (Suc i))"
    and sel: "sel_ID selector = None" "selectorPredicateQualified selector True = Inr cs" and "\<And>i. \<not> done' i"
    and fuel: "length (event_queue db) < fuel"
  shows "\<exists>db' counts j. events_retry fuel s pgs done' selector False db = Some (db', Inr counts) \<and>
    (\<forall>r \<in> set (event_queue db'). selector_holds cs r \<and> \<not> pg_locked (pgs j) (q_event_id r) \<longrightarrow> alreadyRetried (pgs j) r)"
proof -
  have "ValidateForRetry selector = Inr ()" using sel(2) by (simp add: selectorPredicateQualified_def)
  then have "events_retry fuel s pgs done' selector False db = retry_drain fuel s pgs done' selector 0 db"
    using sel(1) by (simp add: events_retry_def)
  moreover have "length (filter (unretried (pgs 0) cs) (event_queue db)) < fuel"
    using fuel by (rule order.strict_trans1 [OF length_filter_le])
  ultimately show ?thesis
    using retry_drain_ends [where pgs = pgs and done' = done' and i = 0 and fuel = fuel,
        OF assms(2,3) sel(2) assms(4,7) assms(1)] by (force simp: unretried_def)
qed

theorem retry_drain_terminates_witness:
  "\<exists>r. events_retry 4 sample_source (\<lambda>i. sample_pg) (\<lambda>i. False)
     \<lparr>sel_ID = None, sel_Listener = ''orders'', sel_Status = ''pending''\<rparr> False sample_db = Some r"
proof -
  let ?sel = "\<lparr>sel_ID = None, sel_Listener = ''orders'', sel_Status = ''pending''\<rparr>"
  have "selectorPredicateQualified ?sel True = Inr [ClauseListener ''orders'', ClauseStatus ''pending'']"
    by (simp add: selectorPredicateQualified_def ValidateForRetry_def validateStatus_def)
  moreover have "length (event_queue sample_db) < 4" by (simp add: sample_db_def)
  ultimately show ?thesis
    using retry_drain_terminates [OF sample_facts(1,4), of "\<lambda>i. sample_pg" ?sel _ "\<lambda>i. False" 4] sample_facts(3) by force
qed

text \<open>However many rows one customer transaction changes, the generated trigger enqueues one queue
  row per change and notifies exactly once, whether the setting is unset or was reset to the empty
  string by an earlier transaction of the session.\<close>

theorem one_notification_per_transaction:
  assumes "rows \<noteq> []" "tt_setting tx = None \<or> tt_setting tx = Some []"
  shows "tt_notifications (fire_all rows txid listener stored op tx) = tt_notifications tx + 1 \<and>
    map q_event_id (event_queue (tt_db (fire_all rows txid listener stored op tx))) =
      map q_event_id (event_queue (tt_db tx)) @ map fst rows"
proof -
  obtain eid clock payload rest where rows: "rows = (eid, clock, payload) # rest" using assms(1) by (cases rows) auto
  let ?tx = "trigger_fire eid clock txid listener stored op payload tx"
  have first: "tt_setting ?tx = Some ''1''" "tt_notifications ?tx = tt_notifications tx + 1"
    using assms(2) by (auto simp: trigger_fire_def Let_def)
  have "fire_all rows txid listener stored op tx = fire_all rest txid listener stored op ?tx"
    by (simp add: rows fire_all_def)
  then have "tt_notifications (fire_all rows txid listener stored op tx) = tt_notifications tx + 1"
    using fire_silent [OF first(1)] first(2) by simp
  then show ?thesis by (simp add: fire_ids)
qed

theorem one_notification_per_transaction_witness:
  "tt_notifications (fire_all [(1, 5, ''{}''), (2, 6, ''{}'')] 0 ''orders'' ''t'' ''insert''
     \<lparr>tt_db = empty_db, tt_setting = Some [], tt_notifications = 0\<rparr>) = 1"
  using one_notification_per_transaction [of "[(1, 5, ''{}''), (2, 6, ''{}'')]" "\<lparr>tt_db = empty_db, tt_setting = Some [], tt_notifications = 0\<rparr>"]
  by simp

end
