(* ===== verification/Queue_Refinement.thy ===== *)
theory Queue_Refinement
  imports Queue_Laws
begin

text \<open>
  What the queue promises about one event, as a machine with five states, and the proof that the tables
  implement it. \<open>life_of\<close> reads the state of an event off the log and the queue; \<open>life_step\<close> says
  which operation may move it where, and \<open>event_simulation\<close> is the forward simulation the two
  step relations are an instance of.
\<close>

section \<open>Forward simulation\<close>

text \<open>The abstract states between which a machine may pass under a list of operations, each of which may also
  leave it where it is.\<close>

fun run_path :: "('op \<Rightarrow> 'a \<Rightarrow> 'a \<Rightarrow> bool) \<Rightarrow> 'a \<Rightarrow> 'op list \<Rightarrow> 'a \<Rightarrow> bool" where
  "run_path step a [] b = (b = a)"
| "run_path step a (op # ops) b = (\<exists>m. (m = a \<or> step op a m) \<and> run_path step m ops b)"

lemma run_path_snoc: "run_path step a ops m \<Longrightarrow> b = m \<or> step op m b \<Longrightarrow> run_path step a (ops @ [op]) b"
  by (induction ops arbitrary: a) auto

lemma run_path_keeps:
  assumes "run_path step a ops b" "P a" "\<And>op x y. op \<in> set ops \<Longrightarrow> step op x y \<Longrightarrow> P x \<Longrightarrow> P y"
  shows "P b"
  using assms
proof (induction ops arbitrary: a)
  case (Cons op ops)
  then obtain m where m: "m = a \<or> step op a m" "run_path step m ops b" by auto
  moreover have "P m" using m(1) Cons.prems(2,3) by auto
  ultimately show ?case using Cons.IH [of m] Cons.prems(3) by (meson list.set_intros(2))
qed simp

locale event_simulation =
  fixes concrete :: "'op \<Rightarrow> 's \<Rightarrow> 's \<Rightarrow> bool" and abstract :: "'op \<Rightarrow> 'a \<Rightarrow> 'a \<Rightarrow> bool"
    and inv :: "'s \<Rightarrow> bool" and abs :: "'s \<Rightarrow> 'a"
  assumes inv_step: "concrete op s s' \<Longrightarrow> inv s \<Longrightarrow> inv s'"
    and abs_step: "concrete op s s' \<Longrightarrow> inv s \<Longrightarrow> abs s' = abs s \<or> abstract op (abs s) (abs s')"
begin

inductive run :: "'s \<Rightarrow> 'op list \<Rightarrow> 's \<Rightarrow> bool" where
  run_nil: "run s [] s"
| run_snoc: "run s ops s' \<Longrightarrow> concrete op s' s'' \<Longrightarrow> run s (ops @ [op]) s''"

lemma run_simulates:
  assumes "run s ops s'" "inv s"
  shows "inv s' \<and> run_path abstract (abs s) ops (abs s')"
  using assms
proof (induction rule: run.induct)
  case (run_snoc s ops s' op s'')
  then show ?case using inv_step abs_step run_path_snoc by metis
qed simp

end

section \<open>The life of an event\<close>

datatype life =
    Unseen
  | Waiting int
  | Leased string int
  | Buried int
  | Delivered

definition life_of_row :: "queue_row \<Rightarrow> life" where
  "life_of_row r = (case q_status r of
       Pending \<Rightarrow> Waiting (q_attempts r)
     | Delivering \<Rightarrow> Leased (case q_leased_by r of None \<Rightarrow> [] | Some w \<Rightarrow> w) (q_attempts r)
     | Dead_status \<Rightarrow> Buried (q_attempts r))"

definition life_of :: "int \<Rightarrow> db \<Rightarrow> life" where
  "life_of i db = (case find (\<lambda>r. q_event_id r = i) (event_queue db) of
       Some r \<Rightarrow> life_of_row r
     | None \<Rightarrow> if i \<in> e_id ` set (events db) then Delivered else Unseen)"

inductive life_step :: "int \<Rightarrow> queue_op \<Rightarrow> life \<Rightarrow> life \<Rightarrow> bool" for i where
  recorded: "life_step i (OpEnqueue i clock) Unseen (Waiting 0)"
| leased: "life_step i (OpClaim s pg n) (Waiting k) (Leased (src_LeasedBy s) (k + 1))"
| acknowledged: "ev_ID event = i \<Longrightarrow> life_step i (OpAck s pg event delivery) (Leased (src_LeasedBy s) k) Delivered"
| refused: "ev_ID event = i \<Longrightarrow>
    life_step i (OpNack s pg now event delivery retryAt) (Leased (src_LeasedBy s) k) (Waiting k)"
| buried: "ev_ID event = i \<Longrightarrow>
    life_step i (OpDead s pg event delivery reason) (Leased (src_LeasedBy s) k) (Buried k)"
| expired: "life_step i (OpReclaim s pg) (Leased w k) (Waiting k)"
| retried: "x \<noteq> Unseen \<Longrightarrow> x \<noteq> Delivered \<Longrightarrow> life_step i (OpRetry s pg selector limit) x (Waiting 0)"

inductive_simps life_step_simps [simp]:
  "life_step i (OpEnqueue j clock) x y" "life_step i (OpClaim s pg n) x y" "life_step i (OpAck s pg event delivery) x y"
  "life_step i (OpNack s pg now event delivery retryAt) x y" "life_step i (OpDead s pg event delivery reason) x y"
  "life_step i (OpReclaim s pg) x y" "life_step i (OpRetry s pg selector limit) x y"


lemma find_key:
  assumes "distinct (map q_event_id rows)" "r \<in> set rows"
  shows "find (\<lambda>x. q_event_id x = q_event_id r) rows = Some r"
  using assms by (induction rows) (auto simp: image_iff)

lemma life_of_present: "queue_ok db \<Longrightarrow> r \<in> set (event_queue db) \<Longrightarrow> life_of (q_event_id r) db = life_of_row r"
  by (simp add: life_of_def find_key queue_okD(1))

lemma life_of_absent:
  "i \<notin> q_event_id ` set (event_queue db) \<Longrightarrow> life_of i db = (if i \<in> e_id ` set (events db) then Delivered else Unseen)"
  by (auto simp: life_of_def split: option.splits dest!: find_Some_iff [THEN iffD1] intro: nth_mem)

lemma queued_is_logged: "queue_ok db \<Longrightarrow> r \<in> set (event_queue db) \<Longrightarrow> q_event_id r \<in> e_id ` set (events db)"
  by (fastforce simp: queue_ok_def)

text \<open>An update of the queue moves exactly the rows its predicate holds for.\<close>

lemma life_of_updated:
  assumes ok: "queue_ok db" "queue_ok db'" and log: "events db' = events db"
    and rows: "event_queue db' = update_where p f (event_queue db)" and keys: "\<And>r. q_event_id (f r) = q_event_id r"
  shows "life_of i db' = life_of i db \<or>
    (\<exists>r \<in> set (event_queue db). q_event_id r = i \<and> p r \<and> life_of i db = life_of_row r \<and> life_of i db' = life_of_row (f r))"
proof (cases "i \<in> q_event_id ` set (event_queue db)")
  case False
  then have "i \<notin> q_event_id ` set (event_queue db')" using keys by (simp add: rows set_keys_update)
  with False show ?thesis by (simp add: life_of_absent log)
next
  case True
  then obtain r where r: "r \<in> set (event_queue db)" "i = q_event_id r" by auto
  have "(if p r then f r else r) \<in> set (event_queue db')" using r(1) by (auto simp: rows update_where_def)
  from life_of_present [OF ok(2) this] have "life_of i db' = life_of_row (if p r then f r else r)"
    using keys r(2) by (simp split: if_splits)
  with life_of_present [OF ok(1) r(1)] r show ?thesis by auto
qed

lemma life_of_settled: "life_of i (settled pg event delivery rows db) = life_of i (db\<lparr>event_queue := rows\<rparr>)"
  by (simp add: life_of_def settled_def)

lemma life_of_settled_update:
  assumes "queue_ok db" "queue_ok (settled pg event delivery (update_where p f (event_queue db)) db)"
    "\<And>r. q_event_id (f r) = q_event_id r"
  shows "life_of i (settled pg event delivery (update_where p f (event_queue db)) db) = life_of i db \<or>
    (\<exists>r \<in> set (event_queue db). q_event_id r = i \<and> p r \<and> life_of i db = life_of_row r \<and>
       life_of i (settled pg event delivery (update_where p f (event_queue db)) db) = life_of_row (f r))"
  by (rule life_of_updated [OF assms(1,2) _ _ assms(3)]) (simp_all add: settled_def)

lemma life_of_claimed: "claimed_by s i r \<Longrightarrow> life_of_row r = Leased (src_LeasedBy s) (q_attempts r)"
  by (simp add: claimed_by_def life_of_row_def)

lemma life_of_row_effects [simp]:
  "life_of_row (claim_set s pg r) = Leased (src_LeasedBy s) (q_attempts r + 1)"
  "life_of_row (nack_set pg d r) = Waiting (q_attempts r)"
  "life_of_row (dead_set w r) = Buried (q_attempts r)"
  "life_of_row (reclaim_set r) = Waiting (q_attempts r)"
  "life_of_row (retry_set pg r) = Waiting 0"
  by (simp_all add: life_of_row_def row_effects)

lemma life_of_row_queued [simp]: "life_of_row r \<noteq> Unseen" "life_of_row r \<noteq> Delivered"
  by (simp_all add: life_of_row_def split: queue_status.splits)

lemma life_of_pending: "q_status r = Pending \<Longrightarrow> life_of_row r = Waiting (q_attempts r)"
  by (simp add: life_of_row_def)

lemma life_enqueue:
  assumes ok: "queue_ok (tt_db tx)" and new: "eid \<notin> e_id ` set (events (tt_db tx))"
  shows "life_of i (tt_db (trigger_fire eid clock txid listener stored op payload tx)) = life_of i (tt_db tx) \<or>
    life_step i (OpEnqueue eid clock) (life_of i (tt_db tx))
      (life_of i (tt_db (trigger_fire eid clock txid listener stored op payload tx)))"
proof (cases "i = eid")
  case True
  then have "i \<notin> q_event_id ` set (event_queue (tt_db tx))" using queued_is_logged [OF ok] new by blast
  then have "find (\<lambda>r. q_event_id r = i) (event_queue (tt_db tx)) = None" by (auto simp: find_None_iff)
  with True new show ?thesis
    by (simp add: trigger_fire_db life_of_def life_of_row_def find_append split: option.splits)
next
  case False
  then show ?thesis by (simp add: trigger_fire_db life_of_def find_append split: option.splits)
qed

lemma life_claim:
  assumes ok: "queue_ok db" and call: "Claim s pg n db = (db', r)"
  shows "life_of i db' = life_of i db \<or> life_step i (OpClaim s pg n) (life_of i db) (life_of i db')"
proof -
  let ?sel = "claim_select pg (nat n) (event_queue db)"
  let ?new = "db\<lparr>event_queue := claim_update s pg (map q_event_id ?sel) (event_queue db)\<rparr>"
  consider "db' = db" | "db' = ?new" using Claim_result [OF call] by auto
  then show ?thesis
  proof cases
    case 2
    have "life_of i ?new = life_of i db \<or>
      (\<exists>q \<in> set (event_queue db). q_event_id q = i \<and> q_event_id q \<in> set (map q_event_id ?sel) \<and>
         life_of i db = life_of_row q \<and> life_of i ?new = life_of_row (claim_set s pg q))"
      by (rule life_of_updated [OF ok queue_ok_claim [OF ok]]) (simp_all add: claim_update_def)
    moreover have "q_status q = Pending" if "q \<in> set (event_queue db)" "q_event_id q \<in> set (map q_event_id ?sel)" for q
    proof -
      have "q \<in> set ?sel"
        using selected_iff [OF queue_okD(1) [OF ok] _ that(1)] that(2) set_claim_select by blast
      then show ?thesis using set_claim_select by (auto simp: claim_due_def)
    qed
    ultimately show ?thesis unfolding 2 by (auto simp: life_of_pending)
  qed simp
qed

lemma life_ack:
  assumes ok: "queue_ok db" and call: "Ack s pg event delivery db = (db', r)"
  shows "life_of i db' = life_of i db \<or> life_step i (OpAck s pg event delivery) (life_of i db) (life_of i db')"
  using Ack_result [OF call]
proof (elim disjE conjE)
  let ?rows = "filter (\<lambda>q. \<not> claimed_by s (ev_ID event) q) (event_queue db)"
  assume new: "db' = settled pg event delivery ?rows db"
  have ok': "queue_ok (db\<lparr>event_queue := ?rows\<rparr>)" using ok by (rule queue_ok_filter)
  have life': "life_of i db' = life_of i (db\<lparr>event_queue := ?rows\<rparr>)" unfolding new by (rule life_of_settled)
  show ?thesis
  proof (cases "\<exists>q \<in> set (event_queue db). q_event_id q = i")
    case False
    then have "life_of i (db\<lparr>event_queue := ?rows\<rparr>) = life_of i db" by (subst (1 2) life_of_absent) auto
    with life' show ?thesis by simp
  next
    case True
    then obtain q where q: "q \<in> set (event_queue db)" "i = q_event_id q" by auto
    show ?thesis
    proof (cases "claimed_by s (ev_ID event) q")
      case True
      then have i: "i = ev_ID event" using q(2) by (simp add: claimed_by_def)
      have "i \<notin> q_event_id ` set ?rows"
        using True id_determines [OF queue_okD(1) [OF ok] q(1)] q(2) by auto
      then have "life_of i db' = Delivered"
        using queued_is_logged [OF ok q(1)] unfolding q(2) by (simp add: life' [unfolded q(2)] life_of_absent)
      moreover have "life_of i db = Leased (src_LeasedBy s) (q_attempts q)"
        using life_of_present [OF ok q(1)] life_of_claimed [OF True] q(2) by simp
      ultimately show ?thesis using i by simp
    next
      case False
      with q(1) have "q \<in> set (event_queue (db\<lparr>event_queue := ?rows\<rparr>))" by simp
      from life_of_present [OF ok' this] life_of_present [OF ok q(1)] show ?thesis by (simp add: life' [unfolded q(2)] q(2))
    qed
  qed
qed simp

lemma life_settled_update:
  assumes ok: "queue_ok db" and keys: "\<And>r. q_event_id (f r) = q_event_id r" "\<And>r. q_occurred_at (f r) = q_occurred_at r"
    and kept: "\<And>r. row_ok r \<Longrightarrow> claimed_by s (ev_ID event) r \<Longrightarrow> row_ok (f r)"
    and new: "db' = settled pg event delivery (update_where (claimed_by s (ev_ID event)) f (event_queue db)) db"
  shows "life_of i db' = life_of i db \<or>
    (\<exists>r. i = ev_ID event \<and> life_of i db = Leased (src_LeasedBy s) (q_attempts r) \<and> life_of i db' = life_of_row (f r))"
proof -
  let ?p = "claimed_by s (ev_ID event)"
  have "queue_ok db'" unfolding new by (rule queue_ok_settled_update [OF ok keys kept])
  with life_of_settled_update [of db pg event delivery ?p f i] ok keys
  have "life_of i db' = life_of i db \<or> (\<exists>r \<in> set (event_queue db). q_event_id r = i \<and> ?p r \<and>
      life_of i db = life_of_row r \<and> life_of i db' = life_of_row (f r))"
    unfolding new by blast
  then show ?thesis using life_of_claimed [of s "ev_ID event"] by (auto simp: claimed_by_def)
qed

lemma life_nack:
  assumes "queue_ok db" "Nack s pg now event delivery retryAt db = (db', r)"
  shows "life_of i db' = life_of i db \<or> life_step i (OpNack s pg now event delivery retryAt) (life_of i db) (life_of i db')"
  using Nack_result [OF assms(2)] assms(1)
    life_settled_update [of db "nack_set pg (retryDelay now retryAt)" s event db' pg delivery i]
  by (auto simp: row_ok_effects claimed_by_def)

lemma life_dead:
  assumes "queue_ok db" "Dead s pg event delivery reason db = (db', r)"
  shows "life_of i db' = life_of i db \<or> life_step i (OpDead s pg event delivery reason) (life_of i db) (life_of i db')"
  using Dead_result [OF assms(2)] assms(1)
    life_settled_update [of db "dead_set (storableText reason)" s event db' pg delivery i]
  by (auto simp: row_ok_effects)

lemma life_reclaim:
  assumes ok: "queue_ok db" and call: "ReclaimExpired s pg db = (db', r)"
  shows "life_of i db' = life_of i db \<or> life_step i (OpReclaim s pg) (life_of i db) (life_of i db')"
proof -
  have "queue_ok db'" using queue_ok_step [OF queue_step.reclaim [OF call] ok] .
  moreover have "life_of_row q = Leased w (q_attempts q) \<longleftrightarrow> w = (case q_leased_by q of None \<Rightarrow> [] | Some w \<Rightarrow> w)"
    if "lease_expired pg q" for q w
    using that by (auto simp: lease_expired_def life_of_row_def)
  ultimately show ?thesis
    using Reclaim_result [OF call] life_of_updated [OF ok, of db' "lease_expired pg" reclaim_set i] by fastforce
qed

lemma life_retry:
  assumes ok: "queue_ok db" and call: "RetryBatch s pg selector limit db = (db', r)"
  shows "life_of i db' = life_of i db \<or> life_step i (OpRetry s pg selector limit) (life_of i db) (life_of i db')"
proof -
  have "queue_ok db'" using queue_ok_step [OF queue_step.retry [OF call] ok] .
  with Retry_result [OF call] life_of_updated [OF ok, of db' _ "retry_set pg" i] show ?thesis by fastforce
qed

lemma life_simulates:
  assumes "queue_step op db db'" "queue_ok db"
  shows "life_of i db' = life_of i db \<or> life_step i op (life_of i db) (life_of i db')"
  using assms
proof (cases rule: queue_step.cases)
  case (enqueue eid tx setting k clock txid listener stored op payload)
  then show ?thesis using life_enqueue [of tx eid i clock] assms(2) by auto
qed (use assms(2) life_claim life_ack life_nack life_dead life_reclaim life_retry in metis)+

interpretation life: event_simulation queue_step "life_step i" queue_ok "life_of i" for i
  by unfold_locales (rule queue_ok_step, assumption+, rule life_simulates)

lemma run_is_queue_run: "queue_run db ops db' \<Longrightarrow> life.run db ops db'"
  by (induction rule: queue_run.induct) (auto intro: life.run.intros)

lemma delivered_is_final: "life_step i op x y \<Longrightarrow> x \<noteq> Delivered"
  by (induction rule: life_step.induct) auto

text \<open>C8. The service tables refine the life of an event: along every interleaving of enqueues, claims,
  settlements, sweeps and retries, faults included, the state of each event follows the abstract machine step by
  step, so that a worker settles only what it leases, a lease charges exactly one attempt, and an acknowledged
  event is never queued again.\<close>

theorem tables_refine_event_life:
  assumes "queue_run db ops db'" "queue_ok db"
  shows "run_path (life_step i) (life_of i db) ops (life_of i db') \<and>
    (life_of i db = Delivered \<longrightarrow> life_of i db' = Delivered)"
proof
  show path: "run_path (life_step i) (life_of i db) ops (life_of i db')"
    using life.run_simulates [OF run_is_queue_run [OF assms(1)] assms(2)] by simp
  show "life_of i db = Delivered \<longrightarrow> life_of i db' = Delivered"
    using run_path_keeps [OF path, of "\<lambda>x. x = Delivered"] delivered_is_final by metis
qed

theorem tables_refine_event_life_witness:
  "run_path (life_step 1) (Waiting 1) [OpClaim sample_source sample_pg 5]
     (life_of 1 (fst (Claim sample_source sample_pg 5 sample_db)))"
proof -
  let ?db' = "fst (Claim sample_source sample_pg 5 sample_db)"
  have "Claim sample_source sample_pg 5 sample_db = (?db', snd (Claim sample_source sample_pg 5 sample_db))" by simp
  note run = queue_run.snoc [OF queue_run.nil queue_step.claim [OF this]]
  have "life_of 1 sample_db = Waiting 1" by (simp add: sample_defs life_of_def life_of_row_def)
  with tables_refine_event_life [OF run sample_facts(1), of 1] show ?thesis by simp
qed

end
