(* ===== verification/Worker.thy ===== *)
theory Worker
  imports Event_Queue "HOL-Library.AList"
begin

text \<open>
  The delivery worker of \<open>internal/delivery\<close>: its semaphores (\<open>semaphore.go\<close>), the claim cycle
  (\<open>worker.go\<close>), round-robin admission (\<open>dispatch.go\<close>, \<open>ports.go\<close>), locally held events (\<open>hold.go\<close>),
  the settlement of an attempt (\<open>record.go\<close>) and the drain (\<open>drain.go\<close>). The worker's mutable fields
  are one record and every method is a function on it. A delivery goroutine is represented by the
  event being tracked; \<open>finish_delivery\<close> is its deferred tail, taken at any later time. Go ranges over
  maps in an unspecified order; the model keeps such maps as association lists and ranges over
  them in list order, which is one of the orders Go may take.
\<close>

section \<open>Semaphores\<close>

record semaphore =
  sem_used :: nat
  sem_cap :: nat

definition newSemaphore :: "int \<Rightarrow> semaphore" where
  "newSemaphore capacity = \<lparr>sem_used = 0, sem_cap = nat (if capacity \<le> 0 then 1 else capacity)\<rparr>"

text \<open>A nil semaphore (\<open>None\<close>) always admits.\<close>

fun tryAcquire :: "semaphore option \<Rightarrow> bool \<times> semaphore option" where
  "tryAcquire None = (True, None)"
| "tryAcquire (Some s) =
     (if sem_used s < sem_cap s then (True, Some (s\<lparr>sem_used := sem_used s + 1\<rparr>)) else (False, Some s))"

text \<open>A release with no slot taken is ignored.\<close>

fun release :: "semaphore option \<Rightarrow> semaphore option" where
  "release None = None"
| "release (Some s) = Some (s\<lparr>sem_used := sem_used s - 1\<rparr>)"

fun hasCapacity :: "semaphore option \<Rightarrow> bool" where
  "hasCapacity None = True"
| "hasCapacity (Some s) = (sem_used s < sem_cap s)"

section \<open>The port a worker consumes\<close>

record 'st port =
  port_Claim :: "int \<Rightarrow> 'st \<Rightarrow> 'st \<times> (source_error + Event list)"
  port_Ack :: "Event \<Rightarrow> Delivery \<Rightarrow> 'st \<Rightarrow> 'st \<times> (source_error + unit)"
  port_Nack :: "Event \<Rightarrow> Delivery \<Rightarrow> instant \<Rightarrow> 'st \<Rightarrow> 'st \<times> (source_error + unit)"
  port_Dead :: "Event \<Rightarrow> Delivery \<Rightarrow> string \<Rightarrow> 'st \<Rightarrow> 'st \<times> (source_error + unit)"
  port_ReclaimExpired :: "'st \<Rightarrow> 'st \<times> (source_error + nat)"

section \<open>Configuration and state\<close>

text \<open>\<open>errors.Join\<close> keeps the non-nil errors in order: a joined error is a list.\<close>

datatype drain_error = ErrDrainTimedOut | ReleaseFailed source_error

record ListenerConfig =
  lc_Name :: string
  lc_URL :: string
  lc_Method :: string
  lc_Headers :: "(string \<times> string) list"
  lc_Secrets :: "string list"
  lc_Policy :: Policy
  lc_Concurrency :: int
  lc_MaxPayloadBytes :: int

record WorkerConfig =
  wc_BatchSize :: int
  wc_GlobalConcurrency :: int
  wc_PollInterval :: duration
  wc_LeaseTimeout :: duration
  wc_DrainTimeout :: duration
  wc_Listeners :: "ListenerConfig list"

record listenerState =
  ls_config :: ListenerConfig
  ls_sem :: "semaphore option"

record Worker =
  w_config :: WorkerConfig
  w_global :: semaphore
  w_listeners :: "(string \<times> listenerState) list"
  w_order :: "string list"
  w_inFlight :: "(int \<times> nat) list"
  w_activity :: "(int \<times> Event list) list"
  w_stopping :: bool
  w_releaseErr :: "drain_error list"
  w_pending :: "(string \<times> Event list) list"
  w_held :: "(int \<times> instant) list"

definition add_listener :: "(string \<times> listenerState) list \<times> string list \<Rightarrow> ListenerConfig
    \<Rightarrow> (string \<times> listenerState) list \<times> string list" where
  "add_listener acc listener =
     (case acc of (ls, order) \<Rightarrow>
        if lc_Name listener = [] then (ls, order)
        else if map_of ls (lc_Name listener) \<noteq> None then (ls, order)
        else (AList.update (lc_Name listener)
                \<lparr>ls_config = listener,
                 ls_sem = (if lc_Concurrency listener > 0 then Some (newSemaphore (lc_Concurrency listener)) else None)\<rparr> ls,
              order @ [lc_Name listener]))"

definition NewWorker :: "WorkerConfig \<Rightarrow> Worker" where
  "NewWorker config0 =
     (let config = config0\<lparr>wc_BatchSize := (if wc_BatchSize config0 \<le> 0 then 1 else wc_BatchSize config0),
            wc_GlobalConcurrency := (if wc_GlobalConcurrency config0 \<le> 0 then 1 else wc_GlobalConcurrency config0)\<rparr>;
          (listeners, order) = foldl add_listener ([], []) (wc_Listeners config)
      in \<lparr>w_config = config, w_global = newSemaphore (wc_GlobalConcurrency config), w_listeners = listeners,
          w_order = order, w_inFlight = [], w_activity = [], w_stopping = False, w_releaseErr = [],
          w_pending = [], w_held = []\<rparr>)"

definition InFlight :: "Worker \<Rightarrow> nat" where
  "InFlight w = sum_list (map snd (w_inFlight w))"

section \<open>Settlement\<close>

fun swallowLateClaim :: "source_error + unit \<Rightarrow> source_error + unit" where
  "swallowLateClaim (Inl ErrEventNotClaimed) = Inr ()"
| "swallowLateClaim r = r"

definition settleAck :: "'st port \<Rightarrow> Event \<Rightarrow> Delivery \<Rightarrow> 'st \<Rightarrow> 'st \<times> (source_error + unit)" where
  "settleAck p event delivery st = map_prod id swallowLateClaim (port_Ack p event delivery st)"

definition settleNack :: "'st port \<Rightarrow> Event \<Rightarrow> Delivery \<Rightarrow> instant \<Rightarrow> 'st \<Rightarrow> 'st \<times> (source_error + unit)" where
  "settleNack p event delivery retryAt st = map_prod id swallowLateClaim (port_Nack p event delivery retryAt st)"

definition settleDead :: "'st port \<Rightarrow> Event \<Rightarrow> Delivery \<Rightarrow> string \<Rightarrow> 'st \<Rightarrow> 'st \<times> (source_error + unit)" where
  "settleDead p event delivery reason st = map_prod id swallowLateClaim (port_Dead p event delivery reason st)"

definition deliveryError :: "Delivery \<Rightarrow> string option" where
  "deliveryError delivery = (if dl_Err delivery = [] then None else Some (dl_Err delivery))"

text \<open>A response is its status code and its Retry-After header.\<close>

record response =
  rs_StatusCode :: int
  rs_RetryAfter :: string

definition responseStatus :: "response option \<Rightarrow> int" where
  "responseStatus r = (case r of None \<Rightarrow> 0 | Some x \<Rightarrow> rs_StatusCode x)"

definition classifyAttempt :: "Event \<Rightarrow> Policy \<Rightarrow> response option \<Rightarrow> Delivery \<Rightarrow> Outcome" where
  "classifyAttempt event policy response delivery =
     (let outcome = (case response of
            Some r \<Rightarrow> if dl_Err delivery = [] then ClassifyStatus (rs_StatusCode r) else ClassifyError (deliveryError delivery)
          | None \<Rightarrow> ClassifyError (deliveryError delivery))
      in if outcome = OutcomeRetryable \<and> \<not> ShouldRetry policy (ev_Attempt event) outcome then OutcomeTerminal else outcome)"

definition terminal_reason :: "Delivery \<Rightarrow> string" where
  "terminal_reason delivery =
     (if dl_Err delivery \<noteq> [] then dl_Err delivery
      else if dl_HTTPStatus delivery \<ge> 300 \<and> dl_HTTPStatus delivery \<le> 399
           then ''HTTP redirect status '' @ FormatInt (dl_HTTPStatus delivery)
      else ''HTTP status '' @ FormatInt (dl_HTTPStatus delivery))"

definition recordResult :: "'st port \<Rightarrow> (string \<Rightarrow> instant option) \<Rightarrow> jitter \<Rightarrow> instant \<Rightarrow> Event \<Rightarrow> Policy
    \<Rightarrow> response option \<Rightarrow> Delivery \<Rightarrow> 'st \<Rightarrow> 'st \<times> (source_error + unit)" where
  "recordResult p parseTime draw clockNow event policy response delivery0 st =
     (let delivery = delivery0\<lparr>dl_Snippet := TruncateSnippet (dl_Snippet delivery0)\<rparr>;
          outcome = classifyAttempt event policy response delivery
      in case outcome of
           OutcomeSuccess \<Rightarrow> settleAck p event delivery st
         | OutcomeRetryable \<Rightarrow>
             (let retryAfter = (case response of
                    None \<Rightarrow> 0
                  | Some r \<Rightarrow> (case ParseRetryAfter parseTime (rs_RetryAfter r) clockNow of None \<Rightarrow> 0 | Some d \<Rightarrow> d))
              in settleNack p event delivery (clockNow + DelayAfter policy (ev_Attempt event) retryAfter draw) st)
         | OutcomeTerminal \<Rightarrow> settleDead p event delivery (terminal_reason delivery) st)"

section \<open>Tracking\<close>

text \<open>Appending to a map of slices.\<close>

definition append_to :: "'k \<Rightarrow> 'v \<Rightarrow> ('k \<times> 'v list) list \<Rightarrow> ('k \<times> 'v list) list" where
  "append_to k v m = AList.update k ((case map_of m k of None \<Rightarrow> [] | Some vs \<Rightarrow> vs) @ [v]) m"

definition finish :: "int \<Rightarrow> Worker \<Rightarrow> Worker" where
  "finish i w =
     (let n = (case map_of (w_inFlight w) i of None \<Rightarrow> 0 | Some c \<Rightarrow> c)
      in w\<lparr>w_inFlight := (if n \<le> 1 then AList.delete i (w_inFlight w) else AList.update i (n - 1) (w_inFlight w))\<rparr>)"

definition activity_of :: "Worker \<Rightarrow> int \<Rightarrow> Event list" where
  "activity_of w i = (case map_of (w_activity w) i of None \<Rightarrow> [] | Some es \<Rightarrow> es)"

definition track :: "Event \<Rightarrow> Worker \<Rightarrow> bool \<times> Worker" where
  "track event w =
     (if w_stopping w then (False, w)
      else (True, w\<lparr>w_activity := append_to (ev_ID event) event (w_activity w)\<rparr>))"

definition untrack :: "Event \<Rightarrow> Worker \<Rightarrow> Worker" where
  "untrack event w =
     (let queued = activity_of w (ev_ID event);
          w' = w\<lparr>w_activity := (if length queued \<le> 1 then AList.delete (ev_ID event) (w_activity w)
                              else AList.update (ev_ID event) (tl queued) (w_activity w))\<rparr>
      in finish (ev_ID event) w')"

definition set_sem :: "string \<Rightarrow> semaphore option \<Rightarrow> Worker \<Rightarrow> Worker" where
  "set_sem name sem w =
     (case map_of (w_listeners w) name of
        None \<Rightarrow> w
      | Some ls \<Rightarrow> w\<lparr>w_listeners := AList.update name (ls\<lparr>ls_sem := sem\<rparr>) (w_listeners w)\<rparr>)"

definition release_global :: "Worker \<Rightarrow> Worker" where
  "release_global w = w\<lparr>w_global := the (release (Some (w_global w)))\<rparr>"

definition release_listener :: "string \<Rightarrow> Worker \<Rightarrow> Worker" where
  "release_listener name w =
     (case map_of (w_listeners w) name of None \<Rightarrow> w | Some ls \<Rightarrow> set_sem name (release (ls_sem ls)) w)"

text \<open>The deferred tail of a delivery goroutine: untrack, then the listener's slot, then the global one.\<close>

definition finish_delivery :: "Event \<Rightarrow> Worker \<Rightarrow> Worker" where
  "finish_delivery event w = release_global (release_listener (ev_Listener event) (untrack event w))"

section \<open>Held events\<close>

definition by_listener :: "Event list \<Rightarrow> (string \<times> Event list) list" where
  "by_listener evs = foldl (\<lambda>m e. append_to (ev_Listener e) e m) [] evs"

definition takePending :: "Worker \<Rightarrow> Event list \<times> Worker" where
  "takePending w = (concat (map snd (w_pending w)), w\<lparr>w_pending := []\<rparr>)"

fun releaseHeld :: "'st port \<Rightarrow> instant \<Rightarrow> Event list \<Rightarrow> int list \<Rightarrow> drain_error list \<Rightarrow> 'st
    \<Rightarrow> 'st \<times> int list \<times> drain_error list" where
  "releaseHeld p now [] seen errs st = (st, [], errs)"
| "releaseHeld p now (event # evs) seen errs st =
     (if ev_ID event \<in> set seen then releaseHeld p now evs seen errs st
      else let seen' = ev_ID event # seen;
               delivery = \<lparr>dl_HTTPStatus = 0, dl_Snippet = [], dl_Err = ''delivery worker drain'', dl_Duration = 0\<rparr>
           in case port_Nack p event delivery now st of
                (st', Inl ErrEventNotClaimed) \<Rightarrow> releaseHeld p now evs seen' errs st'
              | (st', Inl e) \<Rightarrow> releaseHeld p now evs seen' (errs @ [ReleaseFailed e]) st'
              | (st', Inr _) \<Rightarrow>
                  (case releaseHeld p now evs seen' errs st' of
                     (st'', released, errs') \<Rightarrow> (st'', ev_ID event # released, errs')))"

definition hold_one :: "instant \<Rightarrow> string \<Rightarrow> Event \<Rightarrow> Worker \<Rightarrow> Worker" where
  "hold_one now name event w =
     w\<lparr>w_held := (if map_of (w_held w) (ev_ID event) = None then AList.update (ev_ID event) now (w_held w) else w_held w),
       w_pending := append_to name event (w_pending w)\<rparr>"

definition retainPending :: "'st port \<Rightarrow> instant \<Rightarrow> (string \<times> Event list) list \<Rightarrow> Worker \<Rightarrow> 'st \<Rightarrow> Worker \<times> 'st" where
  "retainPending p now queues w st =
     (if w_stopping w then
        (case releaseHeld p now (concat (map snd queues)) [] [] st of
           (st', released, errs) \<Rightarrow> (w\<lparr>w_releaseErr := w_releaseErr w @ errs\<rparr>, st'))
      else (fold (\<lambda>(name, queued). fold (hold_one now name) queued) queues w, st))"

definition retainEvents :: "'st port \<Rightarrow> instant \<Rightarrow> Event list \<Rightarrow> Worker \<Rightarrow> 'st \<Rightarrow> Worker \<times> 'st" where
  "retainEvents p now evs w st = retainPending p now (by_listener evs) w st"

definition releaseHold :: "Event \<Rightarrow> Worker \<Rightarrow> Worker" where
  "releaseHold event w = w\<lparr>w_held := AList.delete (ev_ID event) (w_held w)\<rparr>"

definition hold_expired :: "instant \<Rightarrow> duration \<Rightarrow> (int \<times> instant) list \<Rightarrow> Event \<Rightarrow> bool" where
  "hold_expired now limit held event \<longleftrightarrow>
     (case map_of held (ev_ID event) of None \<Rightarrow> False | Some since \<Rightarrow> time_Sub now since \<ge> limit)"

fun drop_expired :: "instant \<Rightarrow> duration \<Rightarrow> Event list \<Rightarrow> (int \<times> instant) list \<Rightarrow> Event list \<times> bool \<times> (int \<times> instant) list" where
  "drop_expired now limit [] held = ([], False, held)"
| "drop_expired now limit (event # evs) held =
     (if hold_expired now limit held event then
        (case drop_expired now limit evs (AList.delete (ev_ID event) held) of (kept, _, held') \<Rightarrow> (kept, True, held'))
      else (case drop_expired now limit evs held of (kept, expired, held') \<Rightarrow> (event # kept, expired, held')))"

definition dropExpiredHeld :: "instant \<Rightarrow> Event list \<Rightarrow> Worker \<Rightarrow> Event list \<times> bool \<times> Worker" where
  "dropExpiredHeld now evs w =
     (case drop_expired now (leaseHoldLimit (wc_LeaseTimeout (w_config w))) evs (w_held w) of
        (kept, expired, held) \<Rightarrow> (kept, expired, w\<lparr>w_held := held\<rparr>))"

section \<open>Dispatch\<close>

datatype dispatchState = DispatchBlocked | DispatchConsumed | DispatchAccepted

definition error_delivery :: "string \<Rightarrow> Delivery" where
  "error_delivery reason = \<lparr>dl_HTTPStatus = 0, dl_Snippet = [], dl_Err = reason, dl_Duration = 0\<rparr>"

definition consumeUnknown :: "'st port \<Rightarrow> Event \<Rightarrow> 'st \<Rightarrow> 'st" where
  "consumeUnknown p event st =
     (let reason = ''unknown listener '' @ ev_Listener event
      in fst (settleDead p event (error_delivery reason) reason st))"

definition bump_inFlight :: "int \<Rightarrow> Worker \<Rightarrow> Worker" where
  "bump_inFlight i w =
     w\<lparr>w_inFlight := AList.update i (Suc (case map_of (w_inFlight w) i of None \<Rightarrow> 0 | Some c \<Rightarrow> c)) (w_inFlight w)\<rparr>"

text \<open>\<open>race event\<close>: a concurrent Drain raises its flag after the draining check and before track.\<close>

definition tryDispatch :: "'st port \<Rightarrow> (Event \<Rightarrow> bool) \<Rightarrow> Event \<Rightarrow> Worker \<Rightarrow> 'st \<Rightarrow> dispatchState \<times> Worker \<times> 'st" where
  "tryDispatch p race event w st =
     (case map_of (w_listeners w) (ev_Listener event) of
        None \<Rightarrow> (DispatchBlocked, w, st)
      | Some state \<Rightarrow>
          if w_stopping w then (DispatchBlocked, w, st)
          else
            let limit = lc_MaxPayloadBytes (ls_config state); check = checkPayloadSize (ev_Payload event) limit
            in if limit > 0 \<and> \<not> fst check
               then (DispatchConsumed, w, fst (settleDead p event (error_delivery (snd check)) (snd check) st))
               else case tryAcquire (Some (w_global w)) of
                 (False, _) \<Rightarrow> (DispatchBlocked, w, st)
               | (True, g) \<Rightarrow>
                   let w1 = w\<lparr>w_global := the g\<rparr>
                   in case tryAcquire (ls_sem state) of
                     (False, _) \<Rightarrow> (DispatchBlocked, release_global w1, st)
                   | (True, sem) \<Rightarrow>
                       let w2 = bump_inFlight (ev_ID event) (set_sem (ev_Listener event) sem w1);
                           w3 = (if race event then w2\<lparr>w_stopping := True\<rparr> else w2)
                       in case track event w3 of
                         (False, _) \<Rightarrow>
                           (DispatchBlocked, release_listener (ev_Listener event) (release_global (finish (ev_ID event) w3)), st)
                       | (True, w4) \<Rightarrow> (DispatchAccepted, w4, st))"

text \<open>\<open>Dispatch\<close> and \<open>dispatchEvent\<close>: admission of one event outside a batch.\<close>

definition Dispatch :: "'st port \<Rightarrow> (Event \<Rightarrow> bool) \<Rightarrow> Event \<Rightarrow> Worker \<Rightarrow> 'st \<Rightarrow> bool \<times> Worker \<times> 'st" where
  "Dispatch p race event w st =
     (case map_of (w_listeners w) (ev_Listener event) of
        None \<Rightarrow> (False, w, consumeUnknown p event st)
      | Some _ \<Rightarrow> (case tryDispatch p race event w st of (r, w', st') \<Rightarrow> (r = DispatchAccepted, w', st')))"

definition listenerNames :: "Worker \<Rightarrow> (string \<times> Event list) list \<Rightarrow> string list" where
  "listenerNames w queues =
     w_order w @ sort (filter (\<lambda>name. name \<notin> set (w_order w)) (remdups (map fst queues)))"

definition allQueuesEmpty :: "(string \<times> Event list) list \<Rightarrow> bool" where
  "allQueuesEmpty queues \<longleftrightarrow> list_all (\<lambda>(_, evs). evs = []) queues"

text \<open>One pass over the names: at most one event of each queue is admitted.\<close>

fun dispatch_round :: "'st port \<Rightarrow> (Event \<Rightarrow> bool) \<Rightarrow> string list \<Rightarrow> (string \<times> Event list) list \<Rightarrow> bool \<Rightarrow> nat
    \<Rightarrow> Worker \<Rightarrow> 'st \<Rightarrow> (string \<times> Event list) list \<times> bool \<times> nat \<times> Worker \<times> 'st" where
  "dispatch_round p race [] queues progress accepted w st = (queues, progress, accepted, w, st)"
| "dispatch_round p race (name # names) queues progress accepted w st =
     (case map_of queues name of
        None \<Rightarrow> dispatch_round p race names queues progress accepted w st
      | Some [] \<Rightarrow> dispatch_round p race names queues progress accepted w st
      | Some (event # rest) \<Rightarrow>
          (if map_of (w_listeners w) name = None then
             dispatch_round p race names (AList.update name rest queues) True accepted (releaseHold event w)
               (consumeUnknown p event st)
           else case tryDispatch p race event w st of
             (DispatchBlocked, w', st') \<Rightarrow> dispatch_round p race names queues progress accepted w' st'
           | (DispatchConsumed, w', st') \<Rightarrow>
               dispatch_round p race names (AList.update name rest queues) True accepted (releaseHold event w') st'
           | (DispatchAccepted, w', st') \<Rightarrow>
               dispatch_round p race names (AList.update name rest queues) True (Suc accepted) (releaseHold event w') st'))"

definition queued :: "(string \<times> Event list) list \<Rightarrow> Event list" where
  "queued queues = concat (map snd queues)"

lemma queued_update:
  "map_of queues name = Some (event # rest) \<Longrightarrow>
    mset (queued queues) = add_mset event (mset (queued (AList.update name rest queues)))"
  by (induction queues) (auto simp: queued_def split: if_splits)

lemma dispatch_round_queued:
  "dispatch_round p race names queues progress accepted w st = (queues', progress', accepted', w', st') \<Longrightarrow>
    length (queued queues') \<le> length (queued queues) \<and>
    (progress' \<and> \<not> progress \<longrightarrow> length (queued queues') < length (queued queues))"
proof (induction p race names queues progress accepted w st rule: dispatch_round.induct)
  case (2 p race name names queues progress accepted w st)
  show ?case
  proof (cases "map_of queues name")
    case (Some q)
    show ?thesis
    proof (cases q)
      case (Cons event rest)
      with Some have less: "length (queued (AList.update name rest queues)) < length (queued queues)"
        using queued_update [of queues name event rest] by (metis lessI size_add_mset size_mset)
      show ?thesis
        using 2 Some Cons less
        by (fastforce split: if_splits prod.splits dispatchState.splits)
    qed (use 2 Some in auto)
  qed (use 2 in auto)
qed simp

text \<open>The loop of \<open>dispatchBatch\<close>: a pass without progress retains what is left.\<close>

function dispatch_loop :: "'st port \<Rightarrow> (Event \<Rightarrow> bool) \<Rightarrow> instant \<Rightarrow> string list \<Rightarrow> (string \<times> Event list) list \<Rightarrow> nat
    \<Rightarrow> Worker \<Rightarrow> 'st \<Rightarrow> nat \<times> Worker \<times> 'st" where
  "dispatch_loop p race now order queues accepted w st =
     (case dispatch_round p race order queues False accepted w st of
        (queues', progress, accepted', w', st') \<Rightarrow>
          if \<not> progress then (accepted', retainPending p now queues' w' st')
          else if allQueuesEmpty queues' then (accepted', w', st')
          else dispatch_loop p race now order queues' accepted' w' st')"
  by pat_completeness auto
termination
  by (relation "measure (\<lambda>(p, race, now, order, queues, accepted, w, st). length (queued queues))")
    (auto dest!: dispatch_round_queued [OF sym])

declare dispatch_loop.simps [simp del]

definition dispatchBatch :: "'st port \<Rightarrow> (Event \<Rightarrow> bool) \<Rightarrow> instant \<Rightarrow> Event list \<Rightarrow> Worker \<Rightarrow> 'st \<Rightarrow> nat \<times> Worker \<times> 'st" where
  "dispatchBatch p race now evs w st =
     (let queues = by_listener evs in dispatch_loop p race now (listenerNames w queues) queues 0 w st)"

section \<open>The claim cycle and the drain\<close>

text \<open>\<open>hasReclaimer\<close> is whether a lease sweeper was supplied; \<open>now\<close> is the clock at the hold check and
  \<open>later\<close> at the end of the cycle.\<close>

definition RunOnce :: "'st port \<Rightarrow> bool \<Rightarrow> (Event \<Rightarrow> bool) \<Rightarrow> instant \<Rightarrow> instant \<Rightarrow> Worker \<Rightarrow> 'st
    \<Rightarrow> Worker \<times> 'st \<times> (source_error + nat)" where
  "RunOnce p hasReclaimer race now later w0 st0 =
     (if w_stopping w0 then (w0, st0, Inr 0)
      else case takePending w0 of (taken, w1) \<Rightarrow>
        (case dropExpiredHeld now taken w1 of (kept, expired, w2) \<Rightarrow>
           if expired then
             (case dispatchBatch p race later kept w2 st0 of (n, w3, st3) \<Rightarrow> (w3, st3, Inr n))
           else
             (case (if hasReclaimer then port_ReclaimExpired p st0 else (st0, Inr 0)) of
                (st1, Inl e) \<Rightarrow> (case retainEvents p later kept w2 st1 of (w3, st3) \<Rightarrow> (w3, st3, Inl e))
              | (st1, Inr _) \<Rightarrow>
                  (if hasCapacity (Some (w_global w2)) then
                     (case port_Claim p (wc_BatchSize (w_config w2)) st1 of
                        (st2, Inl e) \<Rightarrow> (case retainEvents p later kept w2 st2 of (w3, st3) \<Rightarrow> (w3, st3, Inl e))
                      | (st2, Inr claimed) \<Rightarrow>
                          (case dispatchBatch p race later (kept @ claimed) w2 st2 of (n, w3, st3) \<Rightarrow> (w3, st3, Inr n)))
                   else (case dispatchBatch p race later kept w2 st1 of (n, w3, st3) \<Rightarrow> (w3, st3, Inr n))))))"

record DrainResult =
  dr_Clean :: bool
  dr_TimedOut :: bool
  dr_Released :: "int list"
  dr_Err :: "drain_error list"

definition Success :: "DrainResult \<Rightarrow> bool" where
  "Success r \<longleftrightarrow> dr_Clean r \<and> \<not> dr_TimedOut r \<and> dr_Err r = []"

definition activityEvents :: "Worker \<Rightarrow> Event list" where
  "activityEvents w = concat (map snd (w_activity w))"

definition takeHeldForDrain :: "Worker \<Rightarrow> Event list \<times> Worker" where
  "takeHeldForDrain w = (concat (map snd (w_pending w)), w\<lparr>w_pending := [], w_held := []\<rparr>)"

definition defaultDrainTimeout :: duration where
  "defaultDrainTimeout = 30 * time_second"

definition drain_timeout :: "Worker \<Rightarrow> duration \<Rightarrow> duration" where
  "drain_timeout w timeout =
     (if timeout > 0 then timeout
      else if wc_DrainTimeout (w_config w) > 0 then wc_DrainTimeout (w_config w) else defaultDrainTimeout)"

text \<open>Drain raises the flag, waits, and releases. The wait ends with \<open>timedOut = False\<close> only when nothing
  is tracked; deliveries finishing meanwhile are \<open>finish_delivery\<close> steps between the two halves.\<close>

definition drain_begin :: "Worker \<Rightarrow> Worker" where
  "drain_begin w = w\<lparr>w_stopping := True\<rparr>"

definition drain_end :: "'st port \<Rightarrow> instant \<Rightarrow> bool \<Rightarrow> Worker \<Rightarrow> 'st \<Rightarrow> DrainResult \<times> Worker \<times> 'st" where
  "drain_end p now timedOut w st =
     (let running = activityEvents w
      in case takeHeldForDrain w of (held, w1) \<Rightarrow>
        (case releaseHeld p now (running @ held) [] (if timedOut then [ErrDrainTimedOut] else []) st of
           (st', released, errs) \<Rightarrow>
             let errs' = errs @ w_releaseErr w1
             in (\<lparr>dr_Clean = (\<not> timedOut \<and> errs' = []), dr_TimedOut = timedOut, dr_Released = released, dr_Err = errs'\<rparr>,
                 w1\<lparr>w_releaseErr := w_releaseErr w1 @ errs'\<rparr>, st')))"

end
