(* ===== verification/Worker_Laws.thy ===== *)
theory Worker_Laws
  imports Worker Queue_Laws
begin

text \<open>
  What the worker of \<open>Worker\<close> promises: its admission bounds hold in every reachable state, dispatch
  loses no event, an attempt is settled by exactly one transition, and a drain reports every failed
  release. The worker is proved against the port's contract (\<open>event_port\<close>), which the PostgreSQL source
  is shown to satisfy.
\<close>

section \<open>The admission invariant\<close>

definition inflight :: "Worker \<Rightarrow> int \<Rightarrow> nat" where
  "inflight w i = (case map_of (w_inFlight w) i of None \<Rightarrow> 0 | Some c \<Rightarrow> c)"

definition load :: "Worker \<Rightarrow> string \<Rightarrow> nat" where
  "load w name = length (filter (\<lambda>e. ev_Listener e = name) (activityEvents w))"

definition listener_ok :: "Worker \<Rightarrow> string \<Rightarrow> listenerState \<Rightarrow> bool" where
  "listener_ok w name ls \<longleftrightarrow>
     (case ls_sem ls of
        None \<Rightarrow> lc_Concurrency (ls_config ls) \<le> 0
      | Some s \<Rightarrow> 0 < lc_Concurrency (ls_config ls) \<and> sem_cap s = nat (lc_Concurrency (ls_config ls)) \<and>
                 sem_used s = load w name \<and> sem_used s \<le> sem_cap s)"

definition entry_ok :: "(int \<Rightarrow> string) \<Rightarrow> Worker \<Rightarrow> int \<Rightarrow> Event list \<Rightarrow> bool" where
  "entry_ok home w i es \<longleftrightarrow> es \<noteq> [] \<and>
     (\<forall>e \<in> set es. ev_ID e = i \<and> ev_Listener e = home i \<and> map_of (w_listeners w) (home i) \<noteq> None)"

definition activity_ok :: "(int \<Rightarrow> string) \<Rightarrow> Worker \<Rightarrow> bool" where
  "activity_ok home w \<longleftrightarrow> distinct (map fst (w_activity w)) \<and>
     (\<forall>i es. map_of (w_activity w) i = Some es \<longrightarrow> entry_ok home w i es)"

definition worker_ok :: "(int \<Rightarrow> string) \<Rightarrow> Worker \<Rightarrow> bool" where
  "worker_ok home w \<longleftrightarrow> activity_ok home w \<and> 0 < wc_GlobalConcurrency (w_config w) \<and>
     sem_cap (w_global w) = nat (wc_GlobalConcurrency (w_config w)) \<and>
     sem_used (w_global w) = length (activityEvents w) \<and> sem_used (w_global w) \<le> sem_cap (w_global w) \<and>
     (\<forall>name ls. map_of (w_listeners w) name = Some ls \<longrightarrow> listener_ok w name ls) \<and>
     distinct (map fst (w_inFlight w)) \<and> (\<forall>i. inflight w i = length (activity_of w i))"

text \<open>Two states with the same admission bookkeeping.\<close>

definition same_load :: "Worker \<Rightarrow> Worker \<Rightarrow> bool" where
  "same_load w w' \<longleftrightarrow> w_config w' = w_config w \<and> w_global w' = w_global w \<and>
     map_of (w_listeners w') = map_of (w_listeners w) \<and> w_activity w' = w_activity w \<and>
     (distinct (map fst (w_inFlight w)) \<longrightarrow> distinct (map fst (w_inFlight w'))) \<and> inflight w' = inflight w"

lemma worker_ok_same: "same_load w w' \<Longrightarrow> worker_ok home w \<Longrightarrow> worker_ok home w'"
  by (simp add: same_load_def worker_ok_def activity_ok_def entry_ok_def activityEvents_def listener_ok_def load_def activity_of_def
      cong: option.case_cong)

lemma same_load_refl [simp]: "same_load w w"
  by (simp add: same_load_def)

lemma same_load_trans: "same_load a b \<Longrightarrow> same_load b c \<Longrightarrow> same_load a c"
  by (simp add: same_load_def)

lemma same_load_misc [simp]:
  "same_load w (w\<lparr>w_pending := x\<rparr>)" "same_load w (w\<lparr>w_held := y\<rparr>)" "same_load w (w\<lparr>w_stopping := b\<rparr>)"
  "same_load w (w\<lparr>w_releaseErr := z\<rparr>)" "same_load w (releaseHold e w)" "same_load w (hold_one now name e w)"
  "same_load w (drain_begin w)"
  by (simp_all add: same_load_def inflight_def [abs_def] releaseHold_def hold_one_def drain_begin_def)

lemma mset_append_to:
  "mset (concat (map snd (append_to k v m))) = add_mset v (mset (concat (map snd m)))"
  by (induction m) (auto simp: append_to_def)

lemma load_mset: "load w name = size (filter_mset (\<lambda>e. ev_Listener e = name) (mset (activityEvents w)))"
  by (simp add: load_def flip: size_mset)

lemma load_append:
  assumes "w_activity w' = append_to (ev_ID e) e (w_activity w)"
  shows "load w' name = load w name + (if ev_Listener e = name then 1 else 0)"
    "length (activityEvents w') = Suc (length (activityEvents w))"
proof -
  have m: "mset (activityEvents w') = add_mset e (mset (activityEvents w))"
    using mset_append_to [of "ev_ID e" e "w_activity w"] by (simp add: activityEvents_def assms)
  then show "load w' name = load w name + (if ev_Listener e = name then 1 else 0)" by (simp add: load_mset)
  from m show "length (activityEvents w') = Suc (length (activityEvents w))" by (metis size_add_mset size_mset)
qed

lemma activity_of_append:
  "w_activity w' = append_to (ev_ID e) e (w_activity w) \<Longrightarrow>
    activity_of w' i = activity_of w i @ (if i = ev_ID e then [e] else [])"
  by (auto simp: activity_of_def append_to_def update_conv')

lemma distinct_append_to: "distinct (map fst m) \<Longrightarrow> distinct (map fst (append_to k v m))"
  by (simp add: append_to_def distinct_update)

lemma activity_ok_append:
  assumes ok: "activity_ok home w" and act: "w_activity w' = append_to (ev_ID e) e (w_activity w)"
    and dom: "dom (map_of (w_listeners w')) = dom (map_of (w_listeners w))"
    and e: "ev_Listener e = home (ev_ID e)" "map_of (w_listeners w) (ev_Listener e) \<noteq> None"
  shows "activity_ok home w'"
proof -
  have known: "map_of (w_listeners w') n \<noteq> None \<longleftrightarrow> map_of (w_listeners w) n \<noteq> None" for n using dom by (metis domIff)
  have old: "entry_ok home w' i es" if "map_of (w_activity w) i = Some es" for i es
    using ok that known by (simp add: activity_ok_def entry_ok_def)
  have "entry_ok home w' i es" if "map_of (append_to (ev_ID e) e (w_activity w)) i = Some es" for i es
  proof (cases "i = ev_ID e")
    case True
    with that have "es = (case map_of (w_activity w) i of None \<Rightarrow> [] | Some vs \<Rightarrow> vs) @ [e]"
      by (simp add: append_to_def update_conv')
    then show ?thesis using old [of i] e known True by (auto simp: entry_ok_def split: option.splits)
  next
    case False
    with that old show ?thesis by (simp add: append_to_def update_conv')
  qed
  with ok act show ?thesis by (simp add: activity_ok_def distinct_append_to)
qed

lemma inflight_bump: "inflight (bump_inFlight i w) j = inflight w j + (if j = i then 1 else 0)"
  by (auto simp: inflight_def bump_inFlight_def update_conv')

lemma distinct_bump: "distinct (map fst (w_inFlight w)) \<Longrightarrow> distinct (map fst (w_inFlight (bump_inFlight i w)))"
  by (simp add: bump_inFlight_def distinct_update)

lemma inflight_finish: "inflight (finish i w) j = inflight w j - (if j = i then 1 else 0)"
  by (auto simp: inflight_def finish_def update_conv' delete_conv' Let_def split: option.splits)

lemma distinct_finish: "distinct (map fst (w_inFlight w)) \<Longrightarrow> distinct (map fst (w_inFlight (finish i w)))"
  by (simp add: finish_def distinct_update distinct_delete Let_def)

lemma map_of_set_sem:
  "map_of (w_listeners w) name = Some ls \<Longrightarrow>
    map_of (w_listeners (set_sem name sem w)) = (map_of (w_listeners w))(name \<mapsto> ls\<lparr>ls_sem := sem\<rparr>)"
  by (simp add: set_sem_def update_conv')

lemma set_sem_fields [simp]:
  "w_config (set_sem name sem w) = w_config w" "w_global (set_sem name sem w) = w_global w"
  "w_activity (set_sem name sem w) = w_activity w" "w_inFlight (set_sem name sem w) = w_inFlight w"
  "w_stopping (set_sem name sem w) = w_stopping w" "w_pending (set_sem name sem w) = w_pending w"
  by (simp_all add: set_sem_def split: option.splits)

lemma tryAcquire_release: "tryAcquire sem = (True, sem') \<Longrightarrow> release sem' = sem"
  by (cases sem) (auto split: if_splits)

lemma listener_ok_acquire:
  assumes "listener_ok w name ls" "tryAcquire (ls_sem ls) = (True, sem)" "load w' name = Suc (load w name)"
  shows "listener_ok w' name (ls\<lparr>ls_sem := sem\<rparr>)"
  using assms by (cases "ls_sem ls") (auto simp: listener_ok_def split: if_splits)

lemma listener_ok_load: "load w' name = load w name \<Longrightarrow> listener_ok w' name ls = listener_ok w name ls"
  by (auto simp: listener_ok_def split: option.splits)

lemma worker_ok_accept:
  assumes ok: "worker_ok home w" and ls: "map_of (w_listeners w) (ev_Listener e) = Some ls"
    and home: "ev_Listener e = home (ev_ID e)"
    and global: "sem_used (w_global w) < sem_cap (w_global w)"
      "w_global w' = (w_global w)\<lparr>sem_used := sem_used (w_global w) + 1\<rparr>"
    and sem: "tryAcquire (ls_sem ls) = (True, sem)"
      "map_of (w_listeners w') = (map_of (w_listeners w))(ev_Listener e \<mapsto> ls\<lparr>ls_sem := sem\<rparr>)"
    and act: "w_activity w' = append_to (ev_ID e) e (w_activity w)"
    and fly: "distinct (map fst (w_inFlight w'))" "\<And>i. inflight w' i = inflight w i + (if i = ev_ID e then 1 else 0)"
    and config: "w_config w' = w_config w"
  shows "worker_ok home w'"
proof -
  have "activity_ok home w'"
    by (rule activity_ok_append [OF _ act]) (use ok ls home sem(2) in \<open>auto simp: worker_ok_def\<close>)
  moreover have "listener_ok w' n ls'" if "map_of (w_listeners w') n = Some ls'" for n ls'
  proof (cases "n = ev_Listener e")
    case True
    then have "listener_ok w' n (ls\<lparr>ls_sem := sem\<rparr>)"
      using ok ls sem(1) load_append(1) [OF act, of n] by (intro listener_ok_acquire [of w]) (simp_all add: worker_ok_def)
    with True that sem(2) show ?thesis by simp
  next
    case False
    with that sem(2) have "map_of (w_listeners w) n = Some ls'" by simp
    with ok have "listener_ok w n ls'" by (simp add: worker_ok_def)
    moreover have "load w' n = load w n" using False load_append(1) [OF act, of n] by simp
    ultimately show ?thesis using listener_ok_load [of w' n w ls'] by blast
  qed
  moreover have "inflight w' i = length (activity_of w' i)" for i
    using ok fly(2) [of i] activity_of_append [OF act, of i] by (simp add: worker_ok_def)
  ultimately show ?thesis
    using ok global config fly(1) load_append(2) [OF act] by (simp add: worker_ok_def)
qed

text \<open>Admission either leaves the bookkeeping as it was or accounts for one more running event.\<close>

lemma same_load_backout:
  assumes ls: "map_of (w_listeners w) name = Some ls" and acq: "tryAcquire (ls_sem ls) = (True, sem)"
    and g: "sem_used (w_global w) < sem_cap (w_global w)"
    and w3: "w3 = (bump_inFlight i (set_sem name sem (w\<lparr>w_global := (w_global w)\<lparr>sem_used := sem_used (w_global w) + 1\<rparr>\<rparr>)))\<lparr>w_stopping := b\<rparr>"
  shows "same_load w (release_listener name (release_global (finish i w3)))"
proof -
  let ?w4 = "release_global (finish i w3)"
  have l4: "map_of (w_listeners ?w4) = (map_of (w_listeners w))(name \<mapsto> ls\<lparr>ls_sem := sem\<rparr>)"
    using map_of_set_sem [of "w\<lparr>w_global := (w_global w)\<lparr>sem_used := sem_used (w_global w) + 1\<rparr>\<rparr>" name ls sem] ls
    by (simp add: w3 release_global_def finish_def bump_inFlight_def Let_def)
  then have "release_listener name ?w4 = set_sem name (ls_sem ls) ?w4"
    using tryAcquire_release [OF acq] by (simp add: release_listener_def)
  moreover have "map_of (w_listeners (set_sem name (ls_sem ls) ?w4)) = map_of (w_listeners w)"
    using map_of_set_sem [of ?w4 name "ls\<lparr>ls_sem := sem\<rparr>" "ls_sem ls"] l4 ls by (auto simp: fun_eq_iff)
  moreover have "inflight (set_sem name (ls_sem ls) ?w4) = inflight w"
    using inflight_finish [of i w3] inflight_bump [of i]
    by (auto simp: fun_eq_iff inflight_def release_global_def w3)
  moreover have "w_global ?w4 = w_global w" "w_config ?w4 = w_config w" "w_activity ?w4 = w_activity w"
    using g by (simp_all add: release_global_def finish_def w3 bump_inFlight_def Let_def)
  moreover have "distinct (map fst (w_inFlight w)) \<Longrightarrow> distinct (map fst (w_inFlight ?w4))"
    using distinct_finish [of w3 i] distinct_bump by (simp add: release_global_def w3)
  ultimately show ?thesis by (simp add: same_load_def)
qed

lemma tryDispatch_cases:
  assumes "tryDispatch p race e w st = (r, w', st')"
  obtains (same) "r \<noteq> DispatchAccepted" "same_load w w'" "w_pending w' = w_pending w" "w_listeners w' = w_listeners w \<or> r = DispatchBlocked"
  | (accept) ls sem where "r = DispatchAccepted" "st' = st" "map_of (w_listeners w) (ev_Listener e) = Some ls" "\<not> w_stopping w'"
      "sem_used (w_global w) < sem_cap (w_global w)" "tryAcquire (ls_sem ls) = (True, sem)"
      "w' = (bump_inFlight (ev_ID e) (set_sem (ev_Listener e) sem
          (w\<lparr>w_global := (w_global w)\<lparr>sem_used := sem_used (w_global w) + 1\<rparr>\<rparr>)))\<lparr>w_activity := append_to (ev_ID e) e (w_activity w)\<rparr>"
proof (cases "map_of (w_listeners w) (ev_Listener e)")
  case None
  with assms same show ?thesis by (simp add: tryDispatch_def)
next
  case (Some ls)
  let ?limit = "lc_MaxPayloadBytes (ls_config ls)"
  let ?w1 = "w\<lparr>w_global := (w_global w)\<lparr>sem_used := sem_used (w_global w) + 1\<rparr>\<rparr>"
  consider "w_stopping w" | "\<not> w_stopping w" "?limit > 0 \<and> \<not> fst (checkPayloadSize (ev_Payload e) ?limit)"
    | "\<not> w_stopping w" "\<not> (?limit > 0 \<and> \<not> fst (checkPayloadSize (ev_Payload e) ?limit))" by blast
  then show ?thesis
  proof cases
    case 3
    show ?thesis
    proof (cases "sem_used (w_global w) < sem_cap (w_global w) \<and> fst (tryAcquire (ls_sem ls))")
      case False
      then have "r = DispatchBlocked" "w' = w"
        using assms Some 3 by (auto simp: tryDispatch_def Let_def release_global_def split: prod.splits bool.splits if_splits)
      with same show ?thesis by simp
    next
      case True
      then obtain sem where acq: "tryAcquire (ls_sem ls) = (True, sem)" by (metis prod.collapse)
      let ?w2 = "bump_inFlight (ev_ID e) (set_sem (ev_Listener e) sem ?w1)"
      show ?thesis
      proof (cases "race e")
        case True
        then have "r = DispatchBlocked"
          "w' = release_listener (ev_Listener e) (release_global (finish (ev_ID e) (?w2\<lparr>w_stopping := True\<rparr>)))"
          using assms Some 3 \<open>sem_used (w_global w) < _ \<and> _\<close> acq by (simp_all add: tryDispatch_def Let_def track_def)
        moreover from this have "w_pending w' = w_pending w"
          by (simp add: release_listener_def release_global_def finish_def bump_inFlight_def Let_def split: option.splits)
        ultimately show ?thesis
          using same_load_backout [OF Some acq _ refl, of "ev_ID e" True] \<open>sem_used (w_global w) < _ \<and> _\<close> same by simp
      next
        case False
        then have "r = DispatchAccepted" "st' = st" "w' = ?w2\<lparr>w_activity := append_to (ev_ID e) e (w_activity w)\<rparr>"
          using assms Some 3 \<open>sem_used (w_global w) < _ \<and> _\<close> acq
          by (simp_all add: tryDispatch_def Let_def track_def bump_inFlight_def)
        then show ?thesis
          using accept [OF _ _ Some _ _ acq] 3 \<open>sem_used (w_global w) < _ \<and> _\<close> by (simp add: bump_inFlight_def)
      qed
    qed
  qed (use assms Some same in \<open>auto simp: tryDispatch_def Let_def\<close>)
qed

lemma tryDispatch_ok:
  assumes t: "tryDispatch p race e w st = (r, w', st')" and ok: "worker_ok home w" and home: "ev_Listener e = home (ev_ID e)"
  shows "worker_ok home w'"
  using t
proof (cases rule: tryDispatch_cases)
  case same
  with ok show ?thesis by (blast intro: worker_ok_same)
next
  case (accept ls sem)
  show ?thesis
  proof (rule worker_ok_accept [OF ok accept(3) home accept(5) _ accept(6)])
    show "map_of (w_listeners w') = (map_of (w_listeners w))(ev_Listener e \<mapsto> ls\<lparr>ls_sem := sem\<rparr>)"
      using map_of_set_sem [of "w\<lparr>w_global := (w_global w)\<lparr>sem_used := sem_used (w_global w) + 1\<rparr>\<rparr>" _ ls sem] accept(3)
      by (simp add: accept(7) bump_inFlight_def)
    show "distinct (map fst (w_inFlight w'))"
      using ok by (simp add: accept(7) bump_inFlight_def distinct_update worker_ok_def)
    show "inflight w' i = inflight w i + (if i = ev_ID e then 1 else 0)" for i
      by (auto simp: accept(7) inflight_def bump_inFlight_def update_conv')
  qed (simp_all add: accept(7) bump_inFlight_def)
qed

lemma mset_pop:
  assumes "distinct (map fst m)" "map_of m i = Some (x # xs)"
  shows "mset (concat (map snd m)) =
    add_mset x (mset (concat (map snd (if xs = [] then AList.delete i m else AList.update i xs m))))"
  using assms
proof (induction m)
  case (Cons a m)
  obtain j ys where a: "a = (j, ys)" by (cases a)
  show ?case
  proof (cases "j = i")
    case True
    with Cons.prems a have "AList.delete i m = m" "ys = x # xs"
      by (auto simp: delete_id)
    with True a show ?thesis by simp
  next
    case False
    with Cons a show ?thesis by (auto split: if_splits)
  qed
qed simp

lemma finish_fields [simp]:
  "w_config (finish i w) = w_config w" "w_global (finish i w) = w_global w" "w_activity (finish i w) = w_activity w"
  "w_listeners (finish i w) = w_listeners w"
  by (simp_all add: finish_def Let_def)

lemma running_entry:
  assumes "activity_ok home w" "e \<in> set (activityEvents w)"
  obtains x xs where "map_of (w_activity w) (ev_ID e) = Some (x # xs)" "ev_Listener x = ev_Listener e"
    "ev_Listener e = home (ev_ID e)" "map_of (w_listeners w) (ev_Listener e) \<noteq> None" "entry_ok home w (ev_ID e) (x # xs)"
proof -
  from assms(2) obtain i es where mem: "(i, es) \<in> set (w_activity w)" "e \<in> set es" by (auto simp: activityEvents_def)
  then have m: "map_of (w_activity w) i = Some es" using assms(1) by (simp add: activity_ok_def)
  with assms(1) have ok: "entry_ok home w i es" by (simp add: activity_ok_def)
  then obtain x xs where es: "es = x # xs" by (cases es) (auto simp: entry_ok_def)
  show thesis by (rule that [of x xs]) (use m mem ok es in \<open>auto simp: entry_ok_def\<close>)
qed

lemma listener_ok_release:
  assumes "listener_ok w name ls" "load w name = Suc (load w' name)"
  shows "listener_ok w' name (ls\<lparr>ls_sem := release (ls_sem ls)\<rparr>)"
  using assms by (cases "ls_sem ls") (auto simp: listener_ok_def)

lemma finish_delivery_ok:
  assumes ok: "worker_ok home w" and e: "e \<in> set (activityEvents w)"
  shows "worker_ok home (finish_delivery e w)"
proof -
  let ?i = "ev_ID e" and ?n = "ev_Listener e" and ?w' = "finish_delivery e w"
  have act: "activity_ok home w" using ok by (simp add: worker_ok_def)
  from act e obtain x xs where m: "map_of (w_activity w) ?i = Some (x # xs)" "ev_Listener x = ?n"
    "ev_Listener e = home ?i" "map_of (w_listeners w) ?n \<noteq> None" "entry_ok home w ?i (x # xs)" by (rule running_entry)
  then obtain ls where ls: "map_of (w_listeners w) ?n = Some ls" by blast
  let ?act = "if xs = [] then AList.delete ?i (w_activity w) else AList.update ?i xs (w_activity w)"
  have q: "activity_of w ?i = x # xs" by (simp add: activity_of_def m)
  have u: "w_activity (untrack e w) = ?act" "w_listeners (untrack e w) = w_listeners w"
    "w_config (untrack e w) = w_config w" "w_global (untrack e w) = w_global w"
    using q by (auto simp: untrack_def Let_def length_Suc_conv_rev le_Suc_eq)
  have w'ls: "map_of (w_listeners ?w') = (map_of (w_listeners w))(?n \<mapsto> ls\<lparr>ls_sem := release (ls_sem ls)\<rparr>)"
    using map_of_set_sem [of "untrack e w" ?n ls "release (ls_sem ls)"] ls u(2)
    by (simp add: finish_delivery_def release_global_def release_listener_def)
  have w': "w_activity ?w' = ?act" "w_config ?w' = w_config w"
    "w_global ?w' = (w_global w)\<lparr>sem_used := sem_used (w_global w) - 1\<rparr>" "w_inFlight ?w' = w_inFlight (untrack e w)"
    using u ls by (simp_all add: finish_delivery_def release_global_def release_listener_def)
  have mset: "mset (activityEvents w) = add_mset x (mset (activityEvents ?w'))"
    using mset_pop [OF _ m(1)] act by (simp add: activityEvents_def w' activity_ok_def)
  have len: "length (activityEvents w) = Suc (length (activityEvents ?w'))" using mset by (metis size_add_mset size_mset)
  have load: "load w n = load ?w' n + (if n = ?n then 1 else 0)" for n using mset m(2) by (auto simp: load_mset)
  have "listener_ok ?w' n ls'" if "map_of (w_listeners ?w') n = Some ls'" for n ls'
  proof (cases "n = ?n")
    case True
    then show ?thesis using listener_ok_release [of w n ls ?w'] ok ls that w'ls load [of n] by (simp add: worker_ok_def)
  next
    case False
    then have "listener_ok w n ls'" using ok that w'ls by (simp add: worker_ok_def)
    with False load [of n] listener_ok_load [of ?w' n w ls'] show ?thesis by simp
  qed
  moreover have "activity_ok home ?w'"
  proof -
    have "entry_ok home ?w' i es" if "map_of ?act i = Some es" for i es
      using that act m(5) w'ls
      by (cases "i = ?i") (auto simp: activity_ok_def entry_ok_def update_conv' delete_conv' split: if_splits)
    then show ?thesis using act by (simp add: activity_ok_def w' distinct_update distinct_delete)
  qed
  moreover have "inflight ?w' j = length (activity_of ?w' j)" for j
  proof -
    have "inflight ?w' j = inflight w j - (if j = ?i then 1 else 0)"
      using inflight_finish [of ?i] by (simp add: inflight_def w'(4) untrack_def Let_def)
    then show ?thesis using ok m(1) q
      by (auto simp: worker_ok_def activity_of_def w'(1) update_conv' delete_conv')
  qed
  moreover have "distinct (map fst (w_inFlight ?w'))"
    using ok distinct_finish by (simp add: w'(4) untrack_def Let_def worker_ok_def)
  ultimately show ?thesis using ok len w' by (simp add: worker_ok_def)
qed

section \<open>Batches preserve the invariant\<close>

definition home_ok :: "(int \<Rightarrow> string) \<Rightarrow> Event list \<Rightarrow> bool" where
  "home_ok home evs \<longleftrightarrow> (\<forall>e \<in> set evs. ev_Listener e = home (ev_ID e))"

lemma home_ok_mset: "mset a = mset b + c \<Longrightarrow> home_ok home a \<Longrightarrow> home_ok home b"
  by (metis home_ok_def mset_subset_eq_add_left set_mset_mono set_mset_mset subsetD)

lemma home_ok_simps [simp]: "home_ok home []" "home_ok home (a @ b) \<longleftrightarrow> home_ok home a \<and> home_ok home b"
  by (auto simp: home_ok_def)

lemma mset_append_to_queued: "mset (queued (append_to k v m)) = add_mset v (mset (queued m))"
  using mset_append_to [of k v m] by (simp add: queued_def)

lemma by_listener_mset: "mset (queued (by_listener evs)) = mset evs"
proof -
  have "mset (queued (foldl (\<lambda>m e. append_to (ev_Listener e) e m) m evs)) = mset (queued m) + mset evs" for m
    by (induction evs arbitrary: m) (simp_all add: mset_append_to_queued)
  then show ?thesis by (simp add: by_listener_def queued_def)
qed

lemma home_ok_by_listener: "home_ok home (queued (by_listener evs)) = home_ok home evs"
  using by_listener_mset [of evs] by (metis home_ok_def set_mset_mset)

lemma hold_fold:
  "mset (queued (w_pending (fold (hold_one now name) q w))) = mset (queued (w_pending w)) + mset q \<and>
   same_load w (fold (hold_one now name) q w)"
proof (induction q arbitrary: w)
  case (Cons e q)
  have "mset (queued (w_pending (hold_one now name e w))) = add_mset e (mset (queued (w_pending w)))"
    by (simp add: hold_one_def mset_append_to_queued)
  with Cons.IH [of "hold_one now name e w"] show ?case
    using same_load_trans [OF same_load_misc(6) [of w now name e]] by simp
qed simp

lemma retain_fold:
  "mset (queued (w_pending (fold (\<lambda>(name, q). fold (hold_one now name) q) queues w))) =
     mset (queued (w_pending w)) + mset (queued queues) \<and>
   same_load w (fold (\<lambda>(name, q). fold (hold_one now name) q) queues w)"
proof (induction queues arbitrary: w)
  case (Cons x queues)
  obtain name q where x: "x = (name, q)" by (cases x)
  show ?case
    using Cons.IH [of "fold (hold_one now name) q w"] hold_fold [of now name q w] x
    by (auto simp: queued_def intro: same_load_trans)
qed (simp add: queued_def)

lemma retainPending_ok:
  assumes "retainPending p now queues w st = (w', st')"
  shows "same_load w w'" "w_stopping w \<Longrightarrow> w_pending w' = w_pending w \<and> w_stopping w'"
    "\<not> w_stopping w \<Longrightarrow> mset (queued (w_pending w')) = mset (queued (w_pending w)) + mset (queued queues) \<and> st' = st"
  using assms retain_fold [of now queues w] by (auto simp: retainPending_def split: if_splits prod.splits)

lemma retainPending_home:
  assumes "retainPending p now queues w st = (w', st')" "home_ok home (queued (w_pending w))" "home_ok home (queued queues)"
  shows "home_ok home (queued (w_pending w'))"
proof (cases "w_stopping w")
  case False
  then have "set (queued (w_pending w')) = set (queued (w_pending w)) \<union> set (queued queues)"
    using retainPending_ok(3) [OF assms(1)] by (metis set_mset_mset set_mset_union)
  with assms(2,3) show ?thesis by (auto simp: home_ok_def)
qed (use assms retainPending_ok(2) [OF assms(1)] in simp)

lemma tryDispatch_pending:
  assumes "tryDispatch p race e w st = (r, w', st')"
  shows "w_pending w' = w_pending w"
  using assms by (cases rule: tryDispatch_cases) (simp_all add: bump_inFlight_def)

lemma dispatch_round_ok:
  "dispatch_round p race names queues progress accepted w st = (queues', progress', accepted', w', st') \<Longrightarrow>
    worker_ok home w \<Longrightarrow> home_ok home (queued queues) \<Longrightarrow>
    worker_ok home w' \<and> home_ok home (queued queues') \<and> w_pending w' = w_pending w"
proof (induction p race names queues progress accepted w st rule: dispatch_round.induct)
  case (2 p race name names queues progress accepted w st)
  show ?case
  proof (cases "map_of queues name")
    case (Some q)
    show ?thesis
    proof (cases q)
      case (Cons event rest)
      note m = queued_update [OF Some [unfolded Cons]]
      have home: "ev_Listener event = home (ev_ID event)" "home_ok home (queued (AList.update name rest queues))"
        using m "2.prems"(3) by (metis home_ok_def set_mset_mset union_single_eq_member)
          (metis m "2.prems"(3) add_mset_add_single home_ok_mset)
      have rel: "worker_ok home x \<Longrightarrow> worker_ok home (releaseHold event x)" for x by (rule worker_ok_same) simp_all
      have pend: "w_pending (releaseHold event x) = w_pending x" for x by (simp add: releaseHold_def)
      show ?thesis
      proof (cases "map_of (w_listeners w) name")
        case None
        then show ?thesis using 2 Some Cons rel home pend by simp
      next
        case (Some ls)
        obtain r w1 st1 where t: "tryDispatch p race event w st = (r, w1, st1)" by (metis prod_cases3)
        note ok1 = tryDispatch_ok [OF t "2.prems"(2) home(1)] and p1 = tryDispatch_pending [OF t]
        show ?thesis
          using 2 Some \<open>map_of queues name = Some q\<close> Cons t rel [OF ok1] ok1 home(2) pend p1 by (cases r) simp_all
      qed
    qed (use 2 Some in auto)
  qed (use 2 in auto)
qed simp

lemma dispatch_loop_ok:
  "dispatch_loop p race now order queues accepted w st = (n, w', st') \<Longrightarrow> worker_ok home w \<Longrightarrow>
    home_ok home (queued queues) \<Longrightarrow> home_ok home (queued (w_pending w)) \<Longrightarrow>
    worker_ok home w' \<and> home_ok home (queued (w_pending w'))"
proof (induction p race now order queues accepted w st rule: dispatch_loop.induct)
  case (1 p race now order queues accepted w st)
  obtain queues1 progress acc1 w1 st1 where r: "dispatch_round p race order queues False accepted w st =
      (queues1, progress, acc1, w1, st1)" by (metis prod_cases5)
  note ok1 = dispatch_round_ok [OF r "1.prems"(2,3)]
  show ?case
  proof (cases progress)
    case False
    then have "retainPending p now queues1 w1 st1 = (w', st')"
      using "1.prems"(1) r by (simp add: dispatch_loop.simps [of p race now order queues])
    from retainPending_ok(1) [OF this] retainPending_home [OF this] ok1 "1.prems"(4) show ?thesis
      by (auto intro: worker_ok_same)
  next
    case True
    show ?thesis
      using "1.IH" [OF r [symmetric] refl refl refl] True "1.prems" ok1 r
      by (simp add: dispatch_loop.simps [of p race now order queues] split: if_splits)
  qed
qed

section \<open>Steps of a worker\<close>

text \<open>A worker beside its source: its cycles, its deliveries ending with a settlement, its drain, and
  whatever the environment (other workers, sweeps, operators, customers) does to the source.\<close>

inductive worker_step :: "'st port \<Rightarrow> ('st \<Rightarrow> 'st \<Rightarrow> bool) \<Rightarrow> Worker \<times> 'st \<Rightarrow> Worker \<times> 'st \<Rightarrow> bool" for p env where
  cycle: "RunOnce p hasReclaimer race now later w st = (w', st', r) \<Longrightarrow> worker_step p env (w, st) (w', st')"
| delivered: "e \<in> set (activityEvents w) \<Longrightarrow>
    recordResult p parseTime draw now e policy response delivery st = (st', r) \<Longrightarrow>
    worker_step p env (w, st) (finish_delivery e w, st')"
| refused: "e \<in> set (activityEvents w) \<Longrightarrow> settleDead p e delivery reason st = (st', r) \<Longrightarrow>
    worker_step p env (w, st) (finish_delivery e w, st')"
| stopping: "worker_step p env (w, st) (drain_begin w, st)"
| drained: "drain_end p now timedOut w st = (result, w', st') \<Longrightarrow> worker_step p env (w, st) (w', st')"
| environment: "env st st' \<Longrightarrow> worker_step p env (w, st) (w, st')"

definition worker_run :: "'st port \<Rightarrow> ('st \<Rightarrow> 'st \<Rightarrow> bool) \<Rightarrow> Worker \<times> 'st \<Rightarrow> Worker \<times> 'st \<Rightarrow> bool" where
  "worker_run p env = (worker_step p env)\<^sup>*\<^sup>*"

text \<open>The contract of the delivery port, as far as admission relies on it: the source keeps its own
  invariant through every call and through its environment, and a claimed event carries the
  listener its id was enqueued for.\<close>

locale event_port =
  fixes p :: "'st port" and env :: "'st \<Rightarrow> 'st \<Rightarrow> bool" and inv :: "'st \<Rightarrow> bool" and home :: "int \<Rightarrow> string"
  assumes claim_inv: "inv st \<Longrightarrow> port_Claim p n st = (st', r) \<Longrightarrow> inv st'"
    and ack_inv: "inv st \<Longrightarrow> port_Ack p e d st = (st', u) \<Longrightarrow> inv st'"
    and nack_inv: "inv st \<Longrightarrow> port_Nack p e d t st = (st', u) \<Longrightarrow> inv st'"
    and dead_inv: "inv st \<Longrightarrow> port_Dead p e d reason st = (st', u) \<Longrightarrow> inv st'"
    and reclaim_inv: "inv st \<Longrightarrow> port_ReclaimExpired p st = (st', k) \<Longrightarrow> inv st'"
    and env_inv: "inv st \<Longrightarrow> env st st' \<Longrightarrow> inv st'"
    and claim_home: "inv st \<Longrightarrow> port_Claim p n st = (st', Inr evs) \<Longrightarrow> home_ok home evs"
begin

lemma settle_inv:
  "inv st \<Longrightarrow> settleAck p e d st = (st', u) \<Longrightarrow> inv st'"
  "inv st \<Longrightarrow> settleNack p e d t st = (st', u) \<Longrightarrow> inv st'"
  "inv st \<Longrightarrow> settleDead p e d reason st = (st', u) \<Longrightarrow> inv st'"
  unfolding settleAck_def settleNack_def settleDead_def
  by (metis ack_inv fst_conv fst_map_prod id_apply prod.collapse,
      metis nack_inv fst_conv fst_map_prod id_apply prod.collapse,
      metis dead_inv fst_conv fst_map_prod id_apply prod.collapse)

lemma settleDead_fst: "inv st \<Longrightarrow> inv (fst (settleDead p e d reason st))"
  by (metis prod.collapse settle_inv(3))

lemma recordResult_inv:
  "inv st \<Longrightarrow> recordResult p parseTime draw now e policy response d st = (st', u) \<Longrightarrow> inv st'"
  by (auto simp: recordResult_def Let_def split: Outcome.splits dest: settle_inv)

lemma releaseHeld_inv: "inv st \<Longrightarrow> releaseHeld p now evs seen errs st = (st', released, errs') \<Longrightarrow> inv st'"
proof (induction evs arbitrary: seen errs st st' released errs')
  case (Cons e evs)
  show ?case
  proof (cases "ev_ID e \<in> set seen")
    case True
    with Cons show ?thesis by simp
  next
    case False
    let ?d = "\<lparr>dl_HTTPStatus = 0, dl_Snippet = [], dl_Err = ''delivery worker drain'', dl_Duration = 0\<rparr>"
    obtain st1 r where n: "port_Nack p e ?d now st = (st1, r)" by (cases "port_Nack p e ?d now st")
    have "inv st1" by (rule nack_inv [OF Cons.prems(1) n])
    with Cons.IH Cons.prems(2) n False show ?thesis
      by (auto simp: Let_def split: sum.splits source_error.splits prod.splits)
  qed
qed simp

lemma tryDispatch_inv: "inv st \<Longrightarrow> tryDispatch p race e w st = (r, w', st') \<Longrightarrow> inv st'"
  by (auto simp: tryDispatch_def Let_def settleDead_fst split: option.splits if_splits prod.splits bool.splits)

lemma dispatch_round_inv:
  "dispatch_round p race names queues progress accepted w st = (queues', progress', accepted', w', st') \<Longrightarrow> inv st \<Longrightarrow> inv st'"
proof (induction names arbitrary: queues progress accepted w st)
  case (Cons name names)
  show ?case
    using Cons.prems Cons.IH tryDispatch_inv [OF Cons.prems(2)] settleDead_fst [OF Cons.prems(2)]
    by (auto simp: consumeUnknown_def Let_def split: option.splits list.splits if_splits prod.splits dispatchState.splits)
qed simp

lemma retainPending_inv: "inv st \<Longrightarrow> retainPending p now queues w st = (w', st') \<Longrightarrow> inv st'"
  by (auto simp: retainPending_def split: if_splits prod.splits dest: releaseHeld_inv)

lemma dispatch_loop_inv:
  "dispatch_loop p race now order queues accepted w st = (n, w', st') \<Longrightarrow> inv st \<Longrightarrow> inv st'"
proof (induction "length (queued queues)" arbitrary: queues accepted w st rule: less_induct)
  case less
  obtain queues1 progress acc1 w1 st1 where r: "dispatch_round p race order queues False accepted w st =
      (queues1, progress, acc1, w1, st1)" by (metis prod_cases5)
  have "inv st1" by (rule dispatch_round_inv [OF r less.prems(2)])
  moreover have "progress \<Longrightarrow> length (queued queues1) < length (queued queues)" using dispatch_round_queued [OF r] by simp
  ultimately show ?case
    using less.prems(1) less.hyps r retainPending_inv
    by (auto simp: dispatch_loop.simps [of p race now order queues] split: if_splits)
qed

lemma dispatchBatch_keeps:
  assumes "dispatchBatch p race now evs w st = (n, w', st')" "worker_ok home w" "home_ok home evs"
    "home_ok home (queued (w_pending w))" "inv st"
  shows "worker_ok home w'" "home_ok home (queued (w_pending w'))" "inv st'"
  using assms dispatch_loop_ok [of p race now "listenerNames w (by_listener evs)" "by_listener evs" 0 w st n w' st' home]
    dispatch_loop_inv [of race now "listenerNames w (by_listener evs)" "by_listener evs" 0 w st n w' st']
  by (simp_all add: dispatchBatch_def Let_def home_ok_by_listener)

lemma retainEvents_keeps:
  assumes "retainEvents p now evs w st = (w', st')" "worker_ok home w" "home_ok home evs"
    "home_ok home (queued (w_pending w))" "inv st"
  shows "worker_ok home w'" "home_ok home (queued (w_pending w'))" "inv st'"
  using assms retainPending_ok(1) [of p now "by_listener evs" w st] retainPending_home [of p now "by_listener evs" w st]
    retainPending_inv [of st now "by_listener evs" w]
  by (auto simp: retainEvents_def home_ok_by_listener intro: worker_ok_same)

definition good :: "Worker \<times> 'st \<Rightarrow> bool" where
  "good x \<longleftrightarrow> worker_ok home (fst x) \<and> home_ok home (queued (w_pending (fst x))) \<and> inv (snd x)"

end

lemma drop_expired_subset:
  "drop_expired now limit evs held = (kept, expired, held') \<Longrightarrow> set kept \<subseteq> set evs"
  by (induction evs arbitrary: held kept expired held') (simp, fastforce split: if_splits prod.splits)

lemma dropExpired_facts:
  assumes "dropExpiredHeld now evs w = (kept, expired, w')"
  shows "set kept \<subseteq> set evs" "same_load w w'" "w_pending w' = w_pending w" "w_stopping w' = w_stopping w" "w_config w' = w_config w"
  using assms drop_expired_subset [of now _ evs "w_held w"]
  by (fastforce simp: dropExpiredHeld_def split: prod.splits)+

context event_port
begin

lemma RunOnce_good:
  assumes run: "RunOnce p hasReclaimer race now later w st = (w', st', r)" and good: "good (w, st)"
  shows "good (w', st')"
proof (cases "w_stopping w")
  case True
  with run good show ?thesis by (simp add: RunOnce_def)
next
  case False
  obtain kept expired w2 where d: "dropExpiredHeld now (queued (w_pending w)) (w\<lparr>w_pending := []\<rparr>) = (kept, expired, w2)"
    by (metis prod_cases3)
  note f = dropExpired_facts [OF d]
  have ok2: "worker_ok home w2" using good f(2) worker_ok_same [OF same_load_misc(1)] worker_ok_same by (auto simp: good_def)
  have kept: "home_ok home kept" using good f(1) by (auto simp: good_def home_ok_def)
  have pend: "home_ok home (queued (w_pending w2))" using f(3) by (simp add: queued_def)
  obtain st1 r1 where rec: "(if hasReclaimer then port_ReclaimExpired p st else (st, Inr 0)) = (st1, r1)" by (metis prod.collapse)
  have inv1: "inv st1" using good rec reclaim_inv by (auto simp: good_def split: if_splits)
  obtain st2 r2 where cl: "port_Claim p (wc_BatchSize (w_config w2)) st1 = (st2, r2)" by (metis prod.collapse)
  have inv2: "inv st2" by (rule claim_inv [OF inv1 cl])
  have claimed: "home_ok home (kept @ evs)" if "r2 = Inr evs" for evs using claim_home [OF inv1] cl that kept by simp
  have batch: "good (w3, st3)" if "dispatchBatch p race later evs w2 s = (n, w3, st3)" "home_ok home evs" "inv s" for evs s n w3 st3
    using dispatchBatch_keeps [OF that(1) ok2 that(2) pend that(3)] by (simp add: good_def)
  have retain: "good (w3, st3)" if "retainEvents p later kept w2 s = (w3, st3)" "inv s" for s w3 st3
    using retainEvents_keeps [OF that(1) ok2 kept pend that(2)] by (simp add: good_def)
  have inv0: "inv st" using good by (simp add: good_def)
  show ?thesis
    using run False d rec cl batch retain kept claimed inv0 inv1 inv2
    by (auto simp: RunOnce_def takePending_def queued_def split: if_splits sum.splits prod.splits)
qed

lemma drain_end_good:
  assumes "drain_end p now timedOut w st = (result, w', st')" "good (w, st)"
  shows "good (w', st')"
  using assms releaseHeld_inv [of st now]
  by (auto simp: drain_end_def Let_def takeHeldForDrain_def good_def queued_def split: prod.splits
      intro!: worker_ok_same [of w "w\<lparr>w_pending := [], w_held := [], w_releaseErr := _\<rparr>"] same_load_trans [OF same_load_misc(1) same_load_trans [OF same_load_misc(2) same_load_misc(4)]])

lemma finish_pending: "w_pending (finish_delivery e w) = w_pending w"
  by (simp add: finish_delivery_def release_global_def release_listener_def untrack_def finish_def Let_def split: option.splits)

lemma step_good: "worker_step p env x y \<Longrightarrow> good x \<Longrightarrow> good y"
proof (induction rule: worker_step.induct)
  case (cycle hasReclaimer race now later w st w' st' r)
  then show ?case by (rule RunOnce_good)
next
  case (delivered e w parseTime draw now policy response delivery st st' r)
  then show ?case using recordResult_inv finish_delivery_ok by (auto simp: good_def finish_pending)
next
  case (refused e w delivery reason st st' r)
  then show ?case using settle_inv(3) finish_delivery_ok by (auto simp: good_def finish_pending)
next
  case (stopping w st)
  then show ?case using worker_ok_same [OF same_load_misc(7)] by (auto simp: good_def drain_begin_def)
next
  case (drained now timedOut w st result w' st')
  then show ?case by (rule drain_end_good)
next
  case (environment st st' w)
  then show ?case using env_inv by (auto simp: good_def)
qed

lemma run_good: "worker_run p env x y \<Longrightarrow> good x \<Longrightarrow> good y"
  unfolding worker_run_def by (induction rule: rtranclp_induct) (auto intro: step_good)

end

section \<open>A new worker\<close>

definition fresh_listener :: "listenerState \<Rightarrow> bool" where
  "fresh_listener ls \<longleftrightarrow>
     ls_sem ls = (if lc_Concurrency (ls_config ls) > 0 then Some (newSemaphore (lc_Concurrency (ls_config ls))) else None)"

definition all_fresh :: "(string \<times> listenerState) list \<Rightarrow> bool" where
  "all_fresh m \<longleftrightarrow> (\<forall>n ls. map_of m n = Some ls \<longrightarrow> fresh_listener ls)"

lemma add_listener_fresh:
  assumes "all_fresh (fst acc)"
  shows "all_fresh (fst (add_listener acc l))"
proof -
  have "fresh_listener \<lparr>ls_config = l,
      ls_sem = (if lc_Concurrency l > 0 then Some (newSemaphore (lc_Concurrency l)) else None)\<rparr>"
    by (simp add: fresh_listener_def)
  with assms show ?thesis
    by (auto simp: add_listener_def update_conv' all_fresh_def simp del: if_split split: prod.splits if_split_asm)
qed

lemma add_listeners_fresh: "all_fresh (fst acc) \<Longrightarrow> all_fresh (fst (foldl add_listener acc lcs))"
proof (induction lcs arbitrary: acc)
  case (Cons l lcs)
  then show ?case using add_listener_fresh by simp
qed simp

lemma NewWorker_listeners:
  assumes "map_of (w_listeners (NewWorker cfg)) n = Some ls"
  shows "fresh_listener ls"
  using assms add_listeners_fresh [of "([], [])" "wc_Listeners cfg"]
  by (auto simp: NewWorker_def Let_def all_fresh_def split: prod.splits)

lemma NewWorker_ok: "worker_ok home (NewWorker cfg)"
proof -
  let ?w = "NewWorker cfg"
  have f: "w_activity ?w = []" "w_inFlight ?w = []"
    "w_global ?w = newSemaphore (wc_GlobalConcurrency (w_config ?w))" "0 < wc_GlobalConcurrency (w_config ?w)"
    by (simp_all add: NewWorker_def Let_def split: prod.splits)
  then show ?thesis
    using NewWorker_listeners [of cfg]
    by (fastforce simp: worker_ok_def activity_ok_def listener_ok_def fresh_listener_def load_def activityEvents_def inflight_def activity_of_def newSemaphore_def)
qed

lemma NewWorker_pending: "queued (w_pending (NewWorker cfg)) = []"
  by (simp add: NewWorker_def Let_def queued_def split: prod.splits)

lemma sum_alist: "distinct (map fst m) \<Longrightarrow> sum_list (map (\<lambda>(i, x). g x) m) = (\<Sum>i \<in> fst ` set m. g (the (map_of m i)))"
proof (induction m)
  case (Cons a m)
  obtain i x where a: "a = (i, x)" by (cases a)
  with Cons.prems have "i \<notin> fst ` set m" by simp
  then have "(\<Sum>j \<in> fst ` set m. g (the (map_of (a # m) j))) = (\<Sum>j \<in> fst ` set m. g (the (map_of m j)))"
    using a by (intro sum.cong) auto
  with Cons a \<open>i \<notin> fst ` set m\<close> show ?case by simp
qed simp

lemma InFlight_running:
  assumes "worker_ok home w"
  shows "InFlight w = length (activityEvents w)"
proof -
  let ?A = "fst ` set (w_inFlight w)" and ?B = "fst ` set (w_activity w)"
  have d: "distinct (map fst (w_inFlight w))" "distinct (map fst (w_activity w))"
    using assms by (simp_all add: worker_ok_def activity_ok_def)
  have eq: "inflight w i = length (activity_of w i)" for i using assms by (simp add: worker_ok_def)
  have "InFlight w = (\<Sum>i \<in> ?A. the (map_of (w_inFlight w) i))"
    using sum_alist [OF d(1), of "\<lambda>x. x"] by (simp add: InFlight_def case_prod_unfold)
  also have "\<dots> = (\<Sum>i \<in> ?A. inflight w i)"
    by (rule sum.cong [OF refl]) (auto simp: inflight_def map_of_eq_None_iff split: option.splits)
  finally have "InFlight w = (\<Sum>i \<in> ?A. inflight w i)" .
  moreover have "length (activityEvents w) = (\<Sum>i \<in> ?B. length (the (map_of (w_activity w) i)))"
    using sum_alist [OF d(2), of length] by (simp add: activityEvents_def length_concat case_prod_unfold o_def)
  moreover have "\<dots> = (\<Sum>i \<in> ?B. length (activity_of w i))"
    by (rule sum.cong [OF refl]) (auto simp: activity_of_def map_of_eq_None_iff split: option.splits)
  moreover have "inflight w i = 0" if "i \<notin> ?A" for i by (simp add: inflight_def map_of_eq_None_iff [THEN iffD2, OF that])
  moreover have "activity_of w i = []" if "i \<notin> ?B" for i by (simp add: activity_of_def map_of_eq_None_iff [THEN iffD2, OF that])
  moreover have "(\<Sum>i \<in> ?A. inflight w i) = (\<Sum>i \<in> ?B. length (activity_of w i))"
    by (rule sum.mono_neutral_cong) (use calculation(4,5) eq in auto)
  ultimately show ?thesis by simp
qed

section \<open>The PostgreSQL source satisfies the port's contract\<close>

text \<open>The \<open>k\<close>-th call of the worker meets the server as \<open>pgs k\<close> and reads the clock \<open>clock k\<close>.\<close>

definition trigger_port :: "TriggerSource \<Rightarrow> (nat \<Rightarrow> pg) \<Rightarrow> (nat \<Rightarrow> instant) \<Rightarrow> (nat \<times> db) port" where
  "trigger_port s pgs clock =
     \<lparr>port_Claim = (\<lambda>n (k, db). map_prod (Pair (Suc k)) id (Claim s (pgs k) n db)),
      port_Ack = (\<lambda>e d (k, db). map_prod (Pair (Suc k)) id (Ack s (pgs k) e d db)),
      port_Nack = (\<lambda>e d retryAt (k, db). map_prod (Pair (Suc k)) id (Nack s (pgs k) (clock k) e d retryAt db)),
      port_Dead = (\<lambda>e d reason (k, db). map_prod (Pair (Suc k)) id (Dead s (pgs k) e d reason db)),
      port_ReclaimExpired = (\<lambda>(k, db). map_prod (Pair (Suc k)) id (ReclaimExpired s (pgs k) db))\<rparr>"

text \<open>\<open>home\<close> names the listener each event id was enqueued for.\<close>

definition log_home :: "(int \<Rightarrow> string) \<Rightarrow> db \<Rightarrow> bool" where
  "log_home home db \<longleftrightarrow> list_all (\<lambda>e. e_listener e = home (e_id e)) (events db)"

definition source_inv :: "(int \<Rightarrow> string) \<Rightarrow> nat \<times> db \<Rightarrow> bool" where
  "source_inv home st \<longleftrightarrow> queue_ok (snd st) \<and> log_home home (snd st)"

definition source_env :: "(int \<Rightarrow> string) \<Rightarrow> nat \<times> db \<Rightarrow> nat \<times> db \<Rightarrow> bool" where
  "source_env home st st' \<longleftrightarrow> (\<exists>op. queue_step op (snd st) (snd st')) \<and> log_home home (snd st')"

lemma readClaimedEvents_from_log:
  assumes "ev \<in> set (readClaimedEvents db ids)"
  obtains e q where "e \<in> set (events db)" "ev = event_of e q"
proof -
  let ?xs = "joined db (\<lambda>q. q_event_id q \<in> set ids)"
  have "\<exists>i. map_of (rev (map (\<lambda>(q, e). (e_id e, event_of e q)) ?xs)) i = Some ev"
    using assms by (auto simp: readClaimedEvents_def foldl_upd_map_of Let_def map_filter_def)
  then obtain i where "(i, ev) \<in> set (rev (map (\<lambda>(q, e). (e_id e, event_of e q)) ?xs))" by (blast dest: map_of_SomeD)
  then obtain q e where "(q, e) \<in> set ?xs" "ev = event_of e q" by auto
  then show thesis using that by (auto simp: joined_mem)
qed

lemma Claim_from_log:
  assumes "Claim s pg n db = (db', Inr evs)" "ev \<in> set evs"
  obtains e q where "e \<in> set (events db)" "ev = event_of e q"
proof -
  obtain db'' ids where "ev \<in> set (readClaimedEvents db'' ids)" "events db'' = events db"
    using assms by (auto simp: Claim_def Let_def split: sum.splits if_splits dest!: finish_txD)
  then show thesis using that by (metis readClaimedEvents_from_log)
qed

lemma step_keeps_home:
  assumes "queue_step op db db'" "log_home home db" "\<And>eid clock. op \<noteq> OpEnqueue eid clock"
  shows "log_home home db'"
  using assms
  by (induction rule: queue_step.induct)
    (auto simp: log_home_def settled_def dest!: Claim_result Ack_result Nack_result Dead_result Reclaim_result Retry_result)

interpretation pg_source: event_port "trigger_port s pgs clock" "source_env home" "source_inv home" home
  for s pgs clock home
proof
  fix st st' and n :: int and r
  assume "source_inv home st" "port_Claim (trigger_port s pgs clock) n st = (st', r)"
  then show "source_inv home st'"
    by (cases st; cases st') (auto simp: trigger_port_def source_inv_def map_prod_def split: prod.splits
        dest: queue_step.claim intro: queue_ok_step step_keeps_home)
next
  fix st st' e d u
  assume "source_inv home st" "port_Ack (trigger_port s pgs clock) e d st = (st', u)"
  then show "source_inv home st'"
    by (cases st; cases st') (auto simp: trigger_port_def source_inv_def map_prod_def split: prod.splits
        dest: queue_step.ack intro: queue_ok_step step_keeps_home)
next
  fix st st' e d t u
  assume "source_inv home st" "port_Nack (trigger_port s pgs clock) e d t st = (st', u)"
  then show "source_inv home st'"
    by (cases st; cases st') (auto simp: trigger_port_def source_inv_def map_prod_def split: prod.splits
        dest: queue_step.nack intro: queue_ok_step step_keeps_home)
next
  fix st st' e d reason u
  assume "source_inv home st" "port_Dead (trigger_port s pgs clock) e d reason st = (st', u)"
  then show "source_inv home st'"
    by (cases st; cases st') (auto simp: trigger_port_def source_inv_def map_prod_def split: prod.splits
        dest: queue_step.dead intro: queue_ok_step step_keeps_home)
next
  fix st st' k
  assume "source_inv home st" "port_ReclaimExpired (trigger_port s pgs clock) st = (st', k)"
  then show "source_inv home st'"
    by (cases st; cases st') (auto simp: trigger_port_def source_inv_def map_prod_def split: prod.splits
        dest: queue_step.reclaim intro: queue_ok_step step_keeps_home)
next
  fix st st'
  assume "source_inv home st" "source_env home st st'"
  then show "source_inv home st'" by (auto simp: source_inv_def source_env_def intro: queue_ok_step)
next
  fix st st' and n :: int and evs
  assume inv: "source_inv home st" and "port_Claim (trigger_port s pgs clock) n st = (st', Inr evs)"
  then have "Claim s (pgs (fst st)) n (snd st) = (snd st', Inr evs)"
    by (cases st; cases st') (auto simp: trigger_port_def map_prod_def split: prod.splits)
  then have "ev_Listener ev = home (ev_ID ev)" if "ev \<in> set evs" for ev
    using Claim_from_log [OF _ that] inv by (fastforce simp: source_inv_def log_home_def list_all_iff event_of_def)
  then show "home_ok home evs" by (simp add: home_ok_def)
qed

section \<open>The calls a worker makes\<close>

datatype port_call =
    CallClaim int
  | CallAck Event Delivery
  | CallNack Event Delivery instant
  | CallDead Event Delivery string
  | CallReclaim

text \<open>A port that records the calls made to it.\<close>

definition logged :: "'st port \<Rightarrow> ('st \<times> port_call list) port" where
  "logged p =
     \<lparr>port_Claim = (\<lambda>n (st, log). map_prod (\<lambda>st'. (st', log @ [CallClaim n])) id (port_Claim p n st)),
      port_Ack = (\<lambda>e d (st, log). map_prod (\<lambda>st'. (st', log @ [CallAck e d])) id (port_Ack p e d st)),
      port_Nack = (\<lambda>e d t (st, log). map_prod (\<lambda>st'. (st', log @ [CallNack e d t])) id (port_Nack p e d t st)),
      port_Dead = (\<lambda>e d reason (st, log). map_prod (\<lambda>st'. (st', log @ [CallDead e d reason])) id (port_Dead p e d reason st)),
      port_ReclaimExpired = (\<lambda>(st, log). map_prod (\<lambda>st'. (st', log @ [CallReclaim])) id (port_ReclaimExpired p st))\<rparr>"

fun dead_call :: "port_call \<Rightarrow> Event list" where
  "dead_call (CallDead e d reason) = [e]"
| "dead_call _ = []"

fun nack_call :: "port_call \<Rightarrow> Event list" where
  "nack_call (CallNack e d t) = [e]"
| "nack_call _ = []"

definition dead_events :: "port_call list \<Rightarrow> Event list" where
  "dead_events log = concat (map dead_call log)"

definition nacked_events :: "port_call list \<Rightarrow> Event list" where
  "nacked_events log = concat (map nack_call log)"

lemma logged_settleDead:
  "settleDead (logged p) e d reason (st, log) = ((st', log'), r) \<Longrightarrow> log' = log @ [CallDead e d reason]"
  by (auto simp: settleDead_def logged_def map_prod_def split: prod.splits)

lemma logged_settleDead_fst: "snd (fst (settleDead (logged p) e d reason x)) = snd x @ [CallDead e d reason]"
  by (cases x) (auto simp: settleDead_def logged_def map_prod_def split: prod.splits)

definition tally :: "Worker \<Rightarrow> 'st \<times> port_call list \<Rightarrow> Event multiset" where
  "tally w x = mset (activityEvents w) + mset (dead_events (snd x))"

lemma tally_same [simp]: "tally (releaseHold e w) x = tally w x" "activityEvents (releaseHold e w) = activityEvents w"
  by (simp_all add: tally_def activityEvents_def releaseHold_def)

lemma tryDispatch_logged:
  assumes "tryDispatch (logged p) race e w x = (r, w', x')"
  shows "tally w' x' = (if r = DispatchBlocked then {#} else {#e#}) + tally w x"
    "nacked_events (snd x') = nacked_events (snd x)"
    "length (activityEvents w') = length (activityEvents w) + (if r = DispatchAccepted then 1 else 0)"
proof -
  have log: "snd x' = snd x @ (if r = DispatchConsumed then [CallDead e (error_delivery (snd (checkPayloadSize (ev_Payload e)
      (lc_MaxPayloadBytes (ls_config (the (map_of (w_listeners w) (ev_Listener e)))))))) (snd (checkPayloadSize (ev_Payload e)
      (lc_MaxPayloadBytes (ls_config (the (map_of (w_listeners w) (ev_Listener e)))))))] else [])"
    using assms by (auto simp: tryDispatch_def Let_def logged_settleDead_fst split: option.splits if_splits prod.splits bool.splits)
  from assms have "tally w' x' = (if r = DispatchBlocked then {#} else {#e#}) + tally w x \<and>
      length (activityEvents w') = length (activityEvents w) + (if r = DispatchAccepted then 1 else 0)"
  proof (cases rule: tryDispatch_cases)
    case same
    then have "activityEvents w' = activityEvents w" by (simp add: same_load_def activityEvents_def)
    with same(1) log show ?thesis by (cases r) (auto simp: tally_def dead_events_def)
  next
    case (accept ls sem)
    have act: "w_activity w' = append_to (ev_ID e) e (w_activity w)" by (simp add: accept(7))
    have "mset (activityEvents w') = add_mset e (mset (activityEvents w))"
      using mset_append_to [of "ev_ID e" e "w_activity w"] by (simp add: activityEvents_def act)
    with accept(1,2) load_append(2) [OF act] show ?thesis by (simp add: tally_def)
  qed
  then show "tally w' x' = (if r = DispatchBlocked then {#} else {#e#}) + tally w x"
    "length (activityEvents w') = length (activityEvents w) + (if r = DispatchAccepted then 1 else 0)" by simp_all
  show "nacked_events (snd x') = nacked_events (snd x)" using log by (simp add: nacked_events_def)
qed

lemma consumeUnknown_logged:
  "tally w (consumeUnknown (logged p) e x) = add_mset e (tally w x)"
  "nacked_events (snd (consumeUnknown (logged p) e x)) = nacked_events (snd x)"
  by (simp_all add: consumeUnknown_def Let_def tally_def logged_settleDead_fst dead_events_def nacked_events_def)

lemma dispatch_round_logged:
  "dispatch_round (logged p) race names queues progress accepted w x = (queues', progress', accepted', w', x') \<Longrightarrow>
    mset (queued queues) + tally w x = mset (queued queues') + tally w' x' \<and>
    nacked_events (snd x') = nacked_events (snd x) \<and>
    accepted' + length (activityEvents w) = accepted + length (activityEvents w') \<and> w_pending w' = w_pending w"
proof (induction names arbitrary: queues progress accepted w x)
  case (Cons name names)
  show ?case
  proof (cases "map_of queues name")
    case (Some q)
    show ?thesis
    proof (cases q)
      case (Cons event rest)
      note m = queued_update [OF Some [unfolded Cons]]
      have pend: "w_pending (releaseHold event y) = w_pending y" for y by (simp add: releaseHold_def)
      show ?thesis
      proof (cases "map_of (w_listeners w) name")
        case None
        then show ?thesis
          using Cons.IH [of "AList.update name rest queues" True accepted "releaseHold event w" "consumeUnknown (logged p) event x"]
            Cons.prems Some \<open>q = event # rest\<close> m consumeUnknown_logged [where p = p] pend by simp
      next
        case (Some ls)
        obtain r w1 x1 where t: "tryDispatch (logged p) race event w x = (r, w1, x1)" by (metis prod_cases3)
        note tl = tryDispatch_logged [OF t] and p1 = tryDispatch_pending [OF t]
        show ?thesis
          using Cons.prems Some \<open>map_of queues name = Some q\<close> \<open>q = event # rest\<close> t tl p1 pend m Cons.IH
          by (cases r) fastforce+
      qed
    qed (use Cons Some in auto)
  qed (use Cons in auto)
qed simp

lemma fold_stopping: "w_stopping (fold (hold_one now name) q w) = w_stopping w"
  by (induction q arbitrary: w) (simp_all add: hold_one_def)

lemma retain_stopping:
  "w_stopping (fold (\<lambda>(name, q). fold (hold_one now name) q) queues w) = w_stopping w"
proof (induction queues arbitrary: w)
  case (Cons x queues)
  then show ?case by (cases x) (simp add: fold_stopping)
qed simp

lemma logged_Nack:
  "port_Nack (logged p) e d t x = (x', r) \<Longrightarrow> snd x' = snd x @ [CallNack e d t]"
  by (cases x) (auto simp: logged_def map_prod_def split: prod.splits)

lemma releaseHeld_logged:
  "releaseHeld (logged p) now evs seen errs x = (x', released, errs') \<Longrightarrow>
    \<exists>new. nacked_events (snd x') = nacked_events (snd x) @ new \<and> dead_events (snd x') = dead_events (snd x) \<and>
      distinct (map ev_ID new) \<and> ev_ID ` set new = ev_ID ` set evs - set seen \<and> set released \<subseteq> ev_ID ` set new"
proof (induction evs arbitrary: seen errs x x' released errs')
  case (Cons e evs)
  show ?case
  proof (cases "ev_ID e \<in> set seen")
    case True
    with Cons.IH [of seen errs x x' released errs'] Cons.prems show ?thesis by (auto simp: insert_Diff_if)
  next
    case False
    let ?d = "\<lparr>dl_HTTPStatus = 0, dl_Snippet = [], dl_Err = ''delivery worker drain'', dl_Duration = 0\<rparr>"
    obtain x1 r where n: "port_Nack (logged p) e ?d now x = (x1, r)" by (cases "port_Nack (logged p) e ?d now x")
    have log: "nacked_events (snd x1) = nacked_events (snd x) @ [e]" "dead_events (snd x1) = dead_events (snd x)"
      using logged_Nack [OF n] by (simp_all add: nacked_events_def dead_events_def)
    obtain errs1 rel1 where step: "releaseHeld (logged p) now evs (ev_ID e # seen) errs1 x1 = (x', rel1, errs')"
      "set released \<subseteq> insert (ev_ID e) (set rel1)"
      using Cons.prems n False
      by (auto simp: Let_def split: sum.splits source_error.splits prod.splits) blast
    from Cons.IH [OF step(1)] obtain new where new: "nacked_events (snd x') = nacked_events (snd x1) @ new"
      "dead_events (snd x') = dead_events (snd x1)" "distinct (map ev_ID new)"
      "ev_ID ` set new = ev_ID ` set evs - set (ev_ID e # seen)" "set rel1 \<subseteq> ev_ID ` set new" by blast
    show ?thesis
      by (rule exI [of _ "e # new"]) (use new log step(2) False in auto)
  qed
qed simp

lemma retainPending_logged:
  assumes "retainPending (logged p) now queues w x = (w', x')"
  shows "tally w' x' = tally w x \<and> length (activityEvents w') = length (activityEvents w) \<and> w_stopping w' = w_stopping w \<and>
    (if w_stopping w
     then w_pending w' = w_pending w \<and> (\<exists>new. nacked_events (snd x') = nacked_events (snd x) @ new \<and>
            distinct (map ev_ID new) \<and> ev_ID ` set new = ev_ID ` set (queued queues))
     else mset (queued (w_pending w')) = mset (queued (w_pending w)) + mset (queued queues) \<and> x' = x)"
proof (cases "w_stopping w")
  case True
  obtain released errs where "releaseHeld (logged p) now (queued queues) [] [] x = (x', released, errs)"
    "w' = w\<lparr>w_releaseErr := w_releaseErr w @ errs\<rparr>"
    using assms True by (auto simp: retainPending_def queued_def split: prod.splits)
  with releaseHeld_logged [OF this(1)] True show ?thesis by (auto simp: tally_def activityEvents_def)
next
  case False
  then have "w_stopping w' = w_stopping w" "x' = x" using assms by (auto simp: retainPending_def retain_stopping)
  moreover have "activityEvents w' = activityEvents w"
    using retainPending_ok(1) [OF assms] by (simp add: same_load_def activityEvents_def)
  ultimately show ?thesis using False retainPending_ok(3) [OF assms] by (simp add: tally_def)
qed

text \<open>What is left of a batch is retained, or released when a drain has begun.\<close>

definition left_over :: "Event list \<Rightarrow> Worker \<Rightarrow> Worker \<Rightarrow> port_call list \<Rightarrow> port_call list \<Rightarrow> bool" where
  "left_over rest w w' log log' \<longleftrightarrow>
     (if w_stopping w'
      then w_pending w' = w_pending w \<and> (\<exists>new. nacked_events log' = nacked_events log @ new \<and>
             distinct (map ev_ID new) \<and> ev_ID ` set new = ev_ID ` set rest)
      else mset (queued (w_pending w')) = mset (queued (w_pending w)) + mset rest \<and> nacked_events log' = nacked_events log)"

lemma allQueuesEmpty_queued: "allQueuesEmpty queues \<Longrightarrow> queued queues = []"
  by (auto simp: allQueuesEmpty_def queued_def list_all_iff)

lemma dispatch_loop_logged:
  "dispatch_loop (logged p) race now order queues accepted w x = (n, w', x') \<Longrightarrow>
    \<exists>rest. mset (queued queues) + tally w x = mset rest + tally w' x' \<and>
      n + length (activityEvents w) = accepted + length (activityEvents w') \<and> left_over rest w w' (snd x) (snd x')"
proof (induction "length (queued queues)" arbitrary: queues accepted w x rule: less_induct)
  case less
  obtain queues1 progress acc1 w1 x1 where r: "dispatch_round (logged p) race order queues False accepted w x =
      (queues1, progress, acc1, w1, x1)" by (metis prod_cases5)
  note l = dispatch_round_logged [OF r]
  have shorter: "progress \<Longrightarrow> length (queued queues1) < length (queued queues)" using dispatch_round_queued [OF r] by simp
  consider "\<not> progress" | "progress" "allQueuesEmpty queues1" | "progress" "\<not> allQueuesEmpty queues1" by blast
  then show ?case
  proof cases
    case 1
    then have ret: "retainPending (logged p) now queues1 w1 x1 = (w', x')" "n = acc1"
      using less.prems r by (simp_all add: dispatch_loop.simps [of _ race now order queues])
    show ?thesis
      by (rule exI [of _ "queued queues1"]) (use retainPending_logged [OF ret(1)] ret(2) l in \<open>auto simp: left_over_def\<close>)
  next
    case 2
    then have "w' = w1" "x' = x1" "n = acc1" using less.prems r by (simp_all add: dispatch_loop.simps [of _ race now order queues])
    then show ?thesis using l allQueuesEmpty_queued [OF 2(2)] by (auto simp: left_over_def)
  next
    case 3
    then have "dispatch_loop (logged p) race now order queues1 acc1 w1 x1 = (n, w', x')"
      using less.prems r by (simp add: dispatch_loop.simps [of _ race now order queues])
    from less.hyps [OF shorter [OF 3(1)] this] l show ?thesis by (auto simp: left_over_def)
  qed
qed

lemma releaseHeld_errs: "releaseHeld p now evs seen errs st = (st', rel, errs') \<Longrightarrow> prefix errs errs'"
proof (induction evs arbitrary: seen errs st rel)
  case (Cons e evs)
  show ?case
    using Cons.prems
    by (auto simp: Let_def split: if_splits sum.splits source_error.splits prod.splits
        dest!: Cons.IH intro: prefix_order.trans [OF prefixI [OF refl]])
qed simp

section \<open>Properties\<close>

text \<open>C16. Admission is bounded in every reachable state: whatever the worker, its deliveries, its drain and
  the rest of the system do, in any order and with any fault, a worker never has more deliveries in
  flight than its global concurrency, nor more for one listener than that listener's concurrency,
  and the in-flight count it reports is the number of deliveries running.\<close>

theorem admission_is_bounded:
  assumes "worker_run (trigger_port s pgs clock) (source_env home) (NewWorker cfg, (0, db)) (w, st)"
    and "queue_ok db" "log_home home db"
  shows "InFlight w = length (activityEvents w) \<and>
    int (length (activityEvents w)) \<le> wc_GlobalConcurrency (w_config w) \<and>
    (\<forall>name ls. map_of (w_listeners w) name = Some ls \<and> 0 < lc_Concurrency (ls_config ls) \<longrightarrow>
      int (length (filter (\<lambda>e. ev_Listener e = name) (activityEvents w))) \<le> lc_Concurrency (ls_config ls))"
proof -
  have "pg_source.good home (NewWorker cfg, (0, db))"
    using assms(2,3) NewWorker_ok by (simp add: pg_source.good_def NewWorker_pending source_inv_def)
  then have ok: "worker_ok home w"
    using pg_source.run_good [OF assms(1)] by (simp add: pg_source.good_def)
  have "int (load w name) \<le> lc_Concurrency (ls_config ls)"
    if "map_of (w_listeners w) name = Some ls" "0 < lc_Concurrency (ls_config ls)" for name ls
  proof -
    have "listener_ok w name ls" using ok that(1) by (simp add: worker_ok_def)
    with that(2) show ?thesis by (auto simp: listener_ok_def split: option.splits)
  qed
  then show ?thesis using ok InFlight_running [OF ok] by (auto simp: worker_ok_def load_def)
qed

definition sample_config :: WorkerConfig where
  "sample_config = \<lparr>wc_BatchSize = 10, wc_GlobalConcurrency = 2, wc_PollInterval = 0, wc_LeaseTimeout = 0,
     wc_DrainTimeout = 0, wc_Listeners = [\<lparr>lc_Name = ''orders'', lc_URL = ''https://example.org'', lc_Method = [],
       lc_Headers = [], lc_Secrets = [], lc_Policy = \<lparr>MaxAttempts = 3, Backoff = ''fixed'', InitialInterval = 1,
         MaxInterval = 10, Jitter = False\<rparr>, lc_Concurrency = 1, lc_MaxPayloadBytes = 0\<rparr>]\<rparr>"

theorem admission_is_bounded_witness:
  "\<exists>w st r. RunOnce (trigger_port sample_source (\<lambda>k. sample_pg) (\<lambda>k. 100)) True (\<lambda>e. False) 100 100
      (NewWorker sample_config) (0, sample_db) = (w, st, r) \<and> InFlight w = length (activityEvents w)"
proof -
  let ?p = "trigger_port sample_source (\<lambda>k. sample_pg) (\<lambda>k. 100)" and ?home = "\<lambda>i. ''orders''"
  obtain w st r where run: "RunOnce ?p True (\<lambda>e. False) 100 100 (NewWorker sample_config) (0, sample_db) = (w, st, r)"
    by (metis prod_cases3)
  have "worker_run ?p (source_env ?home) (NewWorker sample_config, (0, sample_db)) (w, st)"
    unfolding worker_run_def by (rule r_into_rtranclp, rule worker_step.cycle [OF run])
  moreover have "log_home ?home sample_db" by (simp add: log_home_def sample_defs)
  ultimately show ?thesis using admission_is_bounded [OF _ sample_facts(1)] run by blast
qed

text \<open>C17. Dispatch conserves events: of a batch, every event is either admitted (tracked as running),
  handed to Dead exactly once (unknown listener, oversized payload), or left over; what is left over
  is retained locally, or, once a drain has begun, each of its ids is released by exactly one Nack.
  The number returned is the number of deliveries started.\<close>

theorem dispatch_conserves_events:
  assumes "dispatchBatch (logged p) race now evs w (st, log) = (n, w', (st', log'))"
  shows "\<exists>rest. mset evs + mset (activityEvents w) + mset (dead_events log) =
      mset (activityEvents w') + mset (dead_events log') + mset rest \<and>
    length (activityEvents w') = length (activityEvents w) + n \<and>
    (if w_stopping w'
     then w_pending w' = w_pending w \<and> (\<exists>new. nacked_events log' = nacked_events log @ new \<and>
            distinct (map ev_ID new) \<and> ev_ID ` set new = ev_ID ` set rest)
     else mset (queued (w_pending w')) = mset (queued (w_pending w)) + mset rest \<and> nacked_events log' = nacked_events log)"
proof -
  have "dispatch_loop (logged p) race now (listenerNames w (by_listener evs)) (by_listener evs) 0 w (st, log) = (n, w', (st', log'))"
    using assms by (simp add: dispatchBatch_def Let_def)
  from dispatch_loop_logged [OF this] obtain rest where
    "mset (queued (by_listener evs)) + tally w (st, log) = mset rest + tally w' (st', log')"
    "n + length (activityEvents w) = length (activityEvents w')" "left_over rest w w' log log'" by auto
  then show ?thesis
    by (intro exI [of _ rest]) (simp add: by_listener_mset tally_def left_over_def add_ac)
qed

theorem dispatch_conserves_events_witness:
  "\<exists>n w' st' log'. dispatchBatch (logged (trigger_port sample_source (\<lambda>k. sample_pg) (\<lambda>k. 100))) (\<lambda>e. False) 100
      [event_of (sample_event 1) (sample_row 1 Pending)] (NewWorker sample_config) ((0, sample_db), []) = (n, w', (st', log')) \<and>
    length (activityEvents w') = n"
proof -
  let ?p = "trigger_port sample_source (\<lambda>k. sample_pg) (\<lambda>k. 100)"
  let ?r = "dispatchBatch (logged ?p) (\<lambda>e. False) 100 [event_of (sample_event 1) (sample_row 1 Pending)]
      (NewWorker sample_config) ((0, sample_db), [])"
  obtain n w' st' log' where run: "?r = (n, w', (st', log'))" by (metis prod_cases4)
  have "activityEvents (NewWorker sample_config) = []"
    by (simp add: activityEvents_def NewWorker_def Let_def split: prod.splits)
  with dispatch_conserves_events [OF run] run show ?thesis by auto
qed






end
