(* ===== verification/Wakeup.thy ===== *)
theory Wakeup
  imports Retry_Policy
begin

text \<open>
  The wake-up loop of \<open>internal/delivery/wakeup.go\<close>: the machine that coalesces notification hints and
  serialises reconnects, the delay before a hinted poll, and the select loop as a step function on
  the channels it waits for. A channel variable is present or nil; an event is possible only when
  its channel is present, and Go's select may take any possible one.
\<close>

section \<open>The machine\<close>

record wakeMachine =
  wm_interval :: duration
  wm_jitter :: jitter
  wm_hinted :: bool
  wm_listening :: bool
  wm_reconnecting :: bool

record wakeAction =
  wa_hint :: bool
  wa_poll :: bool
  wa_delay :: duration

definition newWakeMachine :: "duration \<Rightarrow> jitter \<Rightarrow> wakeMachine" where
  "newWakeMachine interval jit =
     \<lparr>wm_interval = (if interval \<le> 0 then time_second else interval), wm_jitter = jit, wm_hinted = False,
      wm_listening = True, wm_reconnecting = False\<rparr>"

text \<open>A nil draw is the random source; its result is a parameter.\<close>

definition wakeDelay :: "(int \<Rightarrow> int) \<Rightarrow> duration \<Rightarrow> jitter \<Rightarrow> duration" where
  "wakeDelay random interval draw =
     (if interval \<le> 0 then 0
      else let limit = interval;
               bound = (if limit < max_int64 then limit + 1 else limit);
               delay = (case draw of None \<Rightarrow> (if bound \<le> 1 then 0 else random bound) | Some d \<Rightarrow> d bound)
           in if delay < 0 then 0 else if delay > limit then interval else delay)"

definition poll_action :: wakeAction where
  "poll_action = \<lparr>wa_hint = False, wa_poll = True, wa_delay = 0\<rparr>"

definition no_action :: wakeAction where
  "no_action = \<lparr>wa_hint = False, wa_poll = False, wa_delay = 0\<rparr>"

definition wm_notify :: "(int \<Rightarrow> int) \<Rightarrow> bool \<Rightarrow> wakeMachine \<Rightarrow> wakeAction \<times> wakeMachine" where
  "wm_notify random is_open m =
     (if \<not> is_open then (no_action, m\<lparr>wm_listening := False\<rparr>)
      else if wm_hinted m then (no_action, m\<lparr>wm_listening := True\<rparr>)
      else (\<lparr>wa_hint = True, wa_poll = False, wa_delay = wakeDelay random (wm_interval m) (wm_jitter m)\<rparr>,
            m\<lparr>wm_listening := True, wm_hinted := True\<rparr>))"

definition wm_fired :: "wakeMachine \<Rightarrow> wakeAction \<times> wakeMachine" where
  "wm_fired m = (poll_action, m\<lparr>wm_hinted := False\<rparr>)"

definition wm_lost :: "wakeMachine \<Rightarrow> bool \<times> wakeMachine" where
  "wm_lost m =
     (let m' = m\<lparr>wm_listening := False\<rparr>
      in if wm_reconnecting m then (False, m') else (True, m'\<lparr>wm_reconnecting := True\<rparr>))"

definition wm_reconnected :: "bool \<Rightarrow> wakeMachine \<Rightarrow> wakeMachine" where
  "wm_reconnected is_open m = m\<lparr>wm_reconnecting := False, wm_listening := is_open\<rparr>"

section \<open>The loop\<close>

record wake_loop =
  wl_machine :: wakeMachine
  wl_can_reconnect :: bool
  wl_notify :: bool
  wl_hint :: "duration option"
  wl_result :: bool
  wl_retry :: bool

datatype wake_event = Cancelled | Tick | Notified | NotifyClosed | HintFired | Reconnected bool | RetryFired

datatype loop_action = Poll | StopLoop | StartReconnect

fun possible :: "wake_loop \<Rightarrow> wake_event \<Rightarrow> bool" where
  "possible l Cancelled = True"
| "possible l Tick = True"
| "possible l Notified = wl_notify l"
| "possible l NotifyClosed = wl_notify l"
| "possible l HintFired = (wl_hint l \<noteq> None)"
| "possible l (Reconnected b) = wl_result l"
| "possible l RetryFired = wl_retry l"

definition newWakeLoop :: "duration \<Rightarrow> bool \<Rightarrow> jitter \<Rightarrow> bool \<Rightarrow> wake_loop" where
  "newWakeLoop interval notify jit reconnect =
     \<lparr>wl_machine = newWakeMachine interval jit, wl_can_reconnect = reconnect, wl_notify = notify, wl_hint = None,
      wl_result = False, wl_retry = False\<rparr>"

text \<open>\<open>reconnectIfNeeded\<close>: the machine is told first; a result channel exists only if a reconnect started.\<close>

definition reconnectIfNeeded :: "wake_loop \<Rightarrow> bool \<times> wake_loop" where
  "reconnectIfNeeded l =
     (case wm_lost (wl_machine l) of
        (first, m) \<Rightarrow> (first \<and> wl_can_reconnect l, l\<lparr>wl_machine := m\<rparr>))"

fun wake_step :: "(int \<Rightarrow> int) \<Rightarrow> wake_event \<Rightarrow> wake_loop \<Rightarrow> loop_action list \<times> wake_loop" where
  "wake_step random Cancelled l = ([StopLoop], l)"
| "wake_step random Tick l = ([Poll], l)"
| "wake_step random NotifyClosed l =
     (case reconnectIfNeeded (l\<lparr>wl_notify := False\<rparr>) of
        (started, l') \<Rightarrow> (if started then [StartReconnect] else [], l'\<lparr>wl_result := started\<rparr>))"
| "wake_step random Notified l =
     (case wm_notify random True (wl_machine l) of
        (action, m) \<Rightarrow>
          ([], l\<lparr>wl_machine := m,
                 wl_hint := (if wa_hint action \<and> wl_hint l = None then Some (wa_delay action) else wl_hint l)\<rparr>))"
| "wake_step random HintFired l =
     ([Poll], l\<lparr>wl_machine := snd (wm_fired (wl_machine l)), wl_hint := None\<rparr>)"
| "wake_step random (Reconnected got) l =
     ([], l\<lparr>wl_result := False, wl_machine := wm_reconnected got (wl_machine l),
            wl_notify := (got \<or> wl_notify l), wl_retry := (\<not> got \<or> wl_retry l)\<rparr>)"
| "wake_step random RetryFired l =
     (case reconnectIfNeeded (l\<lparr>wl_retry := False\<rparr>) of
        (started, l') \<Rightarrow> (if started then [StartReconnect] else [], if started then l'\<lparr>wl_result := True\<rparr> else l'))"

text \<open>The loop: the poll before the first select, then events until one stops it; the events that
  are not possible in their state do not happen.\<close>

inductive wake_run :: "(int \<Rightarrow> int) \<Rightarrow> wake_loop \<Rightarrow> wake_event list \<Rightarrow> loop_action list \<Rightarrow> wake_loop \<Rightarrow> bool" for random where
  start: "wake_run random l [] [Poll] l"
| step: "wake_run random l0 evs acts l \<Longrightarrow> possible l ev \<Longrightarrow> ev \<noteq> Cancelled \<Longrightarrow> wake_step random ev l = (new, l') \<Longrightarrow>
    wake_run random l0 (evs @ [ev]) (acts @ new) l'"

section \<open>Invariant\<close>

definition wake_ok :: "wake_loop \<Rightarrow> bool" where
  "wake_ok l \<longleftrightarrow>
     (wm_hinted (wl_machine l) \<longleftrightarrow> wl_hint l \<noteq> None) \<and>
     (\<forall>d. wl_hint l = Some d \<longrightarrow> 0 \<le> d \<and> d \<le> wm_interval (wl_machine l)) \<and>
     0 < wm_interval (wl_machine l) \<and>
     (wl_result l \<longrightarrow> wm_reconnecting (wl_machine l) \<and> \<not> wl_notify l) \<and>
     (wl_retry l \<longrightarrow> \<not> wm_reconnecting (wl_machine l) \<and> \<not> wl_notify l) \<and>
     (wl_notify l \<longrightarrow> \<not> wm_reconnecting (wl_machine l)) \<and>
     (wl_can_reconnect l \<longrightarrow> wl_notify l \<or> wl_result l \<or> wl_retry l)"

lemma wakeDelay_bounds:
  assumes "0 < interval"
  shows "0 \<le> wakeDelay random interval draw" "wakeDelay random interval draw \<le> interval"
  using assms by (auto simp: wakeDelay_def Let_def split: option.splits)

lemma wake_ok_new: "wake_ok (newWakeLoop interval True jit reconnect)"
  by (simp add: wake_ok_def newWakeLoop_def newWakeMachine_def time_second_def)

lemma wake_ok_step:
  assumes ok: "wake_ok l" and ev: "possible l ev" and s: "wake_step random ev l = (acts, l')"
  shows "wake_ok l'"
proof (cases ev)
  case Notified
  have "0 < wm_interval (wl_machine l)" using ok by (simp add: wake_ok_def)
  note wakeDelay_bounds [OF this]
  with ok ev s Notified show ?thesis
    by (auto simp: wake_ok_def wm_notify_def no_action_def)
qed (use ok ev s in \<open>auto simp: wake_ok_def wm_fired_def wm_lost_def wm_reconnected_def reconnectIfNeeded_def
      Let_def split: if_splits\<close>)

lemma wake_run_ok: "wake_run random l0 evs acts l \<Longrightarrow> wake_ok l0 \<Longrightarrow> wake_ok l"
  by (induction rule: wake_run.induct) (auto dest: wake_ok_step)

lemma wake_run_polls:
  "wake_run random l0 evs acts l \<Longrightarrow>
    length (filter (\<lambda>a. a = Poll) acts) = 1 + length (filter (\<lambda>e. e = Tick \<or> e = HintFired) evs)"
proof (induction rule: wake_run.induct)
  case (step l0 evs acts l ev new l')
  then show ?case by (cases ev) (auto split: prod.splits if_splits)
qed simp



end
