(* ===== verification/Calendar.thy ===== *)
theory Calendar
  imports Prelude
begin

text \<open>
  The part of Go's \<open>time\<close> package the program formats with: the UTC civil date and time of day of an
  instant (nanoseconds since 1970-01-01T00:00:00Z) and fixed-width decimal fields. The calendar is the
  proleptic Gregorian one, walked year by year from 1970; the property the partition names rest on is
  that two instants with the same fields are the same instant.
\<close>

section \<open>Civil dates\<close>

definition leap_year :: "int \<Rightarrow> bool" where
  "leap_year y \<longleftrightarrow> 4 dvd y \<and> (\<not> 100 dvd y \<or> 400 dvd y)"

definition year_days :: "int \<Rightarrow> nat" where
  "year_days y = (if leap_year y then 366 else 365)"

text \<open>From the first of January of year \<open>y\<close>, \<open>n\<close> days on; and \<open>n\<close> days back from it.\<close>

function year_forward :: "int \<Rightarrow> nat \<Rightarrow> int \<times> nat" where
  "year_forward y n = (if n < year_days y then (y, n) else year_forward (y + 1) (n - year_days y))"
  by pat_completeness auto
termination
  by (relation "measure snd") (auto simp: year_days_def)

function year_back :: "int \<Rightarrow> nat \<Rightarrow> int \<times> nat" where
  "year_back y n = (if n = 0 then (y, 0)
     else if n \<le> year_days (y - 1) then (y - 1, year_days (y - 1) - n)
     else year_back (y - 1) (n - year_days (y - 1)))"
  by pat_completeness auto
termination
  by (relation "measure snd") (auto simp: year_days_def)

declare year_forward.simps [simp del] year_back.simps [simp del]

definition year_of_days :: "int \<Rightarrow> int \<times> nat" where
  "year_of_days d = (if 0 \<le> d then year_forward 1970 (nat d) else year_back 1970 (nat (- d)))"

definition month_lengths :: "int \<Rightarrow> nat list" where
  "month_lengths y = [31, if leap_year y then 29 else 28, 31, 30, 31, 30, 31, 31, 30, 31, 30, 31]"

fun month_walk :: "nat \<Rightarrow> nat list \<Rightarrow> nat \<Rightarrow> nat \<times> nat" where
  "month_walk m [] n = (m, n + 1)"
| "month_walk m (l # ls) n = (if n < l then (m, n + 1) else month_walk (m + 1) ls (n - l))"

section \<open>Fields of an instant\<close>

record civil =
  cv_year :: int
  cv_month :: nat
  cv_day :: nat
  cv_hour :: nat
  cv_minute :: nat
  cv_second :: nat
  cv_nanos :: nat

definition ns_per_day :: int where
  "ns_per_day = 86400000000000"

definition civil_of :: "instant \<Rightarrow> civil" where
  "civil_of t =
     (let (y, doy) = year_of_days (t div ns_per_day);
          (m, d) = month_walk 1 (month_lengths y) doy;
          r = nat (t mod ns_per_day);
          s = r div 1000000000
      in \<lparr>cv_year = y, cv_month = m, cv_day = d, cv_hour = s div 3600, cv_minute = s div 60 mod 60,
          cv_second = s mod 60, cv_nanos = r mod 1000000000\<rparr>)"

text \<open>A decimal field padded with zeros; a wider value keeps all its digits.\<close>

definition padded :: "nat \<Rightarrow> nat \<Rightarrow> string" where
  "padded w n = replicate (w - length (dec_nat n)) (CHR ''0'') @ dec_nat n"

section \<open>The calendar loses nothing\<close>

text \<open>Days from 1970-01-01 to the first of January of a year.\<close>

definition year_start :: "int \<Rightarrow> int" where
  "year_start y = (\<Sum>k \<in> {1970..<y}. int (year_days k)) - (\<Sum>k \<in> {y..<1970}. int (year_days k))"

lemma year_start_succ: "year_start (y + 1) = year_start y + int (year_days y)"
proof (cases "1970 \<le> y")
  case True
  then have "{1970..<y + 1} = insert y {1970..<y}" "{y..<1970} = {}" "{y + 1..<1970} = {}" by auto
  then show ?thesis by (simp add: year_start_def)
next
  case False
  then have "{y..<1970} = insert y {y + 1..<1970}" "{1970..<y} = {}" "{1970..<y + 1} = {}" by auto
  then show ?thesis by (simp add: year_start_def)
qed

lemma year_start_1970 [simp]: "year_start 1970 = 0"
  by (simp add: year_start_def)

lemma year_forward_start:
  "year_forward y n = (y', k) \<Longrightarrow> year_start y' + int k = year_start y + int n \<and> k < year_days y'"
proof (induction y n rule: year_forward.induct)
  case (1 y n)
  show ?case
  proof (cases "n < year_days y")
    case True
    with "1.prems" show ?thesis by (simp add: year_forward.simps [of y n])
  next
    case False
    with 1 show ?thesis by (simp add: year_forward.simps [of y n] year_start_succ of_nat_diff)
  qed
qed

lemma year_back_start:
  "year_back y n = (y', k) \<Longrightarrow> year_start y' + int k = year_start y - int n \<and> k < year_days y'"
proof (induction y n rule: year_back.induct)
  case (1 y n)
  have s: "year_start y = year_start (y - 1) + int (year_days (y - 1))" using year_start_succ [of "y - 1"] by simp
  have pos: "0 < year_days z" for z by (simp add: year_days_def)
  consider "n = 0" | "0 < n" "n \<le> year_days (y - 1)" | "year_days (y - 1) < n" by linarith
  then show ?case
  proof cases
    case 1
    with "1.prems" pos show ?thesis by (simp add: year_back.simps [of y 0])
  next
    case 2
    with "1.prems" s show ?thesis by (auto simp: year_back.simps [of y n] of_nat_diff)
  next
    case 3
    with 1 s show ?thesis by (simp add: year_back.simps [of y n] of_nat_diff)
  qed
qed

lemma year_of_days_start: "year_of_days d = (y, k) \<Longrightarrow> year_start y + int k = d \<and> k < year_days y"
  using year_forward_start [of 1970 "nat d" y k] year_back_start [of 1970 "nat (- d)" y k]
  by (auto simp: year_of_days_def split: if_splits)

lemma month_walk_start:
  "n < sum_list ls \<Longrightarrow> month_walk m ls n = (m', d) \<Longrightarrow>
    m \<le> m' \<and> m' < m + length ls \<and> 1 \<le> d \<and> d \<le> ls ! (m' - m) \<and> n + 1 = sum_list (take (m' - m) ls) + d"
proof (induction m ls n rule: month_walk.induct)
  case (2 m l ls n)
  show ?case
  proof (cases "n < l")
    case False
    with 2 have IH: "m + 1 \<le> m'" "m' < m + 1 + length ls" "1 \<le> d" "d \<le> ls ! (m' - (m + 1))"
      "n - l + 1 = sum_list (take (m' - (m + 1)) ls) + d" by auto
    have "m' - m = Suc (m' - (m + 1))" using IH(1) by simp
    with IH False show ?thesis by (simp add: not_less)
  qed (use "2.prems" in auto)
qed simp

lemma month_lengths_sum: "sum_list (month_lengths y) = year_days y"
  by (simp add: month_lengths_def year_days_def)

text \<open>The fields determine the instant.\<close>

lemma time_of_day_inj:
  fixes r q :: nat
  assumes "r div 1000000000 div 3600 = q div 1000000000 div 3600"
    "r div 1000000000 div 60 mod 60 = q div 1000000000 div 60 mod 60"
    "r div 1000000000 mod 60 = q div 1000000000 mod 60" "r mod 1000000000 = q mod 1000000000"
  shows "r = q"
proof -
  have d: "x div 60 div 60 = x div 3600" for x :: nat by (simp flip: div_mult2_eq)
  have "r div 1000000000 div 60 = q div 1000000000 div 60"
    using assms(1,2) d by (metis div_mult_mod_eq)
  then have "r div 1000000000 = q div 1000000000" using assms(3) by (metis div_mult_mod_eq)
  then show ?thesis using assms(4) by (metis div_mult_mod_eq)
qed

lemma civil_of_inj:
  assumes "civil_of t = civil_of u"
  shows "t = u"
proof -
  obtain y k where y: "year_of_days (t div ns_per_day) = (y, k)" by (cases "year_of_days (t div ns_per_day)")
  obtain y' k' where y': "year_of_days (u div ns_per_day) = (y', k')" by (cases "year_of_days (u div ns_per_day)")
  obtain m d where m: "month_walk 1 (month_lengths y) k = (m, d)" by (cases "month_walk 1 (month_lengths y) k")
  obtain m' d' where m': "month_walk 1 (month_lengths y') k' = (m', d')" by (cases "month_walk 1 (month_lengths y') k'")
  have eqs: "y = y'" "m = m'" "d = d'" using assms y y' m m' by (auto simp: civil_of_def Let_def)
  note s = year_of_days_start [OF y] year_of_days_start [OF y']
  have "k + 1 = k' + 1"
    using month_walk_start [OF _ m] month_walk_start [OF _ m'] s eqs by (simp add: month_lengths_sum)
  with s eqs have days: "t div ns_per_day = u div ns_per_day" by simp
  have "nat (t mod ns_per_day) = nat (u mod ns_per_day)"
    by (rule time_of_day_inj) (use assms y y' m m' in \<open>simp_all add: civil_of_def Let_def\<close>)
  then have "t mod ns_per_day = u mod ns_per_day" by (simp add: ns_per_day_def)
  with days show ?thesis by (metis div_mult_mod_eq)
qed

lemma dec_value_zeros: "dec_value (replicate k (CHR ''0'') @ s) = dec_value s"
proof -
  have "foldl (\<lambda>v c. 10 * v + (of_char c - 48)) 0 (replicate k (CHR ''0'')) = (0::nat)" by (induction k) simp_all
  then show ?thesis by (simp add: dec_value_def)
qed

lemma padded_value: "dec_value (padded w n) = n"
  by (simp add: padded_def dec_value_zeros)

lemma padded_inj: "padded w m = padded w n \<Longrightarrow> m = n"
  by (metis padded_value)

lemma length_dec_nat_le: "n < 10 ^ w \<Longrightarrow> 0 < w \<Longrightarrow> length (dec_nat n) \<le> w"
proof (induction n arbitrary: w rule: dec_nat.induct)
  case (1 n)
  show ?case
  proof (cases "n < 10")
    case True
    with 1 show ?thesis by (simp add: dec_nat.simps [of n])
  next
    case False
    then obtain v where w: "w = Suc v" "0 < v" using "1.prems" by (cases w; cases "w = 1") auto
    then have "n div 10 < 10 ^ v" using "1.prems"(1) by (simp add: div_less_iff_less_mult mult.commute)
    with 1 False w show ?thesis by (simp add: dec_nat.simps [of n])
  qed
qed

lemma length_padded: "n < 10 ^ w \<Longrightarrow> 0 < w \<Longrightarrow> length (padded w n) = w"
  using length_dec_nat_le [of n w] by (simp add: padded_def)

text \<open>The years an int64 of nanoseconds reaches are four digits wide.\<close>

lemma year_start_forward: "1970 \<le> y \<Longrightarrow> 365 * (y - 1970) \<le> year_start y"
proof (induction y rule: int_ge_induct)
  case (step y)
  then show ?case by (simp add: year_start_succ year_days_def)
qed simp

lemma year_start_back: "y \<le> 1970 \<Longrightarrow> year_start y \<le> 365 * (y - 1970)"
proof (induction y rule: int_le_induct)
  case (step y)
  then show ?case using year_start_succ [of "y - 1"] by (simp add: year_days_def split: if_splits)
qed simp

lemma year_range:
  assumes "in_int64 t" "year_of_days (t div ns_per_day) = (y, k)"
  shows "1600 \<le> y" "y \<le> 2300"
proof -
  have d: "- 106752 \<le> t div ns_per_day" "t div ns_per_day \<le> 106752"
    using assms(1) by (auto simp: in_int64_def min_int64_def max_int64_def ns_per_day_def)
  note s = year_of_days_start [OF assms(2)]
  have k: "k < 366" using s by (simp add: year_days_def split: if_splits)
  show "y \<le> 2300" using s d year_start_forward [of y] by (cases "1970 \<le> y") auto
  show "1600 \<le> y" using s d k year_start_back [of y] by (cases "y \<le> 1970") auto
qed

lemma civil_of_ranges:
  assumes "in_int64 t"
  shows "1600 \<le> cv_year (civil_of t)" "cv_year (civil_of t) \<le> 2300"
    "1 \<le> cv_month (civil_of t)" "cv_month (civil_of t) \<le> 12" "1 \<le> cv_day (civil_of t)" "cv_day (civil_of t) \<le> 31"
    "cv_hour (civil_of t) < 24" "cv_minute (civil_of t) < 60" "cv_second (civil_of t) < 60" "cv_nanos (civil_of t) < 1000000000"
proof -
  obtain y k where y: "year_of_days (t div ns_per_day) = (y, k)" by (cases "year_of_days (t div ns_per_day)")
  obtain m d where m: "month_walk 1 (month_lengths y) k = (m, d)" by (cases "month_walk 1 (month_lengths y) k")
  have fields: "cv_year (civil_of t) = y" "cv_month (civil_of t) = m" "cv_day (civil_of t) = d"
    by (simp_all add: civil_of_def Let_def y m [unfolded One_nat_def])
  show "1600 \<le> cv_year (civil_of t)" "cv_year (civil_of t) \<le> 2300" using year_range [OF assms y] fields by simp_all
  have "k < sum_list (month_lengths y)" using year_of_days_start [OF y] by (simp add: month_lengths_sum)
  note w = month_walk_start [OF this m]
  have "length (month_lengths y) = 12" by (simp add: month_lengths_def)
  then have md: "1 \<le> m" "m \<le> 12" "1 \<le> d" "m - 1 < length (month_lengths y)" using w by auto
  have "list_all (\<lambda>l. l \<le> 31) (month_lengths y)" by (simp add: month_lengths_def)
  with md(4) have "month_lengths y ! (m - 1) \<le> 31" by (simp add: list_all_length)
  then have "d \<le> 31" using w by simp
  with md show "1 \<le> cv_month (civil_of t)" "cv_month (civil_of t) \<le> 12" "1 \<le> cv_day (civil_of t)" "cv_day (civil_of t) \<le> 31"
    using fields by simp_all
  have "nat (t mod ns_per_day) < 86400000000000" by (simp add: ns_per_day_def nat_less_iff)
  then show "cv_hour (civil_of t) < 24" by (simp add: civil_of_def Let_def y m [unfolded One_nat_def])
  show "cv_minute (civil_of t) < 60" "cv_second (civil_of t) < 60" "cv_nanos (civil_of t) < 1000000000"
    by (simp_all add: civil_of_def Let_def y m [unfolded One_nat_def])
qed

end
