(* ===== verification/Partitions.thy ===== *)
theory Partitions
  imports Quoting Retry_Policy Calendar
begin

text \<open>
  The partition arithmetic of \<open>internal/schema\<close>: the epoch grid and the ranges a horizon requires
  (\<open>partition.go\<close>), what a maintenance pass would change (\<open>plan.go\<close>), which horizons can be served
  (\<open>horizon.go\<close>) and the reading of a stored bound (\<open>partitionbound.go\<close>). Instants are nanoseconds since
  1970-01-01T00:00:00Z; \<open>UnixNano\<close> and \<open>Duration\<close> products are int64 and wrap. A panic (division by a
  zero interval, a negative slice capacity) is \<open>None\<close>.
\<close>

section \<open>The grid\<close>

record Range =
  rg_From :: instant
  rg_To :: instant
  rg_Name :: string

record Retention =
  rt_PartitionInterval :: duration
  rt_Precreate :: duration
  rt_Keep :: duration

definition floorDiv :: "int \<Rightarrow> int \<Rightarrow> int" where
  "floorDiv numerator divisor =
     (let quotient = numerator sdiv divisor
      in if numerator smod divisor \<noteq> 0 \<and> numerator < 0 then quotient - 1 else quotient)"

definition UnixNano :: "instant \<Rightarrow> int" where
  "UnixNano t = wrap64 t"

definition gridIndex :: "instant \<Rightarrow> duration \<Rightarrow> int" where
  "gridIndex t interval = floorDiv (UnixNano t) interval"

definition boundary :: "int \<Rightarrow> duration \<Rightarrow> instant" where
  "boundary index interval = wrap64 (index * interval)"

definition boundStamp :: "instant \<Rightarrow> string" where
  "boundStamp bound =
     (let c = civil_of bound
      in padded 4 (nat (cv_year c)) @ padded 2 (cv_month c) @ padded 2 (cv_day c) @ ''T'' @
         padded 2 (cv_hour c) @ padded 2 (cv_minute c) @ padded 2 (cv_second c) @ ''.'' @ padded 9 (cv_nanos c) @ ''Z'')"

definition TableEvents_name :: string where
  "TableEvents_name = ''events''"

definition PartitionDefault :: string where
  "PartitionDefault = ''events_default''"

definition rangeName :: "instant \<Rightarrow> instant \<Rightarrow> string" where
  "rangeName from to = ObjectName TableEvents_name (boundStamp from @ ''_'' @ boundStamp to)"

definition rangeAt :: "int \<Rightarrow> duration \<Rightarrow> Range" where
  "rangeAt index interval =
     (let from = boundary index interval; to = boundary (wrap64 (index + 1)) interval
      in \<lparr>rg_From = from, rg_To = to, rg_Name = rangeName from to\<rparr>)"

definition RequiredRanges :: "instant \<Rightarrow> Retention \<Rightarrow> Range list option" where
  "RequiredRanges now cfg =
     (if rt_PartitionInterval cfg = 0 then None
      else let first = gridIndex now (rt_PartitionInterval cfg);
               last = gridIndex (now + rt_Precreate cfg) (rt_PartitionInterval cfg)
           in if wrap64 (last - first + 1) < 0 then None
              else Some (map (\<lambda>index. rangeAt index (rt_PartitionInterval cfg)) [first..last]))"

definition ExpiredRanges :: "Range list \<Rightarrow> instant \<Rightarrow> duration \<Rightarrow> Range list" where
  "ExpiredRanges observed now keep = (let cutoff = now - keep in filter (\<lambda>r. rg_To r \<le> cutoff) observed)"

text \<open>Ranges with equal lower bounds may come in any order; the reach below does not depend on it.\<close>

definition sortedByStart :: "Range list \<Rightarrow> Range list" where
  "sortedByStart observed = sort_key rg_From observed"

fun reach_over :: "instant \<Rightarrow> Range list \<Rightarrow> instant" where
  "reach_over reach [] = reach"
| "reach_over reach (r # rs) =
     (if rg_From r > reach then reach else reach_over (if rg_To r > reach then rg_To r else reach) rs)"

definition CoverageShortfall :: "Range list \<Rightarrow> instant \<Rightarrow> duration \<Rightarrow> duration" where
  "CoverageShortfall observed now precreate =
     (let reach = reach_over now (sortedByStart observed); horizon = now + precreate
      in if reach \<ge> horizon then 0 else time_Sub horizon reach)"

section \<open>The plan of a maintenance pass\<close>

record Plan =
  pl_Create :: "Range list"
  pl_Drop :: "Range list"

definition sameExtentAs :: "Range \<Rightarrow> Range \<Rightarrow> bool" where
  "sameExtentAs a b \<longleftrightarrow> rg_From a = rg_From b \<and> rg_To a = rg_To b"

definition rangesNotYetObserved :: "Range list \<Rightarrow> Range list \<Rightarrow> Range list" where
  "rangesNotYetObserved required observed = filter (\<lambda>wanted. \<not> list_ex (sameExtentAs wanted) observed) required"

datatype undroppableReason = Droppable | ItIsTheDefaultPartition | ItHasNoUpperBound

text \<open>The zero \<open>time.Time\<close> is the first instant of year 1.\<close>

definition zero_time :: instant where
  "zero_time = - 62135596800000000000"

definition whyUndroppable :: "Range \<Rightarrow> undroppableReason" where
  "whyUndroppable observed =
     (if rg_Name observed = PartitionDefault then ItIsTheDefaultPartition
      else if rg_To observed = zero_time then ItHasNoUpperBound
      else Droppable)"

definition retainedByAge :: "Range list \<Rightarrow> Range list" where
  "retainedByAge observed = filter (\<lambda>r. whyUndroppable r = Droppable) observed"

definition PlanMaintenance :: "instant \<Rightarrow> Retention \<Rightarrow> Range list \<Rightarrow> Plan option" where
  "PlanMaintenance now cfg observed =
     (case RequiredRanges now cfg of
        None \<Rightarrow> None
      | Some required \<Rightarrow>
          Some \<lparr>pl_Create = rangesNotYetObserved required observed,
                pl_Drop = ExpiredRanges (retainedByAge observed) now (rt_Keep cfg)\<rparr>)"

section \<open>Which horizons can be served\<close>

datatype horizon_refusal = NegativeInterval duration | UnstorableInterval duration | UnservableHorizon int duration duration

definition relationIdentifiersOneDatabaseHolds :: int where
  "relationIdentifiersOneDatabaseHolds = 4294967296"

definition storedInstantGranularity :: duration where
  "storedInstantGranularity = 1000"

definition horizonPartitionCount :: "Retention \<Rightarrow> int option" where
  "horizonPartitionCount retention =
     (if rt_PartitionInterval retention = 0 then None
      else let whole = rt_Precreate retention sdiv rt_PartitionInterval retention;
               beyond = (if rt_Precreate retention smod rt_PartitionInterval retention = 0 then 1 else 2)
           in Some (if whole > max_int64 - beyond then max_int64 else whole + beyond))"

text \<open>The outer \<open>None\<close> is the panic of a zero interval; \<open>Some None\<close> is no refusal.\<close>

definition unservableHorizonIn :: "Retention \<Rightarrow> horizon_refusal option option" where
  "unservableHorizonIn retention =
     (if rt_PartitionInterval retention < 0 then Some (Some (NegativeInterval (rt_PartitionInterval retention)))
      else if rt_PartitionInterval retention smod storedInstantGranularity \<noteq> 0
           then Some (Some (UnstorableInterval (rt_PartitionInterval retention)))
      else case horizonPartitionCount retention of
             None \<Rightarrow> None
           | Some n \<Rightarrow>
               if n < relationIdentifiersOneDatabaseHolds then Some None
               else Some (Some (UnservableHorizon n (rt_PartitionInterval retention) (rt_Precreate retention))))"

section \<open>Stored bounds\<close>

datatype boundFault = BoundOK | BoundNotASingleColumnRange | BoundHasNoFiniteEnd | BoundInstantUnreadable

definition isDefaultBound :: "string \<Rightarrow> bool" where
  "isDefaultBound written \<longleftrightarrow> written = ''DEFAULT''"

definition rangeBoundOpening :: string where
  "rangeBoundOpening = ''FOR VALUES FROM ('' @ [SQ]"

definition rangeBoundMiddle :: string where
  "rangeBoundMiddle = [SQ] @ '') TO ('' @ [SQ]"

definition rangeBoundClosing :: string where
  "rangeBoundClosing = [SQ] @ '')''"

definition rangeBoundLiterals :: "string \<Rightarrow> (string \<times> string) option" where
  "rangeBoundLiterals written =
     (case CutPrefix written rangeBoundOpening of
        None \<Rightarrow> None
      | Some opened \<Rightarrow>
          (case CutSuffix opened rangeBoundClosing of
             None \<Rightarrow> None
           | Some closed \<Rightarrow> Cut closed rangeBoundMiddle))"

definition whyNotASingleColumnRange :: "string \<Rightarrow> boundFault" where
  "whyNotASingleColumnRange written =
     (if HasPrefix written ''FOR VALUES FROM (MINVALUE)'' \<or> HasSuffix written ''TO (MAXVALUE)''
      then BoundHasNoFiniteEnd else BoundNotASingleColumnRange)"

definition isoBoundLayouts :: "string list" where
  "isoBoundLayouts =
     [''2006-01-02 15:04:05.999999-07'', ''2006-01-02 15:04:05.999999-07:00'', ''2006-01-02 15:04:05.999999-07:00:00'']"

text \<open>\<open>time.Parse\<close> is the parameter \<open>parse\<close>, of a layout and a text.\<close>

fun instantAt_layouts :: "(string \<Rightarrow> string \<Rightarrow> instant option) \<Rightarrow> string list \<Rightarrow> string \<Rightarrow> instant option" where
  "instantAt_layouts parse [] written = None"
| "instantAt_layouts parse (layout # layouts) written =
     (case parse layout written of Some t \<Rightarrow> Some t | None \<Rightarrow> instantAt_layouts parse layouts written)"

definition instantAt :: "(string \<Rightarrow> string \<Rightarrow> instant option) \<Rightarrow> string \<Rightarrow> instant option" where
  "instantAt parse written = instantAt_layouts parse isoBoundLayouts written"

definition rangeFrom :: "(string \<Rightarrow> string \<Rightarrow> instant option) \<Rightarrow> string \<Rightarrow> string \<Rightarrow> boundFault + Range" where
  "rangeFrom parse written name =
     (case rangeBoundLiterals written of
        None \<Rightarrow> Inl (whyNotASingleColumnRange written)
      | Some (from, to) \<Rightarrow>
          (case instantAt parse from of
             None \<Rightarrow> Inl BoundInstantUnreadable
           | Some begins \<Rightarrow>
               (case instantAt parse to of
                  None \<Rightarrow> Inl BoundInstantUnreadable
                | Some ends \<Rightarrow> Inr \<lparr>rg_From = begins, rg_To = ends, rg_Name = name\<rparr>)))"

section \<open>Lemmas: the grid\<close>

lemma floorDiv_floor: "0 < d \<Longrightarrow> floorDiv n d = n div d"
proof (cases "0 \<le> n")
  case False
  assume d: "0 < d"
  have s: "n sdiv d = - ((- n) div d)" "n smod d = - ((- n) mod d)" using False d by (simp_all add: go_int)
  show ?thesis
  proof (cases "(- n) mod d = 0")
    case True
    then have "d dvd n" by (simp add: dvd_eq_mod_eq_0 [symmetric])
    with True s False show ?thesis by (simp add: floorDiv_def Let_def dvd_neg_div)
  next
    case nz: False
    have "n div d = - ((- n) div d) - 1"
      using zdiv_zminus1_eq_if [of d "- n"] d nz by (simp add: dvd_eq_mod_eq_0)
    with nz s False show ?thesis by (simp add: floorDiv_def Let_def)
  qed
qed (simp add: floorDiv_def Let_def go_int)

lemma gridIndex_floor: "0 < d \<Longrightarrow> in_int64 t \<Longrightarrow> gridIndex t d = t div d"
  by (simp add: gridIndex_def UnixNano_def floorDiv_floor wrap64_id)

lemma grid_contains: "0 < d \<Longrightarrow> (t div d) * d \<le> t \<and> t < (t div d + 1) * (d::int)"
  by (metis add_mult_distrib2 div_mult_mod_eq le_add_same_cancel1 mult.commute mult.right_neutral
      pos_mod_bound pos_mod_sign add_strict_left_mono ring_class.ring_distribs(2) mult_1)

lemma in_int64_factor:
  assumes "in_int64 (k * d)" "0 < d"
  shows "in_int64 k"
proof (cases "0 \<le> k")
  case True
  then have "k \<le> k * d" using assms(2) by (simp add: mult_le_cancel_left1)
  with True assms(1) show ?thesis by (simp add: in_int64_def min_int64_def max_int64_def)
next
  case False
  then have "k * d \<le> k" using assms(2) mult_left_mono_neg [of 1 d k] by simp
  with False assms(1) show ?thesis unfolding in_int64_def min_int64_def max_int64_def by linarith
qed

lemma rangeAt_exact:
  assumes "in_int64 (k * d)" "in_int64 ((k + 1) * d)" "0 < d"
  shows "rangeAt k d = \<lparr>rg_From = k * d, rg_To = (k + 1) * d, rg_Name = rangeName (k * d) ((k + 1) * d)\<rparr>"
  using assms in_int64_factor [OF assms(2,3)] by (simp add: rangeAt_def boundary_def Let_def wrap64_id)

text \<open>An instant's grid is in reach when the grid lines around its horizon are int64 nanoseconds.\<close>

definition grid_in_reach :: "instant \<Rightarrow> Retention \<Rightarrow> bool" where
  "grid_in_reach now cfg \<longleftrightarrow> in_int64 now \<and> in_int64 (now + rt_Precreate cfg) \<and>
     in_int64 ((now div rt_PartitionInterval cfg) * rt_PartitionInterval cfg) \<and>
     in_int64 (((now + rt_Precreate cfg) div rt_PartitionInterval cfg + 1) * rt_PartitionInterval cfg)"

definition servable :: "Retention \<Rightarrow> bool" where
  "servable cfg \<longleftrightarrow> unservableHorizonIn cfg = Some None \<and> 0 \<le> rt_Precreate cfg \<and> 0 \<le> rt_Keep cfg"

lemma servable_facts:
  assumes "servable cfg"
  shows "0 < rt_PartitionInterval cfg" "1000 dvd rt_PartitionInterval cfg"
    "horizonPartitionCount cfg = Some n \<Longrightarrow> n < 4294967296"
  using assms
  by (auto simp: servable_def unservableHorizonIn_def horizonPartitionCount_def storedInstantGranularity_def
      relationIdentifiersOneDatabaseHolds_def Let_def go_int split: if_splits option.splits)

lemma horizon_span:
  fixes now p d :: int
  assumes "0 < d" "0 \<le> p"
  shows "(now + p) div d - now div d \<le> p div d + (if p mod d = 0 then 0 else 1)"
    "p div d \<le> (now + p) div d - now div d"
proof -
  have eq: "(now + p) div d = now div d + p div d + (now mod d + p mod d) div d" by (rule div_add1_eq)
  have m: "0 \<le> now mod d" "now mod d < d" "0 \<le> p mod d" "p mod d < d" using assms(1) by simp_all
  have "(now mod d + p mod d) div d \<le> (if p mod d = 0 then 0 else 1)"
  proof (cases "p mod d = 0")
    case False
    have "now mod d + p mod d < 2 * d" using m by linarith
    then have "(now mod d + p mod d) div d < 2" using assms(1) by (simp add: int_div_less_iff)
    with False show ?thesis by simp
  qed (use m in simp)
  with eq show "(now + p) div d - now div d \<le> p div d + (if p mod d = 0 then 0 else 1)" by simp
  have "0 \<le> (now mod d + p mod d) div d" using m assms(1) by (simp add: pos_imp_zdiv_nonneg_iff)
  with eq show "p div d \<le> (now + p) div d - now div d" by simp
qed

lemma horizonPartitionCount_exact:
  assumes "servable cfg"
  shows "horizonPartitionCount cfg = Some (rt_Precreate cfg div rt_PartitionInterval cfg +
    (if rt_Precreate cfg mod rt_PartitionInterval cfg = 0 then 1 else 2))"
proof -
  let ?d = "rt_PartitionInterval cfg" and ?p = "rt_Precreate cfg"
  have d: "0 < ?d" "0 \<le> ?p" using servable_facts(1) [OF assms] assms by (simp_all add: servable_def)
  obtain n where n: "horizonPartitionCount cfg = Some n" "n < 4294967296"
    using d servable_facts(3) [OF assms] by (auto simp: horizonPartitionCount_def Let_def)
  then show ?thesis
    using d by (auto simp: horizonPartitionCount_def Let_def go_int max_int64_def split: if_splits)
qed

lemma RequiredRanges_exact:
  assumes s: "servable cfg" and g: "grid_in_reach now cfg"
  defines "d \<equiv> rt_PartitionInterval cfg"
  shows "RequiredRanges now cfg = Some (map (\<lambda>k. \<lparr>rg_From = k * d, rg_To = (k + 1) * d, rg_Name = rangeName (k * d) ((k + 1) * d)\<rparr>)
    [now div d..(now + rt_Precreate cfg) div d])"
proof -
  let ?a = "now div d" and ?b = "(now + rt_Precreate cfg) div d"
  have d: "0 < d" "0 \<le> rt_Precreate cfg" using servable_facts(1) [OF s] s by (simp_all add: servable_def d_def)
  have idx: "gridIndex now d = ?a" "gridIndex (now + rt_Precreate cfg) d = ?b"
    using g d(1) by (simp_all add: gridIndex_floor grid_in_reach_def)
  have ab: "?a \<le> ?b" using d by (simp add: zdiv_mono1)
  have "?b - ?a + 1 < 4294967296"
    using horizonPartitionCount_exact [OF s] servable_facts(3) [OF s] horizon_span(1) [OF d, of now]
    by (fastforce simp: d_def split: if_splits)
  then have "wrap64 (?b - ?a + 1) = ?b - ?a + 1"
    using ab by (intro wrap64_id) (simp add: in_int64_def min_int64_def max_int64_def)
  moreover have "rangeAt k d = \<lparr>rg_From = k * d, rg_To = (k + 1) * d, rg_Name = rangeName (k * d) ((k + 1) * d)\<rparr>"
    if "k \<in> {?a..?b}" for k
  proof (rule rangeAt_exact [OF _ _ d(1)])
    have lo: "in_int64 (?a * d)" and hi: "in_int64 ((?b + 1) * d)" using g by (simp_all add: grid_in_reach_def d_def)
    have "?a * d \<le> k * d" "k * d \<le> (?b + 1) * d" "?a * d \<le> (k + 1) * d" "(k + 1) * d \<le> (?b + 1) * d"
      using that d(1) by (auto intro: mult_right_mono)
    then show "in_int64 (k * d)" "in_int64 ((k + 1) * d)" using in_int64_between [OF lo hi] by blast+
  qed
  ultimately show ?thesis
    using idx ab d(1) by (auto simp: RequiredRanges_def Let_def d_def [symmetric])
qed

section \<open>Lemmas: coverage\<close>

definition covered :: "Range list \<Rightarrow> instant \<Rightarrow> bool" where
  "covered observed t \<longleftrightarrow> (\<exists>r \<in> set observed. rg_From r \<le> t \<and> t < rg_To r)"

lemma reach_over_covers:
  "t < reach_over reach rs \<Longrightarrow> reach \<le> t \<Longrightarrow> covered rs t"
proof (induction reach rs rule: reach_over.induct)
  case (2 reach r rs)
  show ?case
  proof (cases "rg_From r > reach")
    case False
    let ?next = "if rg_To r > reach then rg_To r else reach"
    show ?thesis
    proof (cases "?next \<le> t")
      case True
      with 2 False show ?thesis by (auto simp: covered_def)
    next
      case nt: False
      with False "2.prems" show ?thesis by (auto simp: covered_def split: if_splits)
    qed
  qed (use "2.prems" in simp)
qed simp

lemma reach_over_ge: "reach \<le> reach_over reach rs"
proof (induction reach rs rule: reach_over.induct)
  case (2 reach r rs)
  then show ?case by (cases "rg_From r > reach"; cases "rg_To r > reach") auto
qed simp

lemma reach_over_uncovered:
  "sorted (map rg_From rs) \<Longrightarrow> \<not> covered rs (reach_over reach rs)"
proof (induction reach rs rule: reach_over.induct)
  case (2 reach r rs)
  show ?case
  proof (cases "rg_From r > reach")
    case True
    with "2.prems" show ?thesis by (fastforce simp: covered_def)
  next
    case False
    let ?next = "if rg_To r > reach then rg_To r else reach"
    have "rg_To r \<le> reach_over ?next rs" using reach_over_ge [of ?next rs] by (auto split: if_splits)
    with 2 False show ?thesis by (auto simp: covered_def)
  qed
qed (simp add: covered_def)

text \<open>The first instant from \<open>now\<close> on that no observed partition covers.\<close>

lemma reach_is_first_gap:
  "now \<le> reach_over now (sortedByStart observed)"
  "now \<le> t \<Longrightarrow> t < reach_over now (sortedByStart observed) \<Longrightarrow> covered observed t"
  "\<not> covered observed (reach_over now (sortedByStart observed))"
  using reach_over_ge [of now "sortedByStart observed"] reach_over_covers [of t now "sortedByStart observed"]
    reach_over_uncovered [of "sortedByStart observed" now]
  by (simp_all add: sortedByStart_def covered_def)

section \<open>Lemmas: names\<close>

lemma split_fixed: "length a = length b \<Longrightarrow> a @ x = b @ y \<longleftrightarrow> a = b \<and> x = y"
  by simp

lemma stamp_fields:
  assumes "in_int64 t"
  shows "length (padded 4 (nat (cv_year (civil_of t)))) = 4" "length (padded 2 (cv_month (civil_of t))) = 2"
    "length (padded 2 (cv_day (civil_of t))) = 2" "length (padded 2 (cv_hour (civil_of t))) = 2"
    "length (padded 2 (cv_minute (civil_of t))) = 2" "length (padded 2 (cv_second (civil_of t))) = 2"
    "length (padded 9 (cv_nanos (civil_of t))) = 9"
  using civil_of_ranges [OF assms] by (auto intro!: length_padded)

lemma length_boundStamp: "in_int64 t \<Longrightarrow> length (boundStamp t) = 26"
  using stamp_fields [of t] by (simp add: boundStamp_def Let_def)

lemma boundStamp_inj:
  assumes "in_int64 t" "in_int64 u" "boundStamp t = boundStamp u"
  shows "t = u"
proof -
  note l = stamp_fields [OF assms(1)] stamp_fields [OF assms(2)]
  let ?c = "civil_of t" and ?e = "civil_of u"
  have "padded 4 (nat (cv_year ?c)) = padded 4 (nat (cv_year ?e)) \<and> padded 2 (cv_month ?c) = padded 2 (cv_month ?e) \<and>
      padded 2 (cv_day ?c) = padded 2 (cv_day ?e) \<and> padded 2 (cv_hour ?c) = padded 2 (cv_hour ?e) \<and>
      padded 2 (cv_minute ?c) = padded 2 (cv_minute ?e) \<and> padded 2 (cv_second ?c) = padded 2 (cv_second ?e) \<and>
      padded 9 (cv_nanos ?c) = padded 9 (cv_nanos ?e)"
    using assms(3) by (simp add: boundStamp_def Let_def l)
  then have "nat (cv_year ?c) = nat (cv_year ?e)" "cv_month ?c = cv_month ?e" "cv_day ?c = cv_day ?e"
    "cv_hour ?c = cv_hour ?e" "cv_minute ?c = cv_minute ?e" "cv_second ?c = cv_second ?e" "cv_nanos ?c = cv_nanos ?e"
    using padded_inj by blast+
  moreover have "0 \<le> cv_year ?c" "0 \<le> cv_year ?e"
    using civil_of_ranges(1) [OF assms(1)] civil_of_ranges(1) [OF assms(2)] by simp_all
  ultimately have "?c = ?e" by (simp add: eq_nat_nat_iff)
  then show ?thesis by (rule civil_of_inj)
qed

lemma rangeName_plain:
  assumes "in_int64 t" "in_int64 u"
  shows "rangeName t u = ''events_'' @ boundStamp t @ ''_'' @ boundStamp u"
  using assms by (simp add: rangeName_def ObjectName_def TableEvents_name_def length_boundStamp MaxIdentifierBytes_def)

lemma rangeName_inj:
  assumes "in_int64 t" "in_int64 u" "in_int64 t'" "in_int64 u'" "rangeName t u = rangeName t' u'"
  shows "t = t' \<and> u = u'"
proof -
  have "boundStamp t @ ''_'' @ boundStamp u = boundStamp t' @ ''_'' @ boundStamp u'"
    using assms by (simp add: rangeName_plain)
  then have "boundStamp t = boundStamp t'" "boundStamp u = boundStamp u'"
    using assms by (simp_all add: length_boundStamp)
  then show ?thesis using assms boundStamp_inj by blast
qed

lemma upto_ends: "a \<le> b \<Longrightarrow> hd [a..b] = a \<and> last [a..b] = (b::int)"
  using upto_rec1 [of a b] upto_rec2 [of a b] by (metis last_snoc list.sel(1))

section \<open>Properties\<close>

definition sample_retention :: Retention where
  "sample_retention = \<lparr>rt_PartitionInterval = 3600000000000, rt_Precreate = 9000000000000, rt_Keep = 86400000000000\<rparr>"

lemma sample_retention_facts: "servable sample_retention" "grid_in_reach 1000 sample_retention"
  by (simp_all add: servable_def unservableHorizonIn_def horizonPartitionCount_def sample_retention_def storedInstantGranularity_def
      relationIdentifiersOneDatabaseHolds_def Let_def go_int max_int64_def grid_in_reach_def in_int64_def min_int64_def)

text \<open>C25. The required ranges tile the pre-creation horizon: the first holds \<open>now\<close>, the last holds
  \<open>now + precreate\<close>, each begins where the one before ends, every bound is a whole multiple of the
  interval from the epoch, and their number is what \<open>horizonPartitionCount\<close> predicts without building
  them, or one less.\<close>

theorem required_ranges_tile_the_horizon:
  assumes "servable cfg" "grid_in_reach now cfg"
  shows "\<exists>rs n. RequiredRanges now cfg = Some rs \<and> rs \<noteq> [] \<and> rg_From (hd rs) \<le> now \<and>
    now + rt_Precreate cfg < rg_To (last rs) \<and> (\<forall>i. Suc i < length rs \<longrightarrow> rg_To (rs ! i) = rg_From (rs ! Suc i)) \<and>
    list_all (\<lambda>r. rt_PartitionInterval cfg dvd rg_From r \<and> rg_To r = rg_From r + rt_PartitionInterval cfg) rs \<and>
    horizonPartitionCount cfg = Some n \<and> int (length rs) \<le> n \<and> n \<le> int (length rs) + 1"
proof -
  define d where "d = rt_PartitionInterval cfg"
  let ?a = "now div d" and ?b = "(now + rt_Precreate cfg) div d"
  let ?f = "\<lambda>k. \<lparr>rg_From = k * d, rg_To = (k + 1) * d, rg_Name = rangeName (k * d) ((k + 1) * d)\<rparr>"
  have d: "0 < d" "0 \<le> rt_Precreate cfg" using servable_facts(1) [OF assms(1)] assms(1) by (simp_all add: d_def servable_def)
  have ab: "?a \<le> ?b" using d by (simp add: zdiv_mono1)
  have rs: "RequiredRanges now cfg = Some (map ?f [?a..?b])" using RequiredRanges_exact [OF assms] by (simp add: d_def)
  have ne: "[?a..?b] \<noteq> []" using ab by simp
  have hd: "hd [?a..?b] = ?a" "last [?a..?b] = ?b" using upto_ends [OF ab] by simp_all
  have "rg_From (hd (map ?f [?a..?b])) \<le> now" "now + rt_Precreate cfg < rg_To (last (map ?f [?a..?b]))"
    using grid_contains [OF d(1)] ne hd by (simp_all add: hd_map last_map)
  moreover have "rg_To (map ?f [?a..?b] ! i) = rg_From (map ?f [?a..?b] ! Suc i)" if "Suc i < length (map ?f [?a..?b])" for i
    using that by (simp add: nth_upto algebra_simps)
  moreover have "list_all (\<lambda>r. d dvd rg_From r \<and> rg_To r = rg_From r + d) (map ?f [?a..?b])"
    by (simp add: list_all_iff algebra_simps)
  moreover have "int (length (map ?f [?a..?b])) = ?b - ?a + 1" using ab by simp
  ultimately show ?thesis
    using rs ne horizonPartitionCount_exact [OF assms(1)] horizon_span [OF d, of now]
    by (intro exI [of _ "map ?f [?a..?b]"]) (auto simp: d_def)
qed

theorem required_ranges_tile_the_horizon_witness:
  "\<exists>rs. RequiredRanges 1000 sample_retention = Some rs \<and> rs \<noteq> [] \<and> rg_From (hd rs) \<le> 1000"
  using required_ranges_tile_the_horizon [OF sample_retention_facts] by blast

text \<open>C26. Coverage is measured exactly: the shortfall is zero precisely when every instant from now to the
  horizon lies in an observed partition, and otherwise it is the distance from the first uncovered
  instant to the horizon, however the catalog ordered or overlapped the partitions.\<close>

theorem coverage_shortfall_exact:
  "(CoverageShortfall observed now precreate = 0 \<longleftrightarrow> (\<forall>t. now \<le> t \<and> t < now + precreate \<longrightarrow> covered observed t)) \<and>
   (\<forall>gap. now \<le> gap \<and> gap < now + precreate \<and> \<not> covered observed gap \<and> (\<forall>t. now \<le> t \<and> t < gap \<longrightarrow> covered observed t) \<and>
      now + precreate - gap \<le> max_int64 \<longrightarrow> CoverageShortfall observed now precreate = now + precreate - gap)"
proof -
  let ?r = "reach_over now (sortedByStart observed)"
  note g = reach_is_first_gap [where now = now and observed = observed]
  have zero: "CoverageShortfall observed now precreate = 0 \<longleftrightarrow> now + precreate \<le> ?r"
    by (auto simp: CoverageShortfall_def Let_def time_Sub_def max_int64_def min_int64_def)
  have iff: "now + precreate \<le> ?r \<longleftrightarrow> (\<forall>t. now \<le> t \<and> t < now + precreate \<longrightarrow> covered observed t)"
    using g by (meson less_le_trans not_less)
  have gap: "?r = gap" if "now \<le> gap" "\<not> covered observed gap" "\<forall>t. now \<le> t \<and> t < gap \<longrightarrow> covered observed t" for gap
    using that g by (meson linorder_neqE_linordered_idom)
  show ?thesis
    using zero iff gap by (auto simp: CoverageShortfall_def Let_def time_Sub_def min_int64_def)
qed

theorem coverage_shortfall_exact_witness:
  "CoverageShortfall [\<lparr>rg_From = 0, rg_To = 10, rg_Name = []\<rparr>, \<lparr>rg_From = 20, rg_To = 30, rg_Name = []\<rparr>] 5 20 = 15"
  using coverage_shortfall_exact [of "[\<lparr>rg_From = 0, rg_To = 10, rg_Name = []\<rparr>, \<lparr>rg_From = 20, rg_To = 30, rg_Name = []\<rparr>]" 5 20,
      THEN conjunct2, rule_format, of 10]
  by (simp add: covered_def max_int64_def)

text \<open>A maintenance plan is safe and converges: it drops only observed partitions whose whole extent is
  older than the retention window, never the DEFAULT partition nor one without an upper bound; it creates
  only extents not yet observed; and a second pass over the catalog the first one leaves plans nothing.\<close>

theorem maintenance_plan_converges:
  assumes s: "servable cfg" and g: "grid_in_reach now cfg"
  shows "\<exists>plan. PlanMaintenance now cfg observed = Some plan \<and>
    list_all (\<lambda>r. r \<in> set observed \<and> rg_Name r \<noteq> PartitionDefault \<and> rg_To r \<noteq> zero_time \<and> rg_To r \<le> now - rt_Keep cfg) (pl_Drop plan) \<and>
    list_all (\<lambda>r. \<not> list_ex (sameExtentAs r) observed) (pl_Create plan) \<and>
    PlanMaintenance now cfg (filter (\<lambda>r. r \<notin> set (pl_Drop plan)) observed @ pl_Create plan) = Some \<lparr>pl_Create = [], pl_Drop = []\<rparr>"
proof -
  obtain rs where rs: "RequiredRanges now cfg = Some rs" using RequiredRanges_exact [OF s g] by blast
  have young: "now < rg_To r" if "r \<in> set rs" for r
  proof -
    let ?d = "rt_PartitionInterval cfg"
    have d: "0 < ?d" by (rule servable_facts(1) [OF s])
    from that rs RequiredRanges_exact [OF s g] obtain k where "now div ?d \<le> k" "rg_To r = (k + 1) * ?d" by auto
    moreover from this have "(now div ?d + 1) * ?d \<le> (k + 1) * ?d" using d by (intro mult_right_mono) auto
    ultimately show ?thesis using grid_contains [OF d, of now] by linarith
  qed
  have keep: "0 \<le> rt_Keep cfg" using s by (simp add: servable_def)
  let ?create = "rangesNotYetObserved rs observed" and ?drop = "ExpiredRanges (retainedByAge observed) now (rt_Keep cfg)"
  let ?after = "filter (\<lambda>r. r \<notin> set ?drop) observed @ ?create"
  have plan: "PlanMaintenance now cfg observed = Some \<lparr>pl_Create = ?create, pl_Drop = ?drop\<rparr>"
    by (simp add: PlanMaintenance_def rs)
  have "rangesNotYetObserved rs ?after = []"
  proof -
    have "list_ex (sameExtentAs w) ?after" if w: "w \<in> set rs" for w
    proof (cases "list_ex (sameExtentAs w) observed")
      case True
      then obtain r where r: "r \<in> set observed" "sameExtentAs w r" by (auto simp: list_ex_iff)
      then have "r \<notin> set ?drop" using young [OF w] keep by (auto simp: ExpiredRanges_def Let_def sameExtentAs_def)
      with r show ?thesis by (auto simp: list_ex_iff)
    next
      case False
      with w show ?thesis by (auto simp: rangesNotYetObserved_def list_ex_iff sameExtentAs_def)
    qed
    then show ?thesis by (simp add: rangesNotYetObserved_def filter_empty_conv)
  qed
  moreover have "ExpiredRanges (retainedByAge ?after) now (rt_Keep cfg) = []"
    using young keep by (force simp: ExpiredRanges_def retainedByAge_def rangesNotYetObserved_def Let_def filter_empty_conv)
  ultimately have "PlanMaintenance now cfg ?after = Some \<lparr>pl_Create = [], pl_Drop = []\<rparr>"
    by (simp add: PlanMaintenance_def rs)
  then show ?thesis
    by (intro exI [of _ "\<lparr>pl_Create = ?create, pl_Drop = ?drop\<rparr>"])
      (auto simp: plan list_all_iff ExpiredRanges_def retainedByAge_def whyUndroppable_def rangesNotYetObserved_def Let_def split: if_splits)
qed

theorem maintenance_plan_converges_witness:
  "\<exists>plan. PlanMaintenance 1000 sample_retention [] = Some plan"
  using maintenance_plan_converges [OF sample_retention_facts, of "[]"] by blast

text \<open>A partition's name identifies its extent: two ranges whose bounds are int64 instants have the same
  name only if both bounds agree, so a changed interval never collides with a partition that exists.\<close>

theorem partition_name_identifies_extent:
  assumes "in_int64 from1" "in_int64 to1" "in_int64 from2" "in_int64 to2"
  shows "rangeName from1 to1 = rangeName from2 to2 \<longleftrightarrow> from1 = from2 \<and> to1 = to2"
  using rangeName_inj [OF assms] by auto

theorem partition_name_identifies_extent_witness:
  "rangeName 0 3600000000000 \<noteq> rangeName 0 86400000000000"
  using partition_name_identifies_extent [of 0 3600000000000 0 86400000000000]
  by (simp add: in_int64_def min_int64_def max_int64_def)

end
