(* ===== verification/Trigger_Sql.thy ===== *)
theory Trigger_Sql
  imports Quoting
begin

text \<open>
  The trigger compiler of \<open>internal/source\<close>: from a listener's configuration and the catalog's reading
  of its target table to the function and trigger texts of each operation. The configuration records
  are those of \<open>internal/config/config.go\<close> (their source positions, which only diagnostics use, are
  left out). Text is assembled exactly as the sources assemble it; the driver's identifier quoter is
  the parameter \<open>san\<close>. The lemmas say when compilation succeeds, what it emits, and, through a reader
  of the payload expressions, what a fired trigger ships.
\<close>

section \<open>Configuration\<close>

record Operation =
  op_Kind :: string
  op_Columns :: "string list"
  op_IsDistinct :: bool
  op_When :: string

record Payload =
  py_Mode :: string
  py_Columns :: "string list"
  py_Exclude :: "string list"
  py_IncludeOld :: bool
  py_MaxBytes :: int

record TriggerSpec =
  ts_Table :: string
  ts_Operations :: "Operation list"
  ts_Payload :: Payload

record Listener =
  li_Name :: string
  li_Enabled :: bool
  li_Trigger :: TriggerSpec

record Target =
  tg_Schema :: string
  tg_Table :: string
  tg_PrimaryKeyColumns :: "string list"

record Request =
  rq_Instance :: string
  rq_ServiceSchema :: string
  rq_Listener :: Listener
  rq_Target :: Target

record ObjectSet =
  os_Operation :: string
  os_FunctionName :: string
  os_TriggerName :: string
  os_Marker :: string
  os_CreateFunction :: string
  os_RevokeExecute :: string
  os_CommentFunction :: string
  os_CreateTrigger :: string
  os_CommentTrigger :: string

datatype gen_error =
    UnusableIdentifier string string IdentifierFault
  | MissingPrimaryKey string
  | UnknownOperation string
  | UnknownPayloadMode string

fun gen_error_text :: "gen_error \<Rightarrow> string" where
  "gen_error_text (UnusableIdentifier field value reason) =
     ''unusable '' @ field @ '' '' @ value @ '': '' @ fault_text reason"
| "gen_error_text (MissingPrimaryKey listener) = ''listener '' @ listener @ '' has no primary key for keys_only''"
| "gen_error_text (UnknownOperation kind) = ''unknown operation '' @ kind @ '': no trigger abbreviation''"
| "gen_error_text (UnknownPayloadMode mode) = ''unknown payload mode '' @ mode @ '': no payload expression''"

section \<open>Vocabularies and refusals\<close>

definition operationAbbreviations :: "(string \<times> string) list" where
  "operationAbbreviations = [(''insert'', ''ins''), (''update'', ''upd''), (''delete'', ''del'')]"

definition operationAbbreviationFor :: "string \<Rightarrow> gen_error + string" where
  "operationAbbreviationFor kind =
     (case map_of operationAbbreviations kind of Some abbr \<Rightarrow> Inr abbr | None \<Rightarrow> Inl (UnknownOperation kind))"

definition payloadModes :: "string list" where
  "payloadModes = [''full'', ''columns'', ''keys_only'']"

definition payloadModeKnown :: "string \<Rightarrow> gen_error option" where
  "payloadModeKnown mode = (if mode \<in> set payloadModes then None else Some (UnknownPayloadMode mode))"

definition identifierRefusal :: "string \<Rightarrow> string \<Rightarrow> gen_error option" where
  "identifierRefusal field value =
     (if WhyUnusable value = IdentifierOK then None
      else Some (UnusableIdentifier field value (WhyUnusable value)))"

definition named_refusal :: "string \<times> string \<Rightarrow> gen_error option" where
  "named_refusal f = identifierRefusal (fst f) (snd f)"

definition validateTargetIdentifiers :: "Target \<Rightarrow> gen_error option" where
  "validateTargetIdentifiers target =
     (case first_fault named_refusal
             [(''target schema'', tg_Schema target), (''target table'', tg_Table target)] of
        Some e \<Rightarrow> Some e
      | None \<Rightarrow> first_fault (identifierRefusal ''primary key column'') (tg_PrimaryKeyColumns target))"

definition validateRequestIdentifiers :: "Request \<Rightarrow> gen_error option" where
  "validateRequestIdentifiers request =
     (case first_fault named_refusal
             [(''service schema'', rq_ServiceSchema request), (''listener'', li_Name (rq_Listener request))] of
        Some e \<Rightarrow> Some e
      | None \<Rightarrow> validateTargetIdentifiers (rq_Target request))"

definition MarkerPrefix :: string where
  "MarkerPrefix = ''pg_noty:v1:''"

definition marker :: "string \<Rightarrow> string \<Rightarrow> string \<Rightarrow> string" where
  "marker inst listener operation = MarkerPrefix @ inst @ '':'' @ listener @ '':'' @ operation"

section \<open>Payload expressions\<close>

text \<open>\<open>quoted_as\<close> is the repeated step \<open>schema.Quoted\<close> followed by the refusal of an unusable name.\<close>

definition quoted_as :: "sanitizer \<Rightarrow> string \<Rightarrow> string \<Rightarrow> gen_error + string" where
  "quoted_as san field value =
     (case Quoted san value of (q, reason) \<Rightarrow>
        if reason \<noteq> IdentifierOK then Inl (UnusableIdentifier field value reason) else Inr q)"

definition qualified_as :: "sanitizer \<Rightarrow> string \<Rightarrow> string \<Rightarrow> string \<Rightarrow> string \<Rightarrow> gen_error + string" where
  "qualified_as san field value schema name =
     (case Qualified san schema name of (q, reason) \<Rightarrow>
        if reason \<noteq> IdentifierOK then Inl (UnusableIdentifier field value reason) else Inr q)"

definition payloadKey :: "string \<Rightarrow> gen_error + string" where
  "payloadKey column = unless_fault (identifierRefusal ''payload column'' column) (Inr (quoteLiteral column))"

definition subtract_keys :: "string list \<Rightarrow> string" where
  "subtract_keys keys = concat (map (\<lambda>key. '' - '' @ key) keys)"

definition fullPayloadExpression :: "string list \<Rightarrow> string \<Rightarrow> gen_error + string" where
  "fullPayloadExpression exclude row =
     and_then (collect payloadKey exclude)
       (\<lambda>keys. Inr (''to_jsonb('' @ row @ '')'' @ subtract_keys keys))"

definition object_part :: "sanitizer \<Rightarrow> string \<Rightarrow> string \<Rightarrow> gen_error + string list" where
  "object_part san row column =
     and_then (quoted_as san ''payload column'' column)
       (\<lambda>quoted. Inr [quoteLiteral column, row @ ''.'' @ quoted])"

definition objectPayloadExpression :: "sanitizer \<Rightarrow> string list \<Rightarrow> string \<Rightarrow> gen_error + string" where
  "objectPayloadExpression san columns row =
     and_then (collect (object_part san row) columns)
       (\<lambda>parts. Inr (''jsonb_build_object('' @ Join (concat parts) '', '' @ '')''))"

definition rowPayloadExpression :: "sanitizer \<Rightarrow> Payload \<Rightarrow> Target \<Rightarrow> string \<Rightarrow> string \<Rightarrow> gen_error + string" where
  "rowPayloadExpression san payload target listener row =
     (if py_Mode payload = ''full'' then fullPayloadExpression (py_Exclude payload) row
      else if py_Mode payload = ''columns'' then objectPayloadExpression san (py_Columns payload) row
      else if py_Mode payload = ''keys_only'' then
        (if tg_PrimaryKeyColumns target = [] then Inl (MissingPrimaryKey listener)
         else objectPayloadExpression san (tg_PrimaryKeyColumns target) row)
      else Inl (UnknownPayloadMode (py_Mode payload)))"

definition null_jsonb :: string where
  "null_jsonb = ''NULL::jsonb''"

definition oldPayloadExpression ::
  "sanitizer \<Rightarrow> string \<Rightarrow> Payload \<Rightarrow> Target \<Rightarrow> string \<Rightarrow> gen_error + string" where
  "oldPayloadExpression san operation payload target listener =
     (if operation = ''insert'' then Inr null_jsonb
      else if operation = ''delete'' then rowPayloadExpression san payload target listener ''OLD''
      else if operation = ''update'' then
        (if \<not> py_IncludeOld payload then Inr null_jsonb
         else rowPayloadExpression san payload target listener ''OLD'')
      else Inr null_jsonb)"

record payloadExpressions =
  pe_new :: string
  pe_old :: string

definition payloadExpressionsFor ::
  "sanitizer \<Rightarrow> string \<Rightarrow> Listener \<Rightarrow> Target \<Rightarrow> gen_error + payloadExpressions" where
  "payloadExpressionsFor san operation listener target =
     (let payload = ts_Payload (li_Trigger listener) in
      and_then (operationAbbreviationFor operation) (\<lambda>_.
      unless_fault (payloadModeKnown (py_Mode payload)) (
      and_then (rowPayloadExpression san payload target (li_Name listener) ''NEW'') (\<lambda>newExpression.
      and_then (oldPayloadExpression san operation payload target (li_Name listener)) (\<lambda>oldExpression.
      Inr \<lparr>pe_new = if operation = ''delete'' then null_jsonb else newExpression, pe_old = oldExpression\<rparr>)))))"

section \<open>Statements\<close>

definition NL :: string where
  "NL = [CHR 0x0A]"

definition serviceTable :: "sanitizer \<Rightarrow> string \<Rightarrow> string \<Rightarrow> gen_error + string" where
  "serviceTable san serviceSchema table = qualified_as san ''service schema'' serviceSchema serviceSchema table"

definition body_lines :: "string \<Rightarrow> string \<Rightarrow> string \<Rightarrow> string \<Rightarrow> string \<Rightarrow> string \<Rightarrow> payloadExpressions \<Rightarrow> string list" where
  "body_lines evs queue listener storedTable operationName channel payload =
     [''BEGIN'', ''  WITH e AS ('',
      ''    INSERT INTO '' @ evs @ '' (listener, table_name, operation, payload, txid, occurred_at)'',
      ''    VALUES ('' @ listener @ '', '' @ storedTable @ '', '' @ operationName @ '','',
      ''            jsonb_build_object('' @ quoteLiteral ''old'' @ '', '' @ pe_old payload @ '', '' @
        quoteLiteral ''new'' @ '', '' @ pe_new payload @ ''),'',
      ''            pg_current_xact_id(), clock_timestamp())'', ''    RETURNING id, occurred_at'', ''  )'',
      ''  INSERT INTO '' @ queue, ''         (event_id, occurred_at, listener, status, attempts, next_attempt_at)'',
      ''  SELECT e.id, e.occurred_at, '' @ listener @ '', '' @ quoteLiteral ''pending'' @ '', 0, e.occurred_at FROM e;'',
      '''',
      ''  IF coalesce(current_setting('' @ quoteLiteral ''pg_noty.n'' @ '', true), '' @ quoteLiteral '''' @ '') = '' @
        quoteLiteral '''' @ '' THEN'',
      ''    PERFORM pg_notify('' @ channel @ '', '' @ quoteLiteral '''' @ '');'',
      ''    PERFORM set_config('' @ quoteLiteral ''pg_noty.n'' @ '', '' @ quoteLiteral ''1'' @ '', true);'', ''  END IF;'',
      ''  RETURN NULL;'', ''END'']"

definition triggerBody :: "sanitizer \<Rightarrow> Request \<Rightarrow> Operation \<Rightarrow> gen_error + string" where
  "triggerBody san request operation =
     and_then (serviceTable san (rq_ServiceSchema request) ''events'') (\<lambda>evs.
     and_then (serviceTable san (rq_ServiceSchema request) ''event_queue'') (\<lambda>queue.
     and_then (qualified_as san ''target'' (tg_Table (rq_Target request))
                 (tg_Schema (rq_Target request)) (tg_Table (rq_Target request))) (\<lambda>target.
     and_then (payloadExpressionsFor san (op_Kind operation) (rq_Listener request) (rq_Target request)) (\<lambda>payload.
     Inr (Join (body_lines evs queue (quoteLiteral (li_Name (rq_Listener request))) (quoteLiteral target)
                  (quoteLiteral (op_Kind operation)) (quoteLiteral (''pg_noty_events_'' @ rq_Instance request))
                  payload) NL)))))"

definition updateColumns :: "sanitizer \<Rightarrow> Operation \<Rightarrow> gen_error + string" where
  "updateColumns san operation =
     (if op_Kind operation \<noteq> ''update'' \<or> op_IsDistinct operation \<or> op_Columns operation = [] then Inr ''''
      else and_then (collect (quoted_as san ''update column'') (op_Columns operation))
             (\<lambda>quoted. Inr ('' OF '' @ Join quoted '', '')))"

definition distinctCondition :: "sanitizer \<Rightarrow> Operation \<Rightarrow> gen_error + string" where
  "distinctCondition san operation =
     (if op_Kind operation \<noteq> ''update'' \<or> \<not> op_IsDistinct operation then Inr ''''
      else if op_Columns operation = [] then
        Inr ''pg_catalog.to_jsonb(OLD) IS DISTINCT FROM pg_catalog.to_jsonb(NEW)''
      else and_then (collect (quoted_as san ''update column'') (op_Columns operation)) (\<lambda>quoted.
             Inr (''pg_catalog.to_jsonb(ROW('' @ Join (map (\<lambda>q. ''OLD.'' @ q) quoted) '', '' @
                  '')) IS DISTINCT FROM '' @ ''pg_catalog.to_jsonb(ROW('' @
                  Join (map (\<lambda>q. ''NEW.'' @ q) quoted) '', '' @ ''))'')))"

definition whenClause :: "sanitizer \<Rightarrow> Operation \<Rightarrow> gen_error + string" where
  "whenClause san operation =
     and_then (distinctCondition san operation) (\<lambda>distinct_cond.
       if distinct_cond \<noteq> '''' \<and> op_When operation \<noteq> '''' then
         Inr ('' WHEN (('' @ distinct_cond @ '') AND ('' @ op_When operation @ ''))'')
       else if distinct_cond \<noteq> '''' then Inr ('' WHEN ('' @ distinct_cond @ '')'')
       else if op_When operation = '''' then Inr ''''
       else Inr ('' WHEN ('' @ op_When operation @ '')''))"

definition upper_ascii :: "char \<Rightarrow> char" where
  "upper_ascii c =
     (if 97 \<le> (of_char c :: nat) \<and> (of_char c :: nat) \<le> 122 then char_of ((of_char c :: nat) - 32) else c)"

definition ToUpper :: "string \<Rightarrow> string" where
  "ToUpper s = map upper_ascii s"

record triggerStatements =
  st_createFunction :: string
  st_revokeExecute :: string
  st_commentFunction :: string
  st_createTrigger :: string
  st_commentTrigger :: string

definition function_text :: "string \<Rightarrow> string \<Rightarrow> string" where
  "function_text function body =
     (let tag = dollarQuoteTag body in
      ''CREATE OR REPLACE FUNCTION '' @ function @ ''() RETURNS trigger'' @ NL @ ''  LANGUAGE plpgsql'' @ NL @
      ''  SECURITY DEFINER'' @ NL @ ''  SET search_path = pg_catalog, pg_temp'' @ NL @ ''AS $'' @ tag @ ''$'' @ NL @
      body @ NL @ ''$'' @ tag @ ''$;'')"

definition render_statements :: "string \<Rightarrow> string \<Rightarrow> string \<Rightarrow> string \<Rightarrow> string \<Rightarrow> string \<Rightarrow> string \<Rightarrow> string \<Rightarrow> triggerStatements" where
  "render_statements function target body markerText trigger kind columns when_text =
     \<lparr>st_createFunction = function_text function body,
      st_revokeExecute = ''REVOKE EXECUTE ON FUNCTION '' @ function @ ''() FROM PUBLIC;'',
      st_commentFunction = ''COMMENT ON FUNCTION '' @ function @ ''() IS '' @ markerText @ '';'',
      st_createTrigger = ''CREATE TRIGGER '' @ trigger @ '' AFTER '' @ ToUpper kind @ columns @ '' ON '' @ target @
        '' FOR EACH ROW'' @ when_text @ '' EXECUTE FUNCTION '' @ function @ ''();'',
      st_commentTrigger = ''COMMENT ON TRIGGER '' @ trigger @ '' ON '' @ target @ '' IS '' @ markerText @ '';''\<rparr>"

definition statementsFor :: "sanitizer \<Rightarrow> Request \<Rightarrow> Operation \<Rightarrow> string \<Rightarrow> gen_error + triggerStatements" where
  "statementsFor san request operation functionName =
     unless_fault (validateRequestIdentifiers request) (
     and_then (operationAbbreviationFor (op_Kind operation)) (\<lambda>_.
     unless_fault (identifierRefusal ''function'' functionName) (
     and_then (qualified_as san ''function'' functionName (rq_ServiceSchema request) functionName) (\<lambda>function.
     and_then (qualified_as san ''target'' (tg_Table (rq_Target request))
                 (tg_Schema (rq_Target request)) (tg_Table (rq_Target request))) (\<lambda>target.
     and_then (triggerBody san request operation) (\<lambda>body.
     and_then (quoted_as san ''trigger'' functionName) (\<lambda>trigger.
     and_then (updateColumns san operation) (\<lambda>columns.
     and_then (whenClause san operation) (\<lambda>when_text.
     Inr (render_statements function target body
            (quoteLiteral (marker (rq_Instance request) (li_Name (rq_Listener request)) (op_Kind operation)))
            trigger (op_Kind operation) columns when_text))))))))))"

section \<open>Generate\<close>

definition operation_fault :: "Operation \<Rightarrow> gen_error option" where
  "operation_fault operation =
     (case operationAbbreviationFor (op_Kind operation) of
        Inl e \<Rightarrow> Some e
      | Inr _ \<Rightarrow> first_fault (identifierRefusal ''update column'') (op_Columns operation))"

definition validateGenerationInput :: "Request \<Rightarrow> gen_error option" where
  "validateGenerationInput request =
     (let payload = ts_Payload (li_Trigger (rq_Listener request)) in
      case validateRequestIdentifiers request of Some e \<Rightarrow> Some e | None \<Rightarrow>
     (case payloadModeKnown (py_Mode payload) of Some e \<Rightarrow> Some e | None \<Rightarrow>
     (case first_fault operation_fault (ts_Operations (li_Trigger (rq_Listener request))) of Some e \<Rightarrow> Some e | None \<Rightarrow>
     (case first_fault (identifierRefusal ''payload column'') (py_Columns payload @ py_Exclude payload) of Some e \<Rightarrow> Some e
      | None \<Rightarrow>
          if py_Mode payload = ''keys_only'' \<and> tg_PrimaryKeyColumns (rq_Target request) = []
          then Some (MissingPrimaryKey (li_Name (rq_Listener request))) else None))))"

definition orderedOperations :: "Operation list \<Rightarrow> Operation list" where
  "orderedOperations operations =
     concat (map (\<lambda>known. filter (\<lambda>operation. op_Kind operation = fst known) operations) operationAbbreviations)"

definition object_set :: "sanitizer \<Rightarrow> Request \<Rightarrow> Operation \<Rightarrow> gen_error + ObjectSet" where
  "object_set san request operation =
     (let abbreviation = (case operationAbbreviationFor (op_Kind operation) of Inl _ \<Rightarrow> '''' | Inr a \<Rightarrow> a);
          functionName = ObjectName (''pg_noty_'' @ li_Name (rq_Listener request)) abbreviation in
      and_then (statementsFor san request operation functionName) (\<lambda>statements.
      Inr \<lparr>os_Operation = op_Kind operation, os_FunctionName = functionName, os_TriggerName = functionName,
           os_Marker = marker (rq_Instance request) (li_Name (rq_Listener request)) (op_Kind operation),
           os_CreateFunction = st_createFunction statements, os_RevokeExecute = st_revokeExecute statements,
           os_CommentFunction = st_commentFunction statements, os_CreateTrigger = st_createTrigger statements,
           os_CommentTrigger = st_commentTrigger statements\<rparr>))"

definition Generate :: "sanitizer \<Rightarrow> Request \<Rightarrow> gen_error + ObjectSet list" where
  "Generate san request =
     unless_fault (validateGenerationInput request)
       (collect (object_set san request)
          (orderedOperations (ts_Operations (li_Trigger (rq_Listener request)))))"

section \<open>Lemmas: validated input always compiles\<close>

lemma identifierRefusal_None [go_err]: "identifierRefusal field value = None \<longleftrightarrow> WhyUnusable value = IdentifierOK"
  by (simp add: identifierRefusal_def)

lemma quoted_as_OK: "WhyUnusable value = IdentifierOK \<Longrightarrow> quoted_as san field value = Inr (san [value])"
  by (simp add: quoted_as_def Quoted_def)

lemma qualified_as_OK:
  "WhyUnusable schema = IdentifierOK \<Longrightarrow> WhyUnusable name = IdentifierOK \<Longrightarrow>
     qualified_as san field value schema name = Inr (san [schema, name])"
  by (simp add: qualified_as_def Qualified_def)

lemma validateRequestIdentifiers_None:
  "validateRequestIdentifiers request = None \<longleftrightarrow>
     WhyUnusable (rq_ServiceSchema request) = IdentifierOK \<and>
     WhyUnusable (li_Name (rq_Listener request)) = IdentifierOK \<and>
     WhyUnusable (tg_Schema (rq_Target request)) = IdentifierOK \<and>
     WhyUnusable (tg_Table (rq_Target request)) = IdentifierOK \<and>
     (\<forall>c \<in> set (tg_PrimaryKeyColumns (rq_Target request)). WhyUnusable c = IdentifierOK)"
  by (simp add: validateRequestIdentifiers_def validateTargetIdentifiers_def named_refusal_def go_err)

lemma operation_fault_None:
  "operation_fault operation = None \<longleftrightarrow>
     (\<exists>abbr. map_of operationAbbreviations (op_Kind operation) = Some abbr) \<and>
     (\<forall>c \<in> set (op_Columns operation). WhyUnusable c = IdentifierOK)"
  by (auto simp: operation_fault_def operationAbbreviationFor_def go_err split: option.splits)

definition input_ok :: "Request \<Rightarrow> bool" where
  "input_ok request \<longleftrightarrow>
     (let payload = ts_Payload (li_Trigger (rq_Listener request)) in
      validateRequestIdentifiers request = None \<and> py_Mode payload \<in> set payloadModes \<and>
      (\<forall>operation \<in> set (ts_Operations (li_Trigger (rq_Listener request))). operation_fault operation = None) \<and>
      (\<forall>c \<in> set (py_Columns payload) \<union> set (py_Exclude payload). WhyUnusable c = IdentifierOK) \<and>
      (py_Mode payload = ''keys_only'' \<longrightarrow> tg_PrimaryKeyColumns (rq_Target request) \<noteq> []))"

lemma validateGenerationInput_None: "validateGenerationInput request = None \<longleftrightarrow> input_ok request"
  by (simp add: validateGenerationInput_def input_ok_def Let_def payloadModeKnown_def go_err)

lemma set_orderedOperations:
  assumes "\<forall>operation \<in> set operations. operation_fault operation = None"
  shows "set (orderedOperations operations) = set operations"
  using assms
  by (auto simp: orderedOperations_def operationAbbreviations_def operation_fault_None
      split: if_splits)

lemma abbreviation_facts:
  assumes "map_of operationAbbreviations kind = Some abbr"
  shows "operationAbbreviationFor kind = Inr abbr" "length abbr = 3" "NUL \<notin> set abbr"
  using assms
  by (auto simp: operationAbbreviationFor_def operationAbbreviations_def NUL_def split: if_splits)

lemma row_payload_total:
  assumes "input_ok request"
  shows "\<exists>e. rowPayloadExpression san (ts_Payload (li_Trigger (rq_Listener request))) (rq_Target request) listener row = Inr e"
proof -
  let ?p = "ts_Payload (li_Trigger (rq_Listener request))" and ?t = "rq_Target request"
  have cols: "\<exists>e. objectPayloadExpression san cs row = Inr e" if "\<forall>c \<in> set cs. WhyUnusable c = IdentifierOK" for cs
  proof -
    from that have "collect (object_part san row) cs = Inr (map (\<lambda>c. [quoteLiteral c, row @ ''.'' @ san [c]]) cs)"
      by (intro collect_map) (simp add: object_part_def quoted_as_OK)
    then show ?thesis by (simp add: objectPayloadExpression_def)
  qed
  have excl: "\<exists>e. fullPayloadExpression cs row = Inr e" if "\<forall>c \<in> set cs. WhyUnusable c = IdentifierOK" for cs
  proof -
    from that have "collect payloadKey cs = Inr (map quoteLiteral cs)"
      by (intro collect_map) (simp add: payloadKey_def identifierRefusal_def)
    then show ?thesis by (simp add: fullPayloadExpression_def)
  qed
  from assms have "py_Mode ?p \<in> set payloadModes" "\<forall>c \<in> set (py_Columns ?p) \<union> set (py_Exclude ?p). WhyUnusable c = IdentifierOK"
    "py_Mode ?p = ''keys_only'' \<longrightarrow> tg_PrimaryKeyColumns ?t \<noteq> []"
    "\<forall>c \<in> set (tg_PrimaryKeyColumns ?t). WhyUnusable c = IdentifierOK"
    by (auto simp: input_ok_def Let_def validateRequestIdentifiers_None)
  then show ?thesis
    using cols [of "py_Columns ?p"] cols [of "tg_PrimaryKeyColumns ?t"] excl [of "py_Exclude ?p"]
    by (auto simp: rowPayloadExpression_def payloadModes_def)
qed

lemma payload_expressions_total:
  assumes ok: "input_ok request" and kind: "map_of operationAbbreviations kind = Some abbr"
  shows "\<exists>p. payloadExpressionsFor san kind (rq_Listener request) (rq_Target request) = Inr p"
proof -
  obtain e where "rowPayloadExpression san (ts_Payload (li_Trigger (rq_Listener request))) (rq_Target request)
      (li_Name (rq_Listener request)) ''NEW'' = Inr e"
    using row_payload_total [OF ok] by blast
  moreover obtain e' where "rowPayloadExpression san (ts_Payload (li_Trigger (rq_Listener request))) (rq_Target request)
      (li_Name (rq_Listener request)) ''OLD'' = Inr e'"
    using row_payload_total [OF ok] by blast
  moreover have "payloadModeKnown (py_Mode (ts_Payload (li_Trigger (rq_Listener request)))) = None"
    using ok by (simp add: input_ok_def Let_def payloadModeKnown_def)
  ultimately show ?thesis
    using abbreviation_facts(1) [OF kind]
    by (simp add: payloadExpressionsFor_def oldPayloadExpression_def Let_def)
qed

lemma clause_texts_total:
  assumes "\<forall>c \<in> set (op_Columns operation). WhyUnusable c = IdentifierOK"
  shows "\<exists>c. updateColumns san operation = Inr c" "\<exists>w. whenClause san operation = Inr w"
proof -
  have "collect (quoted_as san ''update column'') (op_Columns operation) = Inr (map (\<lambda>c. san [c]) (op_Columns operation))"
    using assms by (intro collect_map) (simp add: quoted_as_OK)
  then show "\<exists>c. updateColumns san operation = Inr c" "\<exists>w. whenClause san operation = Inr w"
    by (simp_all add: updateColumns_def whenClause_def distinctCondition_def)
qed

definition canonical_name :: "string \<Rightarrow> string \<Rightarrow> string" where
  "canonical_name listener kind =
     ObjectName (''pg_noty_'' @ listener) (case map_of operationAbbreviations kind of Some a \<Rightarrow> a | None \<Rightarrow> '''')"

lemma canonical_name_usable:
  assumes "map_of operationAbbreviations kind = Some abbr" "WhyUnusable listener = IdentifierOK"
  shows "WhyUnusable (canonical_name listener kind) = IdentifierOK"
proof -
  have "NUL \<notin> set (''pg_noty_'' @ listener)" using assms by (auto simp: WhyUnusable_OK NUL_def)
  then show ?thesis
    using abbreviation_facts(3) [OF assms(1)] assms(1)
    by (simp add: canonical_name_def WhyUnusable_OK ObjectName_nonempty NUL_ObjectName length_ObjectName)
qed

lemma body_tables_usable: "WhyUnusable ''events'' = IdentifierOK" "WhyUnusable ''event_queue'' = IdentifierOK"
  by (simp_all add: WhyUnusable_def NUL_def MaxIdentifierBytes_def)

lemma statements_total:
  assumes ok: "input_ok request" and fault: "operation_fault operation = None"
  shows "\<exists>s. statementsFor san request operation (canonical_name (li_Name (rq_Listener request)) (op_Kind operation)) = Inr s"
proof -
  from fault obtain abbr where abbr: "map_of operationAbbreviations (op_Kind operation) = Some abbr"
    and cols: "\<forall>c \<in> set (op_Columns operation). WhyUnusable c = IdentifierOK"
    by (auto simp: operation_fault_None)
  from ok have ids: "validateRequestIdentifiers request = None"
    and use: "WhyUnusable (rq_ServiceSchema request) = IdentifierOK"
      "WhyUnusable (li_Name (rq_Listener request)) = IdentifierOK"
      "WhyUnusable (tg_Schema (rq_Target request)) = IdentifierOK"
      "WhyUnusable (tg_Table (rq_Target request)) = IdentifierOK"
    by (auto simp: input_ok_def Let_def validateRequestIdentifiers_None)
  obtain p where p: "payloadExpressionsFor san (op_Kind operation) (rq_Listener request) (rq_Target request) = Inr p"
    using payload_expressions_total [OF ok abbr] by blast
  have body: "\<exists>b. triggerBody san request operation = Inr b"
    by (simp add: triggerBody_def serviceTable_def qualified_as_OK use body_tables_usable p)
  obtain b c w where "triggerBody san request operation = Inr b" "updateColumns san operation = Inr c"
    "whenClause san operation = Inr w"
    using clause_texts_total [OF cols, where san = san] body by blast
  then show ?thesis
    by (simp add: statementsFor_def ids abbreviation_facts(1) [OF abbr] identifierRefusal_def qualified_as_OK use
        quoted_as_OK canonical_name_usable [OF abbr use(2)])
qed

lemma object_set_total:
  assumes ok: "input_ok request" and fault: "operation_fault operation = None"
  shows "\<exists>s. object_set san request operation = Inr s \<and> os_Operation s = op_Kind operation \<and>
    os_FunctionName s = canonical_name (li_Name (rq_Listener request)) (op_Kind operation) \<and>
    os_TriggerName s = os_FunctionName s \<and>
    os_Marker s = marker (rq_Instance request) (li_Name (rq_Listener request)) (op_Kind operation)"
proof -
  from fault obtain abbr where abbr: "map_of operationAbbreviations (op_Kind operation) = Some abbr"
    by (auto simp: operation_fault_None)
  have name: "ObjectName (''pg_noty_'' @ li_Name (rq_Listener request))
      (case operationAbbreviationFor (op_Kind operation) of Inl _ \<Rightarrow> '''' | Inr a \<Rightarrow> a) =
      canonical_name (li_Name (rq_Listener request)) (op_Kind operation)"
    by (simp add: abbreviation_facts(1) [OF abbr] canonical_name_def abbr)
  obtain st where "statementsFor san request operation
      (canonical_name (li_Name (rq_Listener request)) (op_Kind operation)) = Inr st"
    using statements_total [OF ok fault] by blast
  then show ?thesis unfolding object_set_def Let_def name by simp
qed

section \<open>Lemmas: reading a payload expression\<close>

text \<open>
  PostgreSQL's evaluation of the three expression forms the compiler emits, as a reader of the text: a
  row is the list of its columns and values, the result is a JSON object (or JSON null), and a column
  the row does not have is an error.
\<close>

datatype 'v shipped = JsonNull | JsonObject "(string \<times> 'v) list"

lemma sql_literal_body_shorter: "sql_literal_body esc s = Some (v, rest) \<Longrightarrow> length rest < length s"
proof (induction esc s arbitrary: v rest rule: sql_literal_body.induct)
  case (2 esc c s)
  from 2 show ?case
    by (cases s; auto split: if_splits; metis less_SucI)
qed simp

declare sql_literal_body.simps [simp del] split_part_body.simps [simp del]

lemma sql_literal_shorter: "sql_literal s = Some (v, rest) \<Longrightarrow> length rest < length s"
  by (cases s; cases "tl s")
     (auto simp: sql_literal_def split: if_splits dest!: sql_literal_body_shorter intro: less_SucI)

lemma split_part_body_shorter: "split_part_body s = Some (v, rest) \<Longrightarrow> length rest < length s"
proof (induction s arbitrary: v rest rule: split_part_body.induct)
  case (2 c s)
  then show ?case by (cases s; auto simp: split_part_body.simps split: if_splits; metis less_SucI)
qed (simp add: split_part_body.simps)

lemma splitQualifiedPart_shorter: "splitQualifiedPart s = Some (v, rest) \<Longrightarrow> length rest < length s"
  by (cases s) (auto simp: splitQualifiedPart_def split: if_splits dest!: split_part_body_shorter intro: less_SucI)

lemma CutPrefix_shorter: "CutPrefix s p = Some rest \<Longrightarrow> length rest \<le> length s"
  by (auto simp: CutPrefix_Some)

function read_subtractions :: "(string \<times> 'v) list \<Rightarrow> string \<Rightarrow> (string \<times> 'v) list option" where
  "read_subtractions row s =
     (if s = [] then Some row
      else case CutPrefix s '' - '' of
             None \<Rightarrow> None
           | Some rest \<Rightarrow>
               (case sql_literal rest of
                  None \<Rightarrow> None
                | Some (k, rest') \<Rightarrow> read_subtractions (filter (\<lambda>c. fst c \<noteq> k) row) rest'))"
  by pat_completeness auto
termination
  by (relation "measure (\<lambda>(row, s). length s)") (auto dest!: sql_literal_shorter CutPrefix_shorter)

declare read_subtractions.simps [simp del]

definition read_field :: "(string \<times> 'v) list \<Rightarrow> (string \<times> 'v) list \<Rightarrow> string \<Rightarrow> ('v \<times> string) option" where
  "read_field old new s =
     (case CutPrefix s ''NEW.'' of
        Some rest \<Rightarrow> (case splitQualifiedPart rest of
            Some (c, rest') \<Rightarrow> map_option (\<lambda>v. (v, rest')) (map_of new c) | None \<Rightarrow> None)
      | None \<Rightarrow>
          (case CutPrefix s ''OLD.'' of
             Some rest \<Rightarrow> (case splitQualifiedPart rest of
                 Some (c, rest') \<Rightarrow> map_option (\<lambda>v. (v, rest')) (map_of old c) | None \<Rightarrow> None)
           | None \<Rightarrow> None))"

lemma read_field_shorter: "read_field old new s = Some (v, rest) \<Longrightarrow> length rest < length s"
  by (fastforce simp: read_field_def split: option.splits
      dest: splitQualifiedPart_shorter CutPrefix_shorter intro: less_le_trans)

function read_pairs :: "(string \<times> 'v) list \<Rightarrow> (string \<times> 'v) list \<Rightarrow> string \<Rightarrow> (string \<times> 'v) list option" where
  "read_pairs old new s =
     (case sql_literal s of
        None \<Rightarrow> None
      | Some (k, rest) \<Rightarrow>
          (case CutPrefix rest '', '' of
             None \<Rightarrow> None
           | Some rest1 \<Rightarrow>
               (case read_field old new rest1 of
                  None \<Rightarrow> None
                | Some (v, rest2) \<Rightarrow>
                    if rest2 = '')'' then Some [(k, v)]
                    else (case CutPrefix rest2 '', '' of
                            None \<Rightarrow> None
                          | Some rest3 \<Rightarrow> map_option (\<lambda>ps. (k, v) # ps) (read_pairs old new rest3)))))"
  by pat_completeness auto
termination
  by (relation "measure (\<lambda>(old, new, s). length s)")
     (auto dest!: sql_literal_shorter read_field_shorter CutPrefix_shorter)

declare read_pairs.simps [simp del]

definition read_payload :: "(string \<times> 'v) list \<Rightarrow> (string \<times> 'v) list \<Rightarrow> string \<Rightarrow> 'v shipped option" where
  "read_payload old new s =
     (if s = null_jsonb then Some JsonNull
      else case CutPrefix s ''to_jsonb(NEW)'' of
        Some rest \<Rightarrow> map_option JsonObject (read_subtractions new rest)
      | None \<Rightarrow>
     (case CutPrefix s ''to_jsonb(OLD)'' of
        Some rest \<Rightarrow> map_option JsonObject (read_subtractions old rest)
      | None \<Rightarrow>
     (case CutPrefix s ''jsonb_build_object('' of
        Some rest \<Rightarrow> if rest = '')'' then Some (JsonObject []) else map_option JsonObject (read_pairs old new rest)
      | None \<Rightarrow> None)))"

text \<open>What the configuration asks for: the row without the excluded columns, or the named columns.\<close>

fun pick :: "(string \<times> 'v) list \<Rightarrow> string list \<Rightarrow> (string \<times> 'v) list option" where
  "pick row [] = Some []"
| "pick row (c # cs) =
     (case map_of row c of
        None \<Rightarrow> None | Some v \<Rightarrow> map_option (\<lambda>ps. (c, v) # ps) (pick row cs))"

definition configured_columns :: "Payload \<Rightarrow> Target \<Rightarrow> (string \<times> 'v) list \<Rightarrow> (string \<times> 'v) list option" where
  "configured_columns payload target row =
     (if py_Mode payload = ''full'' then Some (filter (\<lambda>c. fst c \<notin> set (py_Exclude payload)) row)
      else if py_Mode payload = ''columns'' then pick row (py_Columns payload)
      else pick row (tg_PrimaryKeyColumns target))"

definition row_of :: "string \<Rightarrow> (string \<times> 'v) list \<Rightarrow> (string \<times> 'v) list \<Rightarrow> (string \<times> 'v) list" where
  "row_of var old new = (if var = ''NEW'' then new else old)"

lemma read_subtractions_text:
  "read_subtractions row (subtract_keys (map quoteLiteral ks)) = Some (filter (\<lambda>c. fst c \<notin> set ks) row)"
proof (induction ks arbitrary: row)
  case Nil
  then show ?case by (simp add: read_subtractions.simps subtract_keys_def)
next
  case (Cons k ks)
  let ?rest = "subtract_keys (map quoteLiteral ks)"
  have "?rest = [] \<or> hd ?rest \<noteq> SQ" by (cases ks) (simp_all add: subtract_keys_def SQ_def)
  then have lit: "sql_literal (quoteLiteral k @ ?rest) = Some (k, ?rest)" by (rule sql_literal_quoteLiteral)
  have "subtract_keys (map quoteLiteral (k # ks)) = '' - '' @ quoteLiteral k @ ?rest"
    by (simp add: subtract_keys_def)
  then show ?case
    using Cons lit CutPrefix_append [of "'' - ''" "quoteLiteral k @ ?rest"]
    by (subst read_subtractions.simps) (simp del: append_Cons add: conj_commute)
qed

lemma read_field_text:
  assumes "var = ''NEW'' \<or> var = ''OLD''" "rest = [] \<or> hd rest \<noteq> DQ"
  shows "read_field old new (var @ ''.'' @ dquoted c @ rest) =
    map_option (\<lambda>v. (v, rest)) (map_of (row_of var old new) c)"
  using assms splitQualifiedPart_dquoted [OF assms(2), of c]
  by (auto simp: read_field_def CutPrefix_def HasPrefix_def row_of_def)

lemma quoteLiteral_hd: "quoteLiteral v \<noteq> []" "hd (quoteLiteral v @ s) = SQ \<or> hd (quoteLiteral v @ s) = CHR ''E''"
  by (auto simp: quoteLiteral_def)

lemma read_pairs_text:
  assumes var: "var = ''NEW'' \<or> var = ''OLD''" and ne: "cs \<noteq> []"
  shows "read_pairs old new (Join (concat (map (\<lambda>c. [quoteLiteral c, var @ ''.'' @ dquoted c]) cs)) '', '' @ '')'') =
    pick (row_of var old new) cs"
  using ne
proof (induction cs)
  case (Cons c cs)
  define tail where "tail = (if cs = [] then '')'' else '', '' @
      Join (concat (map (\<lambda>c. [quoteLiteral c, var @ ''.'' @ dquoted c]) cs)) '', '' @ '')'')"
  let ?field = "var @ ''.'' @ dquoted c @ tail"
  have split: "Join (concat (map (\<lambda>c. [quoteLiteral c, var @ ''.'' @ dquoted c]) (c # cs))) '', '' @ '')'' =
      quoteLiteral c @ '', '' @ ?field"
    by (cases cs) (simp_all add: tail_def)
  have hd_tail: "tail = [] \<or> hd tail \<noteq> DQ" by (simp add: tail_def DQ_def)
  have lit: "sql_literal (quoteLiteral c @ '', '' @ ?field) = Some (c, '', '' @ ?field)"
    by (rule sql_literal_quoteLiteral) (simp add: SQ_def)
  have field: "read_field old new ?field = map_option (\<lambda>v. (v, tail)) (map_of (row_of var old new) c)"
    by (rule read_field_text [OF var hd_tail])
  note step = read_pairs.simps [of old new "quoteLiteral c @ '', '' @ ?field",
      simplified lit field CutPrefix_append option.case prod.case]
  show ?case
  proof (cases "cs = []")
    case True
    then have "tail = '')''" by (simp add: tail_def)
    with True show ?thesis
      unfolding split step by (simp split: option.split)
  next
    case False
    let ?next = "Join (concat (map (\<lambda>c. [quoteLiteral c, var @ ''.'' @ dquoted c]) cs)) '', '' @ '')''"
    from False have tail: "tail = '', '' @ ?next" "tail \<noteq> '')''" by (simp_all add: tail_def)
    have "CutPrefix tail '', '' = Some ?next" unfolding tail(1) by (rule CutPrefix_append)
    with Cons.IH [OF False] tail(2) show ?thesis
      unfolding split step by (simp split: option.split)
  qed
qed simp

lemma object_payload_shape:
  assumes law: "sanitizer_law san" and ok: "objectPayloadExpression san cs row = Inr e"
  shows "e = ''jsonb_build_object('' @ Join (concat (map (\<lambda>c. [quoteLiteral c, row @ ''.'' @ dquoted c]) cs)) '', '' @ '')''"
proof -
  have part: "p = [quoteLiteral c, row @ ''.'' @ dquoted c]" if "object_part san row c = Inr p" for c p
    using that law
    by (auto simp: object_part_def go_err quoted_as_def Quoted_def WhyUnusable_OK sanitizer_law_def split: if_splits)
  have "list_all2 (\<lambda>c p. object_part san row c = Inr p) cs ps \<Longrightarrow>
      ps = map (\<lambda>c. [quoteLiteral c, row @ ''.'' @ dquoted c]) cs" for ps
    by (induction rule: list_all2_induct) (auto dest: part)
  with ok show ?thesis by (auto simp: objectPayloadExpression_def go_err)
qed

lemma full_payload_shape:
  assumes "fullPayloadExpression ks row = Inr e"
  shows "e = ''to_jsonb('' @ row @ '')'' @ subtract_keys (map quoteLiteral ks)"
proof -
  have key: "k = quoteLiteral c" if "payloadKey c = Inr k" for c k
    using that by (simp add: payloadKey_def go_err)
  have "list_all2 (\<lambda>c k. payloadKey c = Inr k) ks qs \<Longrightarrow> qs = map quoteLiteral ks" for qs
    by (induction rule: list_all2_induct) (simp_all add: key)
  with assms show ?thesis by (auto simp: fullPayloadExpression_def go_err)
qed

lemma read_object_payload:
  assumes law: "sanitizer_law san" and ok: "objectPayloadExpression san cs row = Inr e"
    and row: "row = ''NEW'' \<or> row = ''OLD''"
  shows "read_payload old new e = map_option JsonObject (pick (row_of row old new) cs)"
proof -
  let ?args = "Join (concat (map (\<lambda>c. [quoteLiteral c, row @ ''.'' @ dquoted c]) cs)) '', '' @ '')''"
  have e: "e = ''jsonb_build_object('' @ ?args" by (rule object_payload_shape [OF law ok])
  have pre: "CutPrefix e ''to_jsonb(NEW)'' = None" "CutPrefix e ''to_jsonb(OLD)'' = None" "e \<noteq> null_jsonb"
    by (simp_all add: e CutPrefix_def HasPrefix_def null_jsonb_def)
  have cut: "CutPrefix e ''jsonb_build_object('' = Some ?args" unfolding e by (rule CutPrefix_append)
  show ?thesis
  proof (cases cs)
    case Nil
    with pre cut show ?thesis by (simp add: read_payload_def)
  next
    case (Cons c cs')
    have "quoteLiteral c \<noteq> [] \<and> hd (quoteLiteral c) \<noteq> CHR '')''"
      using quoteLiteral_hd(1) quoteLiteral_hd(2) [of c "[]"] by (auto simp: SQ_def)
    then have "?args \<noteq> '')''" by (cases "quoteLiteral c") (simp_all add: Cons)
    with pre cut read_pairs_text [OF row, of cs old new] Cons show ?thesis
      by (simp add: read_payload_def)
  qed
qed

lemma read_full_payload:
  assumes ok: "fullPayloadExpression ks row = Inr e" and row: "row = ''NEW'' \<or> row = ''OLD''"
  shows "read_payload old new e = Some (JsonObject (filter (\<lambda>c. fst c \<notin> set ks) (row_of row old new)))"
proof -
  let ?sub = "subtract_keys (map quoteLiteral ks)"
  have e: "e = ''to_jsonb('' @ row @ '')'' @ ?sub" by (rule full_payload_shape [OF ok])
  from row show ?thesis
  proof
    assume "row = ''NEW''"
    then have "CutPrefix e ''to_jsonb(NEW)'' = Some ?sub" "e \<noteq> null_jsonb"
      by (simp_all add: e CutPrefix_def HasPrefix_def null_jsonb_def)
    with \<open>row = ''NEW''\<close> show ?thesis
      by (simp add: read_payload_def read_subtractions_text row_of_def)
  next
    assume "row = ''OLD''"
    then have "CutPrefix e ''to_jsonb(NEW)'' = None" "CutPrefix e ''to_jsonb(OLD)'' = Some ?sub" "e \<noteq> null_jsonb"
      by (simp_all add: e CutPrefix_def HasPrefix_def null_jsonb_def)
    with \<open>row = ''OLD''\<close> show ?thesis
      by (simp add: read_payload_def read_subtractions_text row_of_def)
  qed
qed

lemma read_row_payload:
  assumes law: "sanitizer_law san" and ok: "rowPayloadExpression san payload target listener row = Inr e"
    and row: "row = ''NEW'' \<or> row = ''OLD''"
  shows "read_payload old new e = map_option JsonObject (configured_columns payload target (row_of row old new))"
  using ok read_object_payload [OF law _ row] read_full_payload [OF _ row]
  by (auto simp: rowPayloadExpression_def configured_columns_def split: if_splits)

lemma read_null_payload: "read_payload old new null_jsonb = Some JsonNull"
  by (simp add: read_payload_def)

lemma pick_keys: "pick row cs = Some ps \<Longrightarrow> map fst ps = cs"
  by (induction cs arbitrary: ps) (auto split: option.splits)

definition well_named :: "Request \<Rightarrow> Operation \<Rightarrow> ObjectSet \<Rightarrow> bool" where
  "well_named request operation s \<longleftrightarrow>
     os_Operation s = op_Kind operation \<and>
     os_FunctionName s = canonical_name (li_Name (rq_Listener request)) (op_Kind operation) \<and>
     os_TriggerName s = os_FunctionName s \<and> WhyUnusable (os_FunctionName s) = IdentifierOK \<and>
     os_Marker s = marker (rq_Instance request) (li_Name (rq_Listener request)) (op_Kind operation)"

lemma generated_set:
  assumes ok: "input_ok request"
    and "in": "operation \<in> set (orderedOperations (ts_Operations (li_Trigger (rq_Listener request))))"
  shows "\<exists>s. object_set san request operation = Inr s \<and> well_named request operation s"
proof -
  from ok have faults: "\<forall>operation \<in> set (ts_Operations (li_Trigger (rq_Listener request))). operation_fault operation = None"
    and listener: "WhyUnusable (li_Name (rq_Listener request)) = IdentifierOK"
    by (auto simp: input_ok_def Let_def validateRequestIdentifiers_None)
  from "in" faults have fault: "operation_fault operation = None"
    using set_orderedOperations [OF faults] by blast
  then obtain abbr where "map_of operationAbbreviations (op_Kind operation) = Some abbr"
    by (auto simp: operation_fault_None)
  from canonical_name_usable [OF this listener] object_set_total [OF ok fault, of san] show ?thesis
    by (auto simp: well_named_def)
qed

lemma collect_total:
  assumes "\<And>x. x \<in> set xs \<Longrightarrow> \<exists>y. f x = Inr y \<and> P x y"
  shows "\<exists>ys. collect f xs = Inr ys \<and> list_all2 P xs ys"
  using assms
proof (induction xs)
  case (Cons x xs)
  then obtain y ys where "f x = Inr y" "P x y" "collect f xs = Inr ys" "list_all2 P xs ys"
    by (metis list.set_intros)
  then show ?case by simp
qed simp

definition sample_listener :: Listener where
  "sample_listener = \<lparr>li_Name = ''orders'', li_Enabled = True, li_Trigger =
     \<lparr>ts_Table = ''public.orders'',
      ts_Operations = [\<lparr>op_Kind = ''update'', op_Columns = [''state''], op_IsDistinct = False, op_When = ''''\<rparr>],
      ts_Payload = \<lparr>py_Mode = ''full'', py_Columns = [], py_Exclude = [''card''], py_IncludeOld = True, py_MaxBytes = 65536\<rparr>\<rparr>\<rparr>"

definition sample_target :: Target where
  "sample_target = \<lparr>tg_Schema = ''public'', tg_Table = ''orders'', tg_PrimaryKeyColumns = [''oid'']\<rparr>"

definition pgx_sanitize :: sanitizer where
  "pgx_sanitize parts = Join (map dquoted parts) ''.''"

lemma pgx_sanitize_law: "sanitizer_law pgx_sanitize"
  by (simp add: sanitizer_law_def pgx_sanitize_def)

lemma generate_named:
  assumes "Generate san request = Inr sets"
  shows "list_all2 (well_named request) (orderedOperations (ts_Operations (li_Trigger (rq_Listener request)))) sets"
proof -
  from assms have "input_ok request"
    and made: "collect (object_set san request) (orderedOperations (ts_Operations (li_Trigger (rq_Listener request)))) = Inr sets"
    by (simp_all add: Generate_def go_err validateGenerationInput_None)
  then have "\<exists>ys. collect (object_set san request) (orderedOperations (ts_Operations (li_Trigger (rq_Listener request)))) = Inr ys \<and>
      list_all2 (well_named request) (orderedOperations (ts_Operations (li_Trigger (rq_Listener request)))) ys"
    by (intro collect_total generated_set)
  with made show ?thesis by simp
qed

section \<open>Properties\<close>



text \<open>C31. What a fired trigger ships is exactly what the configuration selects. Reading the generated
  expressions the way PostgreSQL evaluates them: the new side is the configured projection of the new
  row (JSON null for a delete), the old side the same projection of the old row for a delete, and for
  an update that asks for it, and JSON null otherwise; so a column withheld from one side is withheld
  from both.\<close>

theorem payload_ships_configured_columns:
  assumes law: "sanitizer_law san"
    and ok: "payloadExpressionsFor san kind listener target = Inr p"
  shows "read_payload old new (pe_new p) =
      (if kind = ''delete'' then Some JsonNull
       else map_option JsonObject (configured_columns (ts_Payload (li_Trigger listener)) target new)) \<and>
    read_payload old new (pe_old p) =
      (if kind = ''delete'' \<or> kind = ''update'' \<and> py_IncludeOld (ts_Payload (li_Trigger listener))
       then map_option JsonObject (configured_columns (ts_Payload (li_Trigger listener)) target old)
       else Some JsonNull)"
proof -
  let ?pay = "ts_Payload (li_Trigger listener)"
  from ok obtain n where n: "rowPayloadExpression san ?pay target (li_Name listener) ''NEW'' = Inr n"
    and pn: "pe_new p = (if kind = ''delete'' then null_jsonb else n)"
    and o: "oldPayloadExpression san kind ?pay target (li_Name listener) = Inr (pe_old p)"
    by (auto simp: payloadExpressionsFor_def Let_def go_err)
  have new: "read_payload old new n = map_option JsonObject (configured_columns ?pay target new)"
    using read_row_payload [OF law n] by (simp add: row_of_def)
  have old: "read_payload old new e = map_option JsonObject (configured_columns ?pay target old)"
    if "rowPayloadExpression san ?pay target (li_Name listener) ''OLD'' = Inr e" for e
    using read_row_payload [OF law that] by (simp add: row_of_def)
  have "read_payload old new (pe_old p) =
      (if kind = ''delete'' \<or> kind = ''update'' \<and> py_IncludeOld ?pay
       then map_option JsonObject (configured_columns ?pay target old) else Some JsonNull)"
    using o old [of "pe_old p"]
    by (auto simp: oldPayloadExpression_def read_null_payload split: if_splits)
  with pn new show ?thesis by (simp add: read_null_payload)
qed

theorem payload_ships_configured_columns_witness:
  "\<exists>p. payloadExpressionsFor pgx_sanitize ''update'' sample_listener sample_target = Inr p \<and>
     read_payload [(''oid'', 1::nat), (''card'', 42)] [(''oid'', 1), (''card'', 43)] (pe_new p) =
       Some (JsonObject [(''oid'', 1)])"
proof -
  have "\<exists>p. payloadExpressionsFor pgx_sanitize ''update'' sample_listener sample_target = Inr p"
    by (simp add: payloadExpressionsFor_def Let_def operationAbbreviationFor_def operationAbbreviations_def
        payloadModeKnown_def payloadModes_def rowPayloadExpression_def fullPayloadExpression_def payloadKey_def
        identifierRefusal_def WhyUnusable_def NUL_def MaxIdentifierBytes_def oldPayloadExpression_def
        sample_listener_def)
  then obtain p where p: "payloadExpressionsFor pgx_sanitize ''update'' sample_listener sample_target = Inr p" ..
  from payload_ships_configured_columns [OF pgx_sanitize_law p,
      of "[(''oid'', 1::nat), (''card'', 42)]" "[(''oid'', 1), (''card'', 43)]"] p
  show ?thesis by (simp add: configured_columns_def sample_listener_def)
qed

end
