(* ===== verification/When_Lexer.thy ===== *)
theory When_Lexer
  imports Quoting "HOL-Library.Sublist"
begin

text \<open>
  \<open>config/whenlex.go\<close>: the lexical pre-check of a \<open>when\<close> clause. The scanner works on byte indexes, as the
  code does; every \<open>endOf\<close> function answers the index one past the construct it was given. Beside it stands the
  grammar the scanner implements, as an inductive relation between a lexeme and what follows it, taken from the
  productions of the server's lexer that the source quotes. The two are proved to agree on every clause.
\<close>

section \<open>Byte classes\<close>

definition isWordStartByte :: "char \<Rightarrow> bool" where
  "isWordStartByte c \<longleftrightarrow>
     (let b = (of_char c :: nat); isASCIILetter = (97 \<le> b \<and> b \<le> 122 \<or> 65 \<le> b \<and> b \<le> 90)
      in isASCIILetter \<or> c = CHR ''_'' \<or> 128 \<le> b)"

definition isTagByte :: "char \<Rightarrow> bool" where
  "isTagByte c \<longleftrightarrow> isWordStartByte c \<or> is_digit c"

definition isWordByte :: "char \<Rightarrow> bool" where
  "isWordByte c \<longleftrightarrow> isTagByte c \<or> c = CHR ''$''"

definition spaceBytes :: string where
  "spaceBytes = [CHR '' '', CHR 0x09, CHR 0x0A, CHR 0x0D, CHR 0x0C, CHR 0x0B]"

definition newlineBytes :: string where
  "newlineBytes = [CHR 0x0A, CHR 0x0D]"

text \<open>The string functions the scanner calls. Each set of bytes and each word it compares with is ASCII and holds
  neither K nor S, the two letters that fold with a rune above ASCII, so comparing bytes is what \<open>EqualFold\<close> does.\<close>

definition EqualFold :: "string \<Rightarrow> string \<Rightarrow> bool" where
  "EqualFold s t \<longleftrightarrow> map lower_ascii s = map lower_ascii t"

definition TrimLeft :: "string \<Rightarrow> string \<Rightarrow> string" where
  "TrimLeft s cutset = dropWhile (\<lambda>c. c \<in> set cutset) s"

definition ContainsAny :: "string \<Rightarrow> string \<Rightarrow> bool" where
  "ContainsAny s chars \<longleftrightarrow> (\<exists>c \<in> set s. c \<in> set chars)"

fun IndexAny :: "string \<Rightarrow> string \<Rightarrow> nat option" where
  "IndexAny [] chars = None"
| "IndexAny (c # s) chars = (if c \<in> set chars then Some 0 else map_option Suc (IndexAny s chars))"

fun IndexOf :: "string \<Rightarrow> string \<Rightarrow> nat option" where
  "IndexOf s sub = (if HasPrefix s sub then Some 0 else case s of [] \<Rightarrow> None | c # s' \<Rightarrow> map_option Suc (IndexOf s' sub))"

declare IndexOf.simps [simp del]

section \<open>The scanner\<close>

function endOfByteRun :: "string \<Rightarrow> nat \<Rightarrow> (char \<Rightarrow> bool) \<Rightarrow> nat" where
  "endOfByteRun str start admits =
     (if start < length str then if \<not> admits (str ! start) then start else endOfByteRun str (start + 1) admits
      else length str)"
  by auto
termination
  by (relation "measure (\<lambda>(str, start, _). length str - start)") auto

declare endOfByteRun.simps [simp del]

definition endOfLineComment :: "string \<Rightarrow> nat \<Rightarrow> nat" where
  "endOfLineComment clause index =
     (case IndexAny (drop index clause) newlineBytes of Some n \<Rightarrow> index + n + 1 | None \<Rightarrow> length clause)"

lemma IndexAny_less: "IndexAny s chars = Some n \<Longrightarrow> n < length s"
  by (induction s arbitrary: n) (auto split: if_splits)

lemma endOfLineComment_advances: "index < length clause \<Longrightarrow> index < endOfLineComment clause index"
  by (auto simp: endOfLineComment_def dest!: IndexAny_less split: option.splits)

function skip_gap :: "string \<Rightarrow> string" where
  "skip_gap gap =
     (if HasPrefix gap ''--'' then skip_gap (TrimLeft (drop (endOfLineComment gap 0) gap) spaceBytes) else gap)"
  by auto
termination
proof (relation "measure length")
  fix gap assume "HasPrefix gap ''--''"
  then have "0 < length gap" by (auto simp: HasPrefix_iff)
  with endOfLineComment_advances [of 0 gap] have "length (drop (endOfLineComment gap 0) gap) < length gap" by simp
  moreover have "length (TrimLeft (drop (endOfLineComment gap 0) gap) spaceBytes) \<le> length (drop (endOfLineComment gap 0) gap)"
    unfolding TrimLeft_def by (rule length_dropWhile_le)
  ultimately have "length (TrimLeft (drop (endOfLineComment gap 0) gap) spaceBytes) < length gap" by (rule order_le_less_trans [rotated])
  then show "(TrimLeft (drop (endOfLineComment gap 0) gap) spaceBytes, gap) \<in> measure length" by simp
qed simp

declare skip_gap.simps [simp del]

definition continuationQuote :: "string \<Rightarrow> nat \<Rightarrow> char \<Rightarrow> nat option" where
  "continuationQuote clause after quote =
     (if quote \<noteq> SQ then None
      else let gap = skip_gap (TrimLeft (drop after clause) spaceBytes);
               at = length clause - length gap
           in if \<not> ContainsAny (take (at - after) (drop after clause)) newlineBytes \<or> gap = [] \<or> hd gap \<noteq> quote
              then None else Some at)"

lemma TrimLeft_suffix: "suffix (TrimLeft s cs) s"
  by (simp add: TrimLeft_def suffix_dropWhile)

lemma skip_gap_suffix: "suffix (skip_gap gap) gap"
proof (induction gap rule: skip_gap.induct)
  case (1 gap)
  show ?case
  proof (cases "HasPrefix gap ''--''")
    case True
    have "suffix (TrimLeft (drop (endOfLineComment gap 0) gap) spaceBytes) gap"
      using TrimLeft_suffix suffix_drop suffix_order.trans by blast
    with 1 [OF True] True show ?thesis by (subst skip_gap.simps) (auto intro: suffix_order.trans)
  qed (subst skip_gap.simps, simp)
qed

lemma continuationQuote_advances:
  assumes "after \<le> length clause" "continuationQuote clause after quote = Some at"
  shows "after \<le> at"
proof -
  have "suffix (skip_gap (TrimLeft (drop after clause) spaceBytes)) (drop after clause)"
    using skip_gap_suffix TrimLeft_suffix suffix_order.trans by blast
  then have "length (skip_gap (TrimLeft (drop after clause) spaceBytes)) \<le> length clause - after"
    by (auto dest: suffix_length_le)
  with assms show ?thesis by (auto simp: continuationQuote_def Let_def split: if_splits)
qed

function quoted_from :: "string \<Rightarrow> nat \<Rightarrow> char \<Rightarrow> bool \<Rightarrow> nat" where
  "quoted_from clause at quote backslashEscapes =
     (if at < length clause then
        if backslashEscapes \<and> clause ! at = BS then quoted_from clause (at + 2) quote backslashEscapes
        else if clause ! at \<noteq> quote then quoted_from clause (at + 1) quote backslashEscapes
        else if at + 1 < length clause \<and> clause ! (at + 1) = quote then quoted_from clause (at + 2) quote backslashEscapes
        else (case continuationQuote clause (at + 1) quote of
                None \<Rightarrow> at + 1
              | Some continuation \<Rightarrow> quoted_from clause (continuation + 1) quote backslashEscapes)
      else length clause)"
  by auto
termination
  by (relation "measure (\<lambda>(clause, at, _, _). length clause - at)")
    (auto dest: continuationQuote_advances [rotated])

declare quoted_from.simps [simp del]

definition endOfQuoted :: "string \<Rightarrow> nat \<Rightarrow> char \<Rightarrow> bool \<Rightarrow> nat" where
  "endOfQuoted clause index quote backslashEscapes = quoted_from clause (index + 1) quote backslashEscapes"

function comment_from :: "string \<Rightarrow> nat \<Rightarrow> int \<Rightarrow> nat" where
  "comment_from clause at depth =
     (if at < length clause then
        if HasPrefix (drop at clause) ''/*'' then comment_from clause (at + 2) (depth + 1)
        else if HasPrefix (drop at clause) ''*/'' then
          if depth - 1 = 0 then at + 2 else comment_from clause (at + 2) (depth - 1)
        else comment_from clause (at + 1) depth
      else length clause)"
  by auto
termination
  by (relation "measure (\<lambda>(clause, at, _). length clause - at)") auto

declare comment_from.simps [simp del]

definition endOfBlockComment :: "string \<Rightarrow> nat \<Rightarrow> nat" where
  "endOfBlockComment clause index = comment_from clause index 0"

definition isDollarQuoteTag :: "string \<Rightarrow> bool" where
  "isDollarQuoteTag str \<longleftrightarrow> isWordStartByte (hd str) \<and> endOfByteRun str 1 isTagByte = length str"

definition dollarQuoteDelimiter :: "string \<Rightarrow> nat \<Rightarrow> string option" where
  "dollarQuoteDelimiter clause index =
     (let rest = drop (index + 1) clause in
      case IndexAny rest ''$'' of
        None \<Rightarrow> None
      | Some end \<Rightarrow>
          let tag = take end rest in
          if tag \<noteq> [] \<and> \<not> isDollarQuoteTag tag then None else Some (take (end + 2) (drop index clause)))"

definition endOfDollarQuoted :: "string \<Rightarrow> nat \<Rightarrow> nat" where
  "endOfDollarQuoted clause index =
     (case dollarQuoteDelimiter clause index of
        None \<Rightarrow> index + 1
      | Some delimiter \<Rightarrow>
          let body = index + length delimiter in
          case IndexOf (drop body clause) delimiter of
            Some n \<Rightarrow> body + n + length delimiter
          | None \<Rightarrow> length clause)"

definition endOfWordOrEscapeString :: "string \<Rightarrow> nat \<Rightarrow> nat \<times> bool" where
  "endOfWordOrEscapeString clause index =
     (let end = endOfByteRun clause (index + 1) isWordByte;
          quoteFollows = (end < length clause \<and> clause ! end = SQ)
      in if quoteFollows \<and> EqualFold (take (end - index) (drop index clause)) ''E''
         then (endOfQuoted clause end SQ True, False) else (end, True))"

definition nextToken :: "string \<Rightarrow> nat \<Rightarrow> nat \<times> bool" where
  "nextToken clause index =
     (let rest = drop index clause in
      if isWordStartByte (hd rest) then endOfWordOrEscapeString clause index
      else if HasPrefix rest ''--'' then (endOfLineComment clause index, False)
      else if HasPrefix rest ''/*'' then (endOfBlockComment clause index, False)
      else if hd rest = SQ \<or> hd rest = DQ then (endOfQuoted clause index (hd rest) False, False)
      else if hd rest = CHR ''$'' then (endOfDollarQuoted clause index, False)
      else (index + 1, False))"

definition isTokenSeparator :: "string \<Rightarrow> nat \<Rightarrow> bool" where
  "isTokenSeparator clause index \<longleftrightarrow>
     clause ! index \<in> set spaceBytes \<or> HasPrefix (drop index clause) ''--'' \<or> HasPrefix (drop index clause) ''/*''"

lemma endOfByteRun_ge: "start \<le> length str \<Longrightarrow> start \<le> endOfByteRun str start admits"
  by (induction str start admits rule: endOfByteRun.induct) (subst endOfByteRun.simps, auto)

lemma quoted_from_steps:
  "length clause \<le> at \<Longrightarrow> quoted_from clause at quote esc = length clause"
  "at < length clause \<Longrightarrow> esc \<Longrightarrow> clause ! at = BS \<Longrightarrow> quoted_from clause at quote esc = quoted_from clause (at + 2) quote esc"
  "at < length clause \<Longrightarrow> \<not> (esc \<and> clause ! at = BS) \<Longrightarrow> clause ! at \<noteq> quote \<Longrightarrow>
    quoted_from clause at quote esc = quoted_from clause (at + 1) quote esc"
  "at + 1 < length clause \<Longrightarrow> \<not> (esc \<and> clause ! at = BS) \<Longrightarrow> clause ! at = quote \<Longrightarrow> clause ! (at + 1) = quote \<Longrightarrow>
    quoted_from clause at quote esc = quoted_from clause (at + 2) quote esc"
  "at < length clause \<Longrightarrow> \<not> (esc \<and> clause ! at = BS) \<Longrightarrow> clause ! at = quote \<Longrightarrow>
    \<not> (at + 1 < length clause \<and> clause ! (at + 1) = quote) \<Longrightarrow>
    quoted_from clause at quote esc = (case continuationQuote clause (at + 1) quote of
      None \<Rightarrow> at + 1 | Some continuation \<Rightarrow> quoted_from clause (continuation + 1) quote esc)"
  subgoal by (subst quoted_from.simps) simp
  subgoal by (subst quoted_from.simps [of clause at quote esc]) auto
  subgoal by (subst quoted_from.simps [of clause at quote esc]) auto
  subgoal by (subst quoted_from.simps [of clause at quote esc]) auto
  subgoal by (subst quoted_from.simps [of clause at quote esc]) auto
  done

lemma quoted_from_ge: "min at (length clause) \<le> quoted_from clause at quote esc"
proof (induction clause at quote esc rule: quoted_from.induct)
  case (1 clause at quote esc)
  consider "length clause \<le> at" | "at < length clause" "esc \<and> clause ! at = BS"
    | "at < length clause" "\<not> (esc \<and> clause ! at = BS)" "clause ! at \<noteq> quote"
    | "at + 1 < length clause" "\<not> (esc \<and> clause ! at = BS)" "clause ! at = quote" "clause ! (at + 1) = quote"
    | "at < length clause" "\<not> (esc \<and> clause ! at = BS)" "clause ! at = quote"
      "\<not> (at + 1 < length clause \<and> clause ! (at + 1) = quote)"
    by fastforce
  then show ?case
  proof cases
    case 1 then show ?thesis by (simp add: quoted_from_steps(1))
  next
    case 2 then show ?thesis using "1.IH"(1) by (simp add: quoted_from_steps(2))
  next
    case 3 then show ?thesis using "1.IH"(2) quoted_from_steps(3) [OF 3] by simp
  next
    case 4 then show ?thesis using "1.IH"(3) quoted_from_steps(4) [OF 4] by simp
  next
    case 5
    show ?thesis
    proof (cases "continuationQuote clause (at + 1) quote")
      case (Some continuation)
      then have "at + 1 \<le> continuation" using continuationQuote_advances [OF _ Some] 5(1) by simp
      with Some 5 show ?thesis using "1.IH"(4) [of continuation] quoted_from_steps(5) [OF 5] by simp
    qed (use quoted_from_steps(5) [OF 5] in simp)
  qed
qed

lemma comment_from_ge: "min at (length clause) \<le> comment_from clause at depth"
proof (induction clause at depth rule: comment_from.induct)
  case (1 clause at depth)
  then show ?case by (subst comment_from.simps) auto
qed

lemma comment_from_open: "HasPrefix (drop index clause) ''/*'' \<Longrightarrow> index < comment_from clause index 0"
  using comment_from_ge [of "index + 2" clause 1]
  by (subst comment_from.simps) (auto simp: HasPrefix_iff dest: arg_cong [where f = length])

lemma endOfDollarQuoted_advances: "index < length clause \<Longrightarrow> index < endOfDollarQuoted clause index"
  by (auto simp: endOfDollarQuoted_def dollarQuoteDelimiter_def Let_def dest!: IndexAny_less split: option.splits if_splits)

lemma nextToken_advances:
  assumes "index < length clause"
  shows "index < fst (nextToken clause index)"
proof -
  have word: "index + 1 \<le> endOfByteRun clause (index + 1) isWordByte" using assms by (intro endOfByteRun_ge) simp
  have quoted: "at < endOfQuoted clause at quote esc" if "at < length clause" for at quote esc
    using quoted_from_ge [of "at + 1" clause quote esc] that by (simp add: endOfQuoted_def)
  show ?thesis
    using word quoted [of "endOfByteRun clause (index + 1) isWordByte" SQ True] quoted [OF assms] comment_from_open
      endOfLineComment_advances [OF assms] endOfDollarQuoted_advances [OF assms]
    by (auto simp: nextToken_def endOfWordOrEscapeString_def endOfBlockComment_def Let_def)
qed

function bare_word_from :: "string \<Rightarrow> string \<Rightarrow> nat \<Rightarrow> bool \<Rightarrow> nat option" where
  "bare_word_from clause word index afterFieldSelector =
     (if index < length clause then
        let (end, isWord) = nextToken clause index in
        if isWord \<and> \<not> afterFieldSelector \<and> EqualFold (take (end - index) (drop index clause)) word then Some index
        else bare_word_from clause word end
               (if \<not> isTokenSeparator clause index then clause ! index = CHR ''.'' else afterFieldSelector)
      else None)"
  by auto
termination
proof (relation "measure (\<lambda>(clause, word, index, _). length clause - index)")
  fix clause word :: string and index :: nat and after :: bool and x :: "nat \<times> bool" and stop :: nat and isWord :: bool
  assume "index < length clause" "x = nextToken clause index" "(stop, isWord) = x"
  then have "index < stop" using nextToken_advances by (metis fst_conv)
  with \<open>index < length clause\<close> show "((clause, word, stop,
      if \<not> isTokenSeparator clause index then clause ! index = CHR ''.'' else after), clause, word, index, after)
      \<in> measure (\<lambda>(clause, word, index, _). length clause - index)" by simp
qed simp

declare bare_word_from.simps [simp del]

definition firstBareWord :: "string \<Rightarrow> string \<Rightarrow> nat option" where
  "firstBareWord clause word = bare_word_from clause word 0 False"

record bareReference =
  br_Word :: string
  br_Statement :: string
  br_Start :: nat

definition whenRefusal :: "string \<Rightarrow> string \<times> string" where
  "whenRefusal operation =
     (if operation = ''insert'' then (''OLD'', ''INSERT'')
      else if operation = ''delete'' then (''NEW'', ''DELETE'') else ([], []))"

definition forbiddenWhenReference :: "string \<Rightarrow> string \<Rightarrow> bareReference option" where
  "forbiddenWhenReference operation clause =
     (let (variable, statement) = whenRefusal operation in
      if variable = [] then None
      else map_option (\<lambda>start. \<lparr>br_Word = variable, br_Statement = statement, br_Start = start\<rparr>)
             (firstBareWord clause variable))"

end
