(* ===== verification/When_Grammar.thy ===== *)
theory When_Grammar
  imports When_Lexer
begin

text \<open>
  The grammar of the lexemes a \<open>when\<close> clause is cut into, stated on the text of a lexeme and the text that follows
  it, from the productions of the server's \<open>scan.l\<close> that \<open>config/whenlex.go\<close> quotes, and the proof that the
  index-based scanner of the source reads exactly this grammar.
\<close>

section \<open>Lexemes\<close>

abbreviation newline :: "char \<Rightarrow> bool" where
  "newline c \<equiv> c \<in> set newlineBytes"

abbreviation space :: "char \<Rightarrow> bool" where
  "space c \<equiv> c \<in> set spaceBytes"

definition one_line :: "string \<Rightarrow> bool" where
  "one_line s \<longleftrightarrow> \<not> (\<exists>c \<in> set s. newline c)"

text \<open>\<open>special_whitespace*\<close> and \<open>whitespace_with_newline\<close>: what may stand between two spellings of one string.\<close>

inductive special_whitespace :: "string \<Rightarrow> bool" where
  none: "special_whitespace []"
| space: "space c \<Longrightarrow> special_whitespace g \<Longrightarrow> special_whitespace (c # g)"
| comment: "one_line body \<Longrightarrow> newline n \<Longrightarrow> special_whitespace g \<Longrightarrow> special_whitespace (''--'' @ body @ n # g)"

inductive whitespace_with_newline :: "string \<Rightarrow> bool" where
  newline: "newline n \<Longrightarrow> special_whitespace g \<Longrightarrow> whitespace_with_newline (n # g)"
| space: "space c \<Longrightarrow> \<not> newline c \<Longrightarrow> whitespace_with_newline g \<Longrightarrow> whitespace_with_newline (c # g)"
| comment: "one_line body \<Longrightarrow> whitespace_with_newline g \<Longrightarrow> whitespace_with_newline (''--'' @ body @ g)"

definition continued :: "char \<Rightarrow> string \<Rightarrow> bool" where
  "continued q rest \<longleftrightarrow> q = SQ \<and> (\<exists>g r. rest = g @ SQ # r \<and> whitespace_with_newline g)"

text \<open>What follows the opening quote: \<open>esc\<close> says whether a backslash escapes.\<close>

inductive quoted_tail :: "bool \<Rightarrow> char \<Rightarrow> string \<Rightarrow> string \<Rightarrow> bool" for esc q where
  unterminated: "quoted_tail esc q [] []"
| unterminated_escape: "esc \<Longrightarrow> quoted_tail esc q [BS] []"
| content: "c \<noteq> q \<Longrightarrow> \<not> (esc \<and> c = BS) \<Longrightarrow> quoted_tail esc q t rest \<Longrightarrow> quoted_tail esc q (c # t) rest"
| escape: "esc \<Longrightarrow> quoted_tail esc q t rest \<Longrightarrow> quoted_tail esc q (BS # c # t) rest"
| doubled: "quoted_tail esc q t rest \<Longrightarrow> quoted_tail esc q (q # q # t) rest"
| closed: "rest = [] \<or> hd rest \<noteq> q \<Longrightarrow> \<not> continued q rest \<Longrightarrow> quoted_tail esc q [q] rest"
| joined: "q = SQ \<Longrightarrow> whitespace_with_newline g \<Longrightarrow> quoted_tail esc q t rest \<Longrightarrow> quoted_tail esc q (q # g @ q # t) rest"

text \<open>What follows the opener of a block comment, with the number of comments still open.\<close>

inductive comment_tail :: "nat \<Rightarrow> string \<Rightarrow> string \<Rightarrow> bool" where
  unterminated: "comment_tail d [] []"
| opened: "comment_tail (Suc d) t rest \<Longrightarrow> comment_tail d (''/*'' @ t) rest"
| closed: "comment_tail 1 ''*/'' rest"
| inner: "0 < d \<Longrightarrow> comment_tail d t rest \<Longrightarrow> comment_tail (Suc d) (''*/'' @ t) rest"
| content: "\<not> HasPrefix (c # t @ rest) ''/*'' \<Longrightarrow> \<not> HasPrefix (c # t @ rest) ''*/'' \<Longrightarrow> comment_tail d t rest \<Longrightarrow>
    comment_tail d (c # t) rest"

definition delimiter :: "string \<Rightarrow> bool" where
  "delimiter d \<longleftrightarrow> (\<exists>tag. d = ''$'' @ tag @ ''$'' \<and> (tag \<noteq> [] \<longrightarrow> isWordStartByte (hd tag)) \<and> list_all isTagByte tag)"

datatype lexeme_kind = Bare_word | Separator | Selector | Token

definition escape_prefix :: "string \<Rightarrow> bool" where
  "escape_prefix w \<longleftrightarrow> w = ''E'' \<or> w = ''e''"

definition punctuation :: "string \<Rightarrow> bool" where
  "punctuation s \<longleftrightarrow> \<not> isWordStartByte (hd s) \<and> hd s \<noteq> SQ \<and> hd s \<noteq> DQ \<and> \<not> space (hd s) \<and>
     \<not> HasPrefix s ''--'' \<and> \<not> HasPrefix s ''/*'' \<and> \<not> (\<exists>d. delimiter d \<and> HasPrefix s d)"

inductive lexeme :: "lexeme_kind \<Rightarrow> string \<Rightarrow> string \<Rightarrow> bool" where
  word: "isWordStartByte c \<Longrightarrow> list_all isWordByte w \<Longrightarrow> rest = [] \<or> \<not> isWordByte (hd rest) \<Longrightarrow>
    \<not> (escape_prefix (c # w) \<and> HasPrefix rest [SQ]) \<Longrightarrow> lexeme Bare_word (c # w) rest"
| escape_string: "escape_prefix e \<Longrightarrow> quoted_tail True SQ t rest \<Longrightarrow> lexeme Token (e @ SQ # t) rest"
| quoted: "q = SQ \<or> q = DQ \<Longrightarrow> quoted_tail False q t rest \<Longrightarrow> lexeme Token (q # t) rest"
| line_comment: "one_line body \<Longrightarrow> newline n \<Longrightarrow> lexeme Separator (''--'' @ body @ [n]) rest"
| last_comment: "one_line body \<Longrightarrow> lexeme Separator (''--'' @ body) []"
| block_comment: "comment_tail 1 t rest \<Longrightarrow> lexeme Separator (''/*'' @ t) rest"
| dollar: "delimiter d \<Longrightarrow> \<not> Contains (butlast (body @ d)) d \<Longrightarrow> lexeme Token (d @ body @ d) rest"
| dollar_unterminated: "delimiter d \<Longrightarrow> \<not> Contains body d \<Longrightarrow> lexeme Token (d @ body) []"
| blank: "space c \<Longrightarrow> lexeme Separator [c] rest"
| selector: "lexeme Selector ''.'' rest"
| punctuation: "punctuation (c # rest) \<Longrightarrow> c \<noteq> CHR ''.'' \<Longrightarrow> lexeme Token [c] rest"

text \<open>A clause as the sequence of its lexemes, and the first word that is read as a row variable.\<close>

inductive lexes :: "string \<Rightarrow> (lexeme_kind \<times> string) list \<Rightarrow> bool" where
  finished: "lexes [] []"
| next_lexeme: "lexeme k t rest \<Longrightarrow> lexes rest ls \<Longrightarrow> lexes (t @ rest) ((k, t) # ls)"

fun first_row_variable :: "string \<Rightarrow> bool \<Rightarrow> nat \<Rightarrow> (lexeme_kind \<times> string) list \<Rightarrow> nat option" where
  "first_row_variable word selected at [] = None"
| "first_row_variable word selected at ((k, t) # ls) =
     (if k = Bare_word \<and> \<not> selected \<and> EqualFold t word then Some at
      else first_row_variable word (if k = Separator then selected else k = Selector) (at + length t) ls)"

section \<open>Positions\<close>

lemma at_front [simp]: "hd (c # s) = c" "(pre @ c # s) ! length pre = c" "drop (length pre) (pre @ s) = s"
  by simp_all

lemma endOfByteRun_run:
  assumes "list_all p w" "rest = [] \<or> \<not> p (hd rest)"
  shows "endOfByteRun (pre @ w @ rest) (length pre) p = length pre + length w"
  using assms(1)
proof (induction w arbitrary: pre)
  case Nil
  then show ?case using assms(2) by (cases rest) (simp_all add: endOfByteRun.simps)
next
  case (Cons c w)
  have "endOfByteRun (pre @ (c # w) @ rest) (length pre) p = endOfByteRun (pre @ (c # w) @ rest) (length pre + 1) p"
    using Cons.prems by (subst endOfByteRun.simps) simp
  with Cons.IH [of "pre @ [c]"] Cons.prems show ?case by simp
qed

lemma IndexAny_first:
  "\<not> (\<exists>c \<in> set a. c \<in> set cs) \<Longrightarrow> n \<in> set cs \<Longrightarrow> IndexAny (a @ n # b) cs = Some (length a)"
  by (induction a) auto

lemma IndexAny_None: "IndexAny s cs = None \<longleftrightarrow> \<not> (\<exists>c \<in> set s. c \<in> set cs)"
  by (induction s) auto

lemma IndexAny_Some:
  "IndexAny s cs = Some n \<Longrightarrow> \<exists>a c b. s = a @ c # b \<and> length a = n \<and> c \<in> set cs \<and> \<not> (\<exists>x \<in> set a. x \<in> set cs)"
proof (induction s arbitrary: n)
  case (Cons x s)
  show ?case
  proof (cases "x \<in> set cs")
    case True
    with Cons.prems show ?thesis by (intro exI [of _ "[]"]) auto
  next
    case False
    with Cons.prems obtain m where m: "IndexAny s cs = Some m" "n = Suc m" by auto
    from Cons.IH [OF m(1)] obtain a c b where "s = a @ c # b" "length a = m" "c \<in> set cs" "\<not> (\<exists>x \<in> set a. x \<in> set cs)" by auto
    with False m(2) show ?thesis by (intro exI [of _ "x # a"]) auto
  qed
qed simp

lemma endOfLineComment_newline:
  assumes "one_line body" "newline n"
  shows "endOfLineComment (pre @ ''--'' @ body @ n # rest) (length pre) = length pre + length body + 3"
proof -
  have "IndexAny (''--'' @ body @ n # rest) newlineBytes = Some (length (''--'' @ body))"
    using assms by (subst append_assoc [symmetric], intro IndexAny_first) (auto simp: one_line_def newlineBytes_def)
  then show ?thesis by (simp add: endOfLineComment_def)
qed

lemma endOfLineComment_last: "one_line body \<Longrightarrow> endOfLineComment (pre @ ''--'' @ body) (length pre) = length pre + length body + 2"
proof -
  assume "one_line body"
  then have "IndexAny (''--'' @ body) newlineBytes = None"
    unfolding IndexAny_None by (auto simp: one_line_def newlineBytes_def)
  then show ?thesis by (simp add: endOfLineComment_def)
qed

section \<open>The gap between two spellings\<close>

lemma spaces_not_special: "\<not> space SQ" "\<not> space (CHR ''-'')" "newline c \<Longrightarrow> space c" "newline c \<Longrightarrow> c \<noteq> CHR ''-''"
  by (auto simp: spaceBytes_def newlineBytes_def SQ_def)

definition skip_blank :: "string \<Rightarrow> string" where
  "skip_blank s = skip_gap (TrimLeft s spaceBytes)"

lemma skip_blank_space [simp]: "space c \<Longrightarrow> skip_blank (c # s) = skip_blank s"
  by (simp add: skip_blank_def TrimLeft_def)

lemma skip_blank_stop: "\<not> space c \<Longrightarrow> \<not> HasPrefix (c # s) ''--'' \<Longrightarrow> skip_blank (c # s) = c # s"
  by (simp add: skip_blank_def TrimLeft_def skip_gap.simps [of "c # s"])

lemma skip_blank_comment:
  assumes "one_line body" "newline n"
  shows "skip_blank (''--'' @ body @ n # s) = skip_blank s"
proof -
  have "TrimLeft (''--'' @ body @ n # s) spaceBytes = ''--'' @ body @ n # s" by (simp add: TrimLeft_def spaces_not_special)
  moreover have "endOfLineComment (''--'' @ body @ n # s) 0 = length body + 3"
    using endOfLineComment_newline [OF assms, of "[]" s] by simp
  moreover have "drop (length body + 3) (''--'' @ body @ n # s) = s" by (simp add: eval_nat_numeral)
  ultimately show ?thesis
    unfolding skip_blank_def by (subst skip_gap.simps) (simp add: HasPrefix_def)
qed

lemma skip_special: "special_whitespace g \<Longrightarrow> skip_blank (g @ s) = skip_blank s"
proof (induction rule: special_whitespace.induct)
  case (comment body n g)
  then show ?case using skip_blank_comment [of body n "g @ s"] by simp
qed simp_all

lemma gap_shape:
  "whitespace_with_newline g \<Longrightarrow> \<exists>a n b. g = a @ n # b \<and> one_line a \<and> newline n \<and> special_whitespace b"
proof (induction rule: whitespace_with_newline.induct)
  case (newline n g)
  then show ?case by (intro exI [of _ "[]"]) (auto simp: one_line_def)
next
  case (space c g)
  then obtain a n b where "g = a @ n # b" "one_line a" "newline n" "special_whitespace b" by blast
  with space show ?case by (intro exI [of _ "c # a"] exI [of _ n] exI [of _ b]) (auto simp: one_line_def)
next
  case (comment body g)
  then obtain a n b where "g = a @ n # b" "one_line a" "newline n" "special_whitespace b" by blast
  moreover have "one_line (''--'' @ body @ a)"
    using comment.hyps(1) \<open>one_line a\<close> spaces_not_special(4) unfolding one_line_def by fastforce
  ultimately show ?case by (intro exI [of _ "''--'' @ body @ a"] exI [of _ n] exI [of _ b]) simp
qed

lemma gap_newline: "whitespace_with_newline g \<Longrightarrow> ContainsAny g newlineBytes"
  by (auto simp: ContainsAny_def dest!: gap_shape)

lemma skip_whitespace: "whitespace_with_newline g \<Longrightarrow> skip_blank (g @ s) = skip_blank s"
proof (induction rule: whitespace_with_newline.induct)
  case (newline n g)
  then show ?case using spaces_not_special(3) skip_special by simp
next
  case (comment body g)
  from gap_shape [OF comment.hyps(2)] obtain a n b where
    g: "g = a @ n # b" "one_line a" "newline n" "special_whitespace b" by blast
  have "skip_blank (''--'' @ (body @ a) @ n # b @ s) = skip_blank (b @ s)"
    using comment.hyps(1) g by (intro skip_blank_comment) (auto simp: one_line_def)
  with g show ?case using skip_special by simp
qed simp

lemma special_gap: "special_whitespace g \<Longrightarrow> ContainsAny g newlineBytes \<Longrightarrow> whitespace_with_newline g"
proof (induction rule: special_whitespace.induct)
  case (space c g)
  show ?case
  proof (cases "newline c")
    case True
    then show ?thesis using space.hyps(2) by (rule whitespace_with_newline.newline)
  next
    case False
    with space show ?thesis by (auto simp: ContainsAny_def intro: whitespace_with_newline.space)
  qed
next
  case (comment body n g)
  then show ?case using whitespace_with_newline.comment [OF _ whitespace_with_newline.newline] by blast
qed (simp add: ContainsAny_def)

text \<open>What is skipped is exactly such a run, unless a comment reaches the end of the clause.\<close>

lemma skip_gap_run:
  "skip_gap s \<noteq> [] \<Longrightarrow> \<exists>g. s = g @ skip_gap s \<and> special_whitespace g"
proof (induction s rule: skip_gap.induct)
  case (1 s)
  show ?case
  proof (cases "HasPrefix s ''--''")
    case False
    then have "skip_gap s = s" by (subst skip_gap.simps) simp
    then show ?thesis by (auto intro: special_whitespace.none)
  next
    case True
    let ?next = "TrimLeft (drop (endOfLineComment s 0) s) spaceBytes"
    have eq: "skip_gap s = skip_gap ?next" using True by (subst skip_gap.simps) simp
    from True obtain u where u: "s = ''--'' @ u" by (auto simp: HasPrefix_iff)
    show ?thesis
    proof (cases "IndexAny s newlineBytes")
      case None
      then have "?next = []" by (simp add: endOfLineComment_def TrimLeft_def)
      then have "skip_gap s = []" unfolding eq by (simp add: skip_gap.simps HasPrefix_def)
      with "1.prems" show ?thesis by simp
    next
      case (Some n)
      from IndexAny_Some [OF Some] obtain a c b where
        a: "s = a @ c # b" "length a = n" "newline c" "one_line a" by (auto simp: one_line_def)
      have "HasPrefix a ''--''"
        using u a spaces_not_special(4) [OF a(3)]
        by (cases a; cases "tl a") (auto simp: HasPrefix_def)
      then obtain body where body: "a = ''--'' @ body" by (auto simp: HasPrefix_iff)
      have nxt: "?next = dropWhile space b" using Some a by (simp add: endOfLineComment_def TrimLeft_def)
      have "\<exists>g. ?next = g @ skip_gap ?next \<and> special_whitespace g" using "1.IH" [OF True] "1.prems" eq by simp
      then obtain g where g: "?next = g @ skip_gap s" "special_whitespace g" unfolding eq by blast
      have "special_whitespace (takeWhile space b @ g)"
        using g(2) by (induction b) (auto intro: special_whitespace.space)
      then have "special_whitespace (''--'' @ body @ c # takeWhile space b @ g)"
        using a body by (intro special_whitespace.comment) (auto simp: one_line_def)
      moreover have "b = takeWhile space b @ g @ skip_gap s" using g(1) nxt by (metis takeWhile_dropWhile_id)
      ultimately show ?thesis
        using a(1) body by (intro exI [of _ "''--'' @ body @ c # takeWhile space b @ g"]) simp
    qed
  qed
qed

lemma skip_blank_run:
  assumes "skip_blank s \<noteq> []"
  shows "\<exists>g. s = g @ skip_blank s \<and> special_whitespace g"
proof -
  from skip_gap_run [of "TrimLeft s spaceBytes"] assms obtain g where
    g: "dropWhile space s = g @ skip_blank s" "special_whitespace g"
    by (auto simp: skip_blank_def TrimLeft_def)
  have "special_whitespace (takeWhile space s @ g)"
    using g(2) by (induction s) (auto intro: special_whitespace.space)
  with g(1) show ?thesis by (metis append_assoc takeWhile_dropWhile_id)
qed

lemma continuationQuote_skip:
  "continuationQuote (pre @ s) (length pre) q =
     (if q \<noteq> SQ then None
      else let gap = skip_blank s; g = take (length s - length gap) s in
           if \<not> ContainsAny g newlineBytes \<or> gap = [] \<or> hd gap \<noteq> q then None else Some (length pre + length g))"
proof -
  have "suffix (skip_blank s) s"
    unfolding skip_blank_def using skip_gap_suffix TrimLeft_suffix suffix_order.trans by blast
  then have le: "length (skip_blank s) \<le> length s" by (rule suffix_length_le)
  then show ?thesis by (auto simp: continuationQuote_def Let_def skip_blank_def)
qed

lemma continuationQuote_joined:
  assumes "whitespace_with_newline g"
  shows "continuationQuote (pre @ g @ SQ # r) (length pre) SQ = Some (length pre + length g)"
proof -
  have "skip_blank (g @ SQ # r) = SQ # r"
    unfolding skip_whitespace [OF assms] by (rule skip_blank_stop) (simp_all add: spaces_not_special HasPrefix_def, simp add: SQ_def)
  with gap_newline [OF assms] show ?thesis by (simp add: continuationQuote_skip)
qed

lemma continuationQuote_closed:
  assumes "\<not> continued q s"
  shows "continuationQuote (pre @ s) (length pre) q = None"
proof (rule ccontr)
  let ?g = "take (length s - length (skip_blank s)) s"
  assume "continuationQuote (pre @ s) (length pre) q \<noteq> None"
  then have some: "q = SQ" "ContainsAny ?g newlineBytes" "skip_blank s \<noteq> []" "hd (skip_blank s) = SQ"
    by (auto simp: continuationQuote_skip Let_def split: if_splits)
  from skip_blank_run [OF some(3)] obtain g where g: "s = g @ skip_blank s" "special_whitespace g" by blast
  then have "?g = g" by (metis add_diff_cancel_right' append_eq_conv_conj length_append)
  with some g have "whitespace_with_newline g" using special_gap by simp
  moreover have "s = g @ SQ # tl (skip_blank s)" using g(1) some(3,4) by (metis list.collapse)
  ultimately show False using assms some(1) by (auto simp: continued_def)
qed

section \<open>Quoted constructs\<close>

lemma continued_cons: "\<not> continued q (q # s)"
proof
  assume "continued q (q # s)"
  then obtain g r where g: "q = SQ" "q # s = g @ SQ # r" "whitespace_with_newline g" by (auto simp: continued_def)
  from g(3) g(1,2) show False
    by (cases rule: whitespace_with_newline.cases) (auto simp: newlineBytes_def spaceBytes_def SQ_def)
qed

lemma quoted_from_tail:
  assumes "quoted_tail esc q t rest" "q \<noteq> BS"
  shows "quoted_from (pre @ t @ rest) (length pre) q esc = length pre + length t"
  using assms
proof (induction arbitrary: pre rule: quoted_tail.induct)
  case unterminated
  show ?case by (simp add: quoted_from_steps(1))
next
  case unterminated_escape
  then show ?case using quoted_from_steps(2) [of "length pre" "pre @ [BS]" esc q] by (simp add: quoted_from_steps(1))
next
  case (content c t rest)
  then show ?case
    using quoted_from_steps(3) [of "length pre" "pre @ c # t @ rest" esc q] content.IH [of "pre @ [c]"] by simp
next
  case (escape t rest c)
  then show ?case
    using quoted_from_steps(2) [of "length pre" "pre @ BS # c # t @ rest" esc q] escape.IH [of "pre @ [BS, c]"] by simp
next
  case (doubled t rest)
  have "(pre @ q # q # t @ rest) ! (length pre + 1) = q" by (simp add: nth_append)
  then show ?case
    using quoted_from_steps(4) [of "length pre" "pre @ q # q # t @ rest" esc q] doubled.IH [of "pre @ [q, q]"] doubled.prems
    by simp
next
  case (closed rest)
  have "\<not> (length pre + 1 < length (pre @ q # rest) \<and> (pre @ q # rest) ! (length pre + 1) = q)"
    using closed.hyps(1) by (cases rest) (auto simp: nth_append)
  moreover have "continuationQuote (pre @ q # rest) (length pre + 1) q = None"
    using continuationQuote_closed [OF closed.hyps(2), of "pre @ [q]"] by simp
  ultimately show ?case
    using quoted_from_steps(5) [of "length pre" "pre @ q # rest" esc q] closed.prems by simp
next
  case (joined g t rest)
  let ?all = "pre @ q # g @ q # t @ rest"
  have "g \<noteq> []" "hd g \<noteq> SQ"
    using joined.hyps(2) by (cases rule: whitespace_with_newline.cases; auto simp: newlineBytes_def spaceBytes_def SQ_def)+
  then have "\<not> (length pre + 1 < length ?all \<and> ?all ! (length pre + 1) = q)"
    using joined.hyps(1) by (cases g) (auto simp: nth_append)
  moreover have "continuationQuote ?all (length pre + 1) q = Some (length pre + 1 + length g)"
    using continuationQuote_joined [OF joined.hyps(2), of "pre @ [q]" "t @ rest"] joined.hyps(1) by simp
  moreover have "quoted_from ?all (length pre + 1 + length g + 1) q esc = length pre + length g + 2 + length t"
    using joined.IH [of "pre @ q # g @ [q]"] joined.prems by (simp add: algebra_simps)
  ultimately show ?case
    using quoted_from_steps(5) [of "length pre" ?all esc q] joined.prems by simp
qed

text \<open>Every text after an opening quote is such a tail.\<close>

lemma quoted_tail_total: "\<exists>t rest. s = t @ rest \<and> quoted_tail esc q t rest"
proof (induction s rule: length_induct)
  case (1 s)
  note IH = "1.IH" [rule_format]
  show ?case
  proof (cases s)
    case Nil
    then show ?thesis using quoted_tail.unterminated by blast
  next
    case (Cons c u)
    consider "esc \<and> c = BS" | "\<not> (esc \<and> c = BS)" "c \<noteq> q" | "\<not> (esc \<and> c = BS)" "c = q" by blast
    then show ?thesis
    proof cases
      case 1
      show ?thesis
      proof (cases u)
        case Nil
        with 1 Cons show ?thesis using quoted_tail.unterminated_escape [of esc q] by (intro exI [of _ "[BS]"] exI [of _ "[]"]) auto
      next
        case (Cons d v)
        with IH [of v] \<open>s = c # u\<close> obtain t rest where "v = t @ rest" "quoted_tail esc q t rest" by auto
        with Cons \<open>s = c # u\<close> 1 show ?thesis
          using quoted_tail.escape [of esc q t rest d] by (intro exI [of _ "BS # d # t"] exI [of _ rest]) auto
      qed
    next
      case 2
      from IH [of u] Cons obtain t rest where "u = t @ rest" "quoted_tail esc q t rest" by auto
      with 2 Cons show ?thesis using quoted_tail.content [of c q esc t rest] by (intro exI [of _ "c # t"] exI [of _ rest]) auto
    next
      case 3
      consider v where "u = q # v" | g r where "q = SQ" "u = g @ SQ # r" "whitespace_with_newline g"
        | "u = [] \<or> hd u \<noteq> q" "\<not> continued q u"
        by (cases u) (auto simp: continued_def)
      then show ?thesis
      proof cases
        case (1 v)
        with IH [of v] Cons obtain t rest where "v = t @ rest" "quoted_tail esc q t rest" by auto
        with 1 3 Cons show ?thesis using quoted_tail.doubled [of esc q t rest] by (intro exI [of _ "q # q # t"] exI [of _ rest]) auto
      next
        case (2 g r)
        with IH [of r] Cons obtain t rest where "r = t @ rest" "quoted_tail esc q t rest" by auto
        with 2 3 Cons show ?thesis
          using quoted_tail.joined [of q g esc t rest] by (intro exI [of _ "q # g @ q # t"] exI [of _ rest]) auto
      next
        case 3
        with \<open>c = q\<close> Cons show ?thesis using quoted_tail.closed [of u q esc] by (intro exI [of _ "[q]"] exI [of _ u]) auto
      qed
    qed
  qed
qed

section \<open>Block comments\<close>

lemma comment_from_tail:
  assumes "comment_tail d t rest" "0 < d"
  shows "comment_from (pre @ t @ rest) (length pre) (int d) = length pre + length t"
  using assms
proof (induction arbitrary: pre rule: comment_tail.induct)
  case (unterminated d)
  show ?case by (simp add: comment_from.simps)
next
  case (opened d t rest)
  then show ?case
    using opened.IH [of "pre @ ''/*''"] comment_from.simps [of "pre @ ''/*'' @ t @ rest" "length pre" "int d"]
    by (simp add: HasPrefix_def algebra_simps)
next
  case (closed rest)
  show ?case by (simp add: comment_from.simps [of _ "length pre"] HasPrefix_def)
next
  case (inner d t rest)
  then show ?case
    using inner.IH [of "pre @ ''*/''"] comment_from.simps [of "pre @ ''*/'' @ t @ rest" "length pre" "int (Suc d)"]
    by (simp add: HasPrefix_def algebra_simps)
next
  case (content c t rest d)
  then show ?case
    using content.IH [of "pre @ [c]"] comment_from.simps [of "pre @ c # t @ rest" "length pre" "int d"] by simp
qed

lemma comment_tail_total: "0 < d \<Longrightarrow> \<exists>t rest. s = t @ rest \<and> comment_tail d t rest"
proof (induction s arbitrary: d rule: length_induct)
  case (1 s)
  note IH = "1.IH" [rule_format]
  consider "s = []" | u where "s = ''/*'' @ u" | u where "s = ''*/'' @ u"
    | c u where "s = c # u" "\<not> HasPrefix s ''/*''" "\<not> HasPrefix s ''*/''"
    by (cases s) (auto simp: HasPrefix_iff)
  then show ?case
  proof cases
    case 1
    then show ?thesis using comment_tail.unterminated by blast
  next
    case (2 u)
    with IH [of u "Suc d"] obtain t rest where "u = t @ rest" "comment_tail (Suc d) t rest" by auto
    with 2 show ?thesis using comment_tail.opened [of d t rest] by (intro exI [of _ "''/*'' @ t"] exI [of _ rest]) auto
  next
    case (3 u)
    show ?thesis
    proof (cases "d = 1")
      case True
      with 3 show ?thesis using comment_tail.closed [of u] by (intro exI [of _ "''*/''"] exI [of _ u]) auto
    next
      case False
      with "1.prems" obtain e where e: "d = Suc e" "0 < e" by (cases d) auto
      with 3 IH [of u e] obtain t rest where "u = t @ rest" "comment_tail e t rest" by auto
      with 3 e show ?thesis using comment_tail.inner [of e t rest] by (intro exI [of _ "''*/'' @ t"] exI [of _ rest]) auto
    qed
  next
    case (4 c u)
    with IH [of u d] "1.prems" obtain t rest where "u = t @ rest" "comment_tail d t rest" by auto
    with 4 show ?thesis using comment_tail.content [of c t rest d] by (intro exI [of _ "c # t"] exI [of _ rest]) auto
  qed
qed

section \<open>Dollar-quoted literals\<close>

lemma IndexOf_first:
  assumes "\<not> Contains (butlast (body @ d)) d" "d \<noteq> []"
  shows "IndexOf (body @ d @ rest) d = Some (length body)"
  using assms(1)
proof (induction body)
  case Nil
  have "HasPrefix (d @ rest) d" by simp
  then show ?case by (subst IndexOf.simps) simp
next
  case (Cons c body)
  have "\<not> HasPrefix (c # body @ d @ rest) d"
  proof
    assume "HasPrefix (c # body @ d @ rest) d"
    then obtain u where u: "c # body @ d @ rest = d @ u" by (auto simp: HasPrefix_iff)
    have "butlast (c # body @ d) = take (length body + length d) (c # body @ d @ rest)"
      using assms(2) by (simp add: butlast_conv_take take_Cons')
    then have "butlast (c # body @ d) = d @ take (length body) u" unfolding u by simp
    with Cons.prems show False by (metis Contains_iff append_Cons append_Nil)
  qed
  moreover have "\<not> Contains (butlast (body @ d)) d"
  proof
    assume "Contains (butlast (body @ d)) d"
    then obtain a b where "butlast (body @ d) = a @ d @ b" by (auto simp: Contains_iff)
    then have "butlast ((c # body) @ d) = (c # a) @ d @ b" using assms(2) by simp
    with Cons.prems show False by (metis Contains_iff)
  qed
  ultimately show ?case using Cons.IH by (subst IndexOf.simps) simp
qed

lemma IndexOf_None: "\<not> Contains s d \<Longrightarrow> IndexOf s d = None"
proof (induction s)
  case Nil
  then show ?case by (subst IndexOf.simps) (auto simp: Contains_iff HasPrefix_iff)
next
  case (Cons c s)
  have "\<not> Contains s d" using Cons.prems by (metis Contains_iff append_Cons)
  moreover have "\<not> HasPrefix (c # s) d" using Cons.prems by (metis Contains_iff HasPrefix_iff append_Nil)
  ultimately show ?case using Cons.IH by (subst IndexOf.simps) simp
qed

lemma IndexOf_Some:
  assumes "IndexOf s d = Some n" "d \<noteq> []"
  shows "\<exists>body rest. s = body @ d @ rest \<and> \<not> Contains (butlast (body @ d)) d"
  using assms(1)
proof (induction s arbitrary: n)
  case Nil
  then show ?case using assms(2) by (auto simp: IndexOf.simps HasPrefix_iff split: if_splits)
next
  case (Cons c s)
  show ?case
  proof (cases "HasPrefix (c # s) d")
    case True
    then obtain rest where "c # s = [] @ d @ rest" by (auto simp: HasPrefix_iff)
    moreover have "\<not> Contains (butlast ([] @ d)) d"
    proof
      assume "Contains (butlast ([] @ d)) d"
      then obtain x y where "butlast d = x @ d @ y" by (auto simp: Contains_iff)
      then have "length d - 1 = length x + length d + length y" by (metis add.assoc length_append length_butlast)
      with assms(2) show False by (cases d) simp_all
    qed
    ultimately show ?thesis by blast
  next
    case False
    with Cons.prems obtain m where "IndexOf s d = Some m" by (subst (asm) IndexOf.simps) auto
    from Cons.IH [OF this] obtain body rest where
      b: "s = body @ d @ rest" "\<not> Contains (butlast (body @ d)) d" by blast
    have "\<not> Contains (butlast ((c # body) @ d)) d"
    proof
      assume "Contains (butlast ((c # body) @ d)) d"
      then obtain x y where xy: "c # butlast (body @ d) = x @ d @ y" using assms(2) by (auto simp: Contains_iff)
      show False
      proof (cases x)
        case Nil
        have "c # s = c # butlast (body @ d) @ last d # rest" using b(1) assms(2) by (simp add: butlast_append)
        with xy Nil have "c # s = d @ y @ last d # rest" by simp
        with False show False by (metis HasPrefix_iff)
      next
        case (Cons z x')
        with xy have "butlast (body @ d) = x' @ d @ y" by simp
        with b(2) show False by (metis Contains_iff)
      qed
    qed
    with b(1) show ?thesis by (intro exI [of _ "c # body"] exI [of _ rest]) simp
  qed
qed

lemma tag_bytes: "isTagByte c \<Longrightarrow> c \<noteq> CHR ''$''" "isWordStartByte c \<Longrightarrow> isTagByte c"
  by (auto simp: isTagByte_def isWordStartByte_def is_digit_def)

lemma isDollarQuoteTag_iff: "tag \<noteq> [] \<Longrightarrow> isDollarQuoteTag tag \<longleftrightarrow> isWordStartByte (hd tag) \<and> list_all isTagByte tag"
proof -
  assume "tag \<noteq> []"
  then obtain c u where tag: "tag = c # u" by (cases tag) auto
  let ?run = "takeWhile isTagByte u"
  have "dropWhile isTagByte u = [] \<or> \<not> isTagByte (hd (dropWhile isTagByte u))" by (meson hd_dropWhile)
  then have "endOfByteRun ([c] @ ?run @ dropWhile isTagByte u) (length [c]) isTagByte = length [c] + length ?run"
    by (intro endOfByteRun_run) (auto simp: list_all_iff dest: set_takeWhileD)
  then have "endOfByteRun tag 1 isTagByte = Suc (length ?run)" by (simp add: tag)
  moreover have "length ?run = length u \<longleftrightarrow> list_all isTagByte u"
    by (metis list_all_iff order_refl set_takeWhileD takeWhile_eq_all_conv takeWhile_eq_take take_all_iff)
  ultimately show ?thesis using tag_bytes(2) by (auto simp: isDollarQuoteTag_def tag)
qed

lemma dollarQuoteDelimiter_opens:
  assumes "delimiter d"
  shows "dollarQuoteDelimiter (pre @ d @ s) (length pre) = Some d"
proof -
  from assms obtain tag where d: "d = ''$'' @ tag @ ''$''" "tag \<noteq> [] \<longrightarrow> isWordStartByte (hd tag)" "list_all isTagByte tag"
    by (auto simp: delimiter_def)
  have "IndexAny (tag @ CHR ''$'' # s) ''$'' = Some (length tag)"
    using d(3) tag_bytes(1) by (intro IndexAny_first) (auto simp: list_all_iff)
  moreover have "\<not> (tag \<noteq> [] \<and> \<not> isDollarQuoteTag tag)" using d(2,3) isDollarQuoteTag_iff by blast
  ultimately show ?thesis by (simp add: dollarQuoteDelimiter_def d(1) Let_def)
qed

lemma dollarQuoteDelimiter_Some:
  assumes "dollarQuoteDelimiter (pre @ CHR ''$'' # s) (length pre) = Some d"
  shows "delimiter d \<and> HasPrefix (CHR ''$'' # s) d"
proof -
  from assms obtain n where n: "IndexAny s ''$'' = Some n"
    and ok: "take n s \<noteq> [] \<longrightarrow> isDollarQuoteTag (take n s)" and d: "d = take (n + 2) (CHR ''$'' # s)"
    by (auto simp: dollarQuoteDelimiter_def Let_def split: option.splits if_splits)
  from IndexAny_Some [OF n] obtain a b where a: "s = a @ CHR ''$'' # b" "length a = n" by auto
  have "d = ''$'' @ a @ ''$''" using d a by simp
  moreover have "a \<noteq> [] \<longrightarrow> isWordStartByte (hd a) \<and> list_all isTagByte a" using ok a isDollarQuoteTag_iff by auto
  moreover have "HasPrefix (CHR ''$'' # s) d" using a calculation(1) by (simp add: HasPrefix_iff)
  ultimately show ?thesis unfolding delimiter_def by (intro conjI exI [of _ a]) auto
qed

lemma delimiter_head: "delimiter d \<Longrightarrow> \<exists>u. d = CHR ''$'' # u"
  by (auto simp: delimiter_def)

section \<open>One token\<close>

lemma not_word_start [simp]:
  "\<not> isWordStartByte (CHR ''-'')" "\<not> isWordStartByte (CHR ''/'')" "\<not> isWordStartByte SQ" "\<not> isWordStartByte DQ"
  "\<not> isWordStartByte (CHR ''$'')" "\<not> isWordStartByte (CHR ''.'')"
  by (simp_all add: isWordStartByte_def SQ_def DQ_def)

lemma space_cases: "space c \<Longrightarrow> \<not> isWordStartByte c \<and> c \<noteq> SQ \<and> c \<noteq> DQ \<and> c \<noteq> CHR ''$'' \<and> c \<noteq> CHR ''-'' \<and> c \<noteq> CHR ''/'' \<and> c \<noteq> CHR ''.''"
  by (auto simp: spaceBytes_def isWordStartByte_def SQ_def DQ_def)

lemma quotes_distinct [simp]:
  "SQ \<noteq> BS" "DQ \<noteq> BS" "SQ \<noteq> DQ" "SQ \<noteq> CHR ''$''" "DQ \<noteq> CHR ''$''" "SQ \<noteq> CHR ''-''" "DQ \<noteq> CHR ''-''" "SQ \<noteq> CHR ''/''"
  "DQ \<noteq> CHR ''/''" "SQ \<noteq> CHR ''.''" "DQ \<noteq> CHR ''.''" "\<not> space SQ" "\<not> space DQ"
  by (auto simp: SQ_def DQ_def BS_def spaceBytes_def)

lemma marks_not_space [simp]: "\<not> space (CHR ''-'')" "\<not> space (CHR ''/'')" "\<not> space (CHR ''$'')" "\<not> space (CHR ''.'')"
  by (simp_all add: spaceBytes_def)

lemma word_start_marks: "isWordStartByte c \<Longrightarrow> c \<noteq> CHR ''-'' \<and> c \<noteq> CHR ''/'' \<and> c \<noteq> CHR ''.'' \<and> \<not> space c"
  using space_cases not_word_start by auto

lemma HasPrefix_Cons2 [simp]: "HasPrefix (a # b # s) [x, y] \<longleftrightarrow> a = x \<and> b = y" "\<not> HasPrefix [a] [x, y]" "\<not> HasPrefix [] [x, y]"
  "HasPrefix (a # s) [x] \<longleftrightarrow> a = x"
  by (auto simp: HasPrefix_def)

lemma HasPrefix_head: "a \<noteq> x \<Longrightarrow> \<not> HasPrefix (a # s) (x # p)"
  by (simp add: HasPrefix_def)

lemma fold_E: "lower_ascii (CHR ''E'') = CHR ''e''" "lower_ascii (CHR ''e'') = CHR ''e''"
  by code_simp+

lemma escape_prefix_iff: "EqualFold w ''E'' \<longleftrightarrow> escape_prefix w"
proof
  assume "EqualFold w ''E''"
  then obtain c where w: "w = [c]" "lower_ascii c = lower_ascii (CHR ''E'')" by (auto simp: EqualFold_def Cons_eq_map_conv)
  have "c = CHR ''E'' \<or> c = CHR ''e''"
  proof (cases "65 \<le> (of_char c :: nat) \<and> (of_char c :: nat) \<le> 90")
    case True
    with arg_cong [OF w(2), of "of_char :: char \<Rightarrow> nat"] have "(of_char c :: nat) = 69" by (simp add: lower_ascii_def)
    then have "(of_char c :: nat) = of_char (CHR ''E'')" by simp
    then show ?thesis by (metis of_char_eq_iff)
  next
    case False
    with arg_cong [OF w(2), of "of_char :: char \<Rightarrow> nat"] have "(of_char c :: nat) = of_char (CHR ''e'')"
      by (simp add: lower_ascii_def split: if_splits)
    then show ?thesis by (metis of_char_eq_iff)
  qed
  then show "escape_prefix w" using w by (auto simp: escape_prefix_def)
qed (auto simp: escape_prefix_def EqualFold_def fold_E)


lemma nextToken_lexeme:
  assumes "lexeme k t rest"
  shows "nextToken (pre @ t @ rest) (length pre) = (length pre + length t, k = Bare_word)"
  using assms
proof (cases rule: lexeme.cases)
  case (word c w)
  have run: "endOfByteRun (pre @ c # w @ rest) (length pre + 1) isWordByte = length pre + 1 + length w"
    using endOfByteRun_run [OF word(4,5), of "pre @ [c]"] by simp
  have "(pre @ c # w @ rest) ! (length pre + 1 + length w) = hd rest" if "rest \<noteq> []"
    using that by (cases rest) (simp_all add: nth_append)
  then have "\<not> (length pre + 1 + length w < length (pre @ c # w @ rest) \<and>
      (pre @ c # w @ rest) ! (length pre + 1 + length w) = SQ \<and> escape_prefix (c # w))"
    using word(6) by (cases rest) auto
  moreover have "take (length pre + 1 + length w - length pre) (drop (length pre) (pre @ c # w @ rest)) = c # w" by simp
  ultimately have "endOfWordOrEscapeString (pre @ c # w @ rest) (length pre) = (length pre + 1 + length w, True)"
    unfolding endOfWordOrEscapeString_def Let_def run escape_prefix_iff by presburger
  with word(1,2,3) show ?thesis by (simp add: nextToken_def Let_def)
next
  case (escape_string e u)
  have "isWordStartByte (CHR ''E'')" "isWordStartByte (CHR ''e'')" by (simp_all add: isWordStartByte_def)
  with escape_string(3) obtain c where c: "e = [c]" "isWordStartByte c" unfolding escape_prefix_def by blast
  have "endOfByteRun (pre @ c # SQ # u @ rest) (length pre + 1) isWordByte = length pre + 1"
    using endOfByteRun_run [of isWordByte "[]" "SQ # u @ rest" "pre @ [c]"]
    by (simp add: isWordByte_def isTagByte_def) (simp add: SQ_def is_digit_def)
  moreover have "(pre @ c # SQ # u @ rest) ! (length pre + 1) = SQ" by (simp add: nth_append)
  moreover have "quoted_from (pre @ c # SQ # u @ rest) (length pre + 2) SQ True = length pre + 2 + length u"
    using quoted_from_tail [OF escape_string(4), of "pre @ [c, SQ]"] by simp
  ultimately show ?thesis using escape_string c
    by (simp add: nextToken_def endOfWordOrEscapeString_def Let_def escape_prefix_iff endOfQuoted_def)
next
  case (quoted q u)
  have "quoted_from (pre @ q # u @ rest) (length pre + 1) q False = length pre + 1 + length u"
    using quoted_from_tail [OF quoted(4), of "pre @ [q]"] quoted(3) by auto
  with quoted show ?thesis by (auto simp: nextToken_def endOfQuoted_def Let_def HasPrefix_head)
next
  case (line_comment body n)
  then show ?thesis using endOfLineComment_newline [of body n pre rest]
    by (simp add: nextToken_def Let_def)
next
  case (last_comment body)
  then show ?thesis using endOfLineComment_last [of body pre] by (simp add: nextToken_def Let_def)
next
  case (block_comment u)
  have "comment_from (pre @ ''/*'' @ u @ rest) (length pre) 0 = comment_from (pre @ ''/*'' @ u @ rest) (length pre + 2) 1"
    by (subst comment_from.simps) simp
  with comment_from_tail [OF block_comment(3), of "pre @ ''/*''"] block_comment show ?thesis
    by (simp add: nextToken_def endOfBlockComment_def Let_def)
next
  case (dollar d body)
  from delimiter_head [OF dollar(3)] obtain u where u: "d = CHR ''$'' # u" by blast
  have "IndexOf (body @ d @ rest) d = Some (length body)" using IndexOf_first [OF dollar(4)] u by simp
  then have "endOfDollarQuoted (pre @ d @ body @ d @ rest) (length pre) = length pre + length t"
    using dollarQuoteDelimiter_opens [OF dollar(3), of pre "body @ d @ rest"] dollar(2)
    by (simp add: endOfDollarQuoted_def)
  with dollar u show ?thesis by (simp add: nextToken_def Let_def HasPrefix_head quotes_distinct(4,5) [symmetric])
next
  case (dollar_unterminated d body)
  from delimiter_head [OF dollar_unterminated(4)] obtain u where u: "d = CHR ''$'' # u" by blast
  have "endOfDollarQuoted (pre @ d @ body) (length pre) = length pre + length t"
    using dollarQuoteDelimiter_opens [OF dollar_unterminated(4), of pre body] IndexOf_None [OF dollar_unterminated(5)]
      dollar_unterminated(2) by (simp add: endOfDollarQuoted_def)
  with dollar_unterminated u show ?thesis
    by (simp add: nextToken_def Let_def HasPrefix_head quotes_distinct(4,5) [symmetric])
next
  case (blank c)
  then show ?thesis using space_cases [of c] by (simp add: nextToken_def Let_def HasPrefix_head)
next
  case selector
  then show ?thesis
    by (simp add: nextToken_def Let_def HasPrefix_head quotes_distinct(10,11) [symmetric])
next
  case (punctuation c)
  have "dollarQuoteDelimiter (pre @ c # rest) (length pre) = None" if "c = CHR ''$''"
    using dollarQuoteDelimiter_Some [of pre rest] punctuation(3) that
    by (cases "dollarQuoteDelimiter (pre @ c # rest) (length pre)") (auto simp: punctuation_def)
  then show ?thesis using punctuation
    by (auto simp: nextToken_def Let_def punctuation_def endOfDollarQuoted_def)
qed

lemma lexeme_marks:
  assumes "lexeme k t rest"
  shows "t \<noteq> [] \<and> (isTokenSeparator (pre @ t @ rest) (length pre) \<longleftrightarrow> k = Separator) \<and>
    (k \<noteq> Separator \<longrightarrow> ((pre @ t @ rest) ! length pre = CHR ''.'' \<longleftrightarrow> k = Selector))"
  using assms
proof (cases rule: lexeme.cases)
  case (word c w)
  then show ?thesis using word_start_marks [of c] by (simp add: isTokenSeparator_def HasPrefix_head)
next
  case (escape_string e u)
  then have "e = ''E'' \<or> e = ''e''" by (simp add: escape_prefix_def)
  moreover have "\<not> space (CHR ''E'')" "\<not> space (CHR ''e'')" by (simp_all add: spaceBytes_def)
  ultimately show ?thesis using escape_string by (auto simp: isTokenSeparator_def HasPrefix_head)
next
  case (quoted q u)
  then show ?thesis by (auto simp: isTokenSeparator_def HasPrefix_head)
next
  case (dollar d body)
  then show ?thesis using delimiter_head [of d] by (auto simp: isTokenSeparator_def HasPrefix_head)
next
  case (dollar_unterminated d body)
  then show ?thesis using delimiter_head [of d] by (auto simp: isTokenSeparator_def HasPrefix_head)
qed (simp_all add: isTokenSeparator_def HasPrefix_head punctuation_def)

section \<open>The whole clause\<close>

lemma word_lexeme_exists:
  assumes "isWordStartByte c"
  shows "\<exists>k t rest. c # u = t @ rest \<and> lexeme k t rest"
proof -
  let ?w = "takeWhile isWordByte u" and ?r = "dropWhile isWordByte u"
  have all: "list_all isWordByte ?w" by (auto simp: list_all_iff dest: set_takeWhileD)
  have stop: "?r = [] \<or> \<not> isWordByte (hd ?r)" by (meson hd_dropWhile)
  show ?thesis
  proof (cases "escape_prefix (c # ?w) \<and> HasPrefix ?r [SQ]")
    case True
    then obtain v where v: "?r = SQ # v" by (auto simp: HasPrefix_iff)
    from quoted_tail_total obtain t rest where t: "v = t @ rest" "quoted_tail True SQ t rest" by blast
    have "c # u = ((c # ?w) @ SQ # t) @ rest" using v t(1) by (metis append.assoc append_Cons takeWhile_dropWhile_id)
    with lexeme.escape_string [OF conjunct1 [OF True] t(2)] show ?thesis by blast
  next
    case False
    have "c # u = (c # ?w) @ ?r" by simp
    with lexeme.word [OF assms all stop False] show ?thesis by blast
  qed
qed

lemma comment_lexeme_exists: "\<exists>k t rest. ''--'' @ u = t @ rest \<and> lexeme k t rest"
proof (cases "one_line u")
  case True
  then show ?thesis using lexeme.last_comment [OF True] by (intro exI) (rule conjI [OF append_Nil2 [symmetric]])
next
  case False
  then obtain n where "IndexAny u newlineBytes = Some n" using IndexAny_None [of u newlineBytes] by (auto simp: one_line_def)
  from IndexAny_Some [OF this] obtain a c b where a: "u = a @ c # b" "newline c" "one_line a" by (auto simp: one_line_def)
  have "''--'' @ u = (''--'' @ a @ [c]) @ b" using a(1) by simp
  with lexeme.line_comment [OF a(3,2)] show ?thesis by blast
qed

lemma dollar_lexeme_exists:
  assumes "delimiter d"
  shows "\<exists>k t rest. d @ v = t @ rest \<and> lexeme k t rest"
proof (cases "IndexOf v d")
  case None
  have "\<not> Contains v d"
  proof
    assume "Contains v d"
    then obtain a b where "v = a @ d @ b" by (auto simp: Contains_iff)
    with None show False
    proof (induction a arbitrary: v)
      case Nil
      then show False by (subst (asm) IndexOf.simps) simp
    next
      case (Cons c a)
      then show False by (subst (asm) (1) IndexOf.simps) (auto split: if_splits)
    qed
  qed
  from lexeme.dollar_unterminated [OF assms this] show ?thesis by (intro exI) (rule conjI [OF append_Nil2 [symmetric]])
next
  case (Some n)
  have "d \<noteq> []" using delimiter_head [OF assms] by auto
  from IndexOf_Some [OF Some this] obtain body rest where b: "v = body @ d @ rest" "\<not> Contains (butlast (body @ d)) d" by blast
  have "d @ v = (d @ body @ d) @ rest" using b(1) by simp
  with lexeme.dollar [OF assms b(2)] show ?thesis by blast
qed

lemma lexeme_exists:
  assumes "s \<noteq> []"
  shows "\<exists>k t rest. s = t @ rest \<and> lexeme k t rest"
proof -
  from assms obtain c u where s: "s = c # u" by (cases s) auto
  consider "isWordStartByte c" | v where "s = ''--'' @ v" | v where "s = ''/*'' @ v" | "c = SQ \<or> c = DQ"
    | d v where "delimiter d" "s = d @ v" | "space c" | "c = CHR ''.''" | "punctuation (c # u)" "c \<noteq> CHR ''.''"
    using s by (auto simp: punctuation_def HasPrefix_iff)
  then show ?thesis
  proof cases
    case 1
    then show ?thesis unfolding s by (rule word_lexeme_exists)
  next
    case (2 v)
    show ?thesis unfolding 2 by (rule comment_lexeme_exists)
  next
    case (3 v)
    from comment_tail_total [of 1 v] obtain t rest where t: "v = t @ rest" "comment_tail 1 t rest" by auto
    have "s = (''/*'' @ t) @ rest" using 3 t(1) by simp
    with lexeme.block_comment [OF t(2)] show ?thesis by blast
  next
    case 4
    from quoted_tail_total obtain t rest where t: "u = t @ rest" "quoted_tail False c t rest" by blast
    have "s = (c # t) @ rest" using s t(1) by simp
    with lexeme.quoted [OF 4 t(2)] show ?thesis by blast
  next
    case (5 d v)
    show ?thesis unfolding 5(2) using 5(1) by (rule dollar_lexeme_exists)
  next
    case 6
    have "s = [c] @ u" using s by simp
    with lexeme.blank [OF 6] show ?thesis by blast
  next
    case 7
    have "s = ''.'' @ u" using s 7 by simp
    with lexeme.selector show ?thesis by blast
  next
    case 8
    have "s = [c] @ u" using s by simp
    with lexeme.punctuation [OF 8] show ?thesis by blast
  qed
qed

lemma lexes_exists: "\<exists>ls. lexes s ls"
proof (induction s rule: length_induct)
  case (1 s)
  show ?case
  proof (cases "s = []")
    case False
    from lexeme_exists [OF False] obtain k t rest where l: "s = t @ rest" "lexeme k t rest" by blast
    with lexeme_marks [OF l(2)] have "length rest < length s" by simp
    with 1 obtain ls where "lexes rest ls" by blast
    with lexes.next_lexeme [OF l(2)] l(1) show ?thesis by blast
  qed (use lexes.finished in blast)
qed

text \<open>The scanner reads a lexeme where the grammar has one, so the reading is unique.\<close>

lemma lexeme_unique:
  assumes "lexeme k t rest" "lexeme k' t' rest'" "t @ rest = t' @ rest'"
  shows "k = k' \<and> t = t' \<and> rest = rest'"
proof -
  have "length t = length t'" "(k = Bare_word) = (k' = Bare_word)"
    using nextToken_lexeme [OF assms(1), of "[]"] nextToken_lexeme [OF assms(2), of "[]"] assms(3) by auto
  moreover from this(1) have "t = t'" "rest = rest'" using assms(3) by auto
  moreover have "(k = Separator) = (k' = Separator)" "k \<noteq> Separator \<Longrightarrow> (k = Selector) = (k' = Selector)"
    using lexeme_marks [OF assms(1), of "[]"] lexeme_marks [OF assms(2), of "[]"] assms(3) by auto
  ultimately show ?thesis by (cases k; cases k') auto
qed

lemma lexes_unique: "lexes s ls \<Longrightarrow> lexes s ls' \<Longrightarrow> ls = ls'"
proof (induction arbitrary: ls' rule: lexes.induct)
  case finished
  then show ?case by (cases rule: lexes.cases) (auto dest: lexeme_marks)
next
  case (next_lexeme k t rest ls)
  from next_lexeme.prems show ?case
  proof (cases rule: lexes.cases)
    case finished
    then show ?thesis using lexeme_marks [OF next_lexeme.hyps(1)] by simp
  next
    case (next_lexeme k' t' rest' ls'')
    then show ?thesis using lexeme_unique \<open>lexeme k t rest\<close> next_lexeme.IH by metis
  qed
qed

lemma bare_word_from_lexes:
  "lexes s ls \<Longrightarrow> bare_word_from (pre @ s) word (length pre) selected = first_row_variable word selected (length pre) ls"
proof (induction arbitrary: pre selected rule: lexes.induct)
  case finished
  show ?case by (simp add: bare_word_from.simps)
next
  case (next_lexeme k t rest ls)
  note tok = nextToken_lexeme [OF next_lexeme.hyps(1), of pre] and marks = lexeme_marks [OF next_lexeme.hyps(1), of pre]
  have step: "bare_word_from (pre @ t @ rest) word (length pre) selected =
      (if k = Bare_word \<and> \<not> selected \<and> EqualFold t word then Some (length pre)
       else bare_word_from (pre @ t @ rest) word (length pre + length t) (if k = Separator then selected else k = Selector))"
    using marks tok by (subst bare_word_from.simps) auto
  show ?case unfolding step using next_lexeme.IH [of "pre @ t"] by simp
qed

text \<open>C32. The pre-check of a \<open>when\<close> clause is exact: every clause, unterminated constructs included, is cut into
  lexemes of the grammar in exactly one way, and the clause is refused precisely at the first lexeme that spells the
  row variable the operation does not have, as a whole word, outside every literal, quoted identifier and comment,
  and not as the field after a selector. An update, and any operation but insert and delete, is refused nothing.\<close>

theorem when_precheck_exact:
  "(\<exists>!ls. lexes clause ls) \<and>
   (\<forall>ls. lexes clause ls \<longrightarrow> forbiddenWhenReference operation clause =
     (if operation = ''insert''
      then map_option (\<lambda>at. \<lparr>br_Word = ''OLD'', br_Statement = ''INSERT'', br_Start = at\<rparr>) (first_row_variable ''OLD'' False 0 ls)
      else if operation = ''delete''
      then map_option (\<lambda>at. \<lparr>br_Word = ''NEW'', br_Statement = ''DELETE'', br_Start = at\<rparr>) (first_row_variable ''NEW'' False 0 ls)
      else None))"
  using lexes_exists [of clause] lexes_unique bare_word_from_lexes [of clause _ "[]"]
  by (auto simp: forbiddenWhenReference_def whenRefusal_def firstBareWord_def)

theorem when_precheck_exact_witness:
  "forbiddenWhenReference ''insert'' ''a.OLD OLD'' = Some \<lparr>br_Word = ''OLD'', br_Statement = ''INSERT'', br_Start = 6\<rparr>"
proof -
  have ascii: "isWordStartByte (CHR ''a'')" "isWordStartByte (CHR ''O'')" "isWordByte (CHR ''L'')" "isWordByte (CHR ''D'')"
    "\<not> isWordByte (CHR ''.'')" "\<not> isWordByte (CHR '' '')" "space (CHR '' '')"
    "\<not> escape_prefix ''a''" "\<not> escape_prefix ''OLD''"
    by (simp_all add: isWordByte_def isTagByte_def isWordStartByte_def is_digit_def escape_prefix_def spaceBytes_def)
  have old: "lexeme Bare_word ''OLD'' rest" if "rest = [] \<or> \<not> isWordByte (hd rest)" for rest
    using lexeme.word [of "CHR ''O''" "''LD''" rest] that ascii by simp
  have a: "lexeme Bare_word ''a'' ''.OLD OLD''" using lexeme.word [of "CHR ''a''" "[]" "''.OLD OLD''"] ascii by simp
  have "lexes ''OLD'' [(Bare_word, ''OLD'')]" using lexes.next_lexeme [OF old lexes.finished] by simp
  from lexes.next_lexeme [OF lexeme.blank this, of "CHR '' ''"] ascii
  have "lexes '' OLD'' [(Separator, '' ''), (Bare_word, ''OLD'')]" by simp
  from lexes.next_lexeme [OF old this] ascii
  have "lexes ''OLD OLD'' [(Bare_word, ''OLD''), (Separator, '' ''), (Bare_word, ''OLD'')]" by simp
  from lexes.next_lexeme [OF lexeme.selector this]
  have "lexes ''.OLD OLD'' [(Selector, ''.''), (Bare_word, ''OLD''), (Separator, '' ''), (Bare_word, ''OLD'')]" by simp
  from lexes.next_lexeme [OF a this]
  have "lexes ''a.OLD OLD'' [(Bare_word, ''a''), (Selector, ''.''), (Bare_word, ''OLD''), (Separator, '' ''), (Bare_word, ''OLD'')]"
    by simp
  moreover have "\<not> EqualFold ''a'' ''OLD''" "EqualFold ''OLD'' ''OLD''" by (simp_all add: EqualFold_def)
  ultimately show ?thesis
    using when_precheck_exact [of "''a.OLD OLD''" "''insert''"] by simp
qed

end
