(* ===== verification/Reconcile_Plan.thy ===== *)
theory Reconcile_Plan
  imports Trigger_Sql Signing "HOL-Library.Product_Lexorder"
begin

text \<open>
  The planning half of \<open>internal/reconcile\<close>: the ownership proof over a catalog comment
  (\<open>markerparse.go\<close>, \<open>ownership.go\<close>), the classification of one listener and operation pair from
  configuration, registry and catalog (\<open>classify.go\<close>), the walk over all pairs (\<open>diff.go\<close>), the plan and
  the approval decision (\<open>plan.go\<close>, \<open>decision.go\<close>). Go maps are association lists updated by \<open>put\<close>; a
  refusal is one constructor per constructor function of \<open>refusal.go\<close>, with its message as a function of
  it (\<open>q\<close> is the \<open>%q\<close> verb).
\<close>

section \<open>Actions, verdicts and decisions\<close>

datatype ActionKind = ActionCreate | ActionReplace | ActionDrop | ActionRename | ActionDisable

fun kind_text :: "ActionKind \<Rightarrow> string" where
  "kind_text ActionCreate = ''create''"
| "kind_text ActionReplace = ''replace''"
| "kind_text ActionDrop = ''drop''"
| "kind_text ActionRename = ''rename''"
| "kind_text ActionDisable = ''disable''"

fun kind_Destructive :: "ActionKind \<Rightarrow> bool" where
  "kind_Destructive ActionCreate = False"
| "kind_Destructive ActionReplace = False"
| "kind_Destructive ActionRename = False"
| "kind_Destructive ActionDrop = True"
| "kind_Destructive ActionDisable = True"

fun kind_Symbol :: "ActionKind \<Rightarrow> string" where
  "kind_Symbol ActionCreate = ''+''"
| "kind_Symbol ActionReplace = ''-/+''"
| "kind_Symbol ActionDrop = ''-''"
| "kind_Symbol ActionDisable = ''-''"
| "kind_Symbol ActionRename = ''~''"

datatype Verdict = VerdictUnset | VerdictClean | VerdictChangesPending | VerdictError

fun ExitCode :: "Verdict \<Rightarrow> int" where
  "ExitCode VerdictClean = 0"
| "ExitCode VerdictChangesPending = 2"
| "ExitCode VerdictError = 1"
| "ExitCode VerdictUnset = 1"

datatype StopReason = StopNone | StopOwnership | StopPermission | StopApproval | StopValidation
  | StopRunLockWaitExpired | StopTargetDropped

record Decision =
  de_Proceed :: bool
  de_Stopped :: StopReason

definition Decide :: "bool \<Rightarrow> bool \<Rightarrow> bool \<Rightarrow> bool \<Rightarrow> Decision" where
  "Decide destructive permitted approved interactive =
     (if destructive \<and> \<not> permitted then \<lparr>de_Proceed = False, de_Stopped = StopPermission\<rparr>
      else if \<not> approved \<and> \<not> interactive then \<lparr>de_Proceed = False, de_Stopped = StopApproval\<rparr>
      else \<lparr>de_Proceed = True, de_Stopped = StopNone\<rparr>)"

section \<open>Refusals\<close>

datatype Refusal =
    ownershipRefusal string "string option"
  | absentBootstrapRefusal string
  | droppedTargetRefusal string string
  | retargetedListenerRefusal string string string
  | tableLockTimeoutRefusal string string
  | runLockWaitExpiredRefusal string string
  | unknownDeferredKindRefusal string

fun Message :: "(string \<Rightarrow> string) \<Rightarrow> Refusal \<Rightarrow> string" where
  "Message q (ownershipRefusal identity mark) = ''refusing '' @ identity @ '': '' @
     (case mark of None \<Rightarrow> ''no ownership marker was found'' | Some m \<Rightarrow> ''found ownership marker '' @ q m)"
| "Message q (absentBootstrapRefusal subject) = ''cannot reconcile: required bootstrap object '' @ subject @ '' is absent''"
| "Message q (droppedTargetRefusal listener target) = ''listener '' @ q listener @ '' targets missing table '' @ target"
| "Message q (retargetedListenerRefusal listener recorded configured) =
     ''listener '' @ q listener @ '' is recorded against '' @ recorded @ '' but configured against '' @ configured"
| "Message q (tableLockTimeoutRefusal table blocker) =
     ''timed out waiting for table lock on '' @ table @ ''; blocker backend is '' @ blocker"
| "Message q (runLockWaitExpiredRefusal inst holder) =
     ''timed out waiting for reconcile run lock for instance '' @ q inst @ ''; holder backend is '' @ holder"
| "Message q (unknownDeferredKindRefusal kind) = ''cannot validate unknown deferred check kind '' @ q kind"

fun Remediation :: "(string \<Rightarrow> string) \<Rightarrow> Refusal \<Rightarrow> string" where
  "Remediation q (ownershipRefusal identity mark) =
     ''leave the object untouched or remove the conflicting marker only after confirming its owner''"
| "Remediation q (absentBootstrapRefusal subject) = ''run bootstrap for this service schema before reconciling''"
| "Remediation q (droppedTargetRefusal listener target) =
     ''restore the target table or remove the listener from configuration''"
| "Remediation q (retargetedListenerRefusal listener recorded configured) =
     ''remove listener '' @ q listener @ '', apply so its triggers on '' @ recorded @ '' are dropped, then '' @
     ''add it back against '' @ configured @ ''; or restore the configured table to '' @ recorded"
| "Remediation q (tableLockTimeoutRefusal table blocker) =
     ''wait for backend '' @ blocker @ '' or end its transaction, then retry reconciliation''"
| "Remediation q (runLockWaitExpiredRefusal inst holder) =
     ''wait for backend '' @ holder @ '' to finish or investigate that instance before retrying''"
| "Remediation q (unknownDeferredKindRefusal kind) =
     ''upgrade the reconciler to a version that understands '' @ q kind @ '' or remove that check''"

section \<open>Ownership\<close>

record catalogMarker =
  cm_Instance :: string
  cm_Listener :: string
  cm_Operation :: string

definition hasEmptyMarkerField :: "string list \<Rightarrow> bool" where
  "hasEmptyMarkerField parts \<longleftrightarrow> (\<exists>field \<in> set parts. field = [] \<or> CHR '':'' \<in> set field)"

definition parseCatalogMarker :: "string option \<Rightarrow> catalogMarker option" where
  "parseCatalogMarker found =
     (case found of None \<Rightarrow> None | Some written \<Rightarrow>
     (case CutPrefix written MarkerPrefix of None \<Rightarrow> None | Some rest \<Rightarrow>
       let parts = SplitChar (CHR '':'') rest in
       if length parts \<noteq> 3 \<or> hasEmptyMarkerField parts then None
       else Some \<lparr>cm_Instance = parts ! 0, cm_Listener = parts ! 1, cm_Operation = parts ! 2\<rparr>))"

datatype Disagreement = DisagreementNone | DisagreementMarkerAbsent | DisagreementForeignInstance
  | DisagreementAnotherPair | DisagreementNoRegistryRow

record RegistryRow =
  ro_Present :: bool
  ro_Listener :: string
  ro_Operation :: string

record CatalogObject =
  co_Kind :: string
  co_Identity :: string
  co_Marker :: "string option"

record Ownership =
  ow_Owned :: bool
  ow_Disagreement :: Disagreement
  ow_Found :: string

definition markerValue :: "string option \<Rightarrow> string" where
  "markerValue m = (case m of None \<Rightarrow> [] | Some s \<Rightarrow> s)"

definition DetermineOwnership :: "RegistryRow \<Rightarrow> CatalogObject \<Rightarrow> string \<Rightarrow> Ownership" where
  "DetermineOwnership recorded found inst =
     (let disagree = (\<lambda>d. \<lparr>ow_Owned = False, ow_Disagreement = d, ow_Found = markerValue (co_Marker found)\<rparr>) in
      if \<not> ro_Present recorded then disagree DisagreementNoRegistryRow
      else case parseCatalogMarker (co_Marker found) of
        None \<Rightarrow> disagree DisagreementMarkerAbsent
      | Some m \<Rightarrow>
          if cm_Instance m \<noteq> inst then disagree DisagreementForeignInstance
          else if cm_Listener m \<noteq> ro_Listener recorded \<or> cm_Operation m \<noteq> ro_Operation recorded
          then disagree DisagreementAnotherPair
          else \<lparr>ow_Owned = True, ow_Disagreement = DisagreementNone, ow_Found = markerValue (co_Marker found)\<rparr>)"

section \<open>Readings\<close>

record TargetReading =
  tr_OID :: nat
  tr_Schema :: string
  tr_Table :: string
  tr_Columns :: "string list"
  tr_PrimaryKeyColumns :: "string list"

record TriggerReading =
  gr_OID :: nat
  gr_FunctionOID :: nat
  gr_Marker :: "string option"
  gr_Definition :: string

record FunctionReading =
  fr_OID :: nat
  fr_Marker :: "string option"
  fr_Definition :: string

record registryListener =
  rl_Name :: string
  rl_Spec :: bytes
  rl_SpecHash :: string
  rl_TargetTable :: string
  rl_TargetOID :: nat
  rl_Enabled :: bool
  rl_AppliedAt :: instant

record registryTrigger =
  gt_Operation :: string
  gt_TriggerName :: string
  gt_FunctionName :: string
  gt_DDLHash :: string

record registryReading =
  rr_Listener :: registryListener
  rr_Triggers :: "registryTrigger list"

record Pair =
  pr_Listener :: string
  pr_Operation :: string

record Action =
  ac_Pair :: Pair
  ac_Kind :: ActionKind

datatype targetOutcome = targetUnresolved | targetNew | targetHealthy | targetRenamed | targetDropped
  | targetDroppedAndRecreated

record targetResolution =
  tn_Outcome :: targetOutcome
  tn_Target :: TargetReading
  tn_Refusal :: "Refusal option"

text \<open>The zero values a Go map yields for an absent key.\<close>

definition zero_target :: TargetReading where
  "zero_target = \<lparr>tr_OID = 0, tr_Schema = [], tr_Table = [], tr_Columns = [], tr_PrimaryKeyColumns = []\<rparr>"

definition zero_trigger :: TriggerReading where
  "zero_trigger = \<lparr>gr_OID = 0, gr_FunctionOID = 0, gr_Marker = None, gr_Definition = []\<rparr>"

definition zero_function :: FunctionReading where
  "zero_function = \<lparr>fr_OID = 0, fr_Marker = None, fr_Definition = []\<rparr>"

definition zero_registryListener :: registryListener where
  "zero_registryListener = \<lparr>rl_Name = [], rl_Spec = [], rl_SpecHash = [], rl_TargetTable = [], rl_TargetOID = 0,
     rl_Enabled = False, rl_AppliedAt = 0\<rparr>"

definition zero_registryTrigger :: registryTrigger where
  "zero_registryTrigger = \<lparr>gt_Operation = [], gt_TriggerName = [], gt_FunctionName = [], gt_DDLHash = []\<rparr>"

definition zero_reading :: registryReading where
  "zero_reading = \<lparr>rr_Listener = zero_registryListener, rr_Triggers = []\<rparr>"

definition zero_pair :: Pair where
  "zero_pair = \<lparr>pr_Listener = [], pr_Operation = []\<rparr>"

definition zero_resolution :: targetResolution where
  "zero_resolution = \<lparr>tn_Outcome = targetUnresolved, tn_Target = zero_target, tn_Refusal = None\<rparr>"

fun put :: "'k \<Rightarrow> 'v \<Rightarrow> ('k \<times> 'v) list \<Rightarrow> ('k \<times> 'v) list" where
  "put k v [] = [(k, v)]"
| "put k v (e # m) = (if fst e = k then (k, v) # m else e # put k v m)"

definition get :: "'v \<Rightarrow> ('k \<times> 'v) list \<Rightarrow> 'k \<Rightarrow> 'v" where
  "get zero m k = (case map_of m k of Some v \<Rightarrow> v | None \<Rightarrow> zero)"

section \<open>Classification\<close>

record desiredPair =
  dp_Pair :: Pair
  dp_ListenerPresent :: bool
  dp_OperationPresent :: bool
  dp_Enabled :: bool
  dp_SpecificationChanged :: bool
  dp_SpecificationKnown :: bool
  dp_SpecHash :: string

record recordedPair =
  rp_Pair :: Pair
  rp_ListenerPresent :: bool
  rp_TriggerPresent :: bool
  rp_Listener :: registryListener
  rp_Trigger :: registryTrigger

record observedPair =
  vp_Pair :: Pair
  vp_TriggerPresent :: bool
  vp_FunctionPresent :: bool
  vp_Trigger :: TriggerReading
  vp_Function :: FunctionReading

record pairSources =
  ps_Desired :: desiredPair
  ps_Recorded :: recordedPair
  ps_Observed :: observedPair
  ps_Target :: targetResolution
  ps_Instance :: string

definition zero_desired :: desiredPair where
  "zero_desired = \<lparr>dp_Pair = zero_pair, dp_ListenerPresent = False, dp_OperationPresent = False, dp_Enabled = False,
     dp_SpecificationChanged = False, dp_SpecificationKnown = False, dp_SpecHash = []\<rparr>"

definition zero_recorded :: recordedPair where
  "zero_recorded = \<lparr>rp_Pair = zero_pair, rp_ListenerPresent = False, rp_TriggerPresent = False,
     rp_Listener = zero_registryListener, rp_Trigger = zero_registryTrigger\<rparr>"

definition zero_observed :: observedPair where
  "zero_observed = \<lparr>vp_Pair = zero_pair, vp_TriggerPresent = False, vp_FunctionPresent = False,
     vp_Trigger = zero_trigger, vp_Function = zero_function\<rparr>"

definition zero_sources :: pairSources where
  "zero_sources = \<lparr>ps_Desired = zero_desired, ps_Recorded = zero_recorded, ps_Observed = zero_observed,
     ps_Target = zero_resolution, ps_Instance = []\<rparr>"

record pairClassification =
  pc_Action :: "Action option"
  pc_Refusal :: "Refusal option"
  pc_RetainListener :: bool

definition no_change :: pairClassification where
  "no_change = \<lparr>pc_Action = None, pc_Refusal = None, pc_RetainListener = False\<rparr>"

definition refused :: "Refusal \<Rightarrow> pairClassification" where
  "refused r = \<lparr>pc_Action = None, pc_Refusal = Some r, pc_RetainListener = False\<rparr>"

definition classifiedAction :: "Pair \<Rightarrow> ActionKind \<Rightarrow> bool \<Rightarrow> pairClassification" where
  "classifiedAction pair kind retain =
     \<lparr>pc_Action = Some \<lparr>ac_Pair = pair, ac_Kind = kind\<rparr>, pc_Refusal = None, pc_RetainListener = retain\<rparr>"

definition source_pair :: "pairSources \<Rightarrow> Pair" where
  "source_pair s =
     (if pr_Listener (dp_Pair (ps_Desired s)) \<noteq> [] then dp_Pair (ps_Desired s)
      else if pr_Listener (rp_Pair (ps_Recorded s)) \<noteq> [] then rp_Pair (ps_Recorded s)
      else vp_Pair (ps_Observed s))"

definition objectIdentity :: "pairSources \<Rightarrow> string \<Rightarrow> string" where
  "objectIdentity s kind =
     (let recorded = (if kind = ''function'' then gt_FunctionName (rp_Trigger (ps_Recorded s))
                      else gt_TriggerName (rp_Trigger (ps_Recorded s)));
          name = (if recorded = [] then pr_Listener (source_pair s) @ ''/'' @ pr_Operation (source_pair s) else recorded)
      in kind @ '' '' @ name)"

definition observedAny :: "pairSources \<Rightarrow> bool" where
  "observedAny s \<longleftrightarrow> vp_TriggerPresent (ps_Observed s) \<or> vp_FunctionPresent (ps_Observed s)"

definition observedComplete :: "pairSources \<Rightarrow> bool" where
  "observedComplete s \<longleftrightarrow> vp_TriggerPresent (ps_Observed s) \<and> vp_FunctionPresent (ps_Observed s)"

definition fingerprintVersion :: string where
  "fingerprintVersion = ''1:''"

definition fingerprint :: "string \<Rightarrow> string \<Rightarrow> string" where
  "fingerprint triggerDefinition functionDefinition =
     fingerprintVersion @ hex_EncodeToString (sha256 (triggerDefinition @ [NUL] @ functionDefinition))"

definition observedFingerprint :: "pairSources \<Rightarrow> string" where
  "observedFingerprint s =
     fingerprint (gr_Definition (vp_Trigger (ps_Observed s))) (fr_Definition (vp_Function (ps_Observed s)))"

definition registryOwnershipRow :: "recordedPair \<Rightarrow> RegistryRow" where
  "registryOwnershipRow recorded =
     \<lparr>ro_Present = rp_TriggerPresent recorded, ro_Listener = pr_Listener (rp_Pair recorded),
      ro_Operation = pr_Operation (rp_Pair recorded)\<rparr>"

definition catalogTriggerObject :: "TriggerReading \<Rightarrow> string \<Rightarrow> CatalogObject" where
  "catalogTriggerObject reading identity =
     \<lparr>co_Kind = ''trigger'', co_Identity = identity, co_Marker = gr_Marker reading\<rparr>"

definition catalogFunctionObject :: "FunctionReading \<Rightarrow> string \<Rightarrow> CatalogObject" where
  "catalogFunctionObject reading identity =
     \<lparr>co_Kind = ''function'', co_Identity = identity, co_Marker = fr_Marker reading\<rparr>"

definition object_refusal :: "RegistryRow \<Rightarrow> CatalogObject \<Rightarrow> string \<Rightarrow> Refusal option" where
  "object_refusal row object inst =
     (if \<not> ow_Owned (DetermineOwnership row object inst)
      then Some (ownershipRefusal (co_Identity object) (co_Marker object)) else None)"

definition observedOwnershipRefusal :: "pairSources \<Rightarrow> Refusal option" where
  "observedOwnershipRefusal s =
     (let row = registryOwnershipRow (ps_Recorded s);
          on_trigger = (if vp_TriggerPresent (ps_Observed s)
            then object_refusal row (catalogTriggerObject (vp_Trigger (ps_Observed s)) (objectIdentity s ''trigger'')) (ps_Instance s)
            else None);
          on_function = (if vp_FunctionPresent (ps_Observed s)
            then object_refusal row (catalogFunctionObject (vp_Function (ps_Observed s)) (objectIdentity s ''function'')) (ps_Instance s)
            else None)
      in case on_trigger of Some r \<Rightarrow> Some r | None \<Rightarrow> on_function)"

definition classifyRemovedListener :: "pairSources \<Rightarrow> pairClassification" where
  "classifyRemovedListener s =
     (if \<not> rp_TriggerPresent (ps_Recorded s) \<and> \<not> observedAny s then
        (if rp_ListenerPresent (ps_Recorded s) then classifiedAction (source_pair s) ActionDrop False else no_change)
      else classifiedAction (source_pair s) ActionDrop False)"

definition classifyRemovedOperation :: "pairSources \<Rightarrow> pairClassification" where
  "classifyRemovedOperation s =
     (if \<not> rp_TriggerPresent (ps_Recorded s) \<and> \<not> observedAny s then no_change
      else classifiedAction (source_pair s) ActionDrop True)"

definition classifyDisabled :: "pairSources \<Rightarrow> pairClassification" where
  "classifyDisabled s =
     (if \<not> rp_TriggerPresent (ps_Recorded s) \<and> \<not> observedAny s then no_change
      else classifiedAction (source_pair s) ActionDisable True)"

definition classifyManagedPair :: "pairSources \<Rightarrow> pairClassification" where
  "classifyManagedPair s =
     (if tn_Outcome (ps_Target s) = targetDroppedAndRecreated then classifiedAction (source_pair s) ActionReplace True
      else if \<not> rp_TriggerPresent (ps_Recorded s) \<or> \<not> observedComplete s
      then classifiedAction (source_pair s) ActionCreate True
      else if tn_Outcome (ps_Target s) = targetRenamed then classifiedAction (source_pair s) ActionRename True
      else if dp_SpecificationChanged (ps_Desired s) \<or>
              observedFingerprint s \<noteq> gt_DDLHash (rp_Trigger (ps_Recorded s))
      then classifiedAction (source_pair s) ActionReplace True
      else no_change)"

definition classifyPair :: "pairSources \<Rightarrow> pairClassification" where
  "classifyPair s =
     (case tn_Refusal (ps_Target s) of Some r \<Rightarrow> refused r | None \<Rightarrow>
     (case observedOwnershipRefusal s of Some r \<Rightarrow> refused r | None \<Rightarrow>
      if \<not> dp_ListenerPresent (ps_Desired s) then classifyRemovedListener s
      else if \<not> dp_OperationPresent (ps_Desired s) then classifyRemovedOperation s
      else if \<not> dp_Enabled (ps_Desired s) then classifyDisabled s
      else classifyManagedPair s))"

section \<open>The plan\<close>

record DeferredCheck =
  dc_Listener :: string
  dc_Operation :: string
  dc_Kind :: string
  dc_Schema :: string
  dc_Table :: string
  dc_Columns :: "string list"
  dc_When :: string

record diagnostic =
  dg_Rule :: string
  dg_Check :: DeferredCheck
  dg_Message :: string

record PlanResult =
  pn_Actions :: "Action list"
  pn_Examined :: nat
  pn_Refusals :: "Refusal list"
  pn_Diagnostics :: "diagnostic list"
  pn_Verdict :: Verdict

definition zero_plan :: PlanResult where
  "zero_plan = \<lparr>pn_Actions = [], pn_Examined = 0, pn_Refusals = [], pn_Diagnostics = [], pn_Verdict = VerdictUnset\<rparr>"

definition plan_Destructive :: "PlanResult \<Rightarrow> bool" where
  "plan_Destructive result \<longleftrightarrow> (\<exists>action \<in> set (pn_Actions result). kind_Destructive (ac_Kind action))"

definition action_key :: "Action \<Rightarrow> string \<times> string \<times> string" where
  "action_key a = (pr_Listener (ac_Pair a), pr_Operation (ac_Pair a), kind_text (ac_Kind a))"

definition orderedActions :: "Action list \<Rightarrow> Action list" where
  "orderedActions actions = sort_key action_key actions"

record desiredListener =
  dl_Name :: string
  dl_SpecHash :: string
  dl_Enabled :: bool
  dl_SpecificationKnown :: bool
  dl_ChangedOperations :: "(string \<times> bool) list"

record diffInput =
  di_Desired :: "desiredPair list"
  di_Recorded :: "recordedPair list"
  di_Observed :: "observedPair list"
  di_Listeners :: "desiredListener list"
  di_Targets :: "(string \<times> targetResolution) list"
  di_Instance :: string

type_synonym source_map = "(Pair \<times> pairSources) list"

definition add_desired :: "source_map \<Rightarrow> desiredPair \<Rightarrow> source_map" where
  "add_desired sources d = put (dp_Pair d) ((get zero_sources sources (dp_Pair d))\<lparr>ps_Desired := d\<rparr>) sources"

definition add_recorded :: "source_map \<Rightarrow> recordedPair \<Rightarrow> source_map" where
  "add_recorded sources r = put (rp_Pair r) ((get zero_sources sources (rp_Pair r))\<lparr>ps_Recorded := r\<rparr>) sources"

definition add_observed :: "source_map \<Rightarrow> observedPair \<Rightarrow> source_map" where
  "add_observed sources v = put (vp_Pair v) ((get zero_sources sources (vp_Pair v))\<lparr>ps_Observed := v\<rparr>) sources"

definition listeners_by_name :: "desiredListener list \<Rightarrow> (string \<times> desiredListener) list" where
  "listeners_by_name listeners = foldl (\<lambda>m l. put (dl_Name l) l m) [] listeners"

definition with_listener :: "(string \<times> desiredListener) list \<Rightarrow> Pair \<times> pairSources \<Rightarrow> Pair \<times> pairSources" where
  "with_listener byName e =
     (case map_of byName (pr_Listener (fst e)) of
        None \<Rightarrow> e
      | Some l \<Rightarrow> (fst e, (snd e)\<lparr>ps_Desired := (ps_Desired (snd e))
          \<lparr>dp_ListenerPresent := True, dp_Enabled := dl_Enabled l, dp_SpecHash := dl_SpecHash l,
           dp_SpecificationChanged := get False (dl_ChangedOperations l) (pr_Operation (fst e)),
           dp_SpecificationKnown := dl_SpecificationKnown l, dp_Pair := fst e\<rparr>\<rparr>))"

definition applyDesiredListeners :: "source_map \<Rightarrow> desiredListener list \<Rightarrow> source_map" where
  "applyDesiredListeners sources listeners = map (with_listener (listeners_by_name listeners)) sources"

definition collectPairSources :: "diffInput \<Rightarrow> source_map" where
  "collectPairSources input =
     applyDesiredListeners
       (foldl add_observed (foldl add_recorded (foldl add_desired [] (di_Desired input)) (di_Recorded input))
          (di_Observed input))
       (di_Listeners input)"

definition pair_key :: "Pair \<Rightarrow> string \<times> string" where
  "pair_key p = (pr_Listener p, pr_Operation p)"

definition orderedPairs :: "source_map \<Rightarrow> Pair list" where
  "orderedPairs sources = sort_key pair_key (map fst sources)"

definition shortCircuitSpecificationComparison :: "pairSources \<Rightarrow> pairSources" where
  "shortCircuitSpecificationComparison s =
     (if dp_SpecificationKnown (ps_Desired s) then s
      else s\<lparr>ps_Desired := (ps_Desired s)\<lparr>dp_SpecificationChanged :=
        (rp_ListenerPresent (ps_Recorded s) \<and> dp_SpecHash (ps_Desired s) \<noteq> rl_SpecHash (rp_Listener (ps_Recorded s)))\<rparr>\<rparr>)"

definition preparedPairSource :: "diffInput \<Rightarrow> source_map \<Rightarrow> Pair \<Rightarrow> pairSources" where
  "preparedPairSource input sources pair =
     shortCircuitSpecificationComparison
       ((get zero_sources sources pair)\<lparr>ps_Instance := di_Instance input,
          ps_Target := get zero_resolution (di_Targets input) (pr_Listener pair)\<rparr>)"

definition appendClassification :: "PlanResult \<Rightarrow> pairClassification \<Rightarrow> PlanResult" where
  "appendClassification result c =
     (case pc_Refusal c of
        Some r \<Rightarrow> result\<lparr>pn_Refusals := pn_Refusals result @ [r]\<rparr>
      | None \<Rightarrow>
          (case pc_Action c of
             Some a \<Rightarrow> result\<lparr>pn_Actions := pn_Actions result @ [a]\<rparr>
           | None \<Rightarrow> result))"

definition finaliseDiff :: "PlanResult \<Rightarrow> PlanResult" where
  "finaliseDiff result =
     (if pn_Refusals result \<noteq> [] then result\<lparr>pn_Actions := [], pn_Verdict := VerdictError\<rparr>
      else if pn_Actions result = [] then result\<lparr>pn_Verdict := VerdictClean\<rparr>
      else result\<lparr>pn_Actions := orderedActions (pn_Actions result), pn_Verdict := VerdictChangesPending\<rparr>)"

definition diff :: "diffInput \<Rightarrow> PlanResult" where
  "diff input =
     (let sources = collectPairSources input; pairs = orderedPairs sources in
      finaliseDiff
        (foldl (\<lambda>result pair. appendClassification result (classifyPair (preparedPairSource input sources pair)))
           (zero_plan\<lparr>pn_Examined := length pairs\<rparr>) pairs))"

section \<open>Rendering\<close>

fun render_actions :: "string \<Rightarrow> string \<Rightarrow> Action list \<Rightarrow> string" where
  "render_actions listener operation [] = []"
| "render_actions listener operation (a # as) =
     (let l = pr_Listener (ac_Pair a); o' = pr_Operation (ac_Pair a);
          head = (if l \<noteq> listener then ''listener '' @ l @ '':'' @ NL else '''');
          operation' = (if l \<noteq> listener then '''' else operation);
          opline = (if o' \<noteq> operation' then ''  operation '' @ o' @ '':'' @ NL else '''')
      in head @ opline @ ''    '' @ kind_Symbol (ac_Kind a) @ '' '' @ kind_text (ac_Kind a) @ NL @
         render_actions l o' as)"

definition Render :: "PlanResult \<Rightarrow> string" where
  "Render result = render_actions '''' '''' (orderedActions (pn_Actions result))"

end
