(* ===== verification/Reconcile_Apply.thy ===== *)
theory Reconcile_Apply
  imports Reconcile_Plan
begin

text \<open>
  The database half of \<open>internal/reconcile\<close>: catalog readings, target resolution, compilation of a
  listener, the registry tables, deferred validation, the plan read from the database, and \<open>Apply\<close>.
  SQL statements are modelled by their effect on \<open>catalog\<close>, the part of the database these sources
  read and write. \<open>server\<close> holds what is outside the sources: the driver's quoter, how the server reads a
  name and renders a definition, what statement or query it fails, and the \<open>encoding/json\<close> codec of a
  listener's trigger specification.
\<close>

section \<open>The catalog and the server\<close>

datatype pg_error = PgError string string | DriverError string

datatype reconcile_error =
    DatabaseError pg_error
  | GenerateError string gen_error
  | UnusableName string string IdentifierFault
  | InvalidStoredTarget string
  | InvalidSpec
  | RefusedError Refusal
  | NoRows

datatype query =
    QRelationName string | QRelationOID nat | QTrigger nat string | QFunction nat | QSchema string
  | QRegistry | QRegistryWrite string | QQueue string

datatype ddl =
    DropTrigger string string string
  | DropFunction string string
  | CreateFunction string string string
  | RevokeExecute string string
  | CommentFunction string string string
  | CreateTrigger string string string string string string
  | CommentTrigger string string string string

record catalog =
  cat_relations :: "TargetReading list"
  cat_triggers :: "((nat \<times> string) \<times> TriggerReading) list"
  cat_functions :: "(nat \<times> FunctionReading) list"
  cat_procs :: "((string \<times> string) \<times> nat) list"
  cat_next :: nat
  cat_schemas :: "string list"
  cat_registry :: "registryReading list"

record server =
  sv_sanitize :: sanitizer
  sv_quote :: "string \<Rightarrow> string"
  sv_regclass :: "string \<Rightarrow> (string \<times> string) option"
  sv_query_fault :: "query \<Rightarrow> pg_error option"
  sv_exec_fault :: "ddl \<Rightarrow> pg_error option"
  sv_triggerdef :: "string \<Rightarrow> string"
  sv_functiondef :: "string \<Rightarrow> string"
  sv_prepare :: "string \<Rightarrow> pg_error option"
  sv_blocker :: string
  sv_jsonb :: "bytes \<Rightarrow> bytes"
  sv_now :: instant
  json_Marshal :: "TriggerSpec \<Rightarrow> bytes"
  json_MarshalOperation :: "Operation \<Rightarrow> bytes"
  json_Unmarshal :: "bytes \<Rightarrow> TriggerSpec option"

record config =
  cf_Instance :: string
  cf_Schema :: string
  cf_Listeners :: "Listener list"

definition find_relation :: "string \<Rightarrow> string \<Rightarrow> catalog \<Rightarrow> TargetReading option" where
  "find_relation s t cat = List.find (\<lambda>r. tr_Schema r = s \<and> tr_Table r = t) (cat_relations cat)"

definition find_relation_oid :: "nat \<Rightarrow> catalog \<Rightarrow> TargetReading option" where
  "find_relation_oid oid cat = List.find (\<lambda>r. tr_OID r = oid) (cat_relations cat)"

definition undefined_table :: pg_error where "undefined_table = PgError ''42P01'' ''relation does not exist''"
definition undefined_object :: pg_error where "undefined_object = PgError ''42704'' ''trigger does not exist''"
definition undefined_function :: pg_error where "undefined_function = PgError ''42883'' ''function does not exist''"
definition duplicate_object :: pg_error where "duplicate_object = PgError ''42710'' ''trigger already exists''"
definition dependent_objects :: pg_error where "dependent_objects = PgError ''2BP01'' ''other objects depend on it''"

definition drop_key :: "'k \<Rightarrow> ('k \<times> 'v) list \<Rightarrow> ('k \<times> 'v) list" where
  "drop_key k m = filter (\<lambda>e. fst e \<noteq> k) m"

fun ddl_effect :: "server \<Rightarrow> ddl \<Rightarrow> catalog \<Rightarrow> pg_error + catalog" where
  "ddl_effect sv (DropTrigger s t n) cat =
     (case find_relation s t cat of None \<Rightarrow> Inl undefined_table | Some r \<Rightarrow>
     (case map_of (cat_triggers cat) (tr_OID r, n) of None \<Rightarrow> Inl undefined_object | Some _ \<Rightarrow>
      Inr (cat\<lparr>cat_triggers := drop_key (tr_OID r, n) (cat_triggers cat)\<rparr>)))"
| "ddl_effect sv (DropFunction s n) cat =
     (case map_of (cat_procs cat) (s, n) of None \<Rightarrow> Inl undefined_function | Some oid \<Rightarrow>
      if \<exists>e \<in> set (cat_triggers cat). gr_FunctionOID (snd e) = oid then Inl dependent_objects
      else Inr (cat\<lparr>cat_procs := drop_key (s, n) (cat_procs cat), cat_functions := drop_key oid (cat_functions cat)\<rparr>))"
| "ddl_effect sv (CreateFunction s n written) cat =
     (case map_of (cat_procs cat) (s, n) of
        None \<Rightarrow> Inr (cat\<lparr>cat_procs := put (s, n) (cat_next cat) (cat_procs cat),
            cat_functions := put (cat_next cat)
              \<lparr>fr_OID = cat_next cat, fr_Marker = None, fr_Definition = sv_functiondef sv written\<rparr> (cat_functions cat),
            cat_next := Suc (cat_next cat)\<rparr>)
      | Some oid \<Rightarrow> Inr (cat\<lparr>cat_functions := put oid
            ((get zero_function (cat_functions cat) oid)\<lparr>fr_OID := oid, fr_Definition := sv_functiondef sv written\<rparr>)
            (cat_functions cat)\<rparr>))"
| "ddl_effect sv (RevokeExecute s n) cat =
     (case map_of (cat_procs cat) (s, n) of None \<Rightarrow> Inl undefined_function | Some _ \<Rightarrow> Inr cat)"
| "ddl_effect sv (CommentFunction s n m) cat =
     (case map_of (cat_procs cat) (s, n) of None \<Rightarrow> Inl undefined_function | Some oid \<Rightarrow>
      Inr (cat\<lparr>cat_functions := put oid ((get zero_function (cat_functions cat) oid)\<lparr>fr_Marker := Some m\<rparr>)
        (cat_functions cat)\<rparr>))"
| "ddl_effect sv (CreateTrigger s t n fs fn written) cat =
     (case find_relation s t cat of None \<Rightarrow> Inl undefined_table | Some r \<Rightarrow>
     (case map_of (cat_procs cat) (fs, fn) of None \<Rightarrow> Inl undefined_function | Some foid \<Rightarrow>
      if map_of (cat_triggers cat) (tr_OID r, n) \<noteq> None then Inl duplicate_object
      else Inr (cat\<lparr>cat_triggers := put (tr_OID r, n)
          \<lparr>gr_OID = cat_next cat, gr_FunctionOID = foid, gr_Marker = None, gr_Definition = sv_triggerdef sv written\<rparr>
          (cat_triggers cat), cat_next := Suc (cat_next cat)\<rparr>)))"
| "ddl_effect sv (CommentTrigger s t n m) cat =
     (case find_relation s t cat of None \<Rightarrow> Inl undefined_table | Some r \<Rightarrow>
     (case map_of (cat_triggers cat) (tr_OID r, n) of None \<Rightarrow> Inl undefined_object | Some g \<Rightarrow>
      Inr (cat\<lparr>cat_triggers := put (tr_OID r, n) (g\<lparr>gr_Marker := Some m\<rparr>) (cat_triggers cat)\<rparr>)))"

definition exec_ddl :: "server \<Rightarrow> ddl \<Rightarrow> catalog \<Rightarrow> pg_error + catalog" where
  "exec_ddl sv stmt cat = unless_fault (sv_exec_fault sv stmt) (ddl_effect sv stmt cat)"

definition query_ok :: "server \<Rightarrow> query \<Rightarrow> reconcile_error option" where
  "query_ok sv q = map_option DatabaseError (sv_query_fault sv q)"

section \<open>Catalog readings\<close>

definition ResolveTarget :: "server \<Rightarrow> catalog \<Rightarrow> string \<Rightarrow> reconcile_error + TargetReading option" where
  "ResolveTarget sv cat name =
     unless_fault (query_ok sv (QRelationName name))
       (Inr (case sv_regclass sv name of None \<Rightarrow> None | Some (s, t) \<Rightarrow> find_relation s t cat))"

definition ResolveTargetOID :: "server \<Rightarrow> catalog \<Rightarrow> nat \<Rightarrow> reconcile_error + TargetReading option" where
  "ResolveTargetOID sv cat oid = unless_fault (query_ok sv (QRelationOID oid)) (Inr (find_relation_oid oid cat))"

definition ReadTrigger :: "server \<Rightarrow> catalog \<Rightarrow> nat \<Rightarrow> string \<Rightarrow> reconcile_error + TriggerReading option" where
  "ReadTrigger sv cat targetOID name =
     unless_fault (query_ok sv (QTrigger targetOID name)) (Inr (map_of (cat_triggers cat) (targetOID, name)))"

definition ReadFunction :: "server \<Rightarrow> catalog \<Rightarrow> nat \<Rightarrow> reconcile_error + FunctionReading option" where
  "ReadFunction sv cat oid = unless_fault (query_ok sv (QFunction oid)) (Inr (map_of (cat_functions cat) oid))"

definition ReadPair :: "server \<Rightarrow> catalog \<Rightarrow> nat \<Rightarrow> string \<Rightarrow>
    reconcile_error + (TriggerReading \<times> FunctionReading) option" where
  "ReadPair sv cat targetOID triggerName =
     and_then (ReadTrigger sv cat targetOID triggerName) (\<lambda>found.
       case found of None \<Rightarrow> Inr None | Some trigger \<Rightarrow>
       and_then (ReadFunction sv cat (gr_FunctionOID trigger)) (\<lambda>found'.
         case found' of None \<Rightarrow> Inr None | Some function \<Rightarrow> Inr (Some (trigger, function))))"

definition SchemaExists :: "server \<Rightarrow> catalog \<Rightarrow> string \<Rightarrow> reconcile_error + bool" where
  "SchemaExists sv cat name = unless_fault (query_ok sv (QSchema name)) (Inr (name \<in> set (cat_schemas cat)))"

section \<open>Target resolution\<close>

record targetState =
  sg_recorded :: bool
  sg_oid :: bool
  sg_named :: bool
  sg_sameName :: bool

definition classifyTarget :: "targetState \<Rightarrow> targetOutcome" where
  "classifyTarget state =
     (if \<not> sg_recorded state \<and> sg_named state then targetNew
      else if sg_oid state \<and> sg_sameName state then targetHealthy
      else if sg_oid state then targetRenamed
      else if sg_named state then targetDroppedAndRecreated
      else targetDropped)"

definition droppedResolution :: "string \<Rightarrow> string \<Rightarrow> targetResolution" where
  "droppedResolution listener table =
     \<lparr>tn_Outcome = targetDropped, tn_Target = zero_target, tn_Refusal = Some (droppedTargetRefusal listener table)\<rparr>"

definition targetHasRecordedName :: "server \<Rightarrow> TargetReading option \<Rightarrow> string \<Rightarrow> reconcile_error + bool" where
  "targetHasRecordedName sv reading recorded =
     (case reading of None \<Rightarrow> Inr False | Some r \<Rightarrow>
     (case Qualified (sv_sanitize sv) (tr_Schema r) (tr_Table r) of (name, fault) \<Rightarrow>
        if fault \<noteq> IdentifierOK then Inl (UnusableName (tr_Schema r) (tr_Table r) fault)
        else Inr (name = recorded)))"

definition resolvedNewTarget :: "Listener \<Rightarrow> string \<Rightarrow> TargetReading option \<Rightarrow> targetResolution" where
  "resolvedNewTarget listener name reading =
     (let outcome = classifyTarget \<lparr>sg_recorded = False, sg_oid = False, sg_named = (reading \<noteq> None), sg_sameName = False\<rparr> in
      if outcome = targetDropped then droppedResolution (li_Name listener) name
      else \<lparr>tn_Outcome = outcome, tn_Target = (case reading of Some r \<Rightarrow> r | None \<Rightarrow> zero_target), tn_Refusal = None\<rparr>)"

definition resolvedRecordedTarget :: "Listener \<Rightarrow> string \<Rightarrow> TargetReading option \<Rightarrow> TargetReading option \<Rightarrow> targetOutcome \<Rightarrow> targetResolution" where
  "resolvedRecordedTarget listener name byOID byName outcome =
     (if outcome = targetDropped then droppedResolution (li_Name listener) name
      else if outcome = targetDroppedAndRecreated
      then \<lparr>tn_Outcome = outcome, tn_Target = (case byName of Some r \<Rightarrow> r | None \<Rightarrow> zero_target), tn_Refusal = None\<rparr>
      else \<lparr>tn_Outcome = outcome, tn_Target = (case byOID of Some r \<Rightarrow> r | None \<Rightarrow> zero_target), tn_Refusal = None\<rparr>)"

definition moved :: "registryListener \<Rightarrow> TargetReading option \<Rightarrow> TargetReading option \<Rightarrow> bool" where
  "moved recorded byOID byConfigured \<longleftrightarrow>
     byOID \<noteq> None \<and> (case byConfigured of Some r \<Rightarrow> tr_OID r \<noteq> rl_TargetOID recorded | None \<Rightarrow> False)"

definition resolveListenerTarget :: "server \<Rightarrow> catalog \<Rightarrow> Listener \<Rightarrow> registryListener option \<Rightarrow> reconcile_error + targetResolution" where
  "resolveListenerTarget sv cat listener recorded =
     (let name = ts_Table (li_Trigger listener) in
      case recorded of
        None \<Rightarrow> and_then (ResolveTarget sv cat name) (\<lambda>reading. Inr (resolvedNewTarget listener name reading))
      | Some prior \<Rightarrow>
          and_then (ResolveTargetOID sv cat (rl_TargetOID prior)) (\<lambda>byOID.
          and_then (ResolveTarget sv cat (rl_TargetTable prior)) (\<lambda>byName.
          and_then (if name \<noteq> rl_TargetTable prior then ResolveTarget sv cat name else Inr byName) (\<lambda>byConfigured.
            if moved prior byOID byConfigured then
              Inr \<lparr>tn_Outcome = targetDropped, tn_Target = zero_target,
                   tn_Refusal = Some (retargetedListenerRefusal (li_Name listener) (rl_TargetTable prior) name)\<rparr>
            else and_then (targetHasRecordedName sv byOID (rl_TargetTable prior)) (\<lambda>sameName.
              Inr (resolvedRecordedTarget listener (rl_TargetTable prior) byOID byName
                (classifyTarget \<lparr>sg_recorded = True, sg_oid = (byOID \<noteq> None), sg_named = (byName \<noteq> None),
                   sg_sameName = sameName\<rparr>)))))))"

section \<open>Compilation and specification\<close>

definition compileListener :: "server \<Rightarrow> string \<Rightarrow> string \<Rightarrow> Listener \<Rightarrow> TargetReading \<Rightarrow> reconcile_error + ObjectSet list" where
  "compileListener sv inst serviceSchema listener reading =
     (case Generate (sv_sanitize sv)
        \<lparr>rq_Instance = inst, rq_ServiceSchema = serviceSchema, rq_Listener = listener,
         rq_Target = \<lparr>tg_Schema = tr_Schema reading, tg_Table = tr_Table reading,
           tg_PrimaryKeyColumns = tr_PrimaryKeyColumns reading\<rparr>\<rparr> of
        Inl e \<Rightarrow> Inl (GenerateError (li_Name listener) e)
      | Inr sets \<Rightarrow> Inr sets)"

record listenerSpec =
  sp_Bytes :: bytes
  sp_Hash :: string

definition deriveListenerSpec :: "server \<Rightarrow> TriggerSpec \<Rightarrow> listenerSpec" where
  "deriveListenerSpec sv trigger =
     \<lparr>sp_Bytes = json_Marshal sv trigger, sp_Hash = hex_EncodeToString (sha256 (json_Marshal sv trigger))\<rparr>"

definition triggerSharedFieldsChanged :: "server \<Rightarrow> TriggerSpec \<Rightarrow> TriggerSpec \<Rightarrow> bool" where
  "triggerSharedFieldsChanged sv recorded desired \<longleftrightarrow>
     sp_Hash (deriveListenerSpec sv (recorded\<lparr>ts_Operations := []\<rparr>)) \<noteq>
     sp_Hash (deriveListenerSpec sv (desired\<lparr>ts_Operations := []\<rparr>))"

definition operationJSONByKind :: "server \<Rightarrow> Operation list \<Rightarrow> (string \<times> bytes) list" where
  "operationJSONByKind sv operations =
     foldl (\<lambda>m operation. put (op_Kind operation) (json_MarshalOperation sv operation) m) [] operations"

definition changedTriggerOperations :: "server \<Rightarrow> TriggerSpec \<Rightarrow> TriggerSpec \<Rightarrow> (string \<times> bool) list" where
  "changedTriggerOperations sv recorded desired =
     (let shared = triggerSharedFieldsChanged sv recorded desired;
          prior = operationJSONByKind sv (ts_Operations recorded);
          current = operationJSONByKind sv (ts_Operations desired)
      in map (\<lambda>(kind, encoded). (kind, shared \<or> get [] prior kind \<noteq> encoded)) current)"

definition listenerOperationChanges :: "server \<Rightarrow> registryListener \<Rightarrow> TriggerSpec \<Rightarrow>
    reconcile_error + (string \<times> bool) list \<times> bool" where
  "listenerOperationChanges sv prior desired =
     (if rl_Name prior = [] then Inr ([], False)
      else case json_Unmarshal sv (rl_Spec prior) of
        None \<Rightarrow> Inl InvalidSpec
      | Some recorded \<Rightarrow> Inr (changedTriggerOperations sv recorded desired, True))"

section \<open>The registry\<close>

definition registry_ready :: "registryReading \<Rightarrow> reconcile_error + registryReading" where
  "registry_ready row =
     (case SplitQualified (rl_TargetTable (rr_Listener row)) of
        None \<Rightarrow> Inl (InvalidStoredTarget (rl_Name (rr_Listener row)))
      | Some _ \<Rightarrow> Inr (row\<lparr>rr_Triggers := sort_key gt_Operation (rr_Triggers row)\<rparr>))"

definition find_row :: "string \<Rightarrow> catalog \<Rightarrow> registryReading option" where
  "find_row name cat = List.find (\<lambda>row. rl_Name (rr_Listener row) = name) (cat_registry cat)"

definition readRegistry :: "server \<Rightarrow> catalog \<Rightarrow> string \<Rightarrow> reconcile_error + registryReading" where
  "readRegistry sv cat name =
     unless_fault (query_ok sv QRegistry)
       (case find_row name cat of None \<Rightarrow> Inl NoRows | Some row \<Rightarrow> registry_ready row)"

definition readRegistries :: "server \<Rightarrow> catalog \<Rightarrow> reconcile_error + registryReading list" where
  "readRegistries sv cat =
     unless_fault (query_ok sv QRegistry)
       (collect (readRegistry sv cat) (sort (map (\<lambda>row. rl_Name (rr_Listener row)) (cat_registry cat))))"

definition registryByName :: "registryReading list \<Rightarrow> (string \<times> registryReading) list" where
  "registryByName readings = foldl (\<lambda>m r. put (rl_Name (rr_Listener r)) r m) [] readings"

definition configuredByName :: "Listener list \<Rightarrow> (string \<times> Listener) list" where
  "configuredByName listeners = foldl (\<lambda>m l. put (li_Name l) l m) [] listeners"

definition canonicalTarget :: "server \<Rightarrow> string \<Rightarrow> reconcile_error + string" where
  "canonicalTarget sv stored =
     (case SplitQualified stored of
        None \<Rightarrow> Inl (InvalidStoredTarget stored)
      | Some (s, t) \<Rightarrow>
          (case Qualified (sv_sanitize sv) s t of (q, fault) \<Rightarrow>
             if fault \<noteq> IdentifierOK then Inl (UnusableName s t fault) else Inr q))"

definition same_listener_row :: "registryListener \<Rightarrow> registryListener \<Rightarrow> bool" where
  "same_listener_row a b \<longleftrightarrow>
     rl_Spec a = rl_Spec b \<and> rl_SpecHash a = rl_SpecHash b \<and> rl_TargetTable a = rl_TargetTable b \<and>
     rl_TargetOID a = rl_TargetOID b \<and> rl_Enabled a = rl_Enabled b"

definition upsert_triggers :: "registryTrigger list \<Rightarrow> registryTrigger list \<Rightarrow> registryTrigger list" where
  "upsert_triggers stored triggers =
     map snd (foldl (\<lambda>m g. put (gt_Operation g) g m) (map (\<lambda>g. (gt_Operation g, g)) stored) triggers)"

definition kept_triggers :: "registryTrigger list \<Rightarrow> registryTrigger list \<Rightarrow> registryTrigger list" where
  "kept_triggers stored triggers =
     filter (\<lambda>g. gt_Operation g \<in> gt_Operation ` set triggers) (upsert_triggers stored triggers)"

definition written_row :: "server \<Rightarrow> registryListener \<Rightarrow> registryTrigger list \<Rightarrow> registryReading option \<Rightarrow> registryReading" where
  "written_row sv listener triggers stored =
     (case stored of
        None \<Rightarrow> \<lparr>rr_Listener = listener\<lparr>rl_AppliedAt := sv_now sv\<rparr>, rr_Triggers = kept_triggers [] triggers\<rparr>
      | Some row \<Rightarrow>
          (let listenerChanged = (\<not> same_listener_row (rr_Listener row) listener);
               triggers' = kept_triggers (rr_Triggers row) triggers;
               changed = (listenerChanged \<or> triggers' \<noteq> rr_Triggers row)
           in \<lparr>rr_Listener = listener\<lparr>rl_AppliedAt := (if changed then sv_now sv else rl_AppliedAt (rr_Listener row))\<rparr>,
               rr_Triggers = triggers'\<rparr>))"

definition store_row :: "registryReading \<Rightarrow> catalog \<Rightarrow> catalog" where
  "store_row row cat =
     (if rl_Name (rr_Listener row) \<in> (\<lambda>r. rl_Name (rr_Listener r)) ` set (cat_registry cat)
      then cat\<lparr>cat_registry := map (\<lambda>r. if rl_Name (rr_Listener r) = rl_Name (rr_Listener row) then row else r) (cat_registry cat)\<rparr>
      else cat\<lparr>cat_registry := cat_registry cat @ [row]\<rparr>)"

definition writeRegistry :: "server \<Rightarrow> registryListener \<Rightarrow> registryTrigger list \<Rightarrow> catalog \<Rightarrow> reconcile_error + catalog" where
  "writeRegistry sv listener triggers cat =
     and_then (canonicalTarget sv (rl_TargetTable listener)) (\<lambda>target.
     unless_fault (query_ok sv (QRegistryWrite (rl_Name listener))) (
     let row = written_row sv (listener\<lparr>rl_Spec := sv_jsonb sv (rl_Spec listener), rl_TargetTable := target\<rparr>) triggers
                 (find_row (rl_Name listener) cat);
         cat' = store_row row cat
     in and_then (readRegistry sv cat' (rl_Name listener)) (\<lambda>_. Inr cat')))"

definition deleteRegistry :: "server \<Rightarrow> string \<Rightarrow> catalog \<Rightarrow> reconcile_error + catalog" where
  "deleteRegistry sv name cat =
     unless_fault (query_ok sv (QRegistryWrite name))
       (Inr (cat\<lparr>cat_registry := filter (\<lambda>r. rl_Name (rr_Listener r) \<noteq> name) (cat_registry cat)\<rparr>))"

section \<open>Deferred validation\<close>

definition splitQualifiedTable :: "string \<Rightarrow> (string \<times> string) option" where
  "splitQualifiedTable value =
     (case Cut value ''.'' of None \<Rightarrow> None | Some (s, t) \<Rightarrow> if Contains t ''.'' then None else Some (s, t))"

definition deferredCheck :: "Listener \<Rightarrow> string \<Rightarrow> string \<Rightarrow> DeferredCheck" where
  "deferredCheck listener operation kind =
     (let st = (case splitQualifiedTable (ts_Table (li_Trigger listener)) of Some p \<Rightarrow> p | None \<Rightarrow> ([], [])) in
      \<lparr>dc_Listener = li_Name listener, dc_Operation = operation, dc_Kind = kind, dc_Schema = fst st, dc_Table = snd st,
       dc_Columns = [], dc_When = []\<rparr>)"

definition operation_checks :: "Listener \<Rightarrow> Operation \<Rightarrow> DeferredCheck list" where
  "operation_checks listener operation =
     (if op_Columns operation \<noteq> []
      then [(deferredCheck listener (op_Kind operation) ''columns_exist'')\<lparr>dc_Columns := op_Columns operation\<rparr>] else []) @
     (if op_When operation \<noteq> []
      then [(deferredCheck listener (op_Kind operation) ''when_parses'')\<lparr>dc_When := op_When operation\<rparr>] else [])"

definition listener_checks :: "Listener \<Rightarrow> DeferredCheck list" where
  "listener_checks listener =
     (if \<not> li_Enabled listener then []
      else deferredCheck listener [] ''table_exists'' #
        (if py_Mode (ts_Payload (li_Trigger listener)) = ''keys_only''
         then [deferredCheck listener [] ''primary_key_present''] else []) @
        concat (map (operation_checks listener) (ts_Operations (li_Trigger listener))))"

definition DeferredChecks :: "config \<Rightarrow> DeferredCheck list" where
  "DeferredChecks cfg = concat (map listener_checks (cf_Listeners cfg))"

definition deferredRules :: "(string \<times> string) list" where
  "deferredRules = [(''table_exists'', ''D1''), (''columns_exist'', ''D2''), (''primary_key_present'', ''D3''),
     (''when_parses'', ''D4'')]"

definition deferredDiagnostic :: "DeferredCheck \<Rightarrow> string \<Rightarrow> diagnostic" where
  "deferredDiagnostic check message =
     \<lparr>dg_Rule = get [] deferredRules (dc_Kind check), dg_Check = check, dg_Message = message\<rparr>"

definition validateDeferredKinds :: "DeferredCheck list \<Rightarrow> reconcile_error option" where
  "validateDeferredKinds checks =
     first_fault (\<lambda>check. if map_of deferredRules (dc_Kind check) = None
       then Some (RefusedError (unknownDeferredKindRefusal (dc_Kind check))) else None) checks"

definition resolveDeferredTarget :: "server \<Rightarrow> catalog \<Rightarrow> DeferredCheck \<Rightarrow> reconcile_error + TargetReading option \<times> string" where
  "resolveDeferredTarget sv cat check =
     (case Qualified (sv_sanitize sv) (dc_Schema check) (dc_Table check) of (name, fault) \<Rightarrow>
        if fault \<noteq> IdentifierOK then Inl (UnusableName (dc_Schema check) (dc_Table check) fault)
        else and_then (ResolveTarget sv cat name) (\<lambda>target. Inr (target, name)))"

definition missingTargetColumns :: "string list \<Rightarrow> string list \<Rightarrow> string list" where
  "missingTargetColumns want actual = filter (\<lambda>name. name \<notin> set actual) want"

definition missing_table :: "DeferredCheck \<Rightarrow> string \<Rightarrow> diagnostic" where
  "missing_table check name = deferredDiagnostic check (''target table '' @ name @ '' does not exist'')"

definition checkTableExists :: "server \<Rightarrow> catalog \<Rightarrow> DeferredCheck \<Rightarrow> reconcile_error + diagnostic option" where
  "checkTableExists sv cat check =
     and_then (resolveDeferredTarget sv cat check) (\<lambda>(target, name).
       Inr (if target \<noteq> None then None else Some (missing_table check name)))"

definition checkColumnsExist :: "server \<Rightarrow> catalog \<Rightarrow> DeferredCheck \<Rightarrow> reconcile_error + diagnostic option" where
  "checkColumnsExist sv cat check =
     and_then (resolveDeferredTarget sv cat check) (\<lambda>(target, name). Inr (
       case target of None \<Rightarrow> Some (missing_table check name) | Some r \<Rightarrow>
         let missing = missingTargetColumns (dc_Columns check) (tr_Columns r) in
         if missing = [] then None
         else Some (deferredDiagnostic check
           (''columns '' @ Join missing '', '' @ '' do not exist on target table '' @ name))))"

definition checkPrimaryKeyPresent :: "server \<Rightarrow> catalog \<Rightarrow> DeferredCheck \<Rightarrow> reconcile_error + diagnostic option" where
  "checkPrimaryKeyPresent sv cat check =
     and_then (resolveDeferredTarget sv cat check) (\<lambda>(target, name). Inr (
       case target of None \<Rightarrow> Some (missing_table check name) | Some r \<Rightarrow>
         if tr_PrimaryKeyColumns r \<noteq> [] then None
         else Some (deferredDiagnostic check (''target table '' @ name @ '' has no primary key''))))"

definition whenProbe :: "string \<Rightarrow> string \<Rightarrow> string \<Rightarrow> string" where
  "whenProbe oldTarget newTarget clause =
     ''SELECT 1 FROM '' @ oldTarget @ '' AS OLD, '' @ newTarget @ '' AS NEW WHERE ('' @ clause @ '')''"

definition checkWhenParses :: "server \<Rightarrow> catalog \<Rightarrow> DeferredCheck \<Rightarrow> reconcile_error + diagnostic option" where
  "checkWhenParses sv cat check =
     and_then (resolveDeferredTarget sv cat check) (\<lambda>(target, name).
       case target of None \<Rightarrow> Inr (Some (missing_table check name)) | Some r \<Rightarrow>
         (case Qualified (sv_sanitize sv) (tr_Schema r) (tr_Table r) of (qualified, fault) \<Rightarrow>
            if fault \<noteq> IdentifierOK then Inl (UnusableName (tr_Schema r) (tr_Table r) fault)
            else (case sv_prepare sv (whenProbe qualified qualified (dc_When check)) of
                    None \<Rightarrow> Inr None
                  | Some (PgError code message) \<Rightarrow> Inr (Some (deferredDiagnostic check
                      (''when clause is not valid for target table '' @ name @ '': '' @ message)))
                  | Some e \<Rightarrow> Inl (DatabaseError e))))"

definition validateCheck :: "server \<Rightarrow> catalog \<Rightarrow> DeferredCheck \<Rightarrow> reconcile_error + diagnostic option" where
  "validateCheck sv cat check =
     (if dc_Kind check = ''table_exists'' then checkTableExists sv cat check
      else if dc_Kind check = ''columns_exist'' then checkColumnsExist sv cat check
      else if dc_Kind check = ''primary_key_present'' then checkPrimaryKeyPresent sv cat check
      else if dc_Kind check = ''when_parses'' then checkWhenParses sv cat check
      else Inl (RefusedError (unknownDeferredKindRefusal (dc_Kind check))))"

definition validateInTransaction :: "server \<Rightarrow> config \<Rightarrow> catalog \<Rightarrow> reconcile_error + diagnostic list" where
  "validateInTransaction sv cfg cat =
     unless_fault (validateDeferredKinds (DeferredChecks cfg))
       (and_then (collect (validateCheck sv cat) (DeferredChecks cfg))
          (\<lambda>reports. Inr (concat (map (\<lambda>r. case r of None \<Rightarrow> [] | Some d \<Rightarrow> [d]) reports))))"

section \<open>Planning from the database\<close>

record objectNames =
  on_trigger :: string
  on_function :: string

record gathered =
  ga_Input :: diffInput
  ga_Names :: "(Pair \<times> objectNames) list"

definition recorded_prior :: "registryReading \<Rightarrow> registryListener option" where
  "recorded_prior recorded = (if rl_Name (rr_Listener recorded) \<noteq> [] then Some (rr_Listener recorded) else None)"

definition add_set :: "Listener \<Rightarrow> listenerSpec \<Rightarrow> gathered \<Rightarrow> ObjectSet \<Rightarrow> gathered" where
  "add_set listener spec g set' =
     (let pair = \<lparr>pr_Listener = li_Name listener, pr_Operation = os_Operation set'\<rparr> in
      g\<lparr>ga_Input := (ga_Input g)\<lparr>di_Desired := di_Desired (ga_Input g) @
          [\<lparr>dp_Pair = pair, dp_ListenerPresent = True, dp_OperationPresent = True, dp_Enabled = li_Enabled listener,
            dp_SpecificationChanged = False, dp_SpecificationKnown = False, dp_SpecHash = sp_Hash spec\<rparr>]\<rparr>,
        ga_Names := put pair \<lparr>on_trigger = os_TriggerName set', on_function = os_FunctionName set'\<rparr> (ga_Names g)\<rparr>)"

definition addConfiguredSource :: "server \<Rightarrow> catalog \<Rightarrow> config \<Rightarrow> (string \<times> registryReading) list \<Rightarrow>
    gathered \<Rightarrow> Listener \<Rightarrow> reconcile_error + gathered" where
  "addConfiguredSource sv cat cfg recordedByName g listener =
     (let recorded = get zero_reading recordedByName (li_Name listener);
          spec = deriveListenerSpec sv (li_Trigger listener) in
      and_then (resolveListenerTarget sv cat listener (recorded_prior recorded)) (\<lambda>target.
      and_then (listenerOperationChanges sv (rr_Listener recorded) (li_Trigger listener)) (\<lambda>(changes, known).
      let input = (ga_Input g)\<lparr>di_Targets := put (li_Name listener) target (di_Targets (ga_Input g)),
            di_Listeners := di_Listeners (ga_Input g) @
              [\<lparr>dl_Name = li_Name listener, dl_SpecHash = sp_Hash spec, dl_Enabled = li_Enabled listener,
                dl_SpecificationKnown = known, dl_ChangedOperations = changes\<rparr>]\<rparr>;
          g' = g\<lparr>ga_Input := input\<rparr>
      in if tn_Refusal target \<noteq> None then Inr g'
         else and_then (compileListener sv (cf_Instance cfg) (cf_Schema cfg) listener (tn_Target target)) (\<lambda>sets.
           Inr (foldl (add_set listener spec) g' sets)))))"

definition recorded_as_configured :: "registryReading \<Rightarrow> Listener" where
  "recorded_as_configured reading =
     \<lparr>li_Name = rl_Name (rr_Listener reading), li_Enabled = False,
      li_Trigger = \<lparr>ts_Table = rl_TargetTable (rr_Listener reading), ts_Operations = [],
        ts_Payload = \<lparr>py_Mode = [], py_Columns = [], py_Exclude = [], py_IncludeOld = False, py_MaxBytes = 0\<rparr>\<rparr>\<rparr>"

definition addRecordedSource :: "server \<Rightarrow> catalog \<Rightarrow> registryReading \<Rightarrow> (string \<times> targetResolution) list \<Rightarrow>
    reconcile_error + (string \<times> targetResolution) list" where
  "addRecordedSource sv cat reading targets =
     and_then (resolveListenerTarget sv cat (recorded_as_configured reading) (Some (rr_Listener reading)))
       (\<lambda>target. Inr (put (rl_Name (rr_Listener reading)) target targets))"

definition recorded_pair :: "registryReading \<Rightarrow> registryTrigger \<Rightarrow> recordedPair" where
  "recorded_pair reading trigger =
     \<lparr>rp_Pair = \<lparr>pr_Listener = rl_Name (rr_Listener reading), pr_Operation = gt_Operation trigger\<rparr>,
      rp_ListenerPresent = True, rp_TriggerPresent = True, rp_Listener = rr_Listener reading, rp_Trigger = trigger\<rparr>"

definition add_reading :: "server \<Rightarrow> catalog \<Rightarrow> gathered \<Rightarrow> registryReading \<Rightarrow> reconcile_error + gathered" where
  "add_reading sv cat g reading =
     (let input = ga_Input g; name = rl_Name (rr_Listener reading) in
      and_then (if map_of (di_Targets input) name \<noteq> None then Inr (di_Targets input)
                else addRecordedSource sv cat reading (di_Targets input)) (\<lambda>targets.
      let records = (if rr_Triggers reading = []
            then [\<lparr>rp_Pair = \<lparr>pr_Listener = name, pr_Operation = []\<rparr>, rp_ListenerPresent = True, rp_TriggerPresent = False,
                   rp_Listener = rr_Listener reading, rp_Trigger = zero_registryTrigger\<rparr>]
            else map (recorded_pair reading) (rr_Triggers reading)) in
      Inr \<lparr>ga_Input = input\<lparr>di_Targets := targets, di_Recorded := di_Recorded input @ records\<rparr>,
           ga_Names = foldl (\<lambda>m trigger. put \<lparr>pr_Listener = name, pr_Operation = gt_Operation trigger\<rparr>
             \<lparr>on_trigger = gt_TriggerName trigger, on_function = gt_FunctionName trigger\<rparr> m)
             (ga_Names g) (rr_Triggers reading)\<rparr>))"

definition readObservedPair :: "server \<Rightarrow> catalog \<Rightarrow> (string \<times> targetResolution) list \<Rightarrow> Pair \<times> objectNames \<Rightarrow>
    reconcile_error + observedPair" where
  "readObservedPair sv cat targets e =
     (let target = get zero_resolution targets (pr_Listener (fst e));
          observed = zero_observed\<lparr>vp_Pair := fst e\<rparr> in
      if tn_Refusal target \<noteq> None then Inr observed
      else and_then (ReadTrigger sv cat (tr_OID (tn_Target target)) (on_trigger (snd e))) (\<lambda>found.
        case found of None \<Rightarrow> Inr observed | Some trigger \<Rightarrow>
        and_then (ReadFunction sv cat (gr_FunctionOID trigger)) (\<lambda>found'.
          case found' of
            None \<Rightarrow> Inr (observed\<lparr>vp_Trigger := trigger, vp_TriggerPresent := True\<rparr>)
          | Some function \<Rightarrow> Inr (observed\<lparr>vp_Trigger := trigger, vp_TriggerPresent := True,
              vp_Function := function, vp_FunctionPresent := True\<rparr>))))"

definition zero_input :: "string \<Rightarrow> diffInput" where
  "zero_input inst = \<lparr>di_Desired = [], di_Recorded = [], di_Observed = [], di_Listeners = [], di_Targets = [], di_Instance = inst\<rparr>"

definition gather :: "server \<Rightarrow> config \<Rightarrow> catalog \<Rightarrow> reconcile_error + diffInput" where
  "gather sv cfg cat =
     and_then (readRegistries sv cat) (\<lambda>readings.
     and_then (fold_result (addConfiguredSource sv cat cfg (registryByName readings))
                 \<lparr>ga_Input = zero_input (cf_Instance cfg), ga_Names = []\<rparr> (cf_Listeners cfg)) (\<lambda>g.
     and_then (fold_result (add_reading sv cat) g readings) (\<lambda>g'.
     and_then (collect (readObservedPair sv cat (di_Targets (ga_Input g'))) (ga_Names g')) (\<lambda>observed.
       Inr ((ga_Input g')\<lparr>di_Observed := observed\<rparr>)))))"

definition diffFromDatabase :: "server \<Rightarrow> config \<Rightarrow> catalog \<Rightarrow> reconcile_error + PlanResult" where
  "diffFromDatabase sv cfg cat = and_then (gather sv cfg cat) (\<lambda>input. Inr (diff input))"

definition qualifiedRegistryTable :: "server \<Rightarrow> string \<Rightarrow> string \<Rightarrow> reconcile_error + string" where
  "qualifiedRegistryTable sv serviceSchema table =
     (case Qualified (sv_sanitize sv) serviceSchema table of (q, fault) \<Rightarrow>
        if fault \<noteq> IdentifierOK then Inl (UnusableName serviceSchema table fault) else Inr q)"

definition probe_table :: "server \<Rightarrow> string \<Rightarrow> catalog \<Rightarrow> string \<Rightarrow> reconcile_error + Refusal option" where
  "probe_table sv serviceSchema cat table =
     and_then (qualifiedRegistryTable sv serviceSchema table) (\<lambda>qualified.
       case ResolveTarget sv cat qualified of
         Inl _ \<Rightarrow> Inl (DatabaseError (DriverError ''cannot inspect bootstrap tables''))
       | Inr None \<Rightarrow> Inr (Some (absentBootstrapRefusal qualified))
       | Inr (Some _) \<Rightarrow> Inr None)"

definition probeBootstrap :: "server \<Rightarrow> string \<Rightarrow> catalog \<Rightarrow> reconcile_error + Refusal option" where
  "probeBootstrap sv serviceSchema cat =
     (case Quoted (sv_sanitize sv) serviceSchema of (quoted, fault) \<Rightarrow>
      if fault \<noteq> IdentifierOK then Inl (UnusableName serviceSchema [] fault)
      else case SchemaExists sv cat serviceSchema of
        Inl _ \<Rightarrow> Inl (DatabaseError (DriverError ''cannot inspect bootstrap schema''))
      | Inr False \<Rightarrow> Inr (Some (absentBootstrapRefusal (''schema '' @ quoted)))
      | Inr True \<Rightarrow>
          and_then (probe_table sv serviceSchema cat ''listeners'') (\<lambda>r.
            case r of Some refusal \<Rightarrow> Inr (Some refusal)
            | None \<Rightarrow> probe_table sv serviceSchema cat ''listener_triggers''))"

definition planInTransaction :: "server \<Rightarrow> config \<Rightarrow> catalog \<Rightarrow> reconcile_error + PlanResult" where
  "planInTransaction sv cfg cat =
     and_then (probeBootstrap sv (cf_Schema cfg) cat) (\<lambda>refusal.
       case refusal of Some r \<Rightarrow> Inr (zero_plan\<lparr>pn_Refusals := [r], pn_Verdict := VerdictError\<rparr>) | None \<Rightarrow>
       and_then (validateInTransaction sv cfg cat) (\<lambda>diagnostics.
         if diagnostics \<noteq> [] then Inr (zero_plan\<lparr>pn_Diagnostics := diagnostics, pn_Verdict := VerdictError\<rparr>)
         else diffFromDatabase sv cfg cat))"

section \<open>The objects of a plan\<close>

record applyObject =
  ao_Target :: TargetReading
  ao_ServiceSchema :: string
  ao_TriggerName :: string
  ao_FunctionName :: string
  ao_Drop :: bool
  ao_Creates :: "ddl list"

definition zero_object :: applyObject where
  "zero_object = \<lparr>ao_Target = zero_target, ao_ServiceSchema = [], ao_TriggerName = [], ao_FunctionName = [],
     ao_Drop = False, ao_Creates = []\<rparr>"

definition recordedNames :: "registryReading \<Rightarrow> string \<Rightarrow> string \<times> string" where
  "recordedNames recorded operation =
     (case List.find (\<lambda>candidate. gt_Operation candidate = operation) (rr_Triggers recorded) of
        Some candidate \<Rightarrow> (gt_TriggerName candidate, gt_FunctionName candidate) | None \<Rightarrow> ([], []))"

definition setForAction :: "server \<Rightarrow> config \<Rightarrow> Listener \<Rightarrow> TargetReading \<Rightarrow> string \<Rightarrow> reconcile_error + ObjectSet option" where
  "setForAction sv cfg listener target operation =
     and_then (compileListener sv (cf_Instance cfg) (cf_Schema cfg) listener target) (\<lambda>sets.
       Inr (List.find (\<lambda>candidate. os_Operation candidate = operation) sets))"

text \<open>The five statements of a set, as the server reads their texts: the names are those the texts hold.\<close>

definition creates_of :: "string \<Rightarrow> TargetReading \<Rightarrow> ObjectSet \<Rightarrow> ddl list" where
  "creates_of serviceSchema target s =
     [CreateFunction serviceSchema (os_FunctionName s) (os_CreateFunction s),
      RevokeExecute serviceSchema (os_FunctionName s),
      CommentFunction serviceSchema (os_FunctionName s) (os_Marker s),
      CreateTrigger (tr_Schema target) (tr_Table target) (os_TriggerName s) serviceSchema (os_FunctionName s) (os_CreateTrigger s),
      CommentTrigger (tr_Schema target) (tr_Table target) (os_TriggerName s) (os_Marker s)]"

definition withDropOfWhatTheCatalogHolds :: "server \<Rightarrow> catalog \<Rightarrow> applyObject \<Rightarrow> reconcile_error + applyObject" where
  "withDropOfWhatTheCatalogHolds sv cat object =
     and_then (ReadTrigger sv cat (tr_OID (ao_Target object)) (ao_TriggerName object)) (\<lambda>held.
       Inr (object\<lparr>ao_Drop := (held \<noteq> None)\<rparr>))"

text \<open>A create or replace always finds its set, because its pair came from the compiled sets of the same
  listener and target; the other case of \<open>object_of_set\<close> only totals the function.\<close>

definition object_of_set :: "config \<Rightarrow> TargetReading \<Rightarrow> ActionKind \<Rightarrow> string \<times> string \<Rightarrow> ObjectSet option \<Rightarrow> applyObject" where
  "object_of_set cfg target kind names found =
     \<lparr>ao_Target = target, ao_ServiceSchema = cf_Schema cfg,
      ao_TriggerName = (case found of Some s \<Rightarrow> os_TriggerName s | None \<Rightarrow> fst names),
      ao_FunctionName = (case found of Some s \<Rightarrow> os_FunctionName s | None \<Rightarrow> snd names),
      ao_Drop = (kind = ActionDisable \<or> kind = ActionReplace),
      ao_Creates = (if kind = ActionCreate \<or> kind = ActionReplace
        then (case found of Some s \<Rightarrow> creates_of (cf_Schema cfg) target s | None \<Rightarrow> []) else [])\<rparr>"

definition objectForAction :: "server \<Rightarrow> config \<Rightarrow> catalog \<Rightarrow> Action \<Rightarrow> Listener option \<Rightarrow> registryReading \<Rightarrow>
    reconcile_error + applyObject" where
  "objectForAction sv cfg cat action configured recorded =
     (let listener = (case configured of Some l \<Rightarrow> l | None \<Rightarrow> recorded_as_configured recorded);
          names = recordedNames recorded (pr_Operation (ac_Pair action)) in
      and_then (resolveListenerTarget sv cat listener (recorded_prior recorded)) (\<lambda>resolution.
        if tn_Refusal resolution \<noteq> None then Inr zero_object
        else if ac_Kind action = ActionDrop then
          withDropOfWhatTheCatalogHolds sv cat
            \<lparr>ao_Target = tn_Target resolution, ao_ServiceSchema = cf_Schema cfg, ao_TriggerName = fst names,
             ao_FunctionName = snd names, ao_Drop = True, ao_Creates = []\<rparr>
        else and_then (setForAction sv cfg listener (tn_Target resolution) (pr_Operation (ac_Pair action))) (\<lambda>found.
          let object = object_of_set cfg (tn_Target resolution) (ac_Kind action) names found in
          if \<not> ao_Drop object then Inr object else withDropOfWhatTheCatalogHolds sv cat object)))"

definition contributes :: "Action \<Rightarrow> Listener option \<Rightarrow> registryReading \<Rightarrow> bool" where
  "contributes action configured recorded \<longleftrightarrow>
     ac_Kind action \<noteq> ActionRename \<and>
     \<not> (ac_Kind action = ActionDrop \<and> configured = None \<and> rr_Triggers recorded = [])"

definition objectsForPlan :: "server \<Rightarrow> config \<Rightarrow> catalog \<Rightarrow> PlanResult \<Rightarrow> reconcile_error + applyObject list" where
  "objectsForPlan sv cfg cat plan =
     and_then (readRegistries sv cat) (\<lambda>readings.
       let recorded = registryByName readings; listeners = configuredByName (cf_Listeners cfg) in
       and_then (collect (\<lambda>action.
           and_then (objectForAction sv cfg cat action (map_of listeners (pr_Listener (ac_Pair action)))
               (get zero_reading recorded (pr_Listener (ac_Pair action)))) (\<lambda>object.
             Inr (if contributes action (map_of listeners (pr_Listener (ac_Pair action)))
                    (get zero_reading recorded (pr_Listener (ac_Pair action))) then [object] else [])))
           (pn_Actions plan)) (\<lambda>objects. Inr (concat objects)))"

section \<open>The apply transaction\<close>

definition ddlQualified :: "server \<Rightarrow> string \<Rightarrow> string \<Rightarrow> reconcile_error + string" where
  "ddlQualified sv schemaName name =
     (case Qualified (sv_sanitize sv) schemaName name of (q, fault) \<Rightarrow>
        if fault \<noteq> IdentifierOK then Inl (UnusableName schemaName name fault) else Inr q)"

definition ddlQuoted :: "server \<Rightarrow> string \<Rightarrow> reconcile_error + string" where
  "ddlQuoted sv name =
     (case Quoted (sv_sanitize sv) name of (q, fault) \<Rightarrow>
        if fault \<noteq> IdentifierOK then Inl (UnusableName name [] fault) else Inr q)"

definition dropTriggerText :: "server \<Rightarrow> TargetReading \<Rightarrow> string \<Rightarrow> reconcile_error + string" where
  "dropTriggerText sv target name =
     and_then (ddlQuoted sv name) (\<lambda>trigger.
     and_then (ddlQualified sv (tr_Schema target) (tr_Table target)) (\<lambda>table.
       Inr (''DROP TRIGGER '' @ trigger @ '' ON '' @ table)))"

definition dropFunctionText :: "server \<Rightarrow> string \<Rightarrow> string \<Rightarrow> reconcile_error + string" where
  "dropFunctionText sv serviceSchema name =
     and_then (ddlQualified sv serviceSchema name) (\<lambda>function. Inr (''DROP FUNCTION '' @ function @ ''()''))"

record applyGroup =
  ag_name :: string
  ag_target :: TargetReading
  ag_objects :: "applyObject list"

definition group_object :: "server \<Rightarrow> (string \<times> applyGroup) list \<Rightarrow> applyObject \<Rightarrow> reconcile_error + (string \<times> applyGroup) list" where
  "group_object sv byTarget object =
     and_then (ddlQualified sv (tr_Schema (ao_Target object)) (tr_Table (ao_Target object))) (\<lambda>name.
       Inr (case map_of byTarget name of
              None \<Rightarrow> put name \<lparr>ag_name = name, ag_target = ao_Target object, ag_objects = [object]\<rparr> byTarget
            | Some g \<Rightarrow> put name (g\<lparr>ag_objects := ag_objects g @ [object]\<rparr>) byTarget))"

definition groupedApplyObjects :: "server \<Rightarrow> applyObject list \<Rightarrow> reconcile_error + applyGroup list" where
  "groupedApplyObjects sv objects =
     and_then (fold_result (group_object sv) [] objects) (\<lambda>groups. Inr (sort_key ag_name (map snd groups)))"

text \<open>The running transaction: the statements counted so far, and the catalog or the error that stopped it.\<close>

type_synonym run = "nat \<times> (reconcile_error + catalog)"

definition stop_with :: "reconcile_error \<Rightarrow> run \<Rightarrow> run" where
  "stop_with e st = (case snd st of Inl _ \<Rightarrow> st | Inr _ \<Rightarrow> (fst st, Inl e))"

definition lockTimedOut :: "pg_error \<Rightarrow> bool" where
  "lockTimedOut e = (case e of PgError code _ \<Rightarrow> code = ''55P03'' | DriverError _ \<Rightarrow> False)"

definition change :: "server \<Rightarrow> TargetReading \<Rightarrow> ddl \<Rightarrow> run \<Rightarrow> run" where
  "change sv target stmt st =
     (case snd st of Inl _ \<Rightarrow> st | Inr cat \<Rightarrow>
     (case exec_ddl sv stmt cat of
        Inr cat' \<Rightarrow> (Suc (fst st), Inr cat')
      | Inl e \<Rightarrow>
          if lockTimedOut e then
            (case ddlQualified sv (tr_Schema target) (tr_Table target) of
               Inl e' \<Rightarrow> (fst st, Inl e')
             | Inr table \<Rightarrow> (fst st, Inl (RefusedError (tableLockTimeoutRefusal table (sv_blocker sv)))))
          else (fst st, Inl (DatabaseError e))))"

definition drop_object :: "server \<Rightarrow> applyObject \<Rightarrow> run \<Rightarrow> run" where
  "drop_object sv object st =
     (case dropTriggerText sv (ao_Target object) (ao_TriggerName object) of Inl e \<Rightarrow> stop_with e st | Inr _ \<Rightarrow>
      let st' = change sv (ao_Target object)
            (DropTrigger (tr_Schema (ao_Target object)) (tr_Table (ao_Target object)) (ao_TriggerName object)) st in
     (case dropFunctionText sv (ao_ServiceSchema object) (ao_FunctionName object) of Inl e \<Rightarrow> stop_with e st' | Inr _ \<Rightarrow>
      change sv (ao_Target object) (DropFunction (ao_ServiceSchema object) (ao_FunctionName object)) st'))"

definition applyDrops :: "server \<Rightarrow> applyGroup \<Rightarrow> run \<Rightarrow> run" where
  "applyDrops sv g st = fold (\<lambda>object st. if ao_Drop object then drop_object sv object st else st) (ag_objects g) st"

definition applyCreates :: "server \<Rightarrow> applyGroup \<Rightarrow> run \<Rightarrow> run" where
  "applyCreates sv g st = fold (\<lambda>object st. fold (change sv (ag_target g)) (ao_Creates object) st) (ag_objects g) st"

definition apply_group :: "server \<Rightarrow> applyGroup \<Rightarrow> run \<Rightarrow> run" where
  "apply_group sv g st = applyCreates sv g (applyDrops sv g st)"

definition apply_objects :: "server \<Rightarrow> applyObject list \<Rightarrow> run \<Rightarrow> run" where
  "apply_objects sv objects st =
     (case groupedApplyObjects sv objects of
        Inl e \<Rightarrow> stop_with e st
      | Inr groups \<Rightarrow> fold (apply_group sv) groups st)"

section \<open>Writing the registry\<close>

fun collect_triggers :: "server \<Rightarrow> catalog \<Rightarrow> TargetReading \<Rightarrow> ObjectSet list \<Rightarrow> registryTrigger list \<Rightarrow>
    reconcile_error + registryTrigger list" where
  "collect_triggers sv cat target [] acc = Inr acc"
| "collect_triggers sv cat target (s # sets) acc =
     and_then (ReadPair sv cat (tr_OID target) (os_TriggerName s)) (\<lambda>found.
       case found of None \<Rightarrow> Inr [] | Some (trigger, function) \<Rightarrow>
         collect_triggers sv cat target sets (acc @
           [\<lparr>gt_Operation = os_Operation s, gt_TriggerName = os_TriggerName s, gt_FunctionName = os_FunctionName s,
             gt_DDLHash = fingerprint (gr_Definition trigger) (fr_Definition function)\<rparr>]))"

definition registryTriggers :: "server \<Rightarrow> config \<Rightarrow> catalog \<Rightarrow> Listener \<Rightarrow> TargetReading \<Rightarrow>
    reconcile_error + registryTrigger list" where
  "registryTriggers sv cfg cat listener target =
     (if \<not> li_Enabled listener then Inr []
      else and_then (compileListener sv (cf_Instance cfg) (cf_Schema cfg) listener target) (\<lambda>sets.
        collect_triggers sv cat target sets []))"

definition prior_listener :: "reconcile_error + registryReading \<Rightarrow> reconcile_error + registryListener option" where
  "prior_listener r =
     (case r of Inr reading \<Rightarrow> Inr (recorded_prior reading) | Inl NoRows \<Rightarrow> Inr None | Inl e \<Rightarrow> Inl e)"

definition syncConfiguredListener :: "server \<Rightarrow> config \<Rightarrow> catalog \<Rightarrow> Listener \<Rightarrow> reconcile_error + catalog" where
  "syncConfiguredListener sv cfg cat listener =
     and_then (prior_listener (readRegistry sv cat (li_Name listener))) (\<lambda>prior.
     and_then (resolveListenerTarget sv cat listener prior) (\<lambda>resolution.
     and_then (case Qualified (sv_sanitize sv) (tr_Schema (tn_Target resolution)) (tr_Table (tn_Target resolution)) of
         (q, fault) \<Rightarrow> if fault \<noteq> IdentifierOK
           then Inl (UnusableName (tr_Schema (tn_Target resolution)) (tr_Table (tn_Target resolution)) fault) else Inr q) (\<lambda>target.
     and_then (registryTriggers sv cfg cat listener (tn_Target resolution)) (\<lambda>triggers.
     writeRegistry sv \<lparr>rl_Name = li_Name listener, rl_Spec = sp_Bytes (deriveListenerSpec sv (li_Trigger listener)),
       rl_SpecHash = sp_Hash (deriveListenerSpec sv (li_Trigger listener)), rl_TargetTable = target,
       rl_TargetOID = tr_OID (tn_Target resolution), rl_Enabled = li_Enabled listener, rl_AppliedAt = 0\<rparr> triggers cat))))"

definition syncRegistry :: "server \<Rightarrow> config \<Rightarrow> PlanResult \<Rightarrow> catalog \<Rightarrow> reconcile_error + catalog" where
  "syncRegistry sv cfg plan cat =
     (let changed = (\<lambda>a. pr_Listener (ac_Pair a)) ` set (pn_Actions plan);
          configured = configuredByName (cf_Listeners cfg) in
      and_then (fold_result (\<lambda>cat listener.
          if li_Name listener \<in> changed then syncConfiguredListener sv cfg cat listener else Inr cat)
        cat (cf_Listeners cfg)) (\<lambda>cat'.
      fold_result (\<lambda>cat action.
          if map_of configured (pr_Listener (ac_Pair action)) = None
          then deleteRegistry sv (pr_Listener (ac_Pair action)) cat else Inr cat)
        cat' (pn_Actions plan)))"

section \<open>Apply\<close>

record Approval =
  ap_DestructionPermitted :: bool
  ap_Approved :: bool
  ap_Interactive :: bool

record ApplyResult =
  ar_Plan :: PlanResult
  ar_Statements :: nat
  ar_Verdict :: Verdict
  ar_Stopped :: StopReason

text \<open>What becomes of the transaction itself: its opening, its two local settings and its commit can
  each fail, and a commit can take effect although its acknowledgement is lost. \<open>run_lock\<close> is what
  taking and giving back the run lock answered.\<close>

record transaction =
  tx_begin :: "pg_error option"
  tx_local :: "pg_error option"
  tx_commit :: "pg_error option"
  tx_took_effect :: bool

record run_lock =
  rk_acquire :: "reconcile_error + Refusal option"
  rk_release :: "reconcile_error option"

datatype work_end = WorkFailed reconcile_error | WorkStopped Verdict StopReason | WorkDone catalog

definition stop_for_refusal :: "server \<Rightarrow> Refusal \<Rightarrow> StopReason" where
  "stop_for_refusal sv r =
     (if Contains (Message (sv_quote sv) r) ''targets missing table'' then StopTargetDropped else StopOwnership)"

fun report_counts :: "server \<Rightarrow> config \<Rightarrow> string list \<Rightarrow> Action list \<Rightarrow> reconcile_error option" where
  "report_counts sv cfg reported [] = None"
| "report_counts sv cfg reported (a # as) =
     (let name = pr_Listener (ac_Pair a) in
      if ac_Kind a \<noteq> ActionDrop \<or> map_of (configuredByName (cf_Listeners cfg)) name \<noteq> None \<or> name \<in> set reported
      then report_counts sv cfg reported as
      else case query_ok sv (QQueue name) of Some e \<Rightarrow> Some e | None \<Rightarrow> report_counts sv cfg (name # reported) as)"

definition reportLiveQueueCounts :: "server \<Rightarrow> config \<Rightarrow> PlanResult \<Rightarrow> reconcile_error option" where
  "reportLiveQueueCounts sv cfg plan = report_counts sv cfg [] (pn_Actions plan)"

definition finish_work :: "server \<Rightarrow> config \<Rightarrow> PlanResult \<Rightarrow> run \<Rightarrow> nat \<times> work_end" where
  "finish_work sv cfg plan st =
     (case snd st of
        Inl e \<Rightarrow> (fst st, WorkFailed e)
      | Inr cat \<Rightarrow> (case syncRegistry sv cfg plan cat of
          Inl e \<Rightarrow> (fst st, WorkFailed e) | Inr cat' \<Rightarrow> (fst st, WorkDone cat')))"

definition apply_plan :: "server \<Rightarrow> config \<Rightarrow> Approval \<Rightarrow> PlanResult \<Rightarrow> catalog \<Rightarrow> nat \<times> work_end" where
  "apply_plan sv cfg approval plan cat =
     (if pn_Diagnostics plan \<noteq> [] then (0, WorkStopped VerdictError StopValidation)
      else if pn_Refusals plan \<noteq> [] then (0, WorkStopped VerdictError (stop_for_refusal sv (hd (pn_Refusals plan))))
      else if pn_Actions plan = [] then (0, WorkDone cat)
      else case (if plan_Destructive plan \<and> \<not> ap_DestructionPermitted approval
                 then reportLiveQueueCounts sv cfg plan else None) of
        Some e \<Rightarrow> (0, WorkFailed e)
      | None \<Rightarrow>
          (let decision = Decide (plan_Destructive plan) (ap_DestructionPermitted approval) (ap_Approved approval)
                 (ap_Interactive approval) in
           if \<not> de_Proceed decision then (0, WorkStopped VerdictChangesPending (de_Stopped decision))
           else case objectsForPlan sv cfg cat plan of
             Inl e \<Rightarrow> (0, WorkFailed e)
           | Inr objects \<Rightarrow> finish_work sv cfg plan (apply_objects sv objects (0, Inr cat))))"

definition apply_result :: "PlanResult \<Rightarrow> nat \<Rightarrow> Verdict \<Rightarrow> StopReason \<Rightarrow> ApplyResult" where
  "apply_result plan n v s = \<lparr>ar_Plan = plan, ar_Statements = n, ar_Verdict = v, ar_Stopped = s\<rparr>"

definition apply_locked :: "server \<Rightarrow> transaction \<Rightarrow> config \<Rightarrow> Approval \<Rightarrow> catalog \<Rightarrow>
    ApplyResult \<times> reconcile_error option \<times> catalog" where
  "apply_locked sv tx cfg approval cat =
     (case (case tx_begin tx of Some e \<Rightarrow> Some e | None \<Rightarrow> tx_local tx) of
        Some e \<Rightarrow> (apply_result zero_plan 0 VerdictUnset StopNone, Some (DatabaseError e), cat)
      | None \<Rightarrow>
     (case planInTransaction sv cfg cat of
        Inl e \<Rightarrow> (apply_result zero_plan 0 VerdictUnset StopNone, Some e, cat)
      | Inr plan \<Rightarrow>
     (case apply_plan sv cfg approval plan cat of
        (n, WorkFailed e) \<Rightarrow> (apply_result plan n VerdictUnset StopNone, Some e, cat)
      | (n, WorkStopped v s) \<Rightarrow> (apply_result plan n v s, None, cat)
      | (n, WorkDone cat') \<Rightarrow>
          (case tx_commit tx of
             None \<Rightarrow> (apply_result plan n VerdictClean StopNone, None, cat')
           | Some e \<Rightarrow> (apply_result plan n VerdictUnset StopNone, Some (DatabaseError e),
               if tx_took_effect tx then cat' else cat)))))"

definition Apply :: "server \<Rightarrow> transaction \<Rightarrow> run_lock \<Rightarrow> config \<Rightarrow> Approval \<Rightarrow> catalog \<Rightarrow>
    ApplyResult \<times> reconcile_error option \<times> catalog" where
  "Apply sv tx lock cfg approval cat =
     (case rk_acquire lock of
        Inl e \<Rightarrow> (apply_result zero_plan 0 VerdictUnset StopNone, Some e, cat)
      | Inr (Some refusal) \<Rightarrow>
          (apply_result (zero_plan\<lparr>pn_Refusals := [refusal], pn_Verdict := VerdictError\<rparr>) 0 VerdictError StopRunLockWaitExpired,
           None, cat)
      | Inr None \<Rightarrow>
          (case apply_locked sv tx cfg approval cat of
             (result, Some e, cat') \<Rightarrow> (result, Some e, cat')
           | (result, None, cat') \<Rightarrow> (result, rk_release lock, cat')))"

section \<open>Destroy\<close>

record Candidate =
  ca_Registry :: RegistryRow
  ca_Catalog :: CatalogObject
  ca_identity :: string

definition zero_object_reading :: CatalogObject where
  "zero_object_reading = \<lparr>co_Kind = [], co_Identity = [], co_Marker = None\<rparr>"

definition candidateForTrigger :: "RegistryRow \<Rightarrow> string \<Rightarrow> TriggerReading option \<Rightarrow> Candidate" where
  "candidateForTrigger row name reading =
     \<lparr>ca_Registry = row, ca_Catalog = (case reading of None \<Rightarrow> zero_object_reading
        | Some r \<Rightarrow> catalogTriggerObject r (''trigger '' @ name)), ca_identity = ''trigger:'' @ name\<rparr>"

definition candidateForFunction :: "RegistryRow \<Rightarrow> string \<Rightarrow> FunctionReading option \<Rightarrow> Candidate" where
  "candidateForFunction row name reading =
     \<lparr>ca_Registry = row, ca_Catalog = (case reading of None \<Rightarrow> zero_object_reading
        | Some r \<Rightarrow> catalogFunctionObject r (''function '' @ name)), ca_identity = ''function:'' @ name\<rparr>"

definition appendPair :: "server \<Rightarrow> catalog \<Rightarrow> RegistryRow \<Rightarrow> nat \<Rightarrow> string \<Rightarrow> string \<Rightarrow> bool \<Rightarrow> Candidate list \<Rightarrow>
    reconcile_error + Candidate list" where
  "appendPair sv cat row targetOID triggerName functionName absentRecordsTheRow into =
     and_then (ReadTrigger sv cat targetOID triggerName) (\<lambda>trigger.
       let into' = into @ [candidateForTrigger row triggerName trigger] in
       case trigger of
         None \<Rightarrow> Inr (if absentRecordsTheRow
           then into' @ [\<lparr>ca_Registry = row, ca_Catalog = zero_object_reading, ca_identity = []\<rparr>] else into')
       | Some g \<Rightarrow> and_then (ReadFunction sv cat (gr_FunctionOID g)) (\<lambda>function.
           Inr (into' @ [candidateForFunction row functionName function])))"

definition appendRecordedCandidates :: "server \<Rightarrow> catalog \<Rightarrow> Candidate list \<Rightarrow> registryReading \<Rightarrow> reconcile_error + Candidate list" where
  "appendRecordedCandidates sv cat into reading =
     fold_result (\<lambda>into trigger.
       appendPair sv cat (registryOwnershipRow (recorded_pair reading trigger)) (rl_TargetOID (rr_Listener reading))
         (gt_TriggerName trigger) (gt_FunctionName trigger) True into) into (rr_Triggers reading)"

definition appendConfiguredCandidates :: "server \<Rightarrow> config \<Rightarrow> catalog \<Rightarrow> Candidate list \<Rightarrow> Listener \<Rightarrow> reconcile_error + Candidate list" where
  "appendConfiguredCandidates sv cfg cat into listener =
     and_then (ResolveTarget sv cat (ts_Table (li_Trigger listener))) (\<lambda>found.
       case found of None \<Rightarrow> Inr into | Some target \<Rightarrow>
       and_then (compileListener sv (cf_Instance cfg) (cf_Schema cfg) listener target) (\<lambda>sets.
         fold_result (\<lambda>into s.
           appendPair sv cat (registryOwnershipRow (zero_recorded\<lparr>rp_Pair := \<lparr>pr_Listener = li_Name listener, pr_Operation = os_Operation s\<rparr>\<rparr>))
             (tr_OID target) (os_TriggerName s) (os_FunctionName s) False into) into sets))"

definition candidate_key :: "Candidate \<Rightarrow> string" where
  "candidate_key c = ca_identity c @ '':'' @ ro_Listener (ca_Registry c) @ '':'' @ ro_Operation (ca_Registry c)"

fun deduplicate :: "string list \<Rightarrow> Candidate list \<Rightarrow> Candidate list" where
  "deduplicate seen [] = []"
| "deduplicate seen (c # cs) =
     (if candidate_key c \<in> set seen then deduplicate seen cs else c # deduplicate (candidate_key c # seen) cs)"

definition OwnedCandidates :: "server \<Rightarrow> config \<Rightarrow> catalog \<Rightarrow> reconcile_error + Candidate list" where
  "OwnedCandidates sv cfg cat =
     and_then (readRegistries sv cat) (\<lambda>readings.
     and_then (fold_result (appendRecordedCandidates sv cat) [] readings) (\<lambda>recorded.
     and_then (fold_result (appendConfiguredCandidates sv cfg cat) recorded (cf_Listeners cfg)) (\<lambda>candidates.
       Inr (deduplicate [] candidates))))"

datatype destroy_end = DestroyFailed reconcile_error | DestroyUnconfirmed | DestroyQueueHeld | DestroyRefused Disagreement
  | DestroyDryRun nat | Destroyed nat | DestroyVerdict Verdict

definition buildDestroy :: "server \<Rightarrow> transaction \<Rightarrow> run_lock \<Rightarrow> config \<Rightarrow> bool \<Rightarrow> bool \<Rightarrow> bool \<Rightarrow> int \<Rightarrow>
    catalog \<Rightarrow> destroy_end \<times> catalog" where
  "buildDestroy sv tx lock cfg confirmed allowDelete dryRun queued cat =
     (if \<not> confirmed then (DestroyUnconfirmed, cat)
      else if queued \<noteq> 0 \<and> \<not> allowDelete then (DestroyQueueHeld, cat)
      else case OwnedCandidates sv cfg cat of
        Inl e \<Rightarrow> (DestroyFailed e, cat)
      | Inr candidates \<Rightarrow>
     (case List.find (\<lambda>c. \<not> ow_Owned (DetermineOwnership (ca_Registry c) (ca_Catalog c) (cf_Instance cfg))) candidates of
        Some c \<Rightarrow> (DestroyRefused (ow_Disagreement (DetermineOwnership (ca_Registry c) (ca_Catalog c) (cf_Instance cfg))), cat)
      | None \<Rightarrow>
          if dryRun then (DestroyDryRun (length candidates), cat)
          else (case Apply sv tx lock (cfg\<lparr>cf_Listeners := []\<rparr>)
                  \<lparr>ap_DestructionPermitted = True, ap_Approved = True, ap_Interactive = False\<rparr> cat of
                  (result, Some e, cat') \<Rightarrow> (DestroyFailed e, cat')
                | (result, None, cat') \<Rightarrow>
                    if ar_Verdict result \<noteq> VerdictClean then (DestroyVerdict (ar_Verdict result), cat')
                    else (Destroyed (length candidates), cat'))))"

end
