(* ===== verification/Reconcile_Gather.thy ===== *)
theory Reconcile_Gather
  imports Reconcile_Apply
begin

text \<open>
  The sources a plan is computed from, in explicit form: what the loops over configured listeners,
  registry readings and names leave in the input of \<open>diff\<close>, what each pair is classified from, and the
  plan as the sum of all classifications. The laws of the reconciler are proved over these facts.
\<close>

section \<open>Association lists as Go maps\<close>

lemma map_of_put [simp]: "map_of (put k v m) = (map_of m)(k \<mapsto> v)"
  by (induction m) auto

lemma get_put: "get z (put k v m) k' = (if k' = k then v else get z m k')"
  by (simp add: get_def)

lemma get_Nil [simp]: "get z [] k = z"
  by (simp add: get_def)

lemma keys_put: "fst ` set (put k v m) = insert k (fst ` set m)"
  by (induction m) auto

lemma distinct_put: "distinct (map fst m) \<Longrightarrow> distinct (map fst (put k v m))"
  using keys_put [of k v] by (induction m) auto

text \<open>The value a loop of writes leaves under a key is that of the last write to it.\<close>

lemma map_of_writes:
  "map_of (foldl (\<lambda>m x. put (key x) (val x) m) m xs) k =
     (case List.find (\<lambda>x. key x = k) (rev xs) of Some x \<Rightarrow> Some (val x) | None \<Rightarrow> map_of m k)"
  by (induction xs rule: rev_induct) auto

lemma find_rev_unique:
  assumes "distinct (map key xs)" "x \<in> set xs"
  shows "List.find (\<lambda>y. key y = key x) (rev xs) = Some x"
  using assms by (induction xs rule: rev_induct) (auto simp: image_iff) 

lemma map_of_writes_unique:
  assumes "distinct (map key xs)" "x \<in> set xs"
  shows "map_of (foldl (\<lambda>m x. put (key x) (val x) m) m xs) (key x) = Some (val x)"
  by (simp add: map_of_writes find_rev_unique [OF assms])

lemma map_of_writes_other:
  assumes "k \<notin> key ` set xs"
  shows "map_of (foldl (\<lambda>m x. put (key x) (val x) m) m xs) k = map_of m k"
  using assms by (induction xs rule: rev_induct) auto

section \<open>The gathered sources, explicitly\<close>

definition res_target :: "server \<Rightarrow> catalog \<Rightarrow> (string \<times> registryReading) list \<Rightarrow> Listener \<Rightarrow> targetResolution" where
  "res_target sv cat rec l =
     projr (resolveListenerTarget sv cat l (recorded_prior (get zero_reading rec (li_Name l))))"

definition res_sets :: "server \<Rightarrow> config \<Rightarrow> catalog \<Rightarrow> (string \<times> registryReading) list \<Rightarrow> Listener \<Rightarrow> ObjectSet list" where
  "res_sets sv cfg cat rec l =
     (if tn_Refusal (res_target sv cat rec l) \<noteq> None then []
      else projr (compileListener sv (cf_Instance cfg) (cf_Schema cfg) l (tn_Target (res_target sv cat rec l))))"

definition res_changes :: "server \<Rightarrow> (string \<times> registryReading) list \<Rightarrow> Listener \<Rightarrow> (string \<times> bool) list \<times> bool" where
  "res_changes sv rec l =
     projr (listenerOperationChanges sv (rr_Listener (get zero_reading rec (li_Name l))) (li_Trigger l))"

definition res_listener :: "server \<Rightarrow> (string \<times> registryReading) list \<Rightarrow> Listener \<Rightarrow> desiredListener" where
  "res_listener sv rec l =
     \<lparr>dl_Name = li_Name l, dl_SpecHash = sp_Hash (deriveListenerSpec sv (li_Trigger l)), dl_Enabled = li_Enabled l,
      dl_SpecificationKnown = snd (res_changes sv rec l), dl_ChangedOperations = fst (res_changes sv rec l)\<rparr>"

definition set_pair :: "Listener \<Rightarrow> ObjectSet \<Rightarrow> Pair" where
  "set_pair l s = \<lparr>pr_Listener = li_Name l, pr_Operation = os_Operation s\<rparr>"

definition set_desired :: "server \<Rightarrow> Listener \<Rightarrow> ObjectSet \<Rightarrow> desiredPair" where
  "set_desired sv l s =
     \<lparr>dp_Pair = set_pair l s, dp_ListenerPresent = True, dp_OperationPresent = True, dp_Enabled = li_Enabled l,
      dp_SpecificationChanged = False, dp_SpecificationKnown = False,
      dp_SpecHash = sp_Hash (deriveListenerSpec sv (li_Trigger l))\<rparr>"

definition set_names :: "Listener \<Rightarrow> ObjectSet \<Rightarrow> Pair \<times> objectNames" where
  "set_names l s = (set_pair l s, \<lparr>on_trigger = os_TriggerName s, on_function = os_FunctionName s\<rparr>)"

definition trigger_names :: "registryReading \<Rightarrow> registryTrigger \<Rightarrow> Pair \<times> objectNames" where
  "trigger_names reading g =
     (\<lparr>pr_Listener = rl_Name (rr_Listener reading), pr_Operation = gt_Operation g\<rparr>,
      \<lparr>on_trigger = gt_TriggerName g, on_function = gt_FunctionName g\<rparr>)"

definition put_all :: "('k \<times> 'v) list \<Rightarrow> ('k \<times> 'v) list \<Rightarrow> ('k \<times> 'v) list" where
  "put_all m es = foldl (\<lambda>m e. put (fst e) (snd e) m) m es"

definition configured_ok :: "server \<Rightarrow> config \<Rightarrow> catalog \<Rightarrow> (string \<times> registryReading) list \<Rightarrow> Listener \<Rightarrow> bool" where
  "configured_ok sv cfg cat rec l \<longleftrightarrow>
     resolveListenerTarget sv cat l (recorded_prior (get zero_reading rec (li_Name l))) = Inr (res_target sv cat rec l) \<and>
     listenerOperationChanges sv (rr_Listener (get zero_reading rec (li_Name l))) (li_Trigger l) = Inr (res_changes sv rec l) \<and>
     (tn_Refusal (res_target sv cat rec l) = None \<longrightarrow>
        compileListener sv (cf_Instance cfg) (cf_Schema cfg) l (tn_Target (res_target sv cat rec l)) =
        Inr (res_sets sv cfg cat rec l))"

lemma put_all_simps [simp]:
  "put_all m [] = m" "put_all m (e # es) = put_all (put (fst e) (snd e) m) es"
  by (simp_all add: put_all_def)

lemma add_sets_explicit:
  "foldl (add_set l spec) g sets =
     \<lparr>ga_Input = (ga_Input g)\<lparr>di_Desired := di_Desired (ga_Input g) @ map (\<lambda>s.
          \<lparr>dp_Pair = set_pair l s, dp_ListenerPresent = True, dp_OperationPresent = True, dp_Enabled = li_Enabled l,
           dp_SpecificationChanged = False, dp_SpecificationKnown = False, dp_SpecHash = sp_Hash spec\<rparr>) sets\<rparr>,
      ga_Names = put_all (ga_Names g) (map (set_names l) sets)\<rparr>"
proof (induction sets arbitrary: g)
  case (Cons s sets)
  show ?case
    unfolding foldl.simps Cons.IH
    by (simp add: add_set_def Let_def set_pair_def set_names_def [abs_def])
qed simp

definition with_configured :: "server \<Rightarrow> config \<Rightarrow> catalog \<Rightarrow> (string \<times> registryReading) list \<Rightarrow> gathered \<Rightarrow> Listener list \<Rightarrow> gathered" where
  "with_configured sv cfg cat rec g ls =
     \<lparr>ga_Input = (ga_Input g)
        \<lparr>di_Targets := put_all (di_Targets (ga_Input g)) (map (\<lambda>l. (li_Name l, res_target sv cat rec l)) ls),
         di_Listeners := di_Listeners (ga_Input g) @ map (res_listener sv rec) ls,
         di_Desired := di_Desired (ga_Input g) @ concat (map (\<lambda>l. map (set_desired sv l) (res_sets sv cfg cat rec l)) ls)\<rparr>,
      ga_Names = put_all (ga_Names g) (concat (map (\<lambda>l. map (set_names l) (res_sets sv cfg cat rec l)) ls))\<rparr>"

lemma put_all_append: "put_all m (xs @ ys) = put_all (put_all m xs) ys"
  by (simp add: put_all_def)

lemma addConfiguredSource_explicit:
  assumes "addConfiguredSource sv cat cfg rec g l = Inr g'"
  shows "configured_ok sv cfg cat rec l \<and> g' = with_configured sv cfg cat rec g [l]"
proof -
  let ?rec = "get zero_reading rec (li_Name l)"
  from assms obtain t c k where t: "resolveListenerTarget sv cat l (recorded_prior ?rec) = Inr t"
    and ck: "listenerOperationChanges sv (rr_Listener ?rec) (li_Trigger l) = Inr (c, k)"
    by (auto simp: addConfiguredSource_def Let_def go_err)
  have res: "res_target sv cat rec l = t" "res_changes sv rec l = (c, k)"
    by (simp_all add: res_target_def res_changes_def t ck)
  show ?thesis
  proof (cases "tn_Refusal t")
    case None
    with assms t ck obtain sets where sets: "compileListener sv (cf_Instance cfg) (cf_Schema cfg) l (tn_Target t) = Inr sets"
      by (auto simp: addConfiguredSource_def Let_def go_err)
    then have "res_sets sv cfg cat rec l = sets" by (simp add: res_sets_def res None)
    with assms t ck sets None res show ?thesis
      by (auto simp: addConfiguredSource_def Let_def add_sets_explicit with_configured_def configured_ok_def
          res_listener_def set_desired_def [abs_def])
  next
    case (Some r)
    then have "res_sets sv cfg cat rec l = []" by (simp add: res_sets_def res)
    with assms t ck Some res show ?thesis
      by (auto simp: addConfiguredSource_def Let_def with_configured_def configured_ok_def res_listener_def)
  qed
qed

lemma with_configured_append:
  "with_configured sv cfg cat rec (with_configured sv cfg cat rec g xs) ys = with_configured sv cfg cat rec g (xs @ ys)"
  by (simp add: with_configured_def put_all_append)

lemma configured_explicit:
  assumes "fold_result (addConfiguredSource sv cat cfg rec) g ls = Inr g'"
  shows "(\<forall>l \<in> set ls. configured_ok sv cfg cat rec l) \<and> g' = with_configured sv cfg cat rec g ls"
  using assms
proof (induction ls arbitrary: g)
  case Nil
  then show ?case by (simp add: with_configured_def)
next
  case (Cons l ls)
  then obtain g1 where g1: "addConfiguredSource sv cat cfg rec g l = Inr g1"
    and rest: "fold_result (addConfiguredSource sv cat cfg rec) g1 ls = Inr g'"
    by (auto simp: go_err)
  from addConfiguredSource_explicit [OF g1] Cons.IH [OF rest] show ?case
    using with_configured_append [of sv cfg cat rec g "[l]" ls] by simp
qed

definition reading_target :: "server \<Rightarrow> catalog \<Rightarrow> registryReading \<Rightarrow> targetResolution" where
  "reading_target sv cat r = projr (resolveListenerTarget sv cat (recorded_as_configured r) (Some (rr_Listener r)))"

definition row_name :: "registryReading \<Rightarrow> string" where
  "row_name r = rl_Name (rr_Listener r)"

definition reading_pairs :: "registryReading \<Rightarrow> recordedPair list" where
  "reading_pairs r =
     (if rr_Triggers r = []
      then [\<lparr>rp_Pair = \<lparr>pr_Listener = row_name r, pr_Operation = []\<rparr>, rp_ListenerPresent = True, rp_TriggerPresent = False,
             rp_Listener = rr_Listener r, rp_Trigger = zero_registryTrigger\<rparr>]
      else map (recorded_pair r) (rr_Triggers r))"

definition add_target :: "server \<Rightarrow> catalog \<Rightarrow> (string \<times> targetResolution) list \<Rightarrow> registryReading \<Rightarrow> (string \<times> targetResolution) list" where
  "add_target sv cat m r = (if map_of m (row_name r) \<noteq> None then m else put (row_name r) (reading_target sv cat r) m)"

definition with_readings :: "server \<Rightarrow> catalog \<Rightarrow> gathered \<Rightarrow> registryReading list \<Rightarrow> gathered" where
  "with_readings sv cat g rs =
     \<lparr>ga_Input = (ga_Input g)\<lparr>di_Targets := foldl (add_target sv cat) (di_Targets (ga_Input g)) rs,
        di_Recorded := di_Recorded (ga_Input g) @ concat (map reading_pairs rs)\<rparr>,
      ga_Names = put_all (ga_Names g) (concat (map (\<lambda>r. map (trigger_names r) (rr_Triggers r)) rs))\<rparr>"

lemma put_names_explicit:
  "foldl (\<lambda>m g. put \<lparr>pr_Listener = rl_Name (rr_Listener r), pr_Operation = gt_Operation g\<rparr>
     \<lparr>on_trigger = gt_TriggerName g, on_function = gt_FunctionName g\<rparr> m) m gs = put_all m (map (trigger_names r) gs)"
  by (induction gs arbitrary: m) (simp_all add: trigger_names_def)

lemma add_reading_explicit:
  assumes "add_reading sv cat g r = Inr g'"
  shows "(map_of (di_Targets (ga_Input g)) (row_name r) = None \<longrightarrow>
      resolveListenerTarget sv cat (recorded_as_configured r) (Some (rr_Listener r)) = Inr (reading_target sv cat r)) \<and>
    g' = with_readings sv cat g [r]"
  using assms
  by (auto simp: add_reading_def Let_def go_err addRecordedSource_def with_readings_def add_target_def row_name_def
      reading_target_def reading_pairs_def put_names_explicit split: if_splits)

lemma with_readings_append:
  "with_readings sv cat (with_readings sv cat g xs) ys = with_readings sv cat g (xs @ ys)"
  by (simp add: with_readings_def put_all_append)

lemma readings_explicit:
  assumes "fold_result (add_reading sv cat) g rs = Inr g'"
  shows "g' = with_readings sv cat g rs"
  using assms
proof (induction rs arbitrary: g)
  case Nil
  then show ?case by (simp add: with_readings_def)
next
  case (Cons r rs)
  then obtain g1 where g1: "add_reading sv cat g r = Inr g1" and rest: "fold_result (add_reading sv cat) g1 rs = Inr g'"
    by (auto simp: go_err)
  from add_reading_explicit [OF g1] Cons.IH [OF rest] show ?case
    using with_readings_append [of sv cat g "[r]" rs] by simp
qed

definition all_gathered :: "server \<Rightarrow> config \<Rightarrow> catalog \<Rightarrow> registryReading list \<Rightarrow> gathered" where
  "all_gathered sv cfg cat readings =
     with_readings sv cat
       (with_configured sv cfg cat (registryByName readings) \<lparr>ga_Input = zero_input (cf_Instance cfg), ga_Names = []\<rparr>
          (cf_Listeners cfg)) readings"

lemma gather_explicit:
  assumes "gather sv cfg cat = Inr input"
  obtains readings observed where "readRegistries sv cat = Inr readings"
    "\<forall>l \<in> set (cf_Listeners cfg). configured_ok sv cfg cat (registryByName readings) l"
    "list_all2 (\<lambda>e v. readObservedPair sv cat (di_Targets (ga_Input (all_gathered sv cfg cat readings))) e = Inr v)
       (ga_Names (all_gathered sv cfg cat readings)) observed"
    "input = (ga_Input (all_gathered sv cfg cat readings))\<lparr>di_Observed := observed\<rparr>"
proof -
  from assms obtain readings g g' observed where r: "readRegistries sv cat = Inr readings"
    and g: "fold_result (addConfiguredSource sv cat cfg (registryByName readings))
      \<lparr>ga_Input = zero_input (cf_Instance cfg), ga_Names = []\<rparr> (cf_Listeners cfg) = Inr g"
    and g': "fold_result (add_reading sv cat) g readings = Inr g'"
    and obs: "collect (readObservedPair sv cat (di_Targets (ga_Input g'))) (ga_Names g') = Inr observed"
    and input: "input = (ga_Input g')\<lparr>di_Observed := observed\<rparr>"
    by (auto simp: gather_def go_err simp del: fold_result.simps collect.simps)
  have "g' = all_gathered sv cfg cat readings"
    using configured_explicit [OF g] readings_explicit [OF g'] by (simp add: all_gathered_def)
  with that [OF r] configured_explicit [OF g] obs input show thesis
    by (simp add: collect_Inr)
qed

lemma target_kept: "map_of m n = Some t \<Longrightarrow> map_of (foldl (add_target sv cat) m rs) n = Some t"
proof (induction rs arbitrary: m)
  case (Cons r rs)
  then have "map_of (add_target sv cat m r) n = Some t" by (auto simp: add_target_def)
  from Cons.IH [OF this] show ?case by simp
qed simp

lemma target_of_reading:
  assumes "distinct (map row_name rs)" "r \<in> set rs" "map_of m (row_name r) = None"
  shows "map_of (foldl (add_target sv cat) m rs) (row_name r) = Some (reading_target sv cat r)"
  using assms
proof (induction rs arbitrary: m)
  case (Cons x rs)
  show ?case
  proof (cases "x = r")
    case True
    with Cons.prems have "map_of (add_target sv cat m x) (row_name r) = Some (reading_target sv cat r)"
      by (simp add: add_target_def)
    from target_kept [OF this] show ?thesis by simp
  next
    case False
    with Cons.prems have "row_name x \<noteq> row_name r" by (auto simp: image_iff)
    with Cons.prems False have "map_of (add_target sv cat m x) (row_name r) = None" by (simp add: add_target_def)
    with Cons.IH [of "add_target sv cat m x"] Cons.prems False show ?thesis by auto
  qed
qed simp

section \<open>What a pair is classified from\<close>

definition last_of :: "('a \<Rightarrow> Pair) \<Rightarrow> 'a \<Rightarrow> 'a list \<Rightarrow> Pair \<Rightarrow> 'a" where
  "last_of key zero xs p = (case List.find (\<lambda>x. key x = p) (rev xs) of Some x \<Rightarrow> x | None \<Rightarrow> zero)"

definition raw_sources :: "diffInput \<Rightarrow> source_map" where
  "raw_sources input =
     foldl add_observed (foldl add_recorded (foldl add_desired [] (di_Desired input)) (di_Recorded input)) (di_Observed input)"

definition named_pairs :: "diffInput \<Rightarrow> Pair set" where
  "named_pairs input = dp_Pair ` set (di_Desired input) \<union> rp_Pair ` set (di_Recorded input) \<union> vp_Pair ` set (di_Observed input)"

lemma find_rev_None: "List.find P (rev xs) = None \<longleftrightarrow> (\<forall>x \<in> set xs. \<not> P x)"
  by (auto simp: find_None_iff)

lemma keys_adds:
  "fst ` set (foldl add_desired m ds) = fst ` set m \<union> dp_Pair ` set ds"
  "fst ` set (foldl add_recorded m rs) = fst ` set m \<union> rp_Pair ` set rs"
  "fst ` set (foldl add_observed m vs) = fst ` set m \<union> vp_Pair ` set vs"
    apply (induction ds arbitrary: m)
     apply (simp_all add: add_desired_def keys_put)
   apply (induction rs arbitrary: m)
    apply (simp_all add: add_recorded_def keys_put)
  apply (induction vs arbitrary: m)
   apply (simp_all add: add_observed_def keys_put)
  done

lemma distinct_adds:
  "distinct (map fst m) \<Longrightarrow> distinct (map fst (foldl add_desired m ds))"
  "distinct (map fst m) \<Longrightarrow> distinct (map fst (foldl add_recorded m rs))"
  "distinct (map fst m) \<Longrightarrow> distinct (map fst (foldl add_observed m vs))"
    apply (induction ds arbitrary: m)
     apply (simp_all add: add_desired_def distinct_put)
   apply (induction rs arbitrary: m)
    apply (simp_all add: add_recorded_def distinct_put)
  apply (induction vs arbitrary: m)
   apply (simp_all add: add_observed_def distinct_put)
  done

lemma get_adds:
  "get zero_sources (foldl add_desired m ds) p =
     (case List.find (\<lambda>d. dp_Pair d = p) (rev ds) of Some d \<Rightarrow> (get zero_sources m p)\<lparr>ps_Desired := d\<rparr> | None \<Rightarrow> get zero_sources m p)"
  "get zero_sources (foldl add_recorded m rs) p =
     (case List.find (\<lambda>r. rp_Pair r = p) (rev rs) of Some r \<Rightarrow> (get zero_sources m p)\<lparr>ps_Recorded := r\<rparr> | None \<Rightarrow> get zero_sources m p)"
  "get zero_sources (foldl add_observed m vs) p =
     (case List.find (\<lambda>v. vp_Pair v = p) (rev vs) of Some v \<Rightarrow> (get zero_sources m p)\<lparr>ps_Observed := v\<rparr> | None \<Rightarrow> get zero_sources m p)"
proof -
  show "get zero_sources (foldl add_desired m ds) p =
     (case List.find (\<lambda>d. dp_Pair d = p) (rev ds) of Some d \<Rightarrow> (get zero_sources m p)\<lparr>ps_Desired := d\<rparr> | None \<Rightarrow> get zero_sources m p)"
    by (induction ds rule: rev_induct) (auto simp: add_desired_def get_put split: option.splits)
  show "get zero_sources (foldl add_recorded m rs) p =
     (case List.find (\<lambda>r. rp_Pair r = p) (rev rs) of Some r \<Rightarrow> (get zero_sources m p)\<lparr>ps_Recorded := r\<rparr> | None \<Rightarrow> get zero_sources m p)"
    by (induction rs rule: rev_induct) (auto simp: add_recorded_def get_put split: option.splits)
  show "get zero_sources (foldl add_observed m vs) p =
     (case List.find (\<lambda>v. vp_Pair v = p) (rev vs) of Some v \<Rightarrow> (get zero_sources m p)\<lparr>ps_Observed := v\<rparr> | None \<Rightarrow> get zero_sources m p)"
    by (induction vs rule: rev_induct) (auto simp: add_observed_def get_put split: option.splits)
qed

lemma keys_raw: "fst ` set (raw_sources input) = named_pairs input" "distinct (map fst (raw_sources input))"
  by (simp_all add: raw_sources_def keys_adds distinct_adds named_pairs_def)

lemma get_raw:
  "get zero_sources (raw_sources input) p =
     \<lparr>ps_Desired = last_of dp_Pair zero_desired (di_Desired input) p,
      ps_Recorded = last_of rp_Pair zero_recorded (di_Recorded input) p,
      ps_Observed = last_of vp_Pair zero_observed (di_Observed input) p,
      ps_Target = zero_resolution, ps_Instance = []\<rparr>"
  unfolding raw_sources_def get_adds get_Nil last_of_def by (simp add: zero_sources_def split: option.split)

lemma with_listener_fst: "fst (with_listener m e) = fst e"
  by (simp add: with_listener_def split: option.split)

lemma keys_collected: "map fst (collectPairSources input) = map fst (raw_sources input)"
  by (simp add: collectPairSources_def applyDesiredListeners_def raw_sources_def with_listener_fst comp_def)

lemma set_orderedPairs: "set (orderedPairs (collectPairSources input)) = named_pairs input"
  using keys_raw(1) [of input] by (simp add: orderedPairs_def keys_collected)

lemma map_of_map_value:
  assumes "\<And>e. fst (f e) = fst e"
  shows "map_of (map f m) k = map_option (\<lambda>v. snd (f (k, v))) (map_of m k)"
proof (induction m)
  case (Cons e m)
  with assms [of e] show ?case by (cases e; cases "f e") auto
qed simp

lemma get_collected:
  assumes "p \<in> named_pairs input"
  shows "get zero_sources (collectPairSources input) p =
    snd (with_listener (listeners_by_name (di_Listeners input)) (p, get zero_sources (raw_sources input) p))"
proof -
  have "map_of (raw_sources input) p \<noteq> None"
    using assms keys_raw(1) [of input] by (simp add: map_of_eq_None_iff)
  then show ?thesis
    using map_of_map_value [of "with_listener (listeners_by_name (di_Listeners input))" "raw_sources input" p, OF with_listener_fst]
    by (auto simp: collectPairSources_def applyDesiredListeners_def raw_sources_def get_def)
qed

definition pair_source :: "diffInput \<Rightarrow> Pair \<Rightarrow> pairSources" where
  "pair_source input p = preparedPairSource input (collectPairSources input) p"

section \<open>The plan of all classifications\<close>

definition refusals_in :: "pairClassification list \<Rightarrow> Refusal list" where
  "refusals_in cs = concat (map (\<lambda>c. case pc_Refusal c of Some r \<Rightarrow> [r] | None \<Rightarrow> []) cs)"

definition actions_in :: "pairClassification list \<Rightarrow> Action list" where
  "actions_in cs = concat (map (\<lambda>c. if pc_Refusal c = None then (case pc_Action c of Some a \<Rightarrow> [a] | None \<Rightarrow> []) else []) cs)"

lemma fold_appendClassification:
  "foldl (\<lambda>result p. appendClassification result (f p)) r ps =
     r\<lparr>pn_Refusals := pn_Refusals r @ refusals_in (map f ps), pn_Actions := pn_Actions r @ actions_in (map f ps)\<rparr>"
  by (induction ps arbitrary: r) (auto simp: appendClassification_def refusals_in_def actions_in_def split: option.split)

lemma diff_explicit:
  "diff input = finaliseDiff (zero_plan\<lparr>pn_Examined := card (named_pairs input),
     pn_Refusals := refusals_in (map (\<lambda>p. classifyPair (pair_source input p)) (orderedPairs (collectPairSources input))),
     pn_Actions := actions_in (map (\<lambda>p. classifyPair (pair_source input p)) (orderedPairs (collectPairSources input)))\<rparr>)"
proof -
  have "length (orderedPairs (collectPairSources input)) = card (named_pairs input)"
    using keys_raw distinct_card [of "map fst (raw_sources input)"] keys_collected [of input]
    by (metis length_map length_sort orderedPairs_def set_map)
  then show ?thesis
    by (simp add: diff_def Let_def fold_appendClassification pair_source_def zero_plan_def)
qed

lemma set_actions_in: "a \<in> set (actions_in cs) \<longleftrightarrow> (\<exists>c \<in> set cs. pc_Refusal c = None \<and> pc_Action c = Some a)"
proof -
  have "a \<in> set (if pc_Refusal c = None then (case pc_Action c of Some a \<Rightarrow> [a] | None \<Rightarrow> []) else []) \<longleftrightarrow>
      pc_Refusal c = None \<and> pc_Action c = Some a" for c
    by (cases "pc_Refusal c"; cases "pc_Action c"; simp; blast)
  then show ?thesis unfolding actions_in_def set_concat set_map by blast
qed

lemma refusals_in_empty: "refusals_in cs = [] \<longleftrightarrow> (\<forall>c \<in> set cs. pc_Refusal c = None)"
  by (induction cs) (auto simp: refusals_in_def split: option.split)

lemma finaliseDiff_facts:
  "set (pn_Actions (finaliseDiff r)) \<subseteq> set (pn_Actions r)" "pn_Refusals (finaliseDiff r) = pn_Refusals r"
  by (simp_all add: finaliseDiff_def orderedActions_def)

lemma diff_action:
  assumes "a \<in> set (pn_Actions (diff input))"
  shows "\<exists>p \<in> named_pairs input. pc_Refusal (classifyPair (pair_source input p)) = None \<and>
    pc_Action (classifyPair (pair_source input p)) = Some a"
proof -
  have "a \<in> set (actions_in (map (\<lambda>p. classifyPair (pair_source input p)) (orderedPairs (collectPairSources input))))"
    using assms finaliseDiff_facts(1) unfolding diff_explicit by fastforce
  then show ?thesis using set_orderedPairs [of input] by (auto simp: set_actions_in)
qed

lemma diff_unrefused:
  assumes "pn_Refusals (diff input) = []" "p \<in> named_pairs input"
  shows "pc_Refusal (classifyPair (pair_source input p)) = None"
  using assms set_orderedPairs [of input] by (simp add: diff_explicit finaliseDiff_facts(2) refusals_in_empty)

lemma diff_clean:
  assumes "\<And>p. p \<in> named_pairs input \<Longrightarrow> classifyPair (pair_source input p) = no_change"
  shows "pn_Verdict (diff input) = VerdictClean \<and> pn_Actions (diff input) = [] \<and> pn_Refusals (diff input) = []"
proof -
  have "refusals_in (map (\<lambda>p. classifyPair (pair_source input p)) (orderedPairs (collectPairSources input))) = []"
    "actions_in (map (\<lambda>p. classifyPair (pair_source input p)) (orderedPairs (collectPairSources input))) = []"
    using assms set_orderedPairs [of input] by (simp_all add: refusals_in_def actions_in_def no_change_def)
  then show ?thesis by (simp add: diff_explicit finaliseDiff_def zero_plan_def)
qed

end
