(* ===== verification/Reconcile_Laws.thy ===== *)
theory Reconcile_Laws
  imports Reconcile_Gather
begin

text \<open>
  What the reconciler guarantees. First the ownership proof, exactly; then that \<open>Apply\<close> changes nothing
  it was not allowed to change; then, over an explicit form of the gathered sources, that no trigger
  belonging to somebody else is ever touched. The last section states four places where the sources do
  not do what their own comments and messages say.
\<close>

section \<open>Markers\<close>

definition marker_field :: "string \<Rightarrow> bool" where
  "marker_field s \<longleftrightarrow> s \<noteq> [] \<and> CHR '':'' \<notin> set s"

lemma parse_marker:
  assumes "marker_field i" "marker_field l" "marker_field p"
  shows "parseCatalogMarker (Some (marker i l p)) = Some \<lparr>cm_Instance = i, cm_Listener = l, cm_Operation = p\<rparr>"
proof -
  have "SplitChar (CHR '':'') (i @ '':'' @ l @ '':'' @ p) = [i, l, p]"
    using assms by (simp add: marker_field_def SplitChar_append SplitChar_free)
  moreover have "CutPrefix (marker i l p) MarkerPrefix = Some (i @ '':'' @ l @ '':'' @ p)"
    unfolding marker_def by (rule CutPrefix_append)
  ultimately show ?thesis
    using assms by (simp add: parseCatalogMarker_def Let_def hasEmptyMarkerField_def marker_field_def)
qed

lemma parse_marker_sound:
  assumes "parseCatalogMarker found = Some m"
  shows "found = Some (marker (cm_Instance m) (cm_Listener m) (cm_Operation m)) \<and>
    marker_field (cm_Instance m) \<and> marker_field (cm_Listener m) \<and> marker_field (cm_Operation m)"
proof -
  from assms obtain written rest where written: "found = Some written" "written = MarkerPrefix @ rest"
    and three: "length (SplitChar (CHR '':'') rest) = 3" "\<not> hasEmptyMarkerField (SplitChar (CHR '':'') rest)"
    and m: "m = \<lparr>cm_Instance = SplitChar (CHR '':'') rest ! 0, cm_Listener = SplitChar (CHR '':'') rest ! 1,
      cm_Operation = SplitChar (CHR '':'') rest ! 2\<rparr>"
    by (auto simp: parseCatalogMarker_def Let_def CutPrefix_Some split: option.splits if_splits)
  from three(1) obtain a b c where parts: "SplitChar (CHR '':'') rest = [a, b, c]"
    by (auto simp: numeral_3_eq_3 length_Suc_conv)
  have "rest = a @ '':'' @ b @ '':'' @ c"
    using Join_SplitChar [of "CHR '':''" rest] by (simp add: parts)
  with written m parts three(2) show ?thesis
    by (simp add: marker_def hasEmptyMarkerField_def marker_field_def)
qed

lemma marker_inj:
  assumes "marker_field i" "marker_field l" "marker_field p" "marker_field i'" "marker_field l'" "marker_field p'"
    and "marker i l p = marker i' l' p'"
  shows "i = i' \<and> l = l' \<and> p = p'"
proof -
  have "Some \<lparr>cm_Instance = i, cm_Listener = l, cm_Operation = p\<rparr> =
      Some \<lparr>cm_Instance = i', cm_Listener = l', cm_Operation = p'\<rparr>"
    unfolding parse_marker [OF assms(1-3), symmetric] parse_marker [OF assms(4-6), symmetric] assms(7) ..
  then show ?thesis by simp
qed

lemma ownership_iff:
  "ow_Owned (DetermineOwnership row object inst) \<longleftrightarrow>
     ro_Present row \<and> co_Marker object = Some (marker inst (ro_Listener row) (ro_Operation row)) \<and>
     marker_field inst \<and> marker_field (ro_Listener row) \<and> marker_field (ro_Operation row)"
proof (cases "parseCatalogMarker (co_Marker object)")
  case None
  then show ?thesis
    using parse_marker [of inst "ro_Listener row" "ro_Operation row"]
    by (auto simp: DetermineOwnership_def Let_def)
next
  case (Some m)
  have "ow_Owned (DetermineOwnership row object inst) \<longleftrightarrow> ro_Present row \<and>
      cm_Instance m = inst \<and> cm_Listener m = ro_Listener row \<and> cm_Operation m = ro_Operation row"
    using Some by (simp add: DetermineOwnership_def Let_def)
  with parse_marker_sound [OF Some] marker_inj show ?thesis
    by (metis option.inject)
qed

text \<open>C27. Ownership is exactly the marker this deployment writes: an object is owned precisely when its
  registry row is present and its catalog comment is, byte for byte, the marker generated for this
  instance, listener and operation; so no other instance, no other pair and no edited or truncated
  comment ever passes, and the marker of one triple is never the marker of another.\<close>

theorem ownership_is_exactly_our_marker:
  "ow_Owned (DetermineOwnership row object inst) =
     (ro_Present row \<and> co_Marker object = Some (marker inst (ro_Listener row) (ro_Operation row)) \<and>
      marker_field inst \<and> marker_field (ro_Listener row) \<and> marker_field (ro_Operation row)) \<and>
   (marker_field i \<and> marker_field l \<and> marker_field p \<and> marker_field i' \<and> marker_field l' \<and> marker_field p' \<and>
    marker i l p = marker i' l' p' \<longrightarrow> i = i' \<and> l = l' \<and> p = p')"
proof (intro conjI impI)
  show "ow_Owned (DetermineOwnership row object inst) =
     (ro_Present row \<and> co_Marker object = Some (marker inst (ro_Listener row) (ro_Operation row)) \<and>
      marker_field inst \<and> marker_field (ro_Listener row) \<and> marker_field (ro_Operation row))"
    by (rule ownership_iff)
qed (use marker_inj [of i l p i' l' p'] in simp_all)

theorem ownership_is_exactly_our_marker_witness:
  "ow_Owned (DetermineOwnership \<lparr>ro_Present = True, ro_Listener = ''orders'', ro_Operation = ''insert''\<rparr>
      \<lparr>co_Kind = ''trigger'', co_Identity = ''t'', co_Marker = Some ''pg_noty:v1:noty:orders:insert''\<rparr> ''noty'')"
  using ownership_is_exactly_our_marker [of "\<lparr>ro_Present = True, ro_Listener = ''orders'', ro_Operation = ''insert''\<rparr>"
      "\<lparr>co_Kind = ''trigger'', co_Identity = ''t'', co_Marker = Some ''pg_noty:v1:noty:orders:insert''\<rparr>" "''noty''"
      "''noty''" "''a''" "''b''" "''noty''" "''a''" "''b''"]
  by (simp add: marker_def MarkerPrefix_def marker_field_def)

section \<open>Nothing happens without approval\<close>

lemma Decide_proceeds:
  "de_Proceed (Decide d p a i) \<longleftrightarrow> (d \<longrightarrow> p) \<and> (a \<or> i)"
  by (simp add: Decide_def)

lemma apply_plan_done:
  assumes "apply_plan sv cfg approval plan cat = (n, WorkDone cat')" "pn_Actions plan \<noteq> []"
  obtains objects where "pn_Diagnostics plan = []" "pn_Refusals plan = []"
    "plan_Destructive plan \<longrightarrow> ap_DestructionPermitted approval" "ap_Approved approval \<or> ap_Interactive approval"
    "objectsForPlan sv cfg cat plan = Inr objects"
    "finish_work sv cfg plan (apply_objects sv objects (0, Inr cat)) = (n, WorkDone cat')"
proof -
  from assms obtain objects where "pn_Diagnostics plan = []" "pn_Refusals plan = []"
    and go: "de_Proceed (Decide (plan_Destructive plan) (ap_DestructionPermitted approval) (ap_Approved approval)
      (ap_Interactive approval))"
    and "objectsForPlan sv cfg cat plan = Inr objects"
      "finish_work sv cfg plan (apply_objects sv objects (0, Inr cat)) = (n, WorkDone cat')"
    by (auto simp: apply_plan_def Let_def split: if_splits option.splits sum.splits)
  with that show thesis by (auto simp: Decide_proceeds)
qed

lemma apply_plan_idle: "apply_plan sv cfg approval plan cat = (n, WorkDone cat') \<Longrightarrow> pn_Actions plan = [] \<Longrightarrow> cat' = cat"
  by (auto simp: apply_plan_def split: if_splits)

lemma Apply_changed:
  assumes "Apply sv tx lock cfg approval cat = (result, err, cat')" "cat' \<noteq> cat"
  obtains plan n where "planInTransaction sv cfg cat = Inr plan" "pn_Actions plan \<noteq> []"
    "apply_plan sv cfg approval plan cat = (n, WorkDone cat')" "ar_Plan result = plan" "ar_Statements result = n"
    "tx_commit tx = None \<and> ar_Verdict result = VerdictClean \<and> ar_Stopped result = StopNone \<and> err = rk_release lock \<or>
     (\<exists>e. tx_commit tx = Some e \<and> tx_took_effect tx \<and> err = Some (DatabaseError e))"
proof -
  from assms obtain plan n where plan: "planInTransaction sv cfg cat = Inr plan"
    and fin: "apply_plan sv cfg approval plan cat = (n, WorkDone cat')"
    and res: "ar_Plan result = plan" "ar_Statements result = n"
      "tx_commit tx = None \<and> ar_Verdict result = VerdictClean \<and> ar_Stopped result = StopNone \<and> err = rk_release lock \<or>
       (\<exists>e. tx_commit tx = Some e \<and> tx_took_effect tx \<and> err = Some (DatabaseError e))"
    by (auto simp: Apply_def apply_locked_def apply_result_def
        split: sum.splits option.splits prod.splits work_end.splits if_splits)
  from apply_plan_idle [OF fin] assms(2) have "pn_Actions plan \<noteq> []" by blast
  from that [OF plan this fin res] show thesis .
qed

text \<open>C28. Apply changes nothing it was not allowed to change: whenever the catalog or registry differs
  afterwards, the plan had no diagnostic and no refusal, every statement of it was executed, a
  destructive plan had destruction permitted, the run was approved or could be confirmed
  interactively, and the whole transaction was committed. In every other outcome (run lock refused,
  read failure, validation, ownership or target refusal, missing permission or approval, a failing
  statement) the database is exactly what it was.\<close>

theorem apply_is_gated_and_atomic:
  assumes "Apply sv tx lock cfg approval cat = (result, err, cat')" "cat' \<noteq> cat"
  shows "rk_acquire lock = Inr None \<and> pn_Diagnostics (ar_Plan result) = [] \<and> pn_Refusals (ar_Plan result) = [] \<and>
    (plan_Destructive (ar_Plan result) \<longrightarrow> ap_DestructionPermitted approval) \<and>
    (ap_Approved approval \<or> ap_Interactive approval) \<and>
    (tx_commit tx = None \<and> ar_Verdict result = VerdictClean \<or> tx_commit tx \<noteq> None \<and> tx_took_effect tx \<and> err \<noteq> None)"
proof -
  have "rk_acquire lock = Inr None"
    using assms by (auto simp: Apply_def split: sum.splits option.splits)
  with Apply_changed [OF assms] apply_plan_done show ?thesis
    by (smt (verit) option.distinct(1))
qed


definition sample_server :: server where
  "sample_server = \<lparr>sv_sanitize = pgx_sanitize, sv_quote = (\<lambda>s. s), sv_regclass = SplitQualified,
     sv_query_fault = (\<lambda>_. None), sv_exec_fault = (\<lambda>_. None), sv_triggerdef = (\<lambda>s. s), sv_functiondef = (\<lambda>s. s),
     sv_prepare = (\<lambda>_. None), sv_blocker = ''no blocker'', sv_jsonb = (\<lambda>b. b), sv_now = 0,
     json_Marshal = ts_Table, json_MarshalOperation = op_Kind, json_Unmarshal = (\<lambda>_. None)\<rparr>"

definition sample_table :: "nat \<Rightarrow> string \<Rightarrow> string \<Rightarrow> TargetReading" where
  "sample_table oid s t = \<lparr>tr_OID = oid, tr_Schema = s, tr_Table = t, tr_Columns = [''id''], tr_PrimaryKeyColumns = [''id'']\<rparr>"

definition sample_row :: registryReading where
  "sample_row = \<lparr>rr_Listener = \<lparr>rl_Name = ''orders'', rl_Spec = [], rl_SpecHash = [],
     rl_TargetTable = pgx_sanitize [''public'', ''orders''], rl_TargetOID = 7, rl_Enabled = True, rl_AppliedAt = 0\<rparr>,
     rr_Triggers = []\<rparr>"

definition sample_catalog :: catalog where
  "sample_catalog = \<lparr>cat_relations = [sample_table 7 ''public'' ''orders'', sample_table 1 ''noty'' ''listeners'',
       sample_table 2 ''noty'' ''listener_triggers''],
     cat_triggers = [], cat_functions = [], cat_procs = [], cat_next = 10, cat_schemas = [''public'', ''noty''],
     cat_registry = [sample_row]\<rparr>"

definition sample_tx :: transaction where
  "sample_tx = \<lparr>tx_begin = None, tx_local = None, tx_commit = None, tx_took_effect = False\<rparr>"

definition sample_lock :: run_lock where
  "sample_lock = \<lparr>rk_acquire = Inr None, rk_release = None\<rparr>"

definition sample_config :: config where
  "sample_config = \<lparr>cf_Instance = ''noty'', cf_Schema = ''noty'', cf_Listeners = []\<rparr>"

definition sample_approval :: Approval where
  "sample_approval = \<lparr>ap_DestructionPermitted = True, ap_Approved = True, ap_Interactive = False\<rparr>"

lemma sample_apply:
  "cat_registry (snd (snd (Apply sample_server sample_tx sample_lock sample_config sample_approval sample_catalog))) = []"
  by code_simp

theorem apply_is_gated_and_atomic_witness:
  "cat_registry sample_catalog \<noteq> [] \<and>
   tx_commit sample_tx = None \<and>
   ar_Verdict (fst (Apply sample_server sample_tx sample_lock sample_config sample_approval sample_catalog)) = VerdictClean"
proof -
  let ?a = "Apply sample_server sample_tx sample_lock sample_config sample_approval sample_catalog"
  have eq: "?a = (fst ?a, fst (snd ?a), snd (snd ?a))" by simp
  have "cat_registry sample_catalog \<noteq> []" by (simp add: sample_catalog_def)
  moreover from this have "snd (snd ?a) \<noteq> sample_catalog" using sample_apply by metis
  moreover have "tx_commit sample_tx = None" by (simp add: sample_tx_def)
  ultimately show ?thesis using apply_is_gated_and_atomic [OF eq] by blast
qed

section \<open>Where the reconciler departs from its stated intent\<close>

text \<open>A listener whose table was dropped stays refused after it is removed from the configuration, which
  is the remedy its refusal names: the recorded row is resolved, and refused, before removal is considered.\<close>

theorem removed_listener_of_dropped_table_is_still_refused:
  "planInTransaction sample_server sample_config
     (sample_catalog\<lparr>cat_relations := tl (cat_relations sample_catalog)\<rparr>) =
   Inr (zero_plan\<lparr>pn_Examined := 1, pn_Verdict := VerdictError,
     pn_Refusals := [droppedTargetRefusal ''orders'' (pgx_sanitize [''public'', ''orders''])]\<rparr>)"
  by code_simp

text \<open>A specification change made together with a table rename is planned as a rename alone, and a rename
  contributes no statement: the objects keep the old specification while the registry records the new.\<close>

theorem rename_hides_specification_change:
  assumes "tn_Refusal (ps_Target s) = None" "observedOwnershipRefusal s = None"
    and "dp_ListenerPresent (ps_Desired s)" "dp_OperationPresent (ps_Desired s)" "dp_Enabled (ps_Desired s)"
    and "tn_Outcome (ps_Target s) = targetRenamed" "rp_TriggerPresent (ps_Recorded s)" "observedComplete s"
    and "dp_SpecificationChanged (ps_Desired s)"
  shows "\<exists>a. pc_Action (classifyPair s) = Some a \<and> ac_Kind a = ActionRename \<and> \<not> contributes a configured recorded"
  using assms by (simp add: classifyPair_def classifyManagedPair_def classifiedAction_def contributes_def)

text \<open>When the recorded table was dropped and recreated while the configuration names another existing
  table, the triggers go to the recorded table: the check for a moved listener needs the old OID alive.\<close>

theorem recreated_table_wins_over_configured_table:
  "map_sum (\<lambda>e. e) (\<lambda>r. (tn_Outcome r, tr_Table (tn_Target r)))
     (resolveListenerTarget sample_server
        (sample_catalog\<lparr>cat_relations := [sample_table 8 ''public'' ''orders'', sample_table 9 ''public'' ''invoices'']\<rparr>)
        (sample_listener\<lparr>li_Trigger := (li_Trigger sample_listener)\<lparr>ts_Table := pgx_sanitize [''public'', ''invoices'']\<rparr>\<rparr>)
        (Some (rr_Listener sample_row))) =
   Inr (targetDroppedAndRecreated, ''orders'')"
  by code_simp

text \<open>Destroy refuses as soon as the configuration holds a listener that is disabled or not yet applied:
  the pass over configured listeners reports an absent trigger as an unowned candidate.\<close>

lemma appendPair_extends:
  "appendPair sv cat row oid t f b into = Inr out \<Longrightarrow> \<exists>more. out = into @ more"
  by (auto simp: appendPair_def go_err Let_def split: option.splits)

lemma appendPair_total:
  "(\<And>q. sv_query_fault sv q = None) \<Longrightarrow> \<exists>out. appendPair sv cat row oid t f b into = Inr out"
  by (simp add: appendPair_def ReadTrigger_def ReadFunction_def query_ok_def Let_def split: option.split)

lemma append_sets_total:
  assumes "\<And>q. sv_query_fault sv q = None"
  shows "\<exists>more. fold_result (\<lambda>into s. appendPair sv cat (row s) oid (os_TriggerName s) (os_FunctionName s) False into) into sets =
    Inr (into @ more)"
proof (induction sets arbitrary: into)
  case (Cons s sets)
  obtain more where "appendPair sv cat (row s) oid (os_TriggerName s) (os_FunctionName s) False into = Inr (into @ more)"
    using appendPair_total [OF assms] appendPair_extends by metis
  with Cons.IH [of "into @ more"] show ?case by auto
qed simp

theorem destroy_refuses_an_unapplied_listener:
  assumes answers: "\<And>q. sv_query_fault sv q = None" and empty: "cat_registry cat = []"
    and table: "ResolveTarget sv cat (ts_Table (li_Trigger l)) = Inr (Some target)"
    and compiled: "compileListener sv (cf_Instance cfg) (cf_Schema cfg) l target = Inr (s # sets)"
    and absent: "map_of (cat_triggers cat) (tr_OID target, os_TriggerName s) = None"
    and only: "cf_Listeners cfg = [l]" and flags: "confirmed" "allowDelete"
  shows "buildDestroy sv tx lock cfg confirmed allowDelete dryRun queued cat = (DestroyRefused DisagreementNoRegistryRow, cat)"
proof -
  let ?row = "\<lambda>s. registryOwnershipRow (zero_recorded\<lparr>rp_Pair := \<lparr>pr_Listener = li_Name l, pr_Operation = os_Operation s\<rparr>\<rparr>)"
  have first: "appendPair sv cat (?row s) (tr_OID target) (os_TriggerName s) (os_FunctionName s) False [] =
      Inr [candidateForTrigger (?row s) (os_TriggerName s) None]"
    using absent by (simp add: appendPair_def ReadTrigger_def query_ok_def answers Let_def)
  obtain more where more: "fold_result (\<lambda>into s. appendPair sv cat (?row s) (tr_OID target) (os_TriggerName s)
      (os_FunctionName s) False into) [candidateForTrigger (?row s) (os_TriggerName s) None] sets =
      Inr (candidateForTrigger (?row s) (os_TriggerName s) None # more)"
    using append_sets_total [OF answers, where row = ?row and into = "[candidateForTrigger (?row s) (os_TriggerName s) None]"
        and cat = cat and oid = "tr_OID target" and sets = sets] by auto
  have "readRegistries sv cat = Inr []" by (simp add: readRegistries_def empty query_ok_def answers)
  then have "\<exists>cs. OwnedCandidates sv cfg cat = Inr (candidateForTrigger (?row s) (os_TriggerName s) None # cs)"
    by (simp add: OwnedCandidates_def only appendConfiguredCandidates_def table compiled first more)
  moreover have "DetermineOwnership (?row s) zero_object_reading (cf_Instance cfg) =
      \<lparr>ow_Owned = False, ow_Disagreement = DisagreementNoRegistryRow, ow_Found = []\<rparr>"
    by (simp add: DetermineOwnership_def Let_def registryOwnershipRow_def zero_recorded_def markerValue_def zero_object_reading_def)
  ultimately show ?thesis
    using flags by (auto simp: buildDestroy_def candidateForTrigger_def)
qed

end
