(* ===== verification/Reconcile_Safety.thy ===== *)
theory Reconcile_Safety
  imports Reconcile_Laws
begin

text \<open>
  Somebody else's triggers are safe from \<open>Apply\<close>. The argument goes through the whole run: the registry
  readings and the names the plan reads objects under are canonical; the target a pair is applied
  against is the one it was planned against; so a trigger that would be dropped was read, and its marker
  accepted, when the plan was made; and no statement of the run reaches any other trigger.
\<close>

section \<open>Readings of the registry\<close>

definition registry_ok :: "catalog \<Rightarrow> bool" where
  "registry_ok cat \<longleftrightarrow>
     distinct (map row_name (cat_registry cat)) \<and>
     (\<forall>row \<in> set (cat_registry cat). row_name row \<noteq> [] \<and> distinct (map gt_Operation (rr_Triggers row)) \<and>
        (\<forall>g \<in> set (rr_Triggers row). gt_TriggerName g = canonical_name (row_name row) (gt_Operation g) \<and>
           gt_FunctionName g = canonical_name (row_name row) (gt_Operation g)))"

definition sorted_row :: "registryReading \<Rightarrow> registryReading" where
  "sorted_row row = row\<lparr>rr_Triggers := sort_key gt_Operation (rr_Triggers row)\<rparr>"

lemma sorted_row_simps [simp]:
  "row_name (sorted_row row) = row_name row" "rr_Listener (sorted_row row) = rr_Listener row"
  "set (rr_Triggers (sorted_row row)) = set (rr_Triggers row)" "rr_Triggers (sorted_row row) = [] \<longleftrightarrow> rr_Triggers row = []"
  by (simp_all add: sorted_row_def row_name_def) (metis length_0_conv length_sort)

lemma readRegistry_Inr:
  assumes "readRegistry sv cat name = Inr r"
  shows "\<exists>row \<in> set (cat_registry cat). row_name row = name \<and> r = sorted_row row"
  using assms
  by (auto simp: readRegistry_def go_err find_row_def registry_ready_def sorted_row_def row_name_def find_Some_iff
      split: option.splits)

lemma readRegistries_Inr:
  assumes "readRegistries sv cat = Inr readings" and ok: "registry_ok cat"
  shows "distinct (map row_name readings) \<and> set readings = sorted_row ` set (cat_registry cat)"
proof -
  let ?names = "sort (map row_name (cat_registry cat))"
  from assms have all: "list_all2 (\<lambda>n r. readRegistry sv cat n = Inr r) ?names readings"
    by (simp add: readRegistries_def go_err row_name_def [abs_def])
  have names: "map row_name readings = ns" if "list_all2 (\<lambda>n r. readRegistry sv cat n = Inr r) ns readings" for ns readings
    using that by (induction rule: list_all2_induct) (auto dest!: readRegistry_Inr)
  have dist: "distinct (map row_name readings)"
    using names [OF all] ok by (simp add: registry_ok_def)
  have "r \<in> sorted_row ` set (cat_registry cat)" if "r \<in> set readings" for r
    using that all by (fastforce simp: list_all2_conv_all_nth in_set_conv_nth dest!: readRegistry_Inr)
  moreover have "sorted_row row \<in> set readings" if "row \<in> set (cat_registry cat)" for row
  proof -
    from that have "row_name row \<in> set (map row_name readings)" using names [OF all] by simp
    then obtain r where r: "r \<in> set readings" "row_name r = row_name row" by auto
    from calculation [OF r(1)] obtain row' where "row' \<in> set (cat_registry cat)" "r = sorted_row row'" by auto
    with r that ok have "row' = row" by (auto simp: registry_ok_def distinct_map inj_on_def)
    with \<open>r = sorted_row row'\<close> r(1) show ?thesis by simp
  qed
  ultimately show ?thesis using dist by blast
qed

lemma registryByName_get:
  assumes "distinct (map row_name readings)"
  shows "get zero_reading (registryByName readings) n =
    (case List.find (\<lambda>r. row_name r = n) readings of Some r \<Rightarrow> r | None \<Rightarrow> zero_reading)"
proof (cases "List.find (\<lambda>r. row_name r = n) readings")
  case None
  then have "n \<notin> row_name ` set readings" by (auto simp: find_None_iff)
  with None show ?thesis
    using map_of_writes_other [of n row_name readings "\<lambda>r. r" "[]"]
    by (simp add: get_def registryByName_def row_name_def [abs_def])
next
  case (Some r)
  then have "r \<in> set readings" "row_name r = n" by (auto simp: find_Some_iff)
  with Some show ?thesis
    using map_of_writes_unique [OF assms, of r "\<lambda>r. r" "[]"]
    by (simp add: get_def registryByName_def row_name_def [abs_def])
qed

lemma reading_named:
  assumes "distinct (map row_name readings)" "r \<in> set readings"
  shows "get zero_reading (registryByName readings) (row_name r) = r"
proof -
  have "List.find (\<lambda>x. row_name x = row_name r) readings = Some r"
    using assms by (induction readings) (auto simp: image_iff)
  then show ?thesis by (simp add: registryByName_get [OF assms(1)])
qed

lemma configuredByName_Some:
  assumes "map_of (configuredByName ls) n = Some l"
  shows "l \<in> set ls \<and> li_Name l = n"
proof -
  have "map_of (configuredByName ls) n = (case List.find (\<lambda>l. li_Name l = n) (rev ls) of Some x \<Rightarrow> Some x | None \<Rightarrow> map_of [] n)"
    unfolding configuredByName_def map_of_writes [where val = "\<lambda>l. l" and m = "[]"] ..
  with assms have "List.find (\<lambda>l. li_Name l = n) (rev ls) = Some l" by (cases "List.find (\<lambda>l. li_Name l = n) (rev ls)") simp_all
  then show ?thesis by (auto simp: find_Some_iff) (metis length_rev nth_mem set_rev)
qed

lemma configuredByName_unique:
  "distinct (map li_Name ls) \<Longrightarrow> l \<in> set ls \<Longrightarrow> map_of (configuredByName ls) (li_Name l) = Some l"
  using map_of_writes_unique [of li_Name ls l "\<lambda>l. l" "[]"] by (simp add: configuredByName_def)

lemma configuredByName_None: "n \<notin> li_Name ` set ls \<Longrightarrow> map_of (configuredByName ls) n = None"
  using configuredByName_Some by (cases "map_of (configuredByName ls) n") auto

section \<open>Names are canonical\<close>

lemma compiled_names:
  assumes "compileListener sv inst schema l t = Inr sets" "s \<in> set sets"
  shows "os_TriggerName s = canonical_name (li_Name l) (os_Operation s) \<and>
    os_FunctionName s = os_TriggerName s \<and> os_Marker s = marker inst (li_Name l) (os_Operation s)"
proof -
  let ?rq = "\<lparr>rq_Instance = inst, rq_ServiceSchema = schema, rq_Listener = l, rq_Target =
      \<lparr>tg_Schema = tr_Schema t, tg_Table = tr_Table t, tg_PrimaryKeyColumns = tr_PrimaryKeyColumns t\<rparr>\<rparr>"
  from assms(1) have "Generate (sv_sanitize sv) ?rq = Inr sets" by (simp add: compileListener_def split: sum.splits)
  from generate_named [OF this] assms(2)
  show ?thesis by (auto simp: list_all2_conv_all_nth in_set_conv_nth well_named_def)
qed

lemma put_all_lookup:
  assumes "map_of (put_all m es) k = Some v"
  shows "map_of m k = Some v \<or> (k, v) \<in> set es"
  using assms by (induction es arbitrary: m) (force split: if_splits)+

lemma put_all_covered: "k \<in> fst ` set es \<Longrightarrow> map_of (put_all m es) k \<noteq> None"
proof (induction es arbitrary: m)
  case (Cons e es)
  show ?case
  proof (cases "k \<in> fst ` set es")
    case False
    with Cons.prems have "map_of (put (fst e) (snd e) m) k \<noteq> None" by simp
    moreover have "map_of (put_all m' es) k = map_of m' k" for m'
      using False by (induction es arbitrary: m') auto
    ultimately show ?thesis by simp
  qed (use Cons.IH in simp)
qed simp

section \<open>The target a pair is planned and applied against\<close>

definition target_for :: "server \<Rightarrow> config \<Rightarrow> catalog \<Rightarrow> registryReading list \<Rightarrow> string \<Rightarrow> targetResolution" where
  "target_for sv cfg cat readings n =
     get zero_resolution (di_Targets (ga_Input (all_gathered sv cfg cat readings))) n"

lemma gathered_targets:
  "di_Targets (ga_Input (all_gathered sv cfg cat readings)) =
     foldl (add_target sv cat) (put_all [] (map (\<lambda>l. (li_Name l, res_target sv cat (registryByName readings) l)) (cf_Listeners cfg))) readings"
  by (simp add: all_gathered_def with_readings_def with_configured_def zero_input_def)

lemma put_all_writes: "put_all m (map (\<lambda>x. (key x, val x)) xs) = foldl (\<lambda>m x. put (key x) (val x) m) m xs"
  by (induction xs arbitrary: m) simp_all

lemma target_for_configured:
  assumes "distinct (map li_Name (cf_Listeners cfg))" "l \<in> set (cf_Listeners cfg)"
  shows "target_for sv cfg cat readings (li_Name l) = res_target sv cat (registryByName readings) l"
proof -
  have "map_of (put_all [] (map (\<lambda>l. (li_Name l, res_target sv cat (registryByName readings) l)) (cf_Listeners cfg))) (li_Name l) =
      Some (res_target sv cat (registryByName readings) l)"
    unfolding put_all_writes by (rule map_of_writes_unique [OF assms])
  from target_kept [OF this, of sv cat readings] show ?thesis
    by (simp add: target_for_def gathered_targets get_def)
qed

lemma target_for_recorded:
  assumes "distinct (map row_name readings)" "r \<in> set readings" "row_name r \<notin> li_Name ` set (cf_Listeners cfg)"
  shows "target_for sv cfg cat readings (row_name r) = reading_target sv cat r"
proof -
  have "map_of (put_all [] (map (\<lambda>l. (li_Name l, res_target sv cat (registryByName readings) l)) (cf_Listeners cfg))) (row_name r) = None"
    unfolding put_all_writes map_of_writes_other [OF assms(3)] by simp
  from target_of_reading [OF assms(1,2) this, of sv cat] show ?thesis
    by (simp add: target_for_def gathered_targets get_def)
qed

lemma resolved_is_relation:
  assumes "resolveListenerTarget sv cat l prior = Inr t" "tn_Refusal t = None"
  shows "tn_Target t \<in> set (cat_relations cat)"
proof -
  have found: "r \<in> set (cat_relations cat)" if "List.find P (cat_relations cat) = Some r" for P r
    using that by (auto simp: find_Some_iff)
  show ?thesis
  proof (cases prior)
    case None
    with assms show ?thesis
      by (auto simp: resolveListenerTarget_def Let_def go_err ResolveTarget_def resolvedNewTarget_def classifyTarget_def
          droppedResolution_def find_relation_def dest: found split: option.splits if_splits)
  next
    case (Some p)
    with assms obtain byOID byName same where oid: "ResolveTargetOID sv cat (rl_TargetOID p) = Inr byOID"
      and name: "ResolveTarget sv cat (rl_TargetTable p) = Inr byName"
      and same: "targetHasRecordedName sv byOID (rl_TargetTable p) = Inr same"
      and t: "t = resolvedRecordedTarget l (rl_TargetTable p) byOID byName
        (classifyTarget \<lparr>sg_recorded = True, sg_oid = (byOID \<noteq> None), sg_named = (byName \<noteq> None), sg_sameName = same\<rparr>)"
      by (auto simp: resolveListenerTarget_def Let_def go_err split: if_splits)
    have "byOID = Some r \<Longrightarrow> r \<in> set (cat_relations cat)" for r
      using oid found by (auto simp: ResolveTargetOID_def go_err find_relation_oid_def)
    moreover have "byName = Some r \<Longrightarrow> r \<in> set (cat_relations cat)" for r
      using name found by (auto simp: ResolveTarget_def go_err find_relation_def split: option.splits)
    moreover have "byOID = None \<Longrightarrow> \<not> same" using same by (auto simp: targetHasRecordedName_def)
    ultimately show ?thesis
      using t assms(2)
      by (cases byOID; cases byName)
        (auto simp: resolvedRecordedTarget_def droppedResolution_def classifyTarget_def split: if_splits)
  qed
qed

lemma object_resolution:
  assumes ok: "registry_ok cat" and names: "distinct (map li_Name (cf_Listeners cfg))"
    and read: "readRegistries sv cat = Inr readings"
    and conf: "\<forall>l \<in> set (cf_Listeners cfg). configured_ok sv cfg cat (registryByName readings) l"
    and rows: "\<forall>r \<in> set readings. row_name r \<notin> li_Name ` set (cf_Listeners cfg) \<longrightarrow>
      resolveListenerTarget sv cat (recorded_as_configured r) (Some (rr_Listener r)) = Inr (reading_target sv cat r)"
    and n: "n \<in> li_Name ` set (cf_Listeners cfg) \<union> row_name ` set readings"
  shows "resolveListenerTarget sv cat
      (case map_of (configuredByName (cf_Listeners cfg)) n of Some l \<Rightarrow> l
       | None \<Rightarrow> recorded_as_configured (get zero_reading (registryByName readings) n))
      (recorded_prior (get zero_reading (registryByName readings) n)) = Inr (target_for sv cfg cat readings n)"
proof (cases "n \<in> li_Name ` set (cf_Listeners cfg)")
  case True
  then obtain l where l: "l \<in> set (cf_Listeners cfg)" "li_Name l = n" by auto
  from conf l have "configured_ok sv cfg cat (registryByName readings) l" by blast
  with l show ?thesis
    using configuredByName_unique [OF names l(1)] target_for_configured [OF names l(1), of sv cat readings]
    by (simp add: configured_ok_def)
next
  case False
  with n obtain r where r: "r \<in> set readings" "row_name r = n" by auto
  note readings = readRegistries_Inr [OF read ok]
  from readings r(1) ok have "row_name r \<noteq> []" by (auto simp: registry_ok_def)
  with r readings have "recorded_prior (get zero_reading (registryByName readings) n) = Some (rr_Listener r)"
    by (metis reading_named recorded_prior_def row_name_def)
  moreover have "get zero_reading (registryByName readings) n = r" using r readings reading_named by blast
  moreover have "resolveListenerTarget sv cat (recorded_as_configured r) (Some (rr_Listener r)) = Inr (reading_target sv cat r)"
    using rows r False by blast
  moreover have "target_for sv cfg cat readings n = reading_target sv cat r"
    using target_for_recorded [of readings r cfg sv cat] readings r False by simp
  ultimately show ?thesis using False by (simp add: configuredByName_None)
qed

lemma readings_resolved:
  assumes "fold_result (add_reading sv cat) g rs = Inr g'" "distinct (map row_name rs)" "r \<in> set rs"
    "map_of (di_Targets (ga_Input g)) (row_name r) = None"
  shows "resolveListenerTarget sv cat (recorded_as_configured r) (Some (rr_Listener r)) = Inr (reading_target sv cat r)"
  using assms
proof (induction rs arbitrary: g)
  case (Cons x rs)
  then obtain g1 where g1: "add_reading sv cat g x = Inr g1" and rest: "fold_result (add_reading sv cat) g1 rs = Inr g'"
    by (auto simp: go_err)
  note x = add_reading_explicit [OF g1]
  show ?case
  proof (cases "x = r")
    case False
    with Cons.prems have "row_name x \<noteq> row_name r" "r \<in> set rs" by (auto simp: image_iff)
    with Cons.prems(4) x have "map_of (di_Targets (ga_Input g1)) (row_name r) = None"
      by (simp add: with_readings_def add_target_def)
    with Cons.IH [OF rest] Cons.prems \<open>r \<in> set rs\<close> show ?thesis by simp
  qed (use x Cons.prems in simp)
qed simp

lemma gather_facts:
  assumes gather: "gather sv cfg cat = Inr input" and ok: "registry_ok cat"
  obtains readings observed where "readRegistries sv cat = Inr readings"
    "\<forall>l \<in> set (cf_Listeners cfg). configured_ok sv cfg cat (registryByName readings) l"
    "\<forall>r \<in> set readings. row_name r \<notin> li_Name ` set (cf_Listeners cfg) \<longrightarrow>
      resolveListenerTarget sv cat (recorded_as_configured r) (Some (rr_Listener r)) = Inr (reading_target sv cat r)"
    "list_all2 (\<lambda>e v. readObservedPair sv cat (di_Targets (ga_Input (all_gathered sv cfg cat readings))) e = Inr v)
       (ga_Names (all_gathered sv cfg cat readings)) observed"
    "input = (ga_Input (all_gathered sv cfg cat readings))\<lparr>di_Observed := observed\<rparr>"
proof -
  from gather obtain readings g g' where r: "readRegistries sv cat = Inr readings"
    and g: "fold_result (addConfiguredSource sv cat cfg (registryByName readings))
      \<lparr>ga_Input = zero_input (cf_Instance cfg), ga_Names = []\<rparr> (cf_Listeners cfg) = Inr g"
    and g': "fold_result (add_reading sv cat) g readings = Inr g'"
    by (auto simp: gather_def go_err simp del: fold_result.simps collect.simps)
  have rows: "\<forall>r \<in> set readings. row_name r \<notin> li_Name ` set (cf_Listeners cfg) \<longrightarrow>
      resolveListenerTarget sv cat (recorded_as_configured r) (Some (rr_Listener r)) = Inr (reading_target sv cat r)"
  proof (intro ballI impI)
    fix x assume x: "x \<in> set readings" "row_name x \<notin> li_Name ` set (cf_Listeners cfg)"
    have "map_of (di_Targets (ga_Input g)) (row_name x) = None"
      using configured_explicit [OF g]
      by (simp add: with_configured_def zero_input_def put_all_writes map_of_writes_other [OF x(2)])
    then show "resolveListenerTarget sv cat (recorded_as_configured x) (Some (rr_Listener x)) = Inr (reading_target sv cat x)"
      using readings_resolved [OF g'] readRegistries_Inr [OF r ok] x(1) by blast
  qed
  obtain readings' observed where e: "readRegistries sv cat = Inr readings'"
    "\<forall>l \<in> set (cf_Listeners cfg). configured_ok sv cfg cat (registryByName readings') l"
    "list_all2 (\<lambda>e v. readObservedPair sv cat (di_Targets (ga_Input (all_gathered sv cfg cat readings'))) e = Inr v)
       (ga_Names (all_gathered sv cfg cat readings')) observed"
    "input = (ga_Input (all_gathered sv cfg cat readings'))\<lparr>di_Observed := observed\<rparr>"
    by (rule gather_explicit [OF gather])
  from r e(1) have "readings' = readings" by simp
  with that [OF r] rows e show thesis by blast
qed

section \<open>Ownership of what a plan drops\<close>

definition pair_name :: "Pair \<Rightarrow> string" where
  "pair_name p = canonical_name (pr_Listener p) (pr_Operation p)"

lemma sets_canonical:
  assumes "configured_ok sv cfg cat rec l" "s \<in> set (res_sets sv cfg cat rec l)"
  shows "os_TriggerName s = pair_name (set_pair l s)" "os_FunctionName s = pair_name (set_pair l s)"
    "os_Marker s = marker (cf_Instance cfg) (li_Name l) (os_Operation s)"
proof -
  from assms(2) have "tn_Refusal (res_target sv cat rec l) = None" by (auto simp: res_sets_def split: if_splits)
  with assms(1) have "compileListener sv (cf_Instance cfg) (cf_Schema cfg) l (tn_Target (res_target sv cat rec l)) =
      Inr (res_sets sv cfg cat rec l)" by (simp add: configured_ok_def)
  from compiled_names [OF this assms(2)]
  show "os_TriggerName s = pair_name (set_pair l s)" "os_FunctionName s = pair_name (set_pair l s)"
    "os_Marker s = marker (cf_Instance cfg) (li_Name l) (os_Operation s)"
    by (simp_all add: pair_name_def set_pair_def)
qed

lemma names_canonical:
  assumes ok: "registry_ok cat" and read: "readRegistries sv cat = Inr readings"
    and conf: "\<forall>l \<in> set (cf_Listeners cfg). configured_ok sv cfg cat (registryByName readings) l"
    and e: "map_of (ga_Names (all_gathered sv cfg cat readings)) p = Some ns"
  shows "on_trigger ns = pair_name p"
proof -
  let ?es = "concat (map (\<lambda>l. map (set_names l) (res_sets sv cfg cat (registryByName readings) l)) (cf_Listeners cfg)) @
      concat (map (\<lambda>r. map (trigger_names r) (rr_Triggers r)) readings)"
  have "ga_Names (all_gathered sv cfg cat readings) = put_all [] ?es"
    by (simp add: all_gathered_def with_readings_def with_configured_def put_all_append)
  with e have "(p, ns) \<in> set ?es" using put_all_lookup [of "[]" ?es p ns] by simp
  then consider l s where "l \<in> set (cf_Listeners cfg)" "s \<in> set (res_sets sv cfg cat (registryByName readings) l)"
      "(p, ns) = set_names l s"
    | r g where "r \<in> set readings" "g \<in> set (rr_Triggers r)" "(p, ns) = trigger_names r g"
    by auto
  then show ?thesis
  proof cases
    case 1
    then show ?thesis using sets_canonical(1) conf by (auto simp: set_names_def)
  next
    case 2
    then obtain row where "row \<in> set (cat_registry cat)" "r = sorted_row row"
      using readRegistries_Inr [OF read ok] by auto
    with 2 ok show ?thesis
      by (auto simp: trigger_names_def registry_ok_def pair_name_def row_name_def)
  qed
qed

lemma observed_source:
  assumes obs: "list_all2 (\<lambda>e v. readObservedPair sv cat targets e = Inr v) names observed"
    and v: "last_of vp_Pair zero_observed observed p = v"
    and dist: "distinct (map fst names)" and e: "map_of names p = Some ns"
  shows "readObservedPair sv cat targets (p, ns) = Inr v"
proof -
  have pairs: "map vp_Pair observed = map fst names"
    using obs
    by (induction rule: list_all2_induct)
      (auto simp: readObservedPair_def Let_def go_err zero_observed_def split: if_splits option.splits)
  from e have "(p, ns) \<in> set names" by (rule map_of_SomeD)
  then obtain i where i: "i < length names" "names ! i = (p, ns)" by (auto simp: in_set_conv_nth)
  with obs have read: "readObservedPair sv cat targets (p, ns) = Inr (observed ! i)" "i < length observed"
    by (auto simp: list_all2_conv_all_nth)
  have "vp_Pair (observed ! i) = p" using pairs i read(2) by (metis fst_conv nth_map)
  moreover have "distinct (map vp_Pair observed)" using pairs dist by simp
  ultimately have "List.find (\<lambda>y. vp_Pair y = p) (rev observed) = Some (observed ! i)"
    using find_rev_unique [of vp_Pair observed "observed ! i"] read(2) by simp
  with read v show ?thesis by (simp add: last_of_def)
qed

lemma names_distinct: "distinct (map fst (ga_Names (all_gathered sv cfg cat readings)))"
proof -
  have "distinct (map fst m) \<Longrightarrow> distinct (map fst (put_all m es))" for m :: "(Pair \<times> objectNames) list" and es
    by (induction es arbitrary: m) (simp_all add: distinct_put)
  then show ?thesis by (simp add: all_gathered_def with_readings_def with_configured_def)
qed

lemma pair_source_facts:
  assumes "p \<in> named_pairs input"
  shows "ps_Recorded (pair_source input p) = last_of rp_Pair zero_recorded (di_Recorded input) p"
    "ps_Observed (pair_source input p) = last_of vp_Pair zero_observed (di_Observed input) p"
    "ps_Target (pair_source input p) = get zero_resolution (di_Targets input) (pr_Listener p)"
    "ps_Instance (pair_source input p) = di_Instance input"
  by (simp_all add: pair_source_def preparedPairSource_def shortCircuitSpecificationComparison_def get_collected [OF assms]
      with_listener_def get_raw split: option.split)

lemma unrefused_owned:
  assumes "pc_Refusal (classifyPair s) = None" "vp_TriggerPresent (ps_Observed s)"
  shows "tn_Refusal (ps_Target s) = None \<and>
    gr_Marker (vp_Trigger (ps_Observed s)) = Some (marker (ps_Instance s) (pr_Listener (rp_Pair (ps_Recorded s)))
      (pr_Operation (rp_Pair (ps_Recorded s))))"
proof -
  have target: "tn_Refusal (ps_Target s) = None" using assms(1) by (auto simp: classifyPair_def refused_def split: option.splits)
  then have "observedOwnershipRefusal s = None" using assms(1) by (auto simp: classifyPair_def refused_def split: option.splits)
  with assms(2) have "object_refusal (registryOwnershipRow (ps_Recorded s))
      (catalogTriggerObject (vp_Trigger (ps_Observed s)) (objectIdentity s ''trigger'')) (ps_Instance s) = None"
    by (simp add: observedOwnershipRefusal_def Let_def fault_chain_None)
  then have "ow_Owned (DetermineOwnership (registryOwnershipRow (ps_Recorded s))
      (catalogTriggerObject (vp_Trigger (ps_Observed s)) (objectIdentity s ''trigger'')) (ps_Instance s))"
    by (simp add: object_refusal_def split: if_splits)
  with target show ?thesis by (simp add: ownership_iff registryOwnershipRow_def catalogTriggerObject_def)
qed

lemma observed_trigger:
  assumes "readObservedPair sv cat targets (p, ns) = Inr v" "tn_Refusal (get zero_resolution targets (pr_Listener p)) = None"
    and "map_of (cat_triggers cat) (tr_OID (tn_Target (get zero_resolution targets (pr_Listener p))), on_trigger ns) = Some g"
  shows "vp_TriggerPresent v \<and> vp_Trigger v = g"
  using assms by (auto simp: readObservedPair_def Let_def go_err ReadTrigger_def split: option.splits)

definition ours :: "string \<Rightarrow> TriggerReading \<Rightarrow> bool" where
  "ours inst g \<longleftrightarrow> (\<exists>l p. gr_Marker g = Some (marker inst l p))"

lemma planned_trigger_is_ours:
  assumes ok: "registry_ok cat" and gather: "gather sv cfg cat = Inr input"
    and read: "readRegistries sv cat = Inr readings"
    and clean: "pn_Refusals (diff input) = []"
    and named: "p \<in> fst ` set (ga_Names (all_gathered sv cfg cat readings))"
    and held: "map_of (cat_triggers cat) (tr_OID (tn_Target (target_for sv cfg cat readings (pr_Listener p))), pair_name p) = Some g"
  shows "ours (cf_Instance cfg) g"
proof -
  obtain readings' observed where r: "readRegistries sv cat = Inr readings'"
    and conf: "\<forall>l \<in> set (cf_Listeners cfg). configured_ok sv cfg cat (registryByName readings') l"
    and obs: "list_all2 (\<lambda>e v. readObservedPair sv cat (di_Targets (ga_Input (all_gathered sv cfg cat readings'))) e = Inr v)
       (ga_Names (all_gathered sv cfg cat readings')) observed"
    and input: "input = (ga_Input (all_gathered sv cfg cat readings'))\<lparr>di_Observed := observed\<rparr>"
    by (rule gather_facts [OF gather ok])
  from r read have same: "readings' = readings" by simp
  obtain ns where ns: "map_of (ga_Names (all_gathered sv cfg cat readings)) p = Some ns"
    using named by (metis map_of_eq_None_iff not_None_eq)
  have name: "on_trigger ns = pair_name p" using names_canonical [OF ok read _ ns] conf same by simp
  have "vp_Pair ` set observed = fst ` set (ga_Names (all_gathered sv cfg cat readings))"
  proof -
    have "list_all2 (\<lambda>e v. vp_Pair v = fst e) (ga_Names (all_gathered sv cfg cat readings)) observed"
      using obs unfolding same
      by (rule list_all2_mono) (auto simp: readObservedPair_def Let_def go_err zero_observed_def split: if_splits option.splits)
    then have "map vp_Pair observed = map fst (ga_Names (all_gathered sv cfg cat readings))"
      by (induction rule: list_all2_induct) simp_all
    then show ?thesis by (metis list.set_map)
  qed
  then have pin: "p \<in> named_pairs input" using named input by (auto simp: named_pairs_def)
  let ?s = "pair_source input p"
  have target: "ps_Target ?s = target_for sv cfg cat readings (pr_Listener p)"
    using pair_source_facts(3) [OF pin] input same by (simp add: target_for_def)
  have "readObservedPair sv cat (di_Targets (ga_Input (all_gathered sv cfg cat readings))) (p, ns) = Inr (ps_Observed ?s)"
    using observed_source [OF obs refl names_distinct] ns same pair_source_facts(2) [OF pin] input by simp
  moreover have unref: "pc_Refusal (classifyPair ?s) = None" by (rule diff_unrefused [OF clean pin])
  moreover from this have "tn_Refusal (ps_Target ?s) = None" by (auto simp: classifyPair_def refused_def split: option.splits)
  moreover have "map_of (cat_triggers cat) (tr_OID (tn_Target (get zero_resolution
      (di_Targets (ga_Input (all_gathered sv cfg cat readings))) (pr_Listener p))), on_trigger ns) = Some g"
    unfolding name using held by (simp add: target_for_def)
  ultimately have "vp_TriggerPresent (ps_Observed ?s) \<and> vp_Trigger (ps_Observed ?s) = g"
    using observed_trigger target unfolding target_for_def by metis
  moreover have "ps_Instance ?s = cf_Instance cfg"
    unfolding pair_source_facts(4) [OF pin]
    by (simp add: input all_gathered_def with_readings_def with_configured_def zero_input_def)
  ultimately show ?thesis using unrefused_owned [OF unref] unfolding ours_def by metis
qed

section \<open>What an apply drops\<close>

definition catalog_ok :: "catalog \<Rightarrow> bool" where
  "catalog_ok cat \<longleftrightarrow> registry_ok cat \<and>
     distinct (map (\<lambda>r. (tr_Schema r, tr_Table r)) (cat_relations cat)) \<and>
     (\<forall>e \<in> set (cat_triggers cat). snd (fst e) \<noteq> [])"

definition drop_safe :: "catalog \<Rightarrow> string \<Rightarrow> applyObject \<Rightarrow> bool" where
  "drop_safe cat inst object \<longleftrightarrow>
     (ao_Drop object \<longrightarrow> ao_Target object \<in> set (cat_relations cat) \<and>
        (\<forall>g. map_of (cat_triggers cat) (tr_OID (ao_Target object), ao_TriggerName object) = Some g \<longrightarrow> ours inst g)) \<and>
     (ao_Creates object = [] \<or> (\<exists>schema target s. ao_Creates object = creates_of schema target s))"

lemma recordedNames_cases:
  assumes ok: "registry_ok cat" and read: "readRegistries sv cat = Inr readings"
  shows "recordedNames (get zero_reading (registryByName readings) n) op = ([], []) \<or>
    (\<exists>r g. r \<in> set readings \<and> row_name r = n \<and> g \<in> set (rr_Triggers r) \<and> gt_Operation g = op \<and>
       recordedNames (get zero_reading (registryByName readings) n) op = (pair_name \<lparr>pr_Listener = n, pr_Operation = op\<rparr>,
         pair_name \<lparr>pr_Listener = n, pr_Operation = op\<rparr>))"
proof (cases "List.find (\<lambda>r. row_name r = n) readings")
  case None
  with readRegistries_Inr [OF read ok] have "get zero_reading (registryByName readings) n = zero_reading"
    by (simp add: registryByName_get)
  then show ?thesis by (simp add: recordedNames_def zero_reading_def)
next
  case (Some r)
  note readings = readRegistries_Inr [OF read ok]
  from Some have r: "r \<in> set readings" "row_name r = n" by (auto simp: find_Some_iff)
  with readings have get: "get zero_reading (registryByName readings) n = r" using reading_named by blast
  from r readings obtain row where row: "row \<in> set (cat_registry cat)" "r = sorted_row row" by auto
  show ?thesis
  proof (cases "List.find (\<lambda>g. gt_Operation g = op) (rr_Triggers r)")
    case None
    then show ?thesis by (simp add: get recordedNames_def)
  next
    case (Some g)
    then have g: "g \<in> set (rr_Triggers r)" "gt_Operation g = op" by (auto simp: find_Some_iff)
    with row ok r(2) have "gt_TriggerName g = pair_name \<lparr>pr_Listener = n, pr_Operation = op\<rparr>"
      "gt_FunctionName g = pair_name \<lparr>pr_Listener = n, pr_Operation = op\<rparr>"
      by (auto simp: registry_ok_def pair_name_def)
    with Some g r show ?thesis by (auto simp: get recordedNames_def)
  qed
qed

lemma named_keys:
  "fst ` set (ga_Names (all_gathered sv cfg cat readings)) =
     (\<Union>l \<in> set (cf_Listeners cfg). set_pair l ` set (res_sets sv cfg cat (registryByName readings) l)) \<union>
     (\<Union>r \<in> set readings. (\<lambda>g. \<lparr>pr_Listener = row_name r, pr_Operation = gt_Operation g\<rparr>) ` set (rr_Triggers r))"
proof -
  have "fst ` set (put_all m es) = fst ` set m \<union> fst ` set es" for m :: "(Pair \<times> objectNames) list" and es
    by (induction es arbitrary: m) (auto simp: keys_put)
  then show ?thesis
    by (simp add: all_gathered_def with_readings_def with_configured_def image_Union image_image set_names_def trigger_names_def
        row_name_def)
qed

lemma recorded_has_no_sets: "compileListener sv inst schema (recorded_as_configured r) t \<noteq> Inr (s # sets)"
  "compileListener sv inst schema (recorded_as_configured r) t = Inr sets' \<Longrightarrow> s' \<notin> set sets'"
  by (auto simp: compileListener_def recorded_as_configured_def Generate_def go_err validateGenerationInput_None input_ok_def
      Let_def payloadModes_def split: sum.splits)

lemma object_of_set_facts:
  "ao_Target (object_of_set cfg t k ns found) = t"
  "ao_TriggerName (object_of_set cfg t k ns found) = (case found of Some s \<Rightarrow> os_TriggerName s | None \<Rightarrow> fst ns)"
  "ao_Creates (object_of_set cfg t k ns found) = [] \<or>
     (\<exists>s. ao_Creates (object_of_set cfg t k ns found) = creates_of (cf_Schema cfg) t s)"
  by (auto simp: object_of_set_def split: option.split)

lemma withDrop_facts:
  assumes "withDropOfWhatTheCatalogHolds sv cat object = Inr ob"
  shows "ao_Target ob = ao_Target object" "ao_TriggerName ob = ao_TriggerName object" "ao_Creates ob = ao_Creates object"
  using assms by (auto simp: withDropOfWhatTheCatalogHolds_def go_err)

lemma drop_or_plain_facts:
  assumes "(if \<not> ao_Drop object then Inr object else withDropOfWhatTheCatalogHolds sv cat object) = Inr ob"
  shows "ao_Target ob = ao_Target object" "ao_TriggerName ob = ao_TriggerName object" "ao_Creates ob = ao_Creates object"
proof -
  have "ao_Target ob = ao_Target object \<and> ao_TriggerName ob = ao_TriggerName object \<and> ao_Creates ob = ao_Creates object"
  proof (cases "ao_Drop object")
    case True
    with assms withDrop_facts [of sv cat object ob] show ?thesis by simp
  qed (use assms in simp)
  then show "ao_Target ob = ao_Target object" "ao_TriggerName ob = ao_TriggerName object" "ao_Creates ob = ao_Creates object"
    by simp_all
qed

lemma object_is_safe:
  assumes cat: "catalog_ok cat" and names: "distinct (map li_Name (cf_Listeners cfg))"
    and gather: "gather sv cfg cat = Inr input" and clean: "pn_Refusals (diff input) = []"
    and read: "readRegistries sv cat = Inr readings"
    and object: "objectForAction sv cfg cat a (map_of (configuredByName (cf_Listeners cfg)) (pr_Listener (ac_Pair a)))
      (get zero_reading (registryByName readings) (pr_Listener (ac_Pair a))) = Inr ob"
  shows "drop_safe cat (cf_Instance cfg) ob"
proof -
  let ?q = "ac_Pair a" and ?n = "pr_Listener (ac_Pair a)"
  let ?rec = "get zero_reading (registryByName readings) ?n"
  let ?l = "case map_of (configuredByName (cf_Listeners cfg)) ?n of Some l \<Rightarrow> l | None \<Rightarrow> recorded_as_configured ?rec"
  from cat have ok: "registry_ok cat" by (simp add: catalog_ok_def)
  obtain readings' where r': "readRegistries sv cat = Inr readings'"
    and conf': "\<forall>l \<in> set (cf_Listeners cfg). configured_ok sv cfg cat (registryByName readings') l"
    and rows': "\<forall>r \<in> set readings'. row_name r \<notin> li_Name ` set (cf_Listeners cfg) \<longrightarrow>
      resolveListenerTarget sv cat (recorded_as_configured r) (Some (rr_Listener r)) = Inr (reading_target sv cat r)"
    by (rule gather_facts [OF gather ok])
  from r' read have same: "readings' = readings" by simp
  obtain t where t: "resolveListenerTarget sv cat ?l (recorded_prior ?rec) = Inr t"
    using object by (auto simp: objectForAction_def Let_def go_err)
  have pair: "\<lparr>pr_Listener = ?n, pr_Operation = pr_Operation ?q\<rparr> = ?q" by simp
  have ours: "ours (cf_Instance cfg) g"
    if held: "map_of (cat_triggers cat) (tr_OID (tn_Target t), name) = Some g"
      and name: "name = [] \<or> name = pair_name ?q \<and> ?q \<in> fst ` set (ga_Names (all_gathered sv cfg cat readings)) \<and>
        ?n \<in> li_Name ` set (cf_Listeners cfg) \<union> row_name ` set readings" for name g
  proof -
    from held have "name \<noteq> []" using cat by (auto simp: catalog_ok_def dest!: map_of_SomeD)
    with name have "name = pair_name ?q" and q: "?q \<in> fst ` set (ga_Names (all_gathered sv cfg cat readings))"
      and n: "?n \<in> li_Name ` set (cf_Listeners cfg) \<union> row_name ` set readings" by auto
    have "t = target_for sv cfg cat readings ?n"
      using object_resolution [OF ok names read _ _ n] conf' rows' same t by simp
    with held \<open>name = pair_name ?q\<close> show ?thesis
      using planned_trigger_is_ours [OF ok gather read clean q] by simp
  qed
  have recorded: "fst (recordedNames ?rec (pr_Operation ?q)) = [] \<or>
      fst (recordedNames ?rec (pr_Operation ?q)) = pair_name ?q \<and> ?q \<in> fst ` set (ga_Names (all_gathered sv cfg cat readings)) \<and>
      ?n \<in> li_Name ` set (cf_Listeners cfg) \<union> row_name ` set readings"
    using recordedNames_cases [OF ok read, of ?n "pr_Operation ?q"] unfolding pair named_keys by force
  show ?thesis
  proof (cases "tn_Refusal t")
    case (Some x)
    with object t have "ob = zero_object" by (simp add: objectForAction_def Let_def)
    then show ?thesis by (simp add: drop_safe_def zero_object_def)
  next
    case None
    note rel = resolved_is_relation [OF t None]
    show ?thesis
    proof (cases "ac_Kind a = ActionDrop")
      case True
      with object t None obtain held where "ReadTrigger sv cat (tr_OID (tn_Target t)) (fst (recordedNames ?rec (pr_Operation ?q))) = Inr held"
        and ob: "ao_Target ob = tn_Target t" "ao_TriggerName ob = fst (recordedNames ?rec (pr_Operation ?q))" "ao_Creates ob = []"
        by (auto simp: objectForAction_def Let_def withDropOfWhatTheCatalogHolds_def go_err)
      with ours recorded rel show ?thesis by (auto simp: drop_safe_def)
    next
      case False
      with object t None obtain found where found: "setForAction sv cfg ?l (tn_Target t) (pr_Operation ?q) = Inr found"
        and ob: "ao_Target ob = tn_Target t"
          "ao_TriggerName ob = (case found of Some s \<Rightarrow> os_TriggerName s | None \<Rightarrow> fst (recordedNames ?rec (pr_Operation ?q)))"
          "ao_Creates ob = [] \<or> (\<exists>s. ao_Creates ob = creates_of (cf_Schema cfg) (tn_Target t) s)"
      proof -
        from object t None False obtain found where found: "setForAction sv cfg ?l (tn_Target t) (pr_Operation ?q) = Inr found"
          and made: "(if \<not> ao_Drop (object_of_set cfg (tn_Target t) (ac_Kind a) (recordedNames ?rec (pr_Operation ?q)) found)
            then Inr (object_of_set cfg (tn_Target t) (ac_Kind a) (recordedNames ?rec (pr_Operation ?q)) found)
            else withDropOfWhatTheCatalogHolds sv cat
              (object_of_set cfg (tn_Target t) (ac_Kind a) (recordedNames ?rec (pr_Operation ?q)) found)) = Inr ob"
          by (auto simp: objectForAction_def Let_def and_then_Inr)
        let ?o = "object_of_set cfg (tn_Target t) (ac_Kind a) (recordedNames ?rec (pr_Operation ?q)) found"
        note facts = drop_or_plain_facts [OF made]
        show thesis
          by (rule that [OF found]) (unfold facts object_of_set_facts(1,2), rule refl, rule refl, rule object_of_set_facts(3))
      qed
      have "ao_TriggerName ob = [] \<or> ao_TriggerName ob = pair_name ?q \<and> ?q \<in> fst ` set (ga_Names (all_gathered sv cfg cat readings)) \<and>
          ?n \<in> li_Name ` set (cf_Listeners cfg) \<union> row_name ` set readings"
      proof (cases found)
        case None
        with ob recorded show ?thesis by simp
      next
        case (Some s)
        with found obtain sets where sets: "compileListener sv (cf_Instance cfg) (cf_Schema cfg) ?l (tn_Target t) = Inr sets"
          and s: "s \<in> set sets" "os_Operation s = pr_Operation ?q"
          by (auto simp: setForAction_def go_err find_Some_iff)
        with recorded_has_no_sets(2) obtain l where l: "map_of (configuredByName (cf_Listeners cfg)) ?n = Some l"
          by (cases "map_of (configuredByName (cf_Listeners cfg)) ?n") auto
        from configuredByName_Some [OF l] have l': "l \<in> set (cf_Listeners cfg)" "li_Name l = ?n" by simp_all
        have tl: "res_target sv cat (registryByName readings) l = t"
          using t l l' by (simp add: res_target_def)
        have "res_sets sv cfg cat (registryByName readings) l = sets"
          using sets l \<open>tn_Refusal t = None\<close> by (simp add: res_sets_def tl)
        moreover have "?q = set_pair l s" using s l' pair by (simp add: set_pair_def)
        ultimately have "?q \<in> set_pair l ` set (res_sets sv cfg cat (registryByName readings) l)"
          using s by blast
        moreover have "os_TriggerName s = pair_name ?q"
          using compiled_names [OF sets s(1)] l l' s(2) by (simp add: pair_name_def)
        ultimately show ?thesis using Some ob(2) l' unfolding named_keys by force
      qed
      moreover have "ao_Creates ob = [] \<or> (\<exists>schema target s. ao_Creates ob = creates_of schema target s)"
        using ob(3) by blast
      ultimately show ?thesis unfolding drop_safe_def ob(1) using ours rel by blast
    qed
  qed
qed

lemma objects_are_safe:
  assumes "catalog_ok cat" "distinct (map li_Name (cf_Listeners cfg))"
    "gather sv cfg cat = Inr input" "pn_Refusals (diff input) = []"
    and objects: "objectsForPlan sv cfg cat plan = Inr objects" and "ob \<in> set objects"
  shows "drop_safe cat (cf_Instance cfg) ob"
proof -
  let ?f = "\<lambda>readings a. objectForAction sv cfg cat a (map_of (configuredByName (cf_Listeners cfg)) (pr_Listener (ac_Pair a)))
      (get zero_reading (registryByName readings) (pr_Listener (ac_Pair a)))"
  from objects obtain readings parts where read: "readRegistries sv cat = Inr readings"
    and parts: "list_all2 (\<lambda>a part. and_then (?f readings a) (\<lambda>object. Inr
      (if contributes a (map_of (configuredByName (cf_Listeners cfg)) (pr_Listener (ac_Pair a)))
         (get zero_reading (registryByName readings) (pr_Listener (ac_Pair a))) then [object] else [])) = Inr part)
      (pn_Actions plan) parts" and "objects = concat parts"
    unfolding objectsForPlan_def Let_def and_then_Inr collect_Inr by auto
  with assms(6) obtain part where "part \<in> set parts" "ob \<in> set part" by auto
  with parts obtain a where "and_then (?f readings a) (\<lambda>object. Inr
      (if contributes a (map_of (configuredByName (cf_Listeners cfg)) (pr_Listener (ac_Pair a)))
         (get zero_reading (registryByName readings) (pr_Listener (ac_Pair a))) then [object] else [])) = Inr part"
    unfolding list_all2_conv_all_nth in_set_conv_nth by metis
  with \<open>ob \<in> set part\<close> have "?f readings a = Inr ob" by (auto simp: and_then_Inr split: if_splits)
  from object_is_safe [OF assms(1-4) read this] show ?thesis .
qed

section \<open>What the statements of an apply leave alone\<close>

definition keeps :: "TargetReading list \<Rightarrow> nat \<times> string \<Rightarrow> TriggerReading \<Rightarrow> run \<Rightarrow> bool" where
  "keeps rels key g st \<longleftrightarrow>
     (case snd st of Inl _ \<Rightarrow> True | Inr cat \<Rightarrow> cat_relations cat = rels \<and> map_of (cat_triggers cat) key = Some g)"

definition aims_at :: "TargetReading list \<Rightarrow> nat \<times> string \<Rightarrow> string \<Rightarrow> string \<Rightarrow> string \<Rightarrow> bool" where
  "aims_at rels key s t n \<longleftrightarrow> (\<exists>r. List.find (\<lambda>r. tr_Schema r = s \<and> tr_Table r = t) rels = Some r \<and> (tr_OID r, n) = key)"

fun harmless :: "TargetReading list \<Rightarrow> nat \<times> string \<Rightarrow> ddl \<Rightarrow> bool" where
  "harmless rels key (DropTrigger s t n) = (\<not> aims_at rels key s t n)"
| "harmless rels key (CommentTrigger s t n m) = (\<not> aims_at rels key s t n)"
| "harmless rels key _ = True"

lemma map_of_drop_key: "map_of (drop_key k m) k' = (if k' = k then None else map_of m k')"
  by (induction m) (auto simp: drop_key_def)

lemma ddl_effect_keeps:
  assumes "ddl_effect sv stmt cat = Inr cat'" "map_of (cat_triggers cat) key = Some g"
    "harmless (cat_relations cat) key stmt"
  shows "cat_relations cat' = cat_relations cat \<and> map_of (cat_triggers cat') key = Some g"
  using assms
  by (cases stmt) (auto simp: find_relation_def aims_at_def map_of_drop_key split: option.splits if_splits)

lemma change_keeps:
  assumes "keeps rels key g st" "harmless rels key stmt"
  shows "keeps rels key g (change sv t stmt st)"
proof (cases "snd st")
  case (Inr cat)
  with assms have "cat_relations cat = rels" "map_of (cat_triggers cat) key = Some g" by (simp_all add: keeps_def)
  then show ?thesis
    using Inr assms(2) ddl_effect_keeps [of sv stmt cat _ key g]
    by (auto simp: change_def keeps_def exec_ddl_def go_err split: sum.splits)
qed (use assms in \<open>simp add: change_def keeps_def\<close>)

lemma stop_with_keeps: "keeps rels key g st \<Longrightarrow> keeps rels key g (stop_with e st)"
  by (auto simp: keeps_def stop_with_def split: sum.splits)

lemma drop_object_keeps:
  assumes "keeps rels key g st" "\<not> aims_at rels key (tr_Schema (ao_Target ob)) (tr_Table (ao_Target ob)) (ao_TriggerName ob)"
  shows "keeps rels key g (drop_object sv ob st)"
  using assms by (simp add: drop_object_def Let_def change_keeps stop_with_keeps split: sum.split)

lemma change_failed: "snd st = Inl e \<Longrightarrow> change sv t stmt st = st"
  by (simp add: change_def)

lemma create_over_fails:
  assumes "keeps rels key g st" "aims_at rels key s t n"
  shows "\<exists>e. snd (change sv tr (CreateTrigger s t n fs fn w) st) = Inl e"
proof (cases "snd st")
  case (Inr cat)
  with assms obtain r where "find_relation s t cat = Some r" "map_of (cat_triggers cat) (tr_OID r, n) = Some g"
    by (auto simp: keeps_def aims_at_def find_relation_def)
  then have "\<exists>e. exec_ddl sv (CreateTrigger s t n fs fn w) cat = Inl e"
    by (cases "sv_exec_fault sv (CreateTrigger s t n fs fn w)") (auto simp: exec_ddl_def split: option.split)
  with Inr show ?thesis by (auto simp: change_def split: sum.split)
qed (simp add: change_def)

lemma creates_keep:
  assumes "keeps rels key g st"
  shows "keeps rels key g (fold (change sv tr) (creates_of schema target s) st)"
proof -
  let ?c = "change sv tr"
  define st3 where "st3 = ?c (CommentFunction schema (os_FunctionName s) (os_Marker s))
      (?c (RevokeExecute schema (os_FunctionName s)) (?c (CreateFunction schema (os_FunctionName s) (os_CreateFunction s)) st))"
  let ?create = "CreateTrigger (tr_Schema target) (tr_Table target) (os_TriggerName s) schema (os_FunctionName s) (os_CreateTrigger s)"
  let ?comment = "CommentTrigger (tr_Schema target) (tr_Table target) (os_TriggerName s) (os_Marker s)"
  have st3: "keeps rels key g st3" by (simp add: st3_def change_keeps assms)
  then have st4: "keeps rels key g (?c ?create st3)" by (simp add: change_keeps)
  have "keeps rels key g (?c ?comment (?c ?create st3))"
  proof (cases "aims_at rels key (tr_Schema target) (tr_Table target) (os_TriggerName s)")
    case True
    from create_over_fails [OF st3 this] st4 show ?thesis by (metis change_failed)
  next
    case False
    with st4 show ?thesis by (simp add: change_keeps)
  qed
  then show ?thesis by (simp add: creates_of_def st3_def)
qed

definition spares :: "TargetReading list \<Rightarrow> nat \<times> string \<Rightarrow> applyObject \<Rightarrow> bool" where
  "spares rels key ob \<longleftrightarrow>
     (ao_Drop ob \<longrightarrow> \<not> aims_at rels key (tr_Schema (ao_Target ob)) (tr_Table (ao_Target ob)) (ao_TriggerName ob)) \<and>
     (ao_Creates ob = [] \<or> (\<exists>schema target s. ao_Creates ob = creates_of schema target s))"

lemma fold_keeps:
  assumes "\<And>x st. x \<in> set xs \<Longrightarrow> P st \<Longrightarrow> P (f x st)" "P st"
  shows "P (fold f xs st)"
  using assms by (induction xs arbitrary: st) simp_all

lemma apply_group_keeps:
  assumes "\<forall>ob \<in> set (ag_objects grp). spares rels key ob" "keeps rels key g st"
  shows "keeps rels key g (apply_group sv grp st)"
proof -
  have "keeps rels key g (applyDrops sv grp st)"
    unfolding applyDrops_def
    by (rule fold_keeps) (use assms in \<open>auto simp: spares_def intro: drop_object_keeps\<close>)
  then show ?thesis
    unfolding apply_group_def applyCreates_def
  proof (rule fold_keeps [rotated])
    fix ob st assume "ob \<in> set (ag_objects grp)" "keeps rels key g st"
    with assms(1) show "keeps rels key g (fold (change sv (ag_target grp)) (ao_Creates ob) st)"
      unfolding spares_def by (metis creates_keep fold_Nil id_apply)
  qed
qed

lemma group_objects_subset:
  assumes "groupedApplyObjects sv objects = Inr groups" "grp \<in> set groups"
  shows "set (ag_objects grp) \<subseteq> set objects"
proof -
  from assms(1) obtain m where m: "fold_result (group_object sv) [] objects = Inr m" "groups = sort_key ag_name (map snd m)"
    by (auto simp: groupedApplyObjects_def go_err)
  have "\<forall>e \<in> set m. set (ag_objects (snd e)) \<subseteq> set objects"
  proof (rule fold_result_invariant [OF m(1), where P = "\<lambda>m. \<forall>e \<in> set m. set (ag_objects (snd e)) \<subseteq> set objects"])
    fix acc ob acc' assume ob: "ob \<in> set objects" and acc: "\<forall>e \<in> set acc. set (ag_objects (snd e)) \<subseteq> set objects"
      and step: "group_object sv acc ob = Inr acc'"
    have put: "set (put k v m) \<subseteq> insert (k, v) (set m)" for k v and m :: "(string \<times> applyGroup) list"
      by (induction m) auto
    have grown: "set (ag_objects grp) \<subseteq> set objects" if "map_of acc name = Some grp" for name grp
      using map_of_SomeD [OF that] acc by fastforce
    from step obtain k grp where acc': "acc' = put k grp acc" and "set (ag_objects grp) \<subseteq> set objects"
      using ob grown by (fastforce simp: group_object_def go_err split: option.splits)
    with put [of k grp acc] acc show "\<forall>e \<in> set acc'. set (ag_objects (snd e)) \<subseteq> set objects" by fastforce
  qed simp
  with m(2) assms(2) show ?thesis by auto
qed

lemma apply_objects_keeps:
  assumes "\<forall>ob \<in> set objects. spares rels key ob" "keeps rels key g st"
  shows "keeps rels key g (apply_objects sv objects st)"
proof (cases "groupedApplyObjects sv objects")
  case (Inr groups)
  have "keeps rels key g (fold (apply_group sv) groups st)"
    by (rule fold_keeps) (use assms group_objects_subset [OF Inr] in \<open>blast intro: apply_group_keeps\<close>, rule assms(2))
  with Inr show ?thesis by (simp add: apply_objects_def)
qed (use assms in \<open>simp add: apply_objects_def stop_with_keeps\<close>)

section \<open>Writing the registry leaves the catalog alone\<close>

lemma store_row_catalog [simp]:
  "cat_triggers (store_row row cat) = cat_triggers cat" "cat_relations (store_row row cat) = cat_relations cat"
  by (simp_all add: store_row_def)

lemma syncConfigured_catalog:
  "syncConfiguredListener sv cfg cat l = Inr cat' \<Longrightarrow> cat_triggers cat' = cat_triggers cat \<and> cat_relations cat' = cat_relations cat"
  by (auto simp: syncConfiguredListener_def go_err writeRegistry_def Let_def)

lemma syncRegistry_catalog:
  assumes "syncRegistry sv cfg plan cat = Inr cat'"
  shows "cat_triggers cat' = cat_triggers cat \<and> cat_relations cat' = cat_relations cat"
proof -
  let ?P = "\<lambda>c. cat_triggers c = cat_triggers cat \<and> cat_relations c = cat_relations cat"
  from assms obtain mid where mid: "fold_result (\<lambda>cat listener.
      if li_Name listener \<in> (\<lambda>a. pr_Listener (ac_Pair a)) ` set (pn_Actions plan)
      then syncConfiguredListener sv cfg cat listener else Inr cat) cat (cf_Listeners cfg) = Inr mid"
    and "fold_result (\<lambda>cat action. if map_of (configuredByName (cf_Listeners cfg)) (pr_Listener (ac_Pair action)) = None
      then deleteRegistry sv (pr_Listener (ac_Pair action)) cat else Inr cat) mid (pn_Actions plan) = Inr cat'"
    by (auto simp: syncRegistry_def Let_def go_err)
  note last = this(2)
  have "?P mid"
    by (rule fold_result_invariant [OF mid, where P = ?P]) (auto split: if_splits dest!: syncConfigured_catalog)
  then show ?thesis
    by (intro fold_result_invariant [OF last, where P = ?P]) (auto simp: deleteRegistry_def go_err split: if_splits)
qed

lemma find_by_name:
  assumes "distinct (map (\<lambda>r. (tr_Schema r, tr_Table r)) rels)" "t \<in> set rels"
  shows "List.find (\<lambda>r. tr_Schema r = tr_Schema t \<and> tr_Table r = tr_Table t) rels = Some t"
  using assms by (induction rels) (auto simp: image_iff)

lemma planned_from_diff:
  assumes "planInTransaction sv cfg cat = Inr plan" "pn_Actions plan \<noteq> []"
  shows "\<exists>input. gather sv cfg cat = Inr input \<and> plan = diff input"
  using assms
  by (auto simp: planInTransaction_def go_err diffFromDatabase_def zero_plan_def split: option.splits if_splits)

text \<open>C29. A trigger that does not carry this instance's marker is never touched: whatever the
  configuration, the approval, the failures of the server and the outcome, after \<open>Apply\<close> it is on the
  same table under the same name, with the same definition and comment, and the tables themselves are
  unchanged. The registry is the one this program writes (canonical object names, one row per
  listener), and table names are unique, as PostgreSQL keeps them.\<close>

theorem foreign_triggers_survive:
  assumes cat: "catalog_ok cat" and names: "distinct (map li_Name (cf_Listeners cfg))"
    and app: "Apply sv tx lock cfg approval cat = (result, err, cat')"
    and held: "map_of (cat_triggers cat) key = Some g" and foreign: "\<not> ours (cf_Instance cfg) g"
  shows "map_of (cat_triggers cat') key = Some g \<and> cat_relations cat' = cat_relations cat"
proof (cases "cat' = cat")
  case False
  from Apply_changed [OF app this] obtain plan n where plan: "planInTransaction sv cfg cat = Inr plan" "pn_Actions plan \<noteq> []"
    and work: "apply_plan sv cfg approval plan cat = (n, WorkDone cat')" by metis
  from planned_from_diff [OF plan] obtain input where gather: "gather sv cfg cat = Inr input" and "plan = diff input" by blast
  from apply_plan_done [OF work plan(2)] obtain objects where clean: "pn_Refusals plan = []"
    and objects: "objectsForPlan sv cfg cat plan = Inr objects"
    and fin: "finish_work sv cfg plan (apply_objects sv objects (0, Inr cat)) = (n, WorkDone cat')" by metis
  let ?rels = "cat_relations cat"
  have "\<forall>ob \<in> set objects. spares ?rels key ob"
  proof
    fix ob assume "ob \<in> set objects"
    from objects_are_safe [OF cat names gather _ objects this] clean \<open>plan = diff input\<close>
    have safe: "drop_safe cat (cf_Instance cfg) ob" by simp
    show "spares ?rels key ob"
      using safe held foreign cat find_by_name [of ?rels "ao_Target ob"]
      by (auto simp: spares_def drop_safe_def aims_at_def catalog_ok_def)
  qed
  then have "keeps ?rels key g (apply_objects sv objects (0, Inr cat))"
    by (rule apply_objects_keeps) (simp add: keeps_def held)
  with fin show ?thesis
    by (auto simp: finish_work_def keeps_def split: sum.splits dest!: syncRegistry_catalog)
qed (use held in simp)

theorem foreign_triggers_survive_witness:
  "map_of (cat_triggers (snd (snd (Apply sample_server sample_tx sample_lock sample_config sample_approval
      (sample_catalog\<lparr>cat_triggers := [((7, ''audit''), zero_trigger)]\<rparr>))))) (7, ''audit'') = Some zero_trigger"
proof -
  let ?cat = "sample_catalog\<lparr>cat_triggers := [((7, ''audit''), zero_trigger)]\<rparr>"
  let ?a = "Apply sample_server sample_tx sample_lock sample_config sample_approval ?cat"
  have "catalog_ok ?cat"
    by (simp add: catalog_ok_def registry_ok_def sample_catalog_def sample_row_def row_name_def sample_table_def)
  moreover have "distinct (map li_Name (cf_Listeners sample_config))" by (simp add: sample_config_def)
  moreover have "?a = (fst ?a, fst (snd ?a), snd (snd ?a))" by simp
  moreover have "map_of (cat_triggers ?cat) (7, ''audit'') = Some zero_trigger" by simp
  moreover have "\<not> ours (cf_Instance sample_config) zero_trigger" by (simp add: ours_def zero_trigger_def)
  ultimately show ?thesis using foreign_triggers_survive by blast
qed

end
