(* ===== verification/Migrations.thy ===== *)
theory Migrations
  imports Quoting Signing "HOL-Library.Multiset"
begin

text \<open>
  The migration corpus, the ledger and the runner: \<open>schema/migrations.go\<close>, \<open>schema/runnerledger.go\<close>,
  \<open>schema/runner.go\<close> and \<open>schema/appliedversion.go\<close>. A database is its ledger, absent before the first
  migration, beside the rest of its state. What the server makes of the text of a migration is the parameter
  \<open>exec\<close>; which statements fail, and what became of a commit, is the record \<open>mig_server\<close>.
\<close>

section \<open>The corpus\<close>

record migration =
  mg_version :: int
  mg_file :: string
  mg_sql :: string
  mg_checksum :: string

datatype corpus_error =
    ErrReadDirectory
  | ErrReadFile string
  | ErrCorpusFilename string
  | ErrCorpusVersionRange string int
  | ErrCorpusDuplicate string string int
  | ErrCorpusGap string int int

definition migrationSuffix :: string where
  "migrationSuffix = ''.sql''"

definition firstMigrationVersion :: int where
  "firstMigrationVersion = 1"

text \<open>\<open>strconv.Atoi\<close>: an optional sign, decimal digits, a value of 64 bits.\<close>

definition Atoi :: "string \<Rightarrow> int option" where
  "Atoi s =
     (let (negative, digits) = (case s of [] \<Rightarrow> (False, [])
          | c # r \<Rightarrow> if c = CHR ''-'' then (True, r) else if c = CHR ''+'' then (False, r) else (False, s));
          value = (if negative then - int (dec_value digits) else int (dec_value digits))
      in if digits = [] \<or> \<not> list_all is_digit digits \<or> \<not> in_int64 value then None else Some value)"

definition versionOf :: "string \<Rightarrow> corpus_error + int" where
  "versionOf name =
     (let described = (case CutSuffix name migrationSuffix of Some d \<Rightarrow> d | None \<Rightarrow> name);
          isSQL = (CutSuffix name migrationSuffix \<noteq> None);
          numbered = (case Cut described ''_'' of Some (n, _) \<Rightarrow> n | None \<Rightarrow> described);
          hasDescription = (Cut described ''_'' \<noteq> None)
      in if \<not> isSQL \<or> \<not> hasDescription \<or> numbered = [] then Inl (ErrCorpusFilename name)
         else case Atoi numbered of
           None \<Rightarrow> Inl (ErrCorpusFilename name)
         | Some version \<Rightarrow>
             if version < firstMigrationVersion then Inl (ErrCorpusVersionRange name version) else Inr version)"

text \<open>A directory entry is its name and its bytes, or no bytes when reading it fails.\<close>

definition readMigration :: "string \<times> bytes option \<Rightarrow> corpus_error + migration" where
  "readMigration entry =
     (case entry of (name, content) \<Rightarrow>
        and_then (versionOf name) (\<lambda>version.
          case content of
            None \<Rightarrow> Inl (ErrReadFile name)
          | Some data \<Rightarrow>
              Inr \<lparr>mg_version = version, mg_file = name, mg_sql = data,
                   mg_checksum = hex_EncodeToString (sha256 data)\<rparr>))"

fun duplicateVersionIn :: "migration list \<Rightarrow> corpus_error option" where
  "duplicateVersionIn (a # b # ms) =
     (if mg_version b = mg_version a then Some (ErrCorpusDuplicate (mg_file a) (mg_file b) (mg_version b))
      else duplicateVersionIn (b # ms))"
| "duplicateVersionIn ms = None"

fun gap_from :: "int \<Rightarrow> migration list \<Rightarrow> corpus_error option" where
  "gap_from want [] = None"
| "gap_from want (found # ms) =
     (if mg_version found \<noteq> want then Some (ErrCorpusGap (mg_file found) (mg_version found) want)
      else gap_from (want + 1) ms)"

definition versionGapIn :: "migration list \<Rightarrow> corpus_error option" where
  "versionGapIn corpus = gap_from firstMigrationVersion corpus"

definition corpusFrom :: "(string \<times> bytes option) list option \<Rightarrow> corpus_error + migration list" where
  "corpusFrom entries =
     (case entries of
        None \<Rightarrow> Inl ErrReadDirectory
      | Some es \<Rightarrow>
          and_then (collect readMigration es) (\<lambda>read.
            let corpus = sort_key mg_version read in
            unless_fault (duplicateVersionIn corpus)
              (unless_fault (versionGapIn corpus) (Inr corpus))))"

section \<open>The ledger\<close>

record appliedVersion =
  av_version :: int
  av_checksum :: string

datatype ledgerVerdict = ledgerUsable | ledgerAheadOfBinary | ledgerNotAPrefix | ledgerFileChanged

definition highestRecorded :: "appliedVersion list \<Rightarrow> int" where
  "highestRecorded recorded = (if recorded = [] then 0 else av_version (last recorded))"

definition highestEmbedded :: "migration list \<Rightarrow> int" where
  "highestEmbedded corpus = (if corpus = [] then 0 else mg_version (last corpus))"

fun not_prefix_at :: "nat \<Rightarrow> appliedVersion list \<Rightarrow> nat option" where
  "not_prefix_at i [] = None"
| "not_prefix_at i (row # rows) =
     (if av_version row \<noteq> firstMigrationVersion + int i then Some i else not_prefix_at (i + 1) rows)"

fun changed_at :: "nat \<Rightarrow> appliedVersion list \<Rightarrow> migration list \<Rightarrow> nat option" where
  "changed_at i [] corpus = None"
| "changed_at i (row # rows) corpus =
     (if av_checksum row \<noteq> mg_checksum (corpus ! i) then Some i else changed_at (i + 1) rows corpus)"

definition whyUnusableLedger :: "appliedVersion list \<Rightarrow> migration list \<Rightarrow> ledgerVerdict \<times> nat" where
  "whyUnusableLedger recorded corpus =
     (if recorded = [] then (ledgerUsable, 0)
      else if highestRecorded recorded > highestEmbedded corpus then (ledgerAheadOfBinary, length recorded - 1)
      else case not_prefix_at 0 recorded of
        Some i \<Rightarrow> (ledgerNotAPrefix, i)
      | None \<Rightarrow> (case changed_at 0 recorded corpus of Some i \<Rightarrow> (ledgerFileChanged, i) | None \<Rightarrow> (ledgerUsable, 0)))"

datatype mig_error =
    ErrUnusableSchema IdentifierFault
  | ErrReadLedger
  | ErrSchemaAhead int int
  | ErrNotAPrefix int int
  | ErrFileChanged int string string
  | ErrUnknownVerdict
  | ErrNamedFailure string int string
  | ErrApply int string
  | ErrLedgerAbsent string
  | ErrEmbeddedCorpus corpus_error

fun refusedLedger :: "ledgerVerdict \<Rightarrow> nat \<Rightarrow> appliedVersion list \<Rightarrow> migration list \<Rightarrow> mig_error" where
  "refusedLedger ledgerAheadOfBinary at recorded corpus = ErrSchemaAhead (highestRecorded recorded) (highestEmbedded corpus)"
| "refusedLedger ledgerNotAPrefix at recorded corpus =
     ErrNotAPrefix (av_version (recorded ! at)) (firstMigrationVersion + int at)"
| "refusedLedger ledgerFileChanged at recorded corpus =
     ErrFileChanged (mg_version (corpus ! at)) (av_checksum (recorded ! at)) (mg_checksum (corpus ! at))"
| "refusedLedger ledgerUsable at recorded corpus = ErrUnknownVerdict"

section \<open>The runner\<close>

record 'o mig_db =
  md_ledger :: "appliedVersion list option"
  md_rest :: 'o

datatype commit_outcome = Committed | Commit_lost | Commit_unacknowledged

record mig_server =
  ms_read_fails :: bool
  ms_begin_fails :: "int \<Rightarrow> bool"
  ms_route_fails :: "int \<Rightarrow> bool"
  ms_record_fails :: "int \<Rightarrow> bool"
  ms_commit :: "int \<Rightarrow> commit_outcome"

type_synonym 'o mig_exec = "string \<Rightarrow> 'o mig_db \<Rightarrow> 'o mig_db option"

definition searchPathStatement :: "sanitizer \<Rightarrow> string \<Rightarrow> string \<times> IdentifierFault" where
  "searchPathStatement sanitize schemaName =
     (let (name, fault) = Quoted sanitize schemaName in
      if fault \<noteq> IdentifierOK then ([], fault)
      else (''SET LOCAL search_path TO '' @ name @ '', pg_catalog'', IdentifierOK))"

text \<open>\<open>readLedger\<close> answers no ledger apart from an empty one, as the code's nil and empty slices do.\<close>

definition readLedger :: "mig_server \<Rightarrow> 'o mig_db \<Rightarrow> mig_error + appliedVersion list option" where
  "readLedger sv db =
     (if ms_read_fails sv then Inl ErrReadLedger else Inr (map_option (sort_key av_version) (md_ledger db)))"

definition ledger_row :: "migration \<Rightarrow> appliedVersion" where
  "ledger_row m = \<lparr>av_version = mg_version m, av_checksum = mg_checksum m\<rparr>"

text \<open>The insert raises when there is no ledger and when the primary key is taken.\<close>

definition ledger_insert :: "migration \<Rightarrow> 'o mig_db \<Rightarrow> 'o mig_db option" where
  "ledger_insert m db =
     (case md_ledger db of
        None \<Rightarrow> None
      | Some rows \<Rightarrow>
          if mg_version m \<in> av_version ` set rows then None
          else Some (db\<lparr>md_ledger := Some (rows @ [ledger_row m])\<rparr>))"

definition migration_apply :: "'o mig_exec \<Rightarrow> migration \<Rightarrow> 'o mig_db \<Rightarrow> mig_error + 'o mig_db" where
  "migration_apply exec m db =
     (case exec (mg_sql m) db of None \<Rightarrow> Inl (ErrApply (mg_version m) (mg_file m)) | Some db' \<Rightarrow> Inr db')"

definition namedFailure :: "migration \<Rightarrow> string \<Rightarrow> mig_error" where
  "namedFailure m doing = ErrNamedFailure doing (mg_version m) (mg_file m)"

definition applyMigration :: "mig_server \<Rightarrow> 'o mig_exec \<Rightarrow> migration \<Rightarrow> 'o mig_db \<Rightarrow> 'o mig_db \<times> mig_error option" where
  "applyMigration sv exec m db =
     (if ms_begin_fails sv (mg_version m) then (db, Some (namedFailure m ''open the transaction for''))
      else if ms_route_fails sv (mg_version m) then (db, Some (namedFailure m ''route into its schema''))
      else case migration_apply exec m db of
        Inl e \<Rightarrow> (db, Some e)
      | Inr applied \<Rightarrow>
          (case (if ms_record_fails sv (mg_version m) then None else ledger_insert m applied) of
             None \<Rightarrow> (db, Some (namedFailure m ''record''))
           | Some recorded \<Rightarrow>
               (case ms_commit sv (mg_version m) of
                  Committed \<Rightarrow> (recorded, None)
                | Commit_lost \<Rightarrow> (db, Some (namedFailure m ''commit''))
                | Commit_unacknowledged \<Rightarrow> (recorded, Some (namedFailure m ''commit'')))))"

record migrationRun =
  mr_applied :: "int list"
  mr_recorded :: int

fun apply_pending :: "mig_server \<Rightarrow> 'o mig_exec \<Rightarrow> migration list \<Rightarrow> 'o mig_db \<Rightarrow> migrationRun \<Rightarrow>
  'o mig_db \<times> migrationRun \<times> mig_error option"
where
  "apply_pending sv exec [] db run = (db, run, None)"
| "apply_pending sv exec (pending # ms) db run =
     (case applyMigration sv exec pending db of
        (db', Some e) \<Rightarrow> (db', run, Some e)
      | (db', None) \<Rightarrow>
          apply_pending sv exec ms db' (run\<lparr>mr_applied := mr_applied run @ [mg_version pending], mr_recorded := mg_version pending\<rparr>))"

definition migrate :: "sanitizer \<Rightarrow> mig_server \<Rightarrow> 'o mig_exec \<Rightarrow> string \<Rightarrow> migration list \<Rightarrow> 'o mig_db \<Rightarrow>
  'o mig_db \<times> migrationRun \<times> mig_error option"
where
  "migrate sanitize sv exec schemaName corpus db =
     (let none = \<lparr>mr_applied = [], mr_recorded = 0\<rparr>; (setPath, fault) = searchPathStatement sanitize schemaName in
      if fault \<noteq> IdentifierOK then (db, none, Some (ErrUnusableSchema fault))
      else case readLedger sv db of
        Inl e \<Rightarrow> (db, none, Some e)
      | Inr found \<Rightarrow>
          let recorded = (case found of None \<Rightarrow> [] | Some rows \<Rightarrow> rows);
              (verdict, at) = whyUnusableLedger recorded corpus
          in if verdict \<noteq> ledgerUsable then (db, none, Some (refusedLedger verdict at recorded corpus))
             else apply_pending sv exec (drop (length recorded) corpus) db
                    \<lparr>mr_applied = [], mr_recorded = highestRecorded recorded\<rparr>)"

definition migrateEmbedded :: "(string \<times> bytes option) list option \<Rightarrow> sanitizer \<Rightarrow> mig_server \<Rightarrow> 'o mig_exec \<Rightarrow> string \<Rightarrow>
  'o mig_db \<Rightarrow> 'o mig_db \<times> migrationRun \<times> mig_error option"
where
  "migrateEmbedded files sanitize sv exec schemaName db =
     (case corpusFrom files of
        Inl e \<Rightarrow> (db, \<lparr>mr_applied = [], mr_recorded = 0\<rparr>, Some (ErrEmbeddedCorpus e))
      | Inr corpus \<Rightarrow> migrate sanitize sv exec schemaName corpus db)"

definition AppliedVersion :: "sanitizer \<Rightarrow> mig_server \<Rightarrow> string \<Rightarrow> 'o mig_db \<Rightarrow> mig_error + int" where
  "AppliedVersion sanitize sv schemaName db =
     (let (path, fault) = searchPathStatement sanitize schemaName in
      if fault \<noteq> IdentifierOK then Inl (ErrUnusableSchema fault)
      else and_then (readLedger sv db) (\<lambda>found.
        case found of None \<Rightarrow> Inl (ErrLedgerAbsent schemaName) | Some recorded \<Rightarrow> Inr (highestRecorded recorded)))"

definition ExpectedVersion :: "(string \<times> bytes option) list option \<Rightarrow> mig_error + int" where
  "ExpectedVersion files =
     (case corpusFrom files of Inl e \<Rightarrow> Inl (ErrEmbeddedCorpus e) | Inr corpus \<Rightarrow> Inr (highestEmbedded corpus))"

section \<open>Lemmas\<close>

definition consecutive :: "migration list \<Rightarrow> bool" where
  "consecutive corpus \<longleftrightarrow> map mg_version corpus = map (\<lambda>i. 1 + int i) [0..<length corpus]"

lemma gap_from_None:
  "gap_from want corpus = None \<longleftrightarrow> map mg_version corpus = map (\<lambda>i. want + int i) [0..<length corpus]"
proof (induction corpus arbitrary: want)
  case (Cons m corpus)
  have "map (\<lambda>i. want + int i) [0..<length (m # corpus)] = want # map (\<lambda>i. want + 1 + int i) [0..<length corpus]"
    by (simp add: upt_conv_Cons map_Suc_upt [symmetric] del: upt_Suc)
  then show ?case using Cons.IH [of "want + 1"] by simp
qed simp

lemma corpusFrom_consecutive:
  assumes "corpusFrom entries = Inr corpus"
  shows "consecutive corpus"
proof -
  from assms have "versionGapIn corpus = None"
    by (auto simp: corpusFrom_def Let_def go_err split: option.splits)
  then show ?thesis by (simp add: versionGapIn_def gap_from_None firstMigrationVersion_def consecutive_def)
qed

lemma consecutive_nth: "consecutive corpus \<Longrightarrow> i < length corpus \<Longrightarrow> mg_version (corpus ! i) = int i + 1"
  by (metis (no_types, lifting) add.commute add_0 consecutive_def diff_zero length_map length_upt nth_map nth_upt)

lemma not_prefix_at_None: "not_prefix_at i rows = None \<longleftrightarrow> (\<forall>j < length rows. av_version (rows ! j) = 1 + int (i + j))"
proof (induction rows arbitrary: i)
  case (Cons row rows)
  then show ?case by (auto simp: firstMigrationVersion_def nth_Cons' less_Suc_eq_0_disj)
qed simp

lemma changed_at_None: "changed_at i rows corpus = None \<longleftrightarrow> (\<forall>j < length rows. av_checksum (rows ! j) = mg_checksum (corpus ! (i + j)))"
  by (induction rows arbitrary: i) (auto simp: less_Suc_eq_0_disj)

text \<open>A ledger is carried forward exactly when it is a prefix of the corpus, versions and checksums alike.\<close>

lemma highestEmbedded_consecutive: "consecutive corpus \<Longrightarrow> highestEmbedded corpus = int (length corpus)"
  using consecutive_nth [of corpus "length corpus - 1"] by (cases corpus) (auto simp: highestEmbedded_def last_conv_nth)

lemma usable_iff_prefix:
  assumes "consecutive corpus"
  shows "fst (whyUnusableLedger recorded corpus) = ledgerUsable \<longleftrightarrow>
    length recorded \<le> length corpus \<and> recorded = map ledger_row (take (length recorded) corpus)"
    (is "?usable \<longleftrightarrow> ?prefix")
proof (cases "recorded = []")
  case True
  then show ?thesis by (simp add: whyUnusableLedger_def)
next
  case False
  have usable: "?usable \<longleftrightarrow> highestRecorded recorded \<le> int (length corpus) \<and>
      (\<forall>j < length recorded. av_version (recorded ! j) = 1 + int j) \<and>
      (\<forall>j < length recorded. av_checksum (recorded ! j) = mg_checksum (corpus ! j))"
    using False not_prefix_at_None [of 0 recorded] changed_at_None [of 0 recorded corpus]
    by (auto simp: whyUnusableLedger_def highestEmbedded_consecutive [OF assms] split: option.splits)
  show ?thesis
  proof
    assume ?usable
    note u = this [unfolded usable]
    have "av_version (last recorded) = int (length recorded)" using u False by (simp add: last_conv_nth of_nat_diff Suc_leI)
    with u False have len: "length recorded \<le> length corpus" by (simp add: highestRecorded_def)
    have "recorded ! j = ledger_row (corpus ! j)" if "j < length recorded" for j
      using u consecutive_nth [OF assms, of j] that len by (intro appliedVersion.equality) (simp_all add: ledger_row_def)
    then have "recorded = map ledger_row (take (length recorded) corpus)" using len by (intro nth_equalityI) simp_all
    with len show ?prefix ..
  next
    assume ?prefix
    then have len: "length recorded \<le> length corpus" and eq: "\<forall>j < length recorded. recorded ! j = ledger_row (corpus ! j)"
      by (auto, metis min.absorb2 length_map length_take nth_map nth_take)
    have "av_version (recorded ! j) = 1 + int j" if "j < length recorded" for j
      using that eq len consecutive_nth [OF assms, of j] by (simp add: ledger_row_def)
    moreover from this [of "length recorded - 1"] have "highestRecorded recorded \<le> int (length corpus)"
      using False len
      by (simp add: highestRecorded_def last_conv_nth of_nat_diff Suc_leI)
    ultimately show ?usable unfolding usable using eq by (simp add: ledger_row_def)
  qed
qed

section \<open>What a run leaves\<close>

text \<open>The reference: each text executed and its row recorded, in order.\<close>

fun run_all :: "'o mig_exec \<Rightarrow> migration list \<Rightarrow> 'o mig_db \<Rightarrow> 'o mig_db option" where
  "run_all exec [] db = Some db"
| "run_all exec (m # ms) db = Option.bind (exec (mg_sql m) db) (\<lambda>d. Option.bind (ledger_insert m d) (run_all exec ms))"

lemma applyMigration_result:
  assumes "applyMigration sv exec m db = (db', e)"
  shows "e \<noteq> None \<and> db' = db \<or> (e = None \<or> e = Some (namedFailure m ''commit'')) \<and> run_all exec [m] db = Some db'"
  using assms unfolding applyMigration_def migration_apply_def
  by (auto split: if_splits option.splits commit_outcome.splits)

definition ran :: "'o mig_exec \<Rightarrow> migration list \<Rightarrow> 'o mig_db \<Rightarrow> nat \<Rightarrow> 'o mig_db \<Rightarrow> mig_error option \<Rightarrow> bool" where
  "ran exec ms db j db' e \<longleftrightarrow> j \<le> length ms \<and> (e = None \<longleftrightarrow> j = length ms) \<and>
     (run_all exec (take j ms) db = Some db' \<or>
      j < length ms \<and> e = Some (namedFailure (ms ! j) ''commit'') \<and> run_all exec (take (Suc j) ms) db = Some db')"

lemma apply_pending_result:
  assumes "apply_pending sv exec ms db run = (db', run', e)"
  shows "\<exists>j. mr_applied run' = mr_applied run @ map mg_version (take j ms) \<and> ran exec ms db j db' e"
  using assms
proof (induction ms arbitrary: db run)
  case Nil
  then show ?case by (simp add: ran_def)
next
  case (Cons m ms)
  obtain d f where step: "applyMigration sv exec m db = (d, f)" by fastforce
  show ?case
  proof (cases f)
    case (Some x)
    with Cons.prems step have eq: "db' = d" "run' = run" "e = Some x" by simp_all
    from applyMigration_result [OF step] Some eq show ?thesis by (intro exI [of _ 0]) (auto simp: ran_def)
  next
    case None
    with applyMigration_result [OF step] have d: "run_all exec [m] db = Some d" by auto
    then have unfold_run: "run_all exec (m # xs) db = run_all exec xs d" for xs
      by (auto split: Option.bind_splits)
    from Cons.prems step None Cons.IH obtain j where
      "mr_applied run' = mr_applied run @ [mg_version m] @ map mg_version (take j ms)" "ran exec ms d j db' e"
      by fastforce
    then show ?thesis by (intro exI [of _ "Suc j"]) (auto simp: ran_def unfold_run simp del: run_all.simps)
  qed
qed

text \<open>What the runner relies on of a migration's text: it leaves the recorded rows alone, and makes at most an
  empty ledger where there was none.\<close>

definition keeps_ledger :: "'o mig_exec \<Rightarrow> migration list \<Rightarrow> bool" where
  "keeps_ledger exec corpus \<longleftrightarrow> (\<forall>m \<in> set corpus. \<forall>db db'. exec (mg_sql m) db = Some db' \<longrightarrow>
     (case md_ledger db of Some rows \<Rightarrow> md_ledger db' = Some rows | None \<Rightarrow> md_ledger db' = None \<or> md_ledger db' = Some []))"

definition ledger_rows :: "'o mig_db \<Rightarrow> appliedVersion list" where
  "ledger_rows db = (case md_ledger db of None \<Rightarrow> [] | Some rows \<Rightarrow> rows)"

lemma run_all_ledger:
  "run_all exec ms db = Some db' \<Longrightarrow> keeps_ledger exec ms \<Longrightarrow> ledger_rows db' = ledger_rows db @ map ledger_row ms"
proof (induction ms arbitrary: db)
  case (Cons m ms)
  then obtain d1 d2 where d: "exec (mg_sql m) db = Some d1" "ledger_insert m d1 = Some d2" "run_all exec ms d2 = Some db'"
    by (auto split: Option.bind_splits)
  have "ledger_rows d1 = ledger_rows db"
  proof -
    have "case md_ledger db of Some rows \<Rightarrow> md_ledger d1 = Some rows | None \<Rightarrow> md_ledger d1 = None \<or> md_ledger d1 = Some []"
      using Cons.prems(2) d(1) unfolding keeps_ledger_def by (meson list.set_intros(1))
    then show ?thesis by (auto simp: ledger_rows_def split: option.splits)
  qed
  moreover have "ledger_rows d2 = ledger_rows d1 @ [ledger_row m]"
    using d(2) by (auto simp: ledger_insert_def ledger_rows_def split: option.splits if_splits)
  moreover have "keeps_ledger exec ms" using Cons.prems(2) by (simp add: keeps_ledger_def)
  ultimately show ?case using Cons.IH [OF d(3)] by simp
qed simp

definition recorded_in :: "'o mig_db \<Rightarrow> appliedVersion list" where
  "recorded_in db = sort_key av_version (ledger_rows db)"

definition carried_forward :: "migration list \<Rightarrow> 'o mig_db \<Rightarrow> bool" where
  "carried_forward corpus db \<longleftrightarrow>
     length (recorded_in db) \<le> length corpus \<and> recorded_in db = map ledger_row (take (length (recorded_in db)) corpus)"

lemma migrate_unfold:
  assumes "consecutive corpus"
  shows "migrate sanitize sv exec schemaName corpus db =
    (if WhyUnusable schemaName \<noteq> IdentifierOK
     then (db, \<lparr>mr_applied = [], mr_recorded = 0\<rparr>, Some (ErrUnusableSchema (WhyUnusable schemaName)))
     else if ms_read_fails sv then (db, \<lparr>mr_applied = [], mr_recorded = 0\<rparr>, Some ErrReadLedger)
     else if \<not> carried_forward corpus db
     then (db, \<lparr>mr_applied = [], mr_recorded = 0\<rparr>, Some (case whyUnusableLedger (recorded_in db) corpus of
             (verdict, at) \<Rightarrow> refusedLedger verdict at (recorded_in db) corpus))
     else apply_pending sv exec (drop (length (recorded_in db)) corpus) db
            \<lparr>mr_applied = [], mr_recorded = highestRecorded (recorded_in db)\<rparr>)"
proof -
  have path: "snd (searchPathStatement sanitize schemaName) = WhyUnusable schemaName"
    by (simp add: searchPathStatement_def Quoted_def split: prod.splits)
  have ok: "fst (whyUnusableLedger (recorded_in db) corpus) = ledgerUsable \<longleftrightarrow> carried_forward corpus db"
    unfolding carried_forward_def by (rule usable_iff_prefix [OF assms])
  show ?thesis
    using path ok unfolding migrate_def Let_def readLedger_def recorded_in_def ledger_rows_def
    by (cases "searchPathStatement sanitize schemaName"; cases "md_ledger db") (auto split: prod.splits)
qed


lemma recorded_after:
  assumes cons: "consecutive corpus" and keeps: "keeps_ledger exec corpus" and ok: "carried_forward corpus db"
    and run: "run_all exec (drop (length (recorded_in db)) corpus) db = Some db'"
  shows "recorded_in db' = map ledger_row corpus"
proof -
  let ?n = "length (recorded_in db)"
  have "keeps_ledger exec (drop ?n corpus)" using keeps by (auto simp: keeps_ledger_def dest: in_set_dropD)
  from run_all_ledger [OF run this] have rows: "mset (ledger_rows db') = mset (recorded_in db @ map ledger_row (drop ?n corpus))"
    by (simp add: recorded_in_def)
  have all: "recorded_in db @ map ledger_row (drop ?n corpus) = map ledger_row corpus"
    using ok unfolding carried_forward_def by (metis append_take_drop_id map_append)
  have versions: "map av_version (map ledger_row corpus) = map (\<lambda>i. 1 + int i) [0..<length corpus]"
    using cons by (simp add: consecutive_def ledger_row_def comp_def)
  show ?thesis
    unfolding recorded_in_def
  proof (rule sort_key_inj_key_eq)
    show "mset (ledger_rows db') = mset (map ledger_row corpus)" using rows all by simp
    then have same: "set (ledger_rows db') = set (map ledger_row corpus)" by (metis set_mset_mset)
    show "sorted (map av_version (map ledger_row corpus))" unfolding versions by (simp add: sorted_iff_nth_mono)
    have "distinct (map av_version (map ledger_row corpus))" unfolding versions by (simp add: distinct_map inj_on_def)
    then show "inj_on av_version (set (ledger_rows db'))" unfolding same distinct_map by blast
  qed
qed

text \<open>C24. The migration runner applies exactly what is missing, in order, once. A database whose ledger cannot be
  read or is not a prefix of the embedded corpus, versions and checksums alike, is left untouched and refused;
  otherwise the run executes a prefix of the pending migrations, each recorded in the transaction that executed it,
  and stops at the first failure; when it reports success the ledger is the corpus and a second run does nothing.\<close>

theorem migrate_applies_exactly_the_missing:
  assumes corpus: "corpusFrom files = Inr corpus" and keeps: "keeps_ledger exec corpus"
    and call: "migrate sanitize sv exec schemaName corpus db = (db', run, e)"
  shows "(WhyUnusable schemaName \<noteq> IdentifierOK \<or> ms_read_fails sv \<or> \<not> carried_forward corpus db \<longrightarrow>
            db' = db \<and> mr_applied run = [] \<and> e \<noteq> None) \<and>
         (WhyUnusable schemaName = IdentifierOK \<and> \<not> ms_read_fails sv \<and> carried_forward corpus db \<longrightarrow>
            (\<exists>j. mr_applied run = map mg_version (take j (drop (length (recorded_in db)) corpus)) \<and>
               ran exec (drop (length (recorded_in db)) corpus) db j db' e)) \<and>
         (e = None \<longrightarrow> recorded_in db' = map ledger_row corpus \<and>
            (\<forall>sv'. \<not> ms_read_fails sv' \<longrightarrow>
               migrate sanitize sv' exec schemaName corpus db' =
                 (db', \<lparr>mr_applied = [], mr_recorded = highestEmbedded corpus\<rparr>, None)))"
proof (intro conjI impI allI)
  note cons = corpusFrom_consecutive [OF corpus]
  note unfolded = migrate_unfold [OF cons]
  let ?pending = "drop (length (recorded_in db)) corpus"
  show "db' = db" "mr_applied run = []" "e \<noteq> None"
    if "WhyUnusable schemaName \<noteq> IdentifierOK \<or> ms_read_fails sv \<or> \<not> carried_forward corpus db"
    using call that unfolding unfolded by (auto split: if_splits)
  have pending: "\<exists>j. mr_applied run = map mg_version (take j ?pending) \<and> ran exec ?pending db j db' e"
    if "WhyUnusable schemaName = IdentifierOK \<and> \<not> ms_read_fails sv \<and> carried_forward corpus db"
    using call that apply_pending_result [of sv exec ?pending db _ db' run e] unfolding unfolded by fastforce
  then show "\<exists>j. mr_applied run = map mg_version (take j ?pending) \<and> ran exec ?pending db j db' e"
    if "WhyUnusable schemaName = IdentifierOK \<and> \<not> ms_read_fails sv \<and> carried_forward corpus db" using that .
  assume "e = None"
  with call have good: "WhyUnusable schemaName = IdentifierOK \<and> \<not> ms_read_fails sv \<and> carried_forward corpus db"
    unfolding unfolded by (auto split: if_splits)
  from pending [OF this] \<open>e = None\<close> have "run_all exec ?pending db = Some db'" by (auto simp: ran_def)
  with cons keeps good show rec: "recorded_in db' = map ledger_row corpus" using recorded_after by blast
  show "migrate sanitize sv' exec schemaName corpus db' = (db', \<lparr>mr_applied = [], mr_recorded = highestEmbedded corpus\<rparr>, None)"
    if "\<not> ms_read_fails sv'" for sv'
    using that good unfolding unfolded
    by (simp add: carried_forward_def rec highestRecorded_def highestEmbedded_def last_map ledger_row_def)
qed

text \<open>Two files, the first of which creates the ledger.\<close>

definition sample_files :: "(string \<times> bytes option) list option" where
  "sample_files = Some [(''1_init.sql'', Some ''a''), (''2_more.sql'', Some ''b'')]"

definition sample_exec :: "string list mig_exec" where
  "sample_exec sql db = Some \<lparr>md_ledger = Some (ledger_rows db), md_rest = md_rest db @ [sql]\<rparr>"

definition sample_mig_server :: mig_server where
  "sample_mig_server = \<lparr>ms_read_fails = False, ms_begin_fails = (\<lambda>_. False), ms_route_fails = (\<lambda>_. False),
     ms_record_fails = (\<lambda>_. False), ms_commit = (\<lambda>_. Committed)\<rparr>"

lemma sample_versions: "versionOf ''1_init.sql'' = Inr 1" "versionOf ''2_more.sql'' = Inr 2"
  by code_simp+

lemma sample_corpus:
  "\<exists>c1 c2. corpusFrom sample_files = Inr [\<lparr>mg_version = 1, mg_file = ''1_init.sql'', mg_sql = ''a'', mg_checksum = c1\<rparr>,
     \<lparr>mg_version = 2, mg_file = ''2_more.sql'', mg_sql = ''b'', mg_checksum = c2\<rparr>]"
  by (simp add: corpusFrom_def sample_files_def readMigration_def sample_versions versionGapIn_def firstMigrationVersion_def)

theorem migrate_applies_exactly_the_missing_witness:
  "\<exists>corpus db'. corpusFrom sample_files = Inr corpus \<and> corpus \<noteq> [] \<and>
     migrate (\<lambda>_. []) sample_mig_server sample_exec ''noty'' corpus \<lparr>md_ledger = None, md_rest = []\<rparr> =
       (db', \<lparr>mr_applied = [1, 2], mr_recorded = 2\<rparr>, None) \<and> recorded_in db' = map ledger_row corpus"
proof -
  from sample_corpus obtain c1 c2 where c: "corpusFrom sample_files =
    Inr [\<lparr>mg_version = 1, mg_file = ''1_init.sql'', mg_sql = ''a'', mg_checksum = c1\<rparr>,
         \<lparr>mg_version = 2, mg_file = ''2_more.sql'', mg_sql = ''b'', mg_checksum = c2\<rparr>]" (is "_ = Inr ?corpus") by blast
  have keeps: "keeps_ledger sample_exec ?corpus"
    by (auto simp: keeps_ledger_def sample_exec_def ledger_rows_def split: option.splits)
  obtain db' where m: "migrate (\<lambda>_. []) sample_mig_server sample_exec ''noty'' ?corpus \<lparr>md_ledger = None, md_rest = []\<rparr> =
      (db', \<lparr>mr_applied = [1, 2], mr_recorded = 2\<rparr>, None)"
    unfolding migrate_unfold [OF corpusFrom_consecutive [OF c]]
    by (simp add: WhyUnusable_OK NUL_def MaxIdentifierBytes_def sample_mig_server_def carried_forward_def recorded_in_def
        ledger_rows_def applyMigration_def migration_apply_def sample_exec_def ledger_insert_def ledger_row_def)
  from migrate_applies_exactly_the_missing [OF c keeps m] have "recorded_in db' = map ledger_row ?corpus" by simp
  with c m show ?thesis by blast
qed

end
