(* ===== verification/Schema_Errors.thy ===== *)
theory Schema_Errors
  imports Partitions
begin

text \<open>
  The errors of the schema package: \<open>schema/errors.go\<close>, \<open>schema/errorelision.go\<close>, \<open>schema/ddlrefusal.go\<close> and the
  wording of \<open>maintainreport.go\<close> and \<open>retentionrefusal.go\<close>, which two decisions read back. An error is its text, the
  sentinel \<open>errors.Is\<close> finds in its chain, and the server's refusal \<open>errors.As\<close> finds there.
\<close>

section \<open>Durations and instants as text\<close>

text \<open>\<open>fmtFrac\<close>: the fraction of a value at a number of decimal places, without trailing zeros, and the whole part.\<close>

fun fmtFrac :: "nat \<Rightarrow> nat \<Rightarrow> bool \<Rightarrow> string \<times> nat" where
  "fmtFrac v 0 print = ((if print then ''.'' else []), v)"
| "fmtFrac v (Suc prec) print =
     (let d = v mod 10; print' = (print \<or> d \<noteq> 0);
          (frac, whole) = fmtFrac (v div 10) prec print'
      in (frac @ (if print' then dec_nat d else []), whole))"

definition micro_sign :: string where
  "micro_sign = [CHR 0xC2, CHR 0xB5]"

definition Duration_String :: "duration \<Rightarrow> string" where
  "Duration_String d =
     (let u = nat (abs d); sign = (if d < 0 then ''-'' else []);
          short = (\<lambda>prec unit. let (frac, whole) = fmtFrac u prec False in sign @ dec_nat whole @ frac @ unit)
      in if u = 0 then ''0s''
         else if u < 1000 then short 0 ''ns''
         else if u < 1000000 then short 3 (micro_sign @ ''s'')
         else if u < 1000000000 then short 6 ''ms''
         else let (frac, secs) = fmtFrac u 9 False;
                  seconds = dec_nat (secs mod 60) @ frac @ ''s'';
                  minutes = (if secs div 60 > 0 then dec_nat (secs div 60 mod 60) @ ''m'' else []);
                  hours = (if secs div 3600 > 0 then dec_nat (secs div 3600) @ ''h'' else [])
              in sign @ hours @ minutes @ seconds)"

text \<open>\<open>time.RFC3339Nano\<close> in UTC: the fraction of the second without trailing zeros.\<close>

definition boundLiteral :: "instant \<Rightarrow> string" where
  "boundLiteral bound =
     (let c = civil_of bound
      in padded 4 (nat (cv_year c)) @ ''-'' @ padded 2 (cv_month c) @ ''-'' @ padded 2 (cv_day c) @ ''T'' @
         padded 2 (cv_hour c) @ '':'' @ padded 2 (cv_minute c) @ '':'' @ padded 2 (cv_second c) @
         fst (fmtFrac (cv_nanos c) 9 False) @ ''Z'')"

definition extentOf :: "Range \<Rightarrow> string" where
  "extentOf ranged = ''['' @ boundLiteral (rg_From ranged) @ '', '' @ boundLiteral (rg_To ranged) @ '')''"

section \<open>Errors\<close>

datatype sentinel =
    ErrSchemaAhead_s | ErrCoverageShort | ErrDefaultBlocked | ErrLockTimeout | ErrForeignInstance | ErrPrivilege
  | ErrUnservableHorizon | ErrLedgerAbsent_s

definition packageSentinels :: "sentinel list" where
  "packageSentinels = [ErrSchemaAhead_s, ErrCoverageShort, ErrDefaultBlocked, ErrLockTimeout, ErrForeignInstance,
     ErrPrivilege, ErrUnservableHorizon, ErrLedgerAbsent_s]"

fun sentinel_text :: "sentinel \<Rightarrow> string" where
  "sentinel_text ErrSchemaAhead_s = ''the database records a schema version this binary does not know''"
| "sentinel_text ErrCoverageShort = ''the partitions in place do not reach the required horizon''"
| "sentinel_text ErrDefaultBlocked = ''the DEFAULT partition already holds rows in this range''"
| "sentinel_text ErrLockTimeout = ''the statement gave up waiting for its lock''"
| "sentinel_text ErrForeignInstance = ''the schema is marked as owned by another pg_noty instance''"
| "sentinel_text ErrPrivilege = ''the connected role is missing a privilege this package requires''"
| "sentinel_text ErrUnservableHorizon = ''the configured pre-creation horizon cannot be served by any database''"
| "sentinel_text ErrLedgerAbsent_s = ''the configured schema has no migration ledger''"

record serverRefusal =
  sr_code :: string
  sr_message :: string

record go_error =
  er_text :: string
  er_sentinels :: "sentinel list"
  er_server :: "serverRefusal option"

definition errorf :: "string \<Rightarrow> go_error" where
  "errorf str = \<lparr>er_text = str, er_sentinels = [], er_server = None\<rparr>"

text \<open>\<open>fmt.Errorf\<close> with the verb \<open>%w\<close>: the chain stays reachable.\<close>

definition wrapping :: "string \<Rightarrow> go_error \<Rightarrow> string \<Rightarrow> go_error" where
  "wrapping lead e trail = e\<lparr>er_text := lead @ er_text e @ trail\<rparr>"

definition sentinel_error :: "sentinel \<Rightarrow> string \<Rightarrow> go_error" where
  "sentinel_error s detail = \<lparr>er_text = sentinel_text s @ detail, er_sentinels = [s], er_server = None\<rparr>"

definition sentinelMatching :: "go_error \<Rightarrow> sentinel option" where
  "sentinelMatching e = find (\<lambda>s. s \<in> set (er_sentinels e)) packageSentinels"

fun ReplaceAll :: "nat \<Rightarrow> string \<Rightarrow> string \<Rightarrow> string \<Rightarrow> string" where
  "ReplaceAll 0 s old new = s"
| "ReplaceAll (Suc n) s old new =
     (case Cut s old of None \<Rightarrow> s | Some (lead, trail) \<Rightarrow> lead @ new @ ReplaceAll n trail old new)"

text \<open>The number of replacements never exceeds the length of the text, which is the fuel given.\<close>

definition withoutSecrets :: "string \<Rightarrow> string list \<Rightarrow> string" where
  "withoutSecrets str secrets =
     foldl (\<lambda>s secret. if secret = [] then s else ReplaceAll (length s) s secret ''***'') str secrets"

definition finished :: "go_error \<Rightarrow> string list \<Rightarrow> go_error" where
  "finished e secrets =
     \<lparr>er_text = withoutSecrets (er_text e) secrets,
      er_sentinels = (case sentinelMatching e of None \<Rightarrow> [] | Some s \<Rightarrow> [s]), er_server = None\<rparr>"

definition errors_Join :: "go_error list \<Rightarrow> go_error option" where
  "errors_Join es =
     (if es = [] then None
      else Some \<lparr>er_text = Join (map er_text es) [CHR 0x0A], er_sentinels = concat (map er_sentinels es),
                 er_server = first_fault er_server es\<rparr>)"

definition coverageShort :: "duration \<Rightarrow> duration \<Rightarrow> go_error" where
  "coverageShort shortfall horizon = sentinel_error ErrCoverageShort
     ('': coverage is short by '' @ Duration_String shortfall @ '' of the required '' @ Duration_String horizon)"

definition privilegeMissing :: "string \<Rightarrow> string \<Rightarrow> go_error" where
  "privilegeMissing schema privilege = sentinel_error ErrPrivilege
     ('': the role needs '' @ privilege @ '' on schema '' @ schema)"

definition defaultBlocked :: "string \<Rightarrow> go_error" where
  "defaultBlocked rangeName' = sentinel_error ErrDefaultBlocked
     ('': partition '' @ rangeName' @ '' cannot be created until those rows are moved'')"

definition foreignInstance :: "string \<Rightarrow> string \<Rightarrow> go_error" where
  "foreignInstance marked expected = sentinel_error ErrForeignInstance
     ('': the marker names instance '' @ marked @ '' and this instance is '' @ expected)"

definition lockTimedOut_error :: "string \<Rightarrow> duration \<Rightarrow> go_error" where
  "lockTimedOut_error operation timeout = sentinel_error ErrLockTimeout
     ('': '' @ operation @ '' gave up after '' @ Duration_String timeout)"

fun unservable_error :: "horizon_refusal \<Rightarrow> go_error" where
  "unservable_error (UnservableHorizon n interval precreate) = sentinel_error ErrUnservableHorizon
     ('': a '' @ Duration_String interval @ '' partition interval over a '' @ Duration_String precreate @
      '' horizon asks for '' @ FormatInt n @ '' partitions, and a database holds at most '' @
      FormatInt relationIdentifiersOneDatabaseHolds @
      '' relations -- of which this schema's event log and its DEFAULT partition are already two'')"
| "unservable_error (UnstorableInterval interval) = sentinel_error ErrUnservableHorizon
     ('': a '' @ Duration_String interval @ '' partition interval is not a whole multiple of the '' @
      Duration_String storedInstantGranularity @
      '' a timestamptz stores, so the bounds it puts on the grid are rounded when written and the catalog reports back an extent this package never asked for'')"
| "unservable_error (NegativeInterval interval) = sentinel_error ErrUnservableHorizon
     ('': a '' @ Duration_String interval @
      '' partition interval steps the grid backwards, so the k-range a horizon asks for runs from a later boundary to an earlier one and holds no partition at all; a partition interval has to be a positive duration'')"

section \<open>What the server refused\<close>

definition lockNotAvailable :: string where "lockNotAvailable = ''55P03''"

definition checkViolation :: string where "checkViolation = ''23514''"

definition insufficientPrivilege :: string where "insufficientPrivilege = ''42501''"

definition defaultPartitionRefusal :: string where
  "defaultPartitionRefusal = ''updated partition constraint for default partition''"

record ddlSubject =
  ds_operation :: string
  ds_partition :: string

definition classified :: "go_error \<Rightarrow> ddlSubject \<Rightarrow> duration \<Rightarrow> go_error" where
  "classified e about bound =
     (case er_server e of
        None \<Rightarrow> e
      | Some refusal \<Rightarrow>
          if sr_code refusal = lockNotAvailable then lockTimedOut_error (ds_operation about) bound
          else if sr_code refusal = checkViolation \<and> Contains (sr_message refusal) defaultPartitionRefusal
          then defaultBlocked (ds_partition about)
          else e)"

definition millisecondsOfBound :: "duration \<Rightarrow> int" where
  "millisecondsOfBound bound = (let ms = bound sdiv 1000000 in if ms > 0 then ms else 1)"

definition lockTimeoutStatement :: "duration \<Rightarrow> string" where
  "lockTimeoutStatement bound = ''SET LOCAL lock_timeout = '' @ FormatInt (millisecondsOfBound bound)"

end
