(* ===== verification/Schema_Store.thy ===== *)
theory Schema_Store
  imports Schema_Errors Event_Queue
begin

text \<open>
  The tables the schema package maintains and the transactions it runs on them: ownership markers
  (\<open>ownershipmarker.go\<close>, \<open>ownershipclaim.go\<close>), the inventory of partitions (\<open>catalog.go\<close>,
  \<open>cataloginventory.go\<close>), the bounded transaction (\<open>ddl.go\<close>), the maintenance pass (\<open>maintain.go\<close>), retention
  (\<open>retention.go\<close>, \<open>retentiondrop.go\<close>, \<open>retentionrefusal.go\<close>) and the repair of the DEFAULT partition
  (\<open>repair.go\<close>, \<open>repairstatements.go\<close>).

  A store is the relations of the database with their comments, their attachment and their event rows, the schemas
  with their comments, and the delivery queue. A SQL statement acts by its effect on the store, with the refusals
  the server's own constraints give; \<open>sv_refuses\<close> says which further statements of a transaction fail, and
  \<open>sv_others\<close> what other sessions committed before the transaction began. Under READ COMMITTED each statement sees what
  committed before it; \<open>sv_meanwhile\<close> is what did between the copy and the removal of the rows a drain moves, the two
  statements whose counts the code compares. Elsewhere a transaction is taken to meet no other.
\<close>

section \<open>Ownership markers\<close>

definition marker_prefix :: string where
  "marker_prefix = ''pg_noty:'' @ ''v1'' @ '':''"

text \<open>A \<open>markerForm\<close> is its suffix.\<close>

type_synonym markerForm = string

definition schemaMarkerForm :: markerForm where "schemaMarkerForm = []"

definition partitionMarkerForm :: markerForm where "partitionMarkerForm = '':partition''"

definition marker_text :: "markerForm \<Rightarrow> string \<Rightarrow> string" where
  "marker_text form inst = marker_prefix @ inst @ form"

definition instanceIn :: "markerForm \<Rightarrow> string \<Rightarrow> string option" where
  "instanceIn form written =
     (case CutPrefix written marker_prefix of
        None \<Rightarrow> None
      | Some named \<Rightarrow>
          (case CutSuffix named form of
             None \<Rightarrow> None
           | Some named' \<Rightarrow> if named' = [] then None else Some named'))"

datatype markerReading = markerOurs string | markerAbsent | markerUnreadable | markerForeign string

definition markerReadingOf :: "markerForm \<Rightarrow> string option \<Rightarrow> string \<Rightarrow> markerReading" where
  "markerReadingOf form written inst =
     (case written of
        None \<Rightarrow> markerAbsent
      | Some str \<Rightarrow>
          (case instanceIn form str of
             None \<Rightarrow> markerUnreadable
           | Some named \<Rightarrow> if named = inst then markerOurs named else markerForeign named))"

section \<open>The store\<close>

datatype bound = Bound_default | Bound_range instant instant | Bound_other string

record relation =
  rl_schema :: string
  rl_name :: string
  rl_comment :: "string option"
  rl_parent :: "(string \<times> string) option"
  rl_bound :: "bound option"
  rl_events :: "event_row list"

record store =
  so_schemas :: "(string \<times> string option) list"
  so_relations :: "relation list"
  so_queue :: "queue_row list"

datatype stage =
    AtBegin | AtLockTimeout | AtNow | AtObserve | AtDefaultCount | AtCreate | AtMark | AtLockLog | AtReadMarker
  | AtAttached | AtReap | AtDetach | AtDrop | AtLift string | AtRemove string | AtRestore string | AtDiscard string

datatype commit_result = CommitOk | CommitRefused go_error | CommitUnknown go_error

text \<open>What one transaction meets. \<open>sv_parse\<close> is \<open>time.Parse\<close> on a layout, \<open>sv_deparse\<close> the server's rendering of a bound,
  \<open>sv_timestamptz\<close> the instant it stores for a literal, \<open>sv_vanished\<close> the partitions dropped while they were listed.\<close>

record server =
  sv_now :: instant
  sv_sanitize :: sanitizer
  sv_parse :: "string \<Rightarrow> string \<Rightarrow> instant option"
  sv_deparse :: "bound \<Rightarrow> string"
  sv_timestamptz :: "instant \<Rightarrow> instant"
  sv_vanished :: "string \<Rightarrow> bool"
  sv_refuses :: "stage \<Rightarrow> go_error option"
  sv_commit :: commit_result
  sv_others :: "store \<Rightarrow> store"
  sv_meanwhile :: "string \<Rightarrow> store \<Rightarrow> store"

record schema_config =
  cf_schema :: string
  cf_instance :: string
  cf_retention :: Retention

definition is_relation :: "string \<Rightarrow> string \<Rightarrow> relation \<Rightarrow> bool" where
  "is_relation schema name r \<longleftrightarrow> rl_schema r = schema \<and> rl_name r = name"

definition child_of :: "string \<Rightarrow> relation \<Rightarrow> bool" where
  "child_of schema r \<longleftrightarrow> rl_parent r = Some (schema, TableEvents_name)"

definition server_error :: "string \<Rightarrow> string \<Rightarrow> go_error" where
  "server_error code message =
     \<lparr>er_text = ''ERROR: '' @ message @ '' (SQLSTATE '' @ code @ '')'', er_sentinels = [],
      er_server = Some \<lparr>sr_code = code, sr_message = message\<rparr>\<rparr>"

definition refused_at :: "server \<Rightarrow> stage \<Rightarrow> go_error + 'a \<Rightarrow> go_error + 'a" where
  "refused_at sv st k = unless_fault (sv_refuses sv st) k"

text \<open>A read that finishes its error before it returns it.\<close>

definition read_at :: "server \<Rightarrow> stage \<Rightarrow> go_error + 'a \<Rightarrow> go_error + 'a" where
  "read_at sv st k = unless_fault (map_option (\<lambda>e. finished e []) (sv_refuses sv st)) k"

section \<open>One bounded transaction\<close>

definition DefaultLockTimeout :: duration where
  "DefaultLockTimeout = 3000000000"

definition boundedTx :: "server \<Rightarrow> ddlSubject \<Rightarrow> (store \<Rightarrow> go_error + store \<times> 'a) \<Rightarrow> store \<Rightarrow> store \<times> (go_error + 'a)" where
  "boundedTx sv about work st0 =
     (let st = sv_others sv st0;
          refuse = (\<lambda>e. Inl (finished (classified e about DefaultLockTimeout) []))
      in case refused_at sv AtBegin (refused_at sv AtLockTimeout (work st)) of
           Inl e \<Rightarrow> (st, refuse e)
         | Inr (st', x) \<Rightarrow>
             (case sv_commit sv of
                CommitOk \<Rightarrow> (st', Inr x)
              | CommitRefused e \<Rightarrow> (st, refuse e)
              | CommitUnknown e \<Rightarrow> (st', refuse e)))"

section \<open>The inventory\<close>

datatype observedBound = boundRendered string | boundPartitionVanished | boundUndeclared

definition boundReadFrom :: "bool \<Rightarrow> string option \<Rightarrow> observedBound" where
  "boundReadFrom declaresABound rendered =
     (case rendered of
        Some written \<Rightarrow> boundRendered written
      | None \<Rightarrow> if declaresABound then boundPartitionVanished else boundUndeclared)"

record observedPartitions =
  op_Bounded :: "Range list"
  op_Default :: string

fun fault_phrase :: "boundFault \<Rightarrow> string" where
  "fault_phrase BoundOK = ''ok''"
| "fault_phrase BoundNotASingleColumnRange = ''is not a single-column range bound of the form FOR VALUES FROM (...) TO (...)''"
| "fault_phrase BoundHasNoFiniteEnd = ''names MINVALUE or MAXVALUE, and a Range has no way to carry an unbounded end''"
| "fault_phrase BoundInstantUnreadable = ''does not write both ends as an ISO timestamp carrying a zone, which is what a DateStyle other than ISO renders''"

definition foreign_schema_error :: "string \<Rightarrow> string \<Rightarrow> string \<Rightarrow> go_error" where
  "foreign_schema_error name within schema =
     errorf (''partition '' @ name @ '' of this parent lives in schema '' @ within @ '' and not in the configured '' @ schema @
             ''; this package may neither drop it nor decide without it'')"

definition undeclaredBound :: "string \<Rightarrow> go_error" where
  "undeclaredBound name =
     errorf (''the child '' @ name @ '' of this parent declares no partition bound of its own, so this parent is not partitioned and its children are not partitions; deciding against it would be deciding against a table this package did not build'')"

definition unreadableBound :: "string \<Rightarrow> string \<Rightarrow> boundFault \<Rightarrow> go_error" where
  "unreadableBound name written fault = errorf (''the bound of partition '' @ name @ '' '' @ fault_phrase fault @ '' ('' @ written @
     ''); reporting the other partitions without it would leave retention deciding against an incomplete world'')"

definition addRendered :: "server \<Rightarrow> observedPartitions \<Rightarrow> string \<Rightarrow> string \<Rightarrow> go_error + observedPartitions" where
  "addRendered sv found name written =
     (if isDefaultBound written then Inr (found\<lparr>op_Default := name\<rparr>)
      else case rangeFrom (sv_parse sv) written name of
        Inl fault \<Rightarrow> Inl (finished (unreadableBound name written fault) [])
      | Inr extent \<Rightarrow> Inr (found\<lparr>op_Bounded := op_Bounded found @ [extent]\<rparr>))"

definition observed_add :: "server \<Rightarrow> string \<Rightarrow> observedPartitions \<Rightarrow> string \<Rightarrow> string \<Rightarrow> observedBound \<Rightarrow> go_error + observedPartitions" where
  "observed_add sv schema found name within bnd =
     (if within \<noteq> schema then Inl (finished (foreign_schema_error name within schema) [])
      else case bnd of
        boundRendered written \<Rightarrow> addRendered sv found name written
      | boundPartitionVanished \<Rightarrow> Inr found
      | boundUndeclared \<Rightarrow> Inl (finished (undeclaredBound name) []))"

text \<open>The rows of the catalog query, in name order, with the rendering of a bound NULL for a vanished partition.\<close>

definition catalog_rows :: "server \<Rightarrow> string \<Rightarrow> store \<Rightarrow> (string \<times> string \<times> bool \<times> string option) list" where
  "catalog_rows sv schema st =
     map (\<lambda>r. (rl_name r, rl_schema r, rl_bound r \<noteq> None,
               if sv_vanished sv (rl_name r) then None else map_option (sv_deparse sv) (rl_bound r)))
       (sort_key rl_name (filter (child_of schema) (so_relations st)))"

definition observePartitions :: "server \<Rightarrow> string \<Rightarrow> store \<Rightarrow> go_error + observedPartitions" where
  "observePartitions sv schema st =
     read_at sv AtObserve
       (fold_result (\<lambda>found (name, within, declaresABound, rendered).
            observed_add sv schema found name within (boundReadFrom declaresABound rendered))
          \<lparr>op_Bounded = [], op_Default = []\<rparr> (catalog_rows sv schema st))"


definition relation_named :: "string \<Rightarrow> string \<Rightarrow> store \<Rightarrow> relation option" where
  "relation_named schema name st = find (is_relation schema name) (so_relations st)"

definition defaultPartitionRows :: "server \<Rightarrow> string \<Rightarrow> string \<Rightarrow> store \<Rightarrow> go_error + int" where
  "defaultPartitionRows sv schema part st =
     (let (target, fault) = Qualified (sv_sanitize sv) schema part in
      if fault \<noteq> IdentifierOK
      then Inl (finished (errorf (''the DEFAULT partition of schema '' @ schema @ '' cannot be counted: the name '' @ part @
                  '' given for it '' @ fault_text fault)) [])
      else read_at sv AtDefaultCount
        (case relation_named schema part st of
           None \<Rightarrow> Inl (finished (server_error ''42P01'' (''relation '' @ target @ '' does not exist'')) [])
         | Some r \<Rightarrow> Inr (int (length (rl_events r)))))"

definition dbNow :: "server \<Rightarrow> go_error + instant" where
  "dbNow sv = read_at sv AtNow (Inr (sv_now sv))"

definition isPartitionOf :: "server \<Rightarrow> string \<Rightarrow> string \<Rightarrow> store \<Rightarrow> go_error + bool" where
  "isPartitionOf sv schema part st =
     read_at sv AtAttached (Inr (list_ex (\<lambda>r. is_relation schema part r \<and> child_of schema r) (so_relations st)))"

section \<open>Statements by their effect\<close>

definition in_range :: "instant \<Rightarrow> instant \<Rightarrow> instant \<Rightarrow> bool" where
  "in_range from to t \<longleftrightarrow> from \<le> t \<and> t < to"

definition overlaps :: "instant \<Rightarrow> instant \<Rightarrow> relation \<Rightarrow> bool" where
  "overlaps from to r \<longleftrightarrow> (case rl_bound r of Some (Bound_range a b) \<Rightarrow> a < to \<and> from < b | _ \<Rightarrow> False)"

definition default_blocks :: "instant \<Rightarrow> instant \<Rightarrow> relation \<Rightarrow> bool" where
  "default_blocks from to r \<longleftrightarrow> rl_bound r = Some Bound_default \<and> list_ex (\<lambda>e. in_range from to (e_occurred_at e)) (rl_events r)"

text \<open>\<open>CREATE TABLE .. PARTITION OF\<close>: refused for a name in use, an empty or overlapping range, and rows of the range
  in the DEFAULT partition.\<close>

definition create_partition :: "server \<Rightarrow> string \<Rightarrow> Range \<Rightarrow> store \<Rightarrow> go_error + store" where
  "create_partition sv schema ranged st =
     (let from = sv_timestamptz sv (rg_From ranged); to = sv_timestamptz sv (rg_To ranged);
          children = filter (child_of schema) (so_relations st)
      in refused_at sv AtCreate
        (if relation_named schema (rg_Name ranged) st \<noteq> None
         then Inl (server_error ''42P07'' (''relation '' @ rg_Name ranged @ '' already exists''))
         else if to \<le> from \<or> list_ex (overlaps from to) children
         then Inl (server_error ''42P17'' (''partition '' @ rg_Name ranged @ '' would overlap partition''))
         else if list_ex (default_blocks from to) children
         then Inl (server_error checkViolation (defaultPartitionRefusal @ '' would be violated by some row''))
         else Inr (st\<lparr>so_relations := so_relations st @
                [\<lparr>rl_schema = schema, rl_name = rg_Name ranged, rl_comment = None,
                  rl_parent = Some (schema, TableEvents_name), rl_bound = Some (Bound_range from to), rl_events = []\<rparr>]\<rparr>)))"

definition comment_on_table :: "string \<Rightarrow> string \<Rightarrow> string \<Rightarrow> store \<Rightarrow> store" where
  "comment_on_table schema name str st =
     st\<lparr>so_relations := update_where (is_relation schema name) (\<lambda>r. r\<lparr>rl_comment := Some str\<rparr>) (so_relations st)\<rparr>"

section \<open>Reading and writing a marker\<close>

definition partitionObject :: "sanitizer \<Rightarrow> string \<Rightarrow> string \<Rightarrow> string \<times> IdentifierFault" where
  "partitionObject sanitize schema part = Qualified sanitize schema part"

definition markerOn :: "server \<Rightarrow> string \<Rightarrow> string \<Rightarrow> string \<Rightarrow> store \<Rightarrow> go_error + markerReading" where
  "markerOn sv schema name inst st =
     refused_at sv AtReadMarker
       (Inr (markerReadingOf partitionMarkerForm (Option.bind (relation_named schema name st) rl_comment) inst))"

definition claimMarker :: "server \<Rightarrow> string \<Rightarrow> string \<Rightarrow> string \<Rightarrow> store \<Rightarrow> go_error + store" where
  "claimMarker sv schema name inst st =
     refused_at sv AtMark
       (case relation_named schema name st of
          None \<Rightarrow> Inl (server_error ''42P01'' (''relation '' @ name @ '' does not exist''))
        | Some _ \<Rightarrow> Inr (comment_on_table schema name (marker_text partitionMarkerForm inst) st))"

section \<open>The maintenance pass\<close>

datatype Outcome = OutcomeNothingNeeded | OutcomeWorkDone | OutcomeFailed

record Result =
  rs_Outcome :: Outcome
  rs_Created :: nat
  rs_Dropped :: nat

record MaintenanceStats =
  ms_failures :: int
  ms_defaultPartitionBlocked :: int
  ms_defaultPartitionRows :: int
  ms_retentionBlockedByLiveEvents :: int

definition CountFailure :: "MaintenanceStats \<Rightarrow> MaintenanceStats" where
  "CountFailure stats = stats\<lparr>ms_failures := ms_failures stats + 1\<rparr>"

definition CountDefaultPartitionBlocked :: "MaintenanceStats \<Rightarrow> MaintenanceStats" where
  "CountDefaultPartitionBlocked stats = stats\<lparr>ms_defaultPartitionBlocked := ms_defaultPartitionBlocked stats + 1\<rparr>"

definition StoreDefaultPartitionRows :: "int \<Rightarrow> MaintenanceStats \<Rightarrow> MaintenanceStats" where
  "StoreDefaultPartitionRows rows stats = stats\<lparr>ms_defaultPartitionRows := rows\<rparr>"

definition CountRetentionBlockedByLiveEvents :: "MaintenanceStats \<Rightarrow> MaintenanceStats" where
  "CountRetentionBlockedByLiveEvents stats =
     stats\<lparr>ms_retentionBlockedByLiveEvents := ms_retentionBlockedByLiveEvents stats + 1\<rparr>"

definition outcomeOf :: "nat \<Rightarrow> nat \<Rightarrow> Outcome" where
  "outcomeOf created refused =
     (if refused > 0 then OutcomeFailed else if created > 0 then OutcomeWorkDone else OutcomeNothingNeeded)"

record observation =
  ob_now :: instant
  ob_partitions :: "Range list"
  ob_defaultRows :: int

text \<open>Which transaction of a pass a server answers.\<close>

datatype phase = Observing | Creating string | Checking string | Dropping string

type_synonym servers = "phase \<Rightarrow> server"

definition observingWork :: string where
  "observingWork = ''observe the partitions of '' @ TableEvents_name"

definition observe_work :: "server \<Rightarrow> schema_config \<Rightarrow> store \<Rightarrow> go_error + store \<times> observation" where
  "observe_work sv cfg st =
     and_then (dbNow sv) (\<lambda>now.
     and_then (observePartitions sv (cf_schema cfg) st) (\<lambda>found.
     and_then (defaultPartitionRows sv (cf_schema cfg) (op_Default found) st) (\<lambda>rows.
     Inr (st, \<lparr>ob_now = now, ob_partitions = op_Bounded found, ob_defaultRows = rows\<rparr>))))"

definition observe :: "server \<Rightarrow> schema_config \<Rightarrow> store \<Rightarrow> store \<times> (go_error + observation)" where
  "observe sv cfg st0 =
     (case boundedTx sv \<lparr>ds_operation = observingWork, ds_partition = []\<rparr> (observe_work sv cfg) st0 of
        (st, Inl e) \<Rightarrow> (st, Inl (finished (wrapping (observingWork @ '': '') e []) []))
      | (st, Inr seen) \<Rightarrow> (st, Inr seen))"

definition createOne :: "server \<Rightarrow> schema_config \<Rightarrow> Range \<Rightarrow> store \<Rightarrow> store \<times> (go_error + unit)" where
  "createOne sv cfg ranged st =
     (let (target, fault) = partitionObject (sv_sanitize sv) (cf_schema cfg) (rg_Name ranged);
          (parent, parentFault) = Qualified (sv_sanitize sv) (cf_schema cfg) TableEvents_name
      in if fault \<noteq> IdentifierOK
         then (st, Inl (finished (errorf (''the partition of schema '' @ cf_schema cfg @ '' for '' @ extentOf ranged @
                '' cannot be created: the name '' @ rg_Name ranged @ '' given for it '' @ fault_text fault)) []))
         else if parentFault \<noteq> IdentifierOK
         then (st, Inl (finished (errorf (''the event log of schema '' @ cf_schema cfg @ '' cannot be named: '' @
                TableEvents_name @ '' '' @ fault_text parentFault)) []))
         else boundedTx sv \<lparr>ds_operation = ''create partition '' @ rg_Name ranged, ds_partition = rg_Name ranged\<rparr>
                (\<lambda>s. and_then (create_partition sv (cf_schema cfg) ranged s) (\<lambda>s1.
                     and_then (claimMarker sv (cf_schema cfg) (rg_Name ranged) (cf_instance cfg) s1) (\<lambda>s2.
                     Inr (s2, ())))) st)"

definition pass_covers :: "server \<Rightarrow> schema_config \<Rightarrow> Range \<Rightarrow> store \<Rightarrow> store \<times> bool" where
  "pass_covers sv cfg ranged st0 =
     (case boundedTx sv \<lparr>ds_operation = observingWork, ds_partition = []\<rparr>
             (\<lambda>s. and_then (observePartitions sv (cf_schema cfg) s) (\<lambda>found. Inr (s, op_Bounded found))) st0 of
        (st, Inl e) \<Rightarrow> (st, False)
      | (st, Inr observed) \<Rightarrow> (st, rangesNotYetObserved [ranged] observed = []))"

definition creationRefused :: "Range \<Rightarrow> go_error \<Rightarrow> go_error" where
  "creationRefused ranged e =
     finished (wrapping (''the partition for '' @ extentOf ranged @ '' could not be created: '') e []) []"

definition countRefusal :: "go_error \<Rightarrow> MaintenanceStats \<Rightarrow> MaintenanceStats" where
  "countRefusal e stats =
     (let counted = CountFailure stats
      in if ErrDefaultBlocked \<in> set (er_sentinels e) then CountDefaultPartitionBlocked counted else counted)"

type_synonym tally = "store \<times> MaintenanceStats \<times> nat \<times> go_error list"

fun create_step :: "servers \<Rightarrow> schema_config \<Rightarrow> Range \<Rightarrow> tally \<Rightarrow> tally" where
  "create_step svs cfg ranged (st, stats, created, refused) =
     (case createOne (svs (Creating (rg_Name ranged))) cfg ranged st of
        (st1, Inr _) \<Rightarrow> (st1, stats, created + 1, refused)
      | (st1, Inl e) \<Rightarrow>
          (case pass_covers (svs (Checking (rg_Name ranged))) cfg ranged st1 of
             (st2, True) \<Rightarrow> (st2, stats, created, refused)
           | (st2, False) \<Rightarrow> (st2, countRefusal e stats, created, refused @ [creationRefused ranged e])))"

definition converge :: "servers \<Rightarrow> schema_config \<Rightarrow> Range list \<Rightarrow> tally \<Rightarrow> tally" where
  "converge svs cfg wanted acc = foldl (\<lambda>a ranged. create_step svs cfg ranged a) acc wanted"

definition settle_pass :: "nat \<Rightarrow> nat \<Rightarrow> go_error list \<Rightarrow> Result \<times> go_error option" where
  "settle_pass created dropped refused =
     (\<lparr>rs_Outcome = outcomeOf (created + dropped) (length refused), rs_Created = created, rs_Dropped = dropped\<rparr>,
      map_option (\<lambda>e. finished e []) (errors_Join refused))"

definition failed_result :: Result where
  "failed_result = \<lparr>rs_Outcome = OutcomeFailed, rs_Created = 0, rs_Dropped = 0\<rparr>"

text \<open>\<open>None\<close> is the panic of the arithmetic on an interval of zero, as in the theory \<open>Partitions\<close>.\<close>

definition Maintain :: "servers \<Rightarrow> schema_config \<Rightarrow> store \<times> MaintenanceStats \<Rightarrow>
  ((store \<times> MaintenanceStats) \<times> Result \<times> go_error option) option"
where
  "Maintain svs cfg state =
     (case state of (st, stats) \<Rightarrow>
      case unservableHorizonIn (cf_retention cfg) of
        None \<Rightarrow> None
      | Some (Some unservable) \<Rightarrow>
          Some ((st, CountFailure stats), failed_result, Some (finished (unservable_error unservable) []))
      | Some None \<Rightarrow>
          (case observe (svs Observing) cfg st of
             (st1, Inl e) \<Rightarrow> Some ((st1, CountFailure stats), failed_result, Some (finished e []))
           | (st1, Inr seen) \<Rightarrow>
               (case PlanMaintenance (ob_now seen) (cf_retention cfg) (ob_partitions seen) of
                  None \<Rightarrow> None
                | Some plan \<Rightarrow>
                    (case converge svs cfg (pl_Create plan)
                            (st1, StoreDefaultPartitionRows (ob_defaultRows seen) stats, 0, []) of
                       (st2, stats2, created, refused) \<Rightarrow>
                         Some ((st2, stats2), settle_pass created 0 refused)))))"

end
