(* ===== verification/Schema_Retention.thy ===== *)
theory Schema_Retention
  imports Schema_Store
begin

text \<open>
  Retention (\<open>retention.go\<close>, \<open>retentiondrop.go\<close>, \<open>retentionrefusal.go\<close>, \<open>retentionreport.go\<close>) and the repair of the
  DEFAULT partition (\<open>repair.go\<close>, \<open>repairstatements.go\<close>): the two operations of the schema package that remove or
  move rows. What they may remove is the subject of the lemmas of the theory \<open>Schema_Laws\<close>.
\<close>

section \<open>Refusals of a drop\<close>

definition theUnmarkedPhrase :: string where
  "theUnmarkedPhrase = ''carries no pg_noty ownership marker''"

definition theUnreadablePhrase :: string where
  "theUnreadablePhrase = ''carries a comment this instance cannot read as a pg_noty ownership marker''"

definition theForeignMarkerPhrase :: string where
  "theForeignMarkerPhrase = ''is marked for another instance''"

definition theUnattachedPhrase :: string where
  "theUnattachedPhrase = ''is not attached to the event log this instance maintains''"

definition unmarkedPartition :: "string \<Rightarrow> go_error" where
  "unmarkedPartition name = finished (errorf (''partition '' @ name @ '' '' @ theUnmarkedPhrase @
     '', so this instance cannot establish that it created the table and will not drop it'')) []"

definition unreadableMarkerOn :: "string \<Rightarrow> go_error" where
  "unreadableMarkerOn name = finished (errorf (''partition '' @ name @ '' '' @ theUnreadablePhrase @
     '', and a comment this reader cannot parse is not one it may act on'')) []"

definition foreignMarkerOn :: "string \<Rightarrow> string \<Rightarrow> string \<Rightarrow> go_error" where
  "foreignMarkerOn name marked expected =
     finished (wrapping (''partition '' @ name @ '' '' @ theForeignMarkerPhrase @ '': '') (foreignInstance marked expected) []) []"

definition unattachedTable :: "string \<Rightarrow> go_error" where
  "unattachedTable name = finished (errorf (name @ '' '' @ theUnattachedPhrase @
     '', and a name matching the partition naming scheme is not evidence that it is one'')) []"

fun refusalForMarker :: "markerReading \<Rightarrow> string \<Rightarrow> string \<Rightarrow> go_error option" where
  "refusalForMarker (markerOurs named) name inst = None"
| "refusalForMarker markerAbsent name inst = Some (unmarkedPartition name)"
| "refusalForMarker markerUnreadable name inst = Some (unreadableMarkerOn name)"
| "refusalForMarker (markerForeign named) name inst = Some (foreignMarkerOn name named inst)"

definition readsAsAlreadyGone :: "go_error \<Rightarrow> bool" where
  "readsAsAlreadyGone e \<longleftrightarrow> Contains (er_text e) theUnmarkedPhrase"

definition theRemovedPartitionPhrase :: string where
  "theRemovedPartitionPhrase = ''removing partition''"

definition theForeignKeyPhrase :: string where
  "theForeignKeyPhrase = ''violates foreign key constraint''"

definition blockedByLiveEvents :: "go_error \<Rightarrow> bool" where
  "blockedByLiveEvents e \<longleftrightarrow> Contains (er_text e) theRemovedPartitionPhrase \<and> Contains (er_text e) theForeignKeyPhrase"

definition dropRefused :: "Range \<Rightarrow> go_error \<Rightarrow> go_error" where
  "dropRefused ranged e =
     finished (wrapping (''the partition for '' @ extentOf ranged @ '' could not be dropped: '') e []) []"

definition qualifiedOrRefused :: "sanitizer \<Rightarrow> string \<Rightarrow> string \<Rightarrow> string \<Rightarrow> go_error + string" where
  "qualifiedOrRefused sanitize schema name role =
     (let (rendered, fault) = Qualified sanitize schema name in
      if fault \<noteq> IdentifierOK
      then Inl (finished (errorf (''the '' @ role @ '' of schema '' @ schema @ '' cannot be named: '' @ name @ '' '' @ fault_text fault)) [])
      else Inr rendered)"

record dropTargets =
  dt_partition :: string
  dt_parent :: string
  dt_queue :: string

definition dropTargetsFor :: "sanitizer \<Rightarrow> string \<Rightarrow> Range \<Rightarrow> go_error + dropTargets" where
  "dropTargetsFor sanitize schema ranged =
     (let (target, fault) = partitionObject sanitize schema (rg_Name ranged) in
      if fault \<noteq> IdentifierOK
      then Inl (finished (errorf (''the partition of schema '' @ schema @ '' for '' @ extentOf ranged @
             '' cannot be dropped: the name '' @ rg_Name ranged @ '' given for it '' @ fault_text fault)) [])
      else and_then (qualifiedOrRefused sanitize schema TableEvents_name ''event log'') (\<lambda>parent.
           and_then (qualifiedOrRefused sanitize schema TableEventQueue ''delivery queue'') (\<lambda>queue.
           Inr \<lparr>dt_partition = target, dt_parent = parent, dt_queue = queue\<rparr>)))"

section \<open>Dropping one partition\<close>

definition references :: "queue_row \<Rightarrow> event_row \<Rightarrow> bool" where
  "references q e \<longleftrightarrow> q_event_id q = e_id e \<and> q_occurred_at q = e_occurred_at e"

definition referenced :: "store \<Rightarrow> event_row \<Rightarrow> bool" where
  "referenced st e \<longleftrightarrow> list_ex (\<lambda>q. references q e) (so_queue st)"

definition reapable :: "Range \<Rightarrow> queue_row \<Rightarrow> bool" where
  "reapable ranged q \<longleftrightarrow> q_status q = Dead_status \<and> in_range (rg_From ranged) (rg_To ranged) (q_occurred_at q)"

definition reap_dead_rows :: "Range \<Rightarrow> store \<Rightarrow> store" where
  "reap_dead_rows ranged st = st\<lparr>so_queue := filter (\<lambda>q. \<not> reapable ranged q) (so_queue st)\<rparr>"

text \<open>\<open>DETACH PARTITION\<close> is refused while the queue references a row of the partition.\<close>

definition detach_partition :: "string \<Rightarrow> string \<Rightarrow> store \<Rightarrow> go_error + store" where
  "detach_partition schema name st =
     (if list_ex (\<lambda>r. is_relation schema name r \<and> list_ex (referenced st) (rl_events r)) (so_relations st)
      then Inl (server_error ''23503'' (theRemovedPartitionPhrase @ '' '' @ name @ '' '' @ theForeignKeyPhrase))
      else Inr (st\<lparr>so_relations := update_where (is_relation schema name) (\<lambda>r. r\<lparr>rl_parent := None, rl_bound := None\<rparr>)
             (so_relations st)\<rparr>))"

definition drop_table :: "string \<Rightarrow> string \<Rightarrow> store \<Rightarrow> store" where
  "drop_table schema name st = st\<lparr>so_relations := filter (\<lambda>r. \<not> is_relation schema name r) (so_relations st)\<rparr>"

definition confirmOwnMarker :: "server \<Rightarrow> schema_config \<Rightarrow> Range \<Rightarrow> store \<Rightarrow> go_error + unit" where
  "confirmOwnMarker sv cfg ranged st =
     and_then (markerOn sv (cf_schema cfg) (rg_Name ranged) (cf_instance cfg) st) (\<lambda>reading.
       unless_fault (refusalForMarker reading (rg_Name ranged) (cf_instance cfg)) (Inr ()))"

definition confirmAttachedToTheEventLog :: "server \<Rightarrow> schema_config \<Rightarrow> Range \<Rightarrow> store \<Rightarrow> go_error + unit" where
  "confirmAttachedToTheEventLog sv cfg ranged st =
     and_then (isPartitionOf sv (cf_schema cfg) (rg_Name ranged) st) (\<lambda>attached.
       if \<not> attached then Inl (unattachedTable (rg_Name ranged)) else Inr ())"

definition dropWithinOneTransaction :: "server \<Rightarrow> schema_config \<Rightarrow> Range \<Rightarrow> store \<Rightarrow> go_error + store \<times> nat" where
  "dropWithinOneTransaction sv cfg ranged st =
     refused_at sv AtLockLog
       (and_then (confirmOwnMarker sv cfg ranged st) (\<lambda>_.
        and_then (confirmAttachedToTheEventLog sv cfg ranged st) (\<lambda>_.
        refused_at sv AtReap
          (let reaped = length (filter (reapable ranged) (so_queue st)); st1 = reap_dead_rows ranged st
           in refused_at sv AtDetach
                (and_then (detach_partition (cf_schema cfg) (rg_Name ranged) st1) (\<lambda>st2.
                 refused_at sv AtDrop (Inr (drop_table (cf_schema cfg) (rg_Name ranged) st2, reaped))))))))"

definition dropOne :: "server \<Rightarrow> schema_config \<Rightarrow> Range \<Rightarrow> store \<Rightarrow> store \<times> (go_error + unit)" where
  "dropOne sv cfg ranged st =
     (case dropTargetsFor (sv_sanitize sv) (cf_schema cfg) ranged of
        Inl e \<Rightarrow> (st, Inl e)
      | Inr names \<Rightarrow>
          (case boundedTx sv \<lparr>ds_operation = ''drop partition '' @ rg_Name ranged, ds_partition = rg_Name ranged\<rparr>
                  (dropWithinOneTransaction sv cfg ranged) st of
             (st', Inl refused) \<Rightarrow> (st', Inl (finished refused []))
           | (st', Inr reaped) \<Rightarrow> (st', Inr ())))"

section \<open>The retention pass\<close>

definition noLongerCovered :: "server \<Rightarrow> schema_config \<Rightarrow> Range \<Rightarrow> store \<Rightarrow> store \<times> bool" where
  "noLongerCovered sv cfg ranged st0 =
     (case observe sv cfg st0 of
        (st, Inl e) \<Rightarrow> (st, False)
      | (st, Inr seen) \<Rightarrow> (st, length (rangesNotYetObserved [ranged] (ob_partitions seen)) = 1))"

definition countDropRefusal :: "go_error \<Rightarrow> MaintenanceStats \<Rightarrow> MaintenanceStats" where
  "countDropRefusal e stats =
     (let counted = CountFailure stats in if blockedByLiveEvents e then CountRetentionBlockedByLiveEvents counted else counted)"

fun drop_step :: "servers \<Rightarrow> schema_config \<Rightarrow> Range \<Rightarrow> tally \<Rightarrow> tally" where
  "drop_step svs cfg ranged (st, stats, dropped, refused) =
     (case dropOne (svs (Dropping (rg_Name ranged))) cfg ranged st of
        (st1, Inr _) \<Rightarrow> (st1, stats, dropped + 1, refused)
      | (st1, Inl e) \<Rightarrow>
          (case (if readsAsAlreadyGone e then noLongerCovered (svs (Checking (rg_Name ranged))) cfg ranged st1 else (st1, False)) of
             (st2, True) \<Rightarrow> (st2, stats, dropped, refused)
           | (st2, False) \<Rightarrow> (st2, countDropRefusal e stats, dropped, refused @ [dropRefused ranged e])))"

definition dropExpired :: "servers \<Rightarrow> schema_config \<Rightarrow> Range list \<Rightarrow> tally \<Rightarrow> tally" where
  "dropExpired svs cfg expired acc = foldl (\<lambda>a ranged. drop_step svs cfg ranged a) acc expired"

definition ApplyRetention :: "servers \<Rightarrow> schema_config \<Rightarrow> store \<times> MaintenanceStats \<Rightarrow>
  ((store \<times> MaintenanceStats) \<times> Result \<times> go_error option) option"
where
  "ApplyRetention svs cfg state =
     (case state of (st, stats) \<Rightarrow>
      case observe (svs Observing) cfg st of
        (st1, Inl e) \<Rightarrow> Some ((st1, CountFailure stats), failed_result, Some (finished e []))
      | (st1, Inr seen) \<Rightarrow>
          (case PlanMaintenance (ob_now seen) (cf_retention cfg) (ob_partitions seen) of
             None \<Rightarrow> None
           | Some plan \<Rightarrow>
               (case dropExpired svs cfg (pl_Drop plan) (st1, stats, 0, []) of
                  (st2, stats2, dropped, refused) \<Rightarrow> Some ((st2, stats2), settle_pass 0 dropped refused))))"

section \<open>Draining the DEFAULT partition\<close>

record RepairResult =
  rr_Partition :: string
  rr_Moved :: nat
  rr_QueueMoved :: nat
  rr_DefaultRowsBefore :: int
  rr_DefaultRowsAfter :: int

definition holdingName :: "string \<Rightarrow> Range \<Rightarrow> string" where
  "holdingName rel ranged = ObjectName (rel @ ''_repair'') (rg_Name ranged)"

definition drainFor :: "sanitizer \<Rightarrow> schema_config \<Rightarrow> Range \<Rightarrow> go_error + unit" where
  "drainFor sanitize cfg ranged =
     (if \<not> rg_To ranged > rg_From ranged
      then Inl (finished (errorf (''the range '' @ rg_Name ranged @ '' given to drain is '' @ extentOf ranged @
             '', which selects no row and describes no partition'')) [])
      else let (target, fault) = partitionObject sanitize (cf_schema cfg) (rg_Name ranged) in
        if fault \<noteq> IdentifierOK
        then Inl (finished (errorf (''the partition of schema '' @ cf_schema cfg @ '' for '' @ extentOf ranged @
               '' cannot be created: the name '' @ rg_Name ranged @ '' given for it '' @ fault_text fault)) [])
        else unless_fault
          (first_fault (\<lambda>name. let (t, nameFault) = Qualified sanitize (cf_schema cfg) name in
               if nameFault \<noteq> IdentifierOK
               then Some (finished (errorf (''the drain of schema '' @ cf_schema cfg @ '' cannot name '' @ name @ '': it '' @
                           fault_text nameFault)) [])
               else None)
            [TableEvents_name, PartitionDefault, TableEventQueue, holdingName TableEvents_name ranged,
             holdingName TableEventQueue ranged])
          (Inr ()))"

definition whyUnrepairable :: "Range \<Rightarrow> observedPartitions \<Rightarrow> string" where
  "whyUnrepairable ranged found =
     (if op_Default found = [] then ''the event log carries no DEFAULT partition, so there is nothing to drain out of''
      else if op_Default found \<noteq> PartitionDefault
      then ''the event log's DEFAULT partition is '' @ op_Default found @ '' and this package drains '' @ PartitionDefault
      else if rangesNotYetObserved [ranged] (op_Bounded found) = []
      then ''a partition already covers '' @ extentOf ranged @ '', so none of its rows is in the DEFAULT partition''
      else [])"

text \<open>The rows are copied into a holding table and removed from their source; the two counts have to agree.\<close>

definition lift_rows :: "server \<Rightarrow> string \<Rightarrow> string \<Rightarrow> string \<Rightarrow> string \<Rightarrow> 'r list \<Rightarrow> 'r list \<Rightarrow> store \<Rightarrow> go_error + unit" where
  "lift_rows sv schema named source holding held removed st =
     refused_at sv (AtLift named)
       (if relation_named schema holding st \<noteq> None
        then Inl (server_error ''42P07'' (''relation '' @ holding @ '' already exists''))
        else refused_at sv (AtRemove named)
          (if length removed \<noteq> length held
           then Inl (finished (errorf (named @ '': '' @ dec_nat (length held) @ '' rows were copied out of '' @ source @ '' and '' @
                  dec_nat (length removed) @ '' were removed from it'')) [])
           else Inr ()))"

definition lifted_queue :: "Range \<Rightarrow> store \<Rightarrow> queue_row list" where
  "lifted_queue ranged st = filter (\<lambda>q. in_range (rg_From ranged) (rg_To ranged) (q_occurred_at q)) (so_queue st)"

definition remove_queue :: "Range \<Rightarrow> store \<Rightarrow> store" where
  "remove_queue ranged st =
     st\<lparr>so_queue := filter (\<lambda>q. \<not> in_range (rg_From ranged) (rg_To ranged) (q_occurred_at q)) (so_queue st)\<rparr>"

definition default_rows :: "string \<Rightarrow> store \<Rightarrow> event_row list" where
  "default_rows schema st =
     (case relation_named schema PartitionDefault st of None \<Rightarrow> [] | Some r \<Rightarrow> rl_events r)"

definition lifted_events :: "string \<Rightarrow> Range \<Rightarrow> store \<Rightarrow> event_row list" where
  "lifted_events schema ranged st =
     filter (\<lambda>e. in_range (rg_From ranged) (rg_To ranged) (e_occurred_at e)) (default_rows schema st)"

definition remove_events :: "string \<Rightarrow> Range \<Rightarrow> store \<Rightarrow> go_error + store" where
  "remove_events schema ranged st =
     (if list_ex (referenced st) (lifted_events schema ranged st)
      then Inl (server_error ''23503'' (''update or delete on table '' @ PartitionDefault @ '' '' @ theForeignKeyPhrase))
      else Inr (st\<lparr>so_relations := update_where (is_relation schema PartitionDefault)
             (\<lambda>r. r\<lparr>rl_events := filter (\<lambda>e. \<not> in_range (rg_From ranged) (rg_To ranged) (e_occurred_at e)) (rl_events r)\<rparr>)
             (so_relations st)\<rparr>))"

text \<open>An insert through the parent goes to the partition whose range holds the row, and else to the DEFAULT one.\<close>

definition holds_instant :: "instant \<Rightarrow> relation \<Rightarrow> bool" where
  "holds_instant t r \<longleftrightarrow> (case rl_bound r of Some (Bound_range a b) \<Rightarrow> in_range a b t | _ \<Rightarrow> False)"

definition route :: "string \<Rightarrow> store \<Rightarrow> instant \<Rightarrow> string option" where
  "route schema st t =
     (let children = filter (child_of schema) (so_relations st) in
      case find (holds_instant t) children of
        Some r \<Rightarrow> Some (rl_name r)
      | None \<Rightarrow> map_option rl_name (find (\<lambda>r. rl_bound r = Some Bound_default) children))"

definition insert_event :: "string \<Rightarrow> store \<Rightarrow> event_row \<Rightarrow> go_error + store" where
  "insert_event schema st e =
     (case route schema st (e_occurred_at e) of
        None \<Rightarrow> Inl (server_error checkViolation ''no partition of relation events found for row'')
      | Some name \<Rightarrow>
          Inr (st\<lparr>so_relations := update_where (\<lambda>r. is_relation schema name r \<and> child_of schema r)
                 (\<lambda>r. r\<lparr>rl_events := rl_events r @ [e]\<rparr>) (so_relations st)\<rparr>))"

definition in_log :: "store \<Rightarrow> queue_row \<Rightarrow> bool" where
  "in_log st q \<longleftrightarrow> list_ex (\<lambda>r. list_ex (references q) (rl_events r)) (so_relations st)"

definition insert_queue :: "queue_row list \<Rightarrow> store \<Rightarrow> go_error + store" where
  "insert_queue rows st =
     (if \<not> list_all (in_log st) rows
      then Inl (server_error ''23503'' (''insert or update on table '' @ TableEventQueue @ '' '' @ theForeignKeyPhrase))
      else Inr (st\<lparr>so_queue := so_queue st @ rows\<rparr>))"

definition arrived :: "string \<Rightarrow> string \<Rightarrow> nat \<Rightarrow> nat \<Rightarrow> go_error option" where
  "arrived named target lifted came =
     (if came \<noteq> lifted
      then Some (finished (errorf (named @ '': '' @ dec_nat lifted @ '' rows were lifted out and '' @ dec_nat came @ '' arrived in '' @ target)) [])
      else None)"

definition drain_through :: "server \<Rightarrow> schema_config \<Rightarrow> Range \<Rightarrow> store \<Rightarrow> go_error + store \<times> RepairResult" where
  "drain_through sv cfg ranged st =
     (let schema = cf_schema cfg in
      and_then (observePartitions sv schema st) (\<lambda>found.
      if whyUnrepairable ranged found \<noteq> []
      then Inl (finished (errorf (extentOf ranged @ '' cannot be drained: '' @ whyUnrepairable ranged found)) [])
      else and_then (defaultPartitionRows sv schema PartitionDefault st) (\<lambda>rowsBefore.
      let queued = lifted_queue ranged st; seen = sv_meanwhile sv TableEventQueue st in
      and_then (lift_rows sv schema TableEventQueue TableEventQueue (holdingName TableEventQueue ranged) queued (lifted_queue ranged seen) st) (\<lambda>_.
      let st1 = remove_queue ranged seen; moved = lifted_events schema ranged st1; seen1 = sv_meanwhile sv TableEvents_name st1 in
      and_then (lift_rows sv schema TableEvents_name PartitionDefault (holdingName TableEvents_name ranged) moved
        (lifted_events schema ranged seen1) st1) (\<lambda>_.
      and_then (remove_events schema ranged seen1) (\<lambda>st2.
      and_then (create_partition sv schema ranged st2) (\<lambda>st3.
      and_then (claimMarker sv schema (rg_Name ranged) (cf_instance cfg) st3) (\<lambda>st4.
      and_then (refused_at sv (AtRestore TableEvents_name) (fold_result (insert_event schema) st4 moved)) (\<lambda>st5.
      unless_fault (arrived TableEvents_name TableEvents_name (length moved) (length moved))
     (refused_at sv (AtDiscard TableEvents_name)
     (and_then (refused_at sv (AtRestore TableEventQueue) (insert_queue queued st5)) (\<lambda>st6.
      unless_fault (arrived TableEventQueue TableEventQueue (length queued) (length queued))
     (refused_at sv (AtDiscard TableEventQueue)
     (and_then (defaultPartitionRows sv schema PartitionDefault st6) (\<lambda>after.
      Inr (st6, \<lparr>rr_Partition = rg_Name ranged, rr_Moved = length moved, rr_QueueMoved = length queued,
                 rr_DefaultRowsBefore = rowsBefore, rr_DefaultRowsAfter = after\<rparr>))))))))))))))))"

definition RepairDefaultPartition :: "server \<Rightarrow> schema_config \<Rightarrow> Range \<Rightarrow> store \<times> MaintenanceStats \<Rightarrow>
  (store \<times> MaintenanceStats) \<times> (go_error + RepairResult)"
where
  "RepairDefaultPartition sv cfg ranged state =
     (case state of (st, stats) \<Rightarrow>
      let refuse = (\<lambda>e. Inl (finished (wrapping (''the DEFAULT partition of schema '' @ cf_schema cfg @
              '' could not be drained for '' @ extentOf ranged @ '': '') e []) []))
      in case drainFor (sv_sanitize sv) cfg ranged of
           Inl e \<Rightarrow> ((st, stats), refuse e)
         | Inr _ \<Rightarrow>
             (case boundedTx sv \<lparr>ds_operation = ''drain the DEFAULT partition for range '' @ rg_Name ranged, ds_partition = rg_Name ranged\<rparr>
                     (drain_through sv cfg ranged) st of
                (st', Inl e) \<Rightarrow> ((st', stats), refuse e)
              | (st', Inr moved) \<Rightarrow> ((st', StoreDefaultPartitionRows (rr_DefaultRowsAfter moved) stats), Inr moved)))"

end
