(* ===== verification/Schema_Laws.thy ===== *)
theory Schema_Laws
  imports Schema_Retention
begin

text \<open>
  What the transactions of the schema package may do to the rows of a database: retention removes only expired
  partitions this instance made, whose events nobody still has to deliver; a repair moves rows and loses none; a
  maintenance pass only adds partitions, and a pass that reports success leaves every required range in place.
\<close>

section \<open>Markers\<close>

lemma instanceIn_text: "inst \<noteq> [] \<Longrightarrow> instanceIn form (marker_text form inst) = Some inst"
  unfolding instanceIn_def marker_text_def by simp

lemma instanceIn_Some: "instanceIn form written = Some inst \<longleftrightarrow> written = marker_text form inst \<and> inst \<noteq> []"
  unfolding instanceIn_def marker_text_def by (auto simp: CutPrefix_Some CutSuffix_Some split: option.splits)

lemma ours_iff:
  "(\<exists>named. markerReadingOf form written inst = markerOurs named) \<longleftrightarrow> inst \<noteq> [] \<and> written = Some (marker_text form inst)"
proof
  assume "\<exists>named. markerReadingOf form written inst = markerOurs named"
  then show "inst \<noteq> [] \<and> written = Some (marker_text form inst)"
    by (auto simp: markerReadingOf_def instanceIn_Some split: option.splits if_splits)
qed (auto simp: markerReadingOf_def instanceIn_text)

section \<open>Transactions\<close>

lemma boundedTx_result:
  assumes "boundedTx sv about work st0 = (st', r)"
  shows "st' = sv_others sv st0 \<and> (\<exists>e. r = Inl e) \<or>
    (\<exists>x. work (sv_others sv st0) = Inr (st', x) \<and> (r = Inr x \<or> (\<exists>e. r = Inl e)))"
  using assms unfolding boundedTx_def refused_at_def Let_def
  by (auto simp: go_err split: sum.splits commit_result.splits prod.splits)

lemma boundedTx_ok: "boundedTx sv about work st0 = (st', Inr x) \<Longrightarrow> work (sv_others sv st0) = Inr (st', x)"
  using boundedTx_result [of sv about work st0 st' "Inr x"] by auto

lemma observe_store: "observe sv cfg st0 = (st', r) \<Longrightarrow> st' = sv_others sv st0"
  unfolding observe_def by (auto simp: observe_work_def go_err split: prod.splits sum.splits dest!: boundedTx_result)

lemma covers_store: "pass_covers sv cfg ranged st0 = (st', b) \<Longrightarrow> st' = sv_others sv st0"
  unfolding pass_covers_def by (auto simp: go_err split: prod.splits sum.splits dest!: boundedTx_result)

lemma noLongerCovered_store: "noLongerCovered sv cfg ranged st0 = (st', b) \<Longrightarrow> st' = sv_others sv st0"
  unfolding noLongerCovered_def by (auto split: prod.splits sum.splits dest: observe_store)

section \<open>Names\<close>

definition relation_key :: "relation \<Rightarrow> string \<times> string" where
  "relation_key r = (rl_schema r, rl_name r)"

definition store_ok :: "store \<Rightarrow> bool" where
  "store_ok st \<longleftrightarrow> distinct (map relation_key (so_relations st))"

lemma is_relation_key: "is_relation schema name r \<longleftrightarrow> relation_key r = (schema, name)"
  by (auto simp: is_relation_def relation_key_def)

lemma relation_named_iff:
  assumes "store_ok st"
  shows "relation_named schema name st = Some r \<longleftrightarrow> r \<in> set (so_relations st) \<and> is_relation schema name r"
proof
  assume "relation_named schema name st = Some r"
  then show "r \<in> set (so_relations st) \<and> is_relation schema name r"
    by (auto simp: relation_named_def find_Some_iff)
next
  assume r: "r \<in> set (so_relations st) \<and> is_relation schema name r"
  then obtain r' where r': "relation_named schema name st = Some r'" "r' \<in> set (so_relations st)" "is_relation schema name r'"
    unfolding relation_named_def by (cases "find (is_relation schema name) (so_relations st)") (auto simp: find_None_iff find_Some_iff)
  with r have "relation_key r = relation_key r'" by (simp add: is_relation_key)
  with r r'(2) assms have "r = r'" by (auto simp: store_ok_def distinct_map dest: inj_onD)
  with r'(1) show "relation_named schema name st = Some r" by simp
qed

lemma relation_named_None: "relation_named schema name st = None \<longleftrightarrow> (\<forall>r \<in> set (so_relations st). \<not> is_relation schema name r)"
  by (auto simp: relation_named_def find_None_iff)

section \<open>Dropping\<close>

lemma drop_work:
  assumes ok: "store_ok st" and work: "dropWithinOneTransaction sv cfg ranged st = Inr (st', n)"
  shows "st' = st\<lparr>so_relations := filter (\<lambda>r. \<not> is_relation (cf_schema cfg) (rg_Name ranged) r) (so_relations st),
                 so_queue := filter (\<lambda>q. \<not> reapable ranged q) (so_queue st)\<rparr>"
    and "r \<in> set (so_relations st) \<Longrightarrow> is_relation (cf_schema cfg) (rg_Name ranged) r \<Longrightarrow>
      cf_instance cfg \<noteq> [] \<and> rl_comment r = Some (marker_text partitionMarkerForm (cf_instance cfg)) \<and> child_of (cf_schema cfg) r \<and>
      (\<forall>e \<in> set (rl_events r). \<forall>q \<in> set (so_queue st). references q e \<longrightarrow> reapable ranged q)"
proof -
  let ?is = "is_relation (cf_schema cfg) (rg_Name ranged)"
  let ?st1 = "reap_dead_rows ranged st"
  from work obtain st2 where w: "confirmOwnMarker sv cfg ranged st = Inr ()"
      "confirmAttachedToTheEventLog sv cfg ranged st = Inr ()"
      "detach_partition (cf_schema cfg) (rg_Name ranged) ?st1 = Inr st2" "st' = drop_table (cf_schema cfg) (rg_Name ranged) st2"
    unfolding dropWithinOneTransaction_def refused_at_def by (auto simp: go_err Let_def)
  have st2: "st2 = ?st1\<lparr>so_relations := update_where ?is (\<lambda>r. r\<lparr>rl_parent := None, rl_bound := None\<rparr>) (so_relations st)\<rparr>"
    and free: "\<not> list_ex (\<lambda>r. ?is r \<and> list_ex (referenced ?st1) (rl_events r)) (so_relations st)"
    using w(3) unfolding detach_partition_def by (auto simp: reap_dead_rows_def split: if_splits)
  have "filter (\<lambda>r. \<not> ?is r) (update_where ?is (\<lambda>r. r\<lparr>rl_parent := None, rl_bound := None\<rparr>) rs) = filter (\<lambda>r. \<not> ?is r) rs" for rs
    by (induction rs) (auto simp: update_where_def is_relation_def)
  then show "st' = st\<lparr>so_relations := filter (\<lambda>r. \<not> ?is r) (so_relations st), so_queue := filter (\<lambda>q. \<not> reapable ranged q) (so_queue st)\<rparr>"
    unfolding w(4) st2 drop_table_def reap_dead_rows_def by simp
  assume r: "r \<in> set (so_relations st)" "?is r"
  then have named: "relation_named (cf_schema cfg) (rg_Name ranged) st = Some r" using relation_named_iff [OF ok] by blast
  have "\<exists>named. markerReadingOf partitionMarkerForm (rl_comment r) (cf_instance cfg) = markerOurs named"
    using w(1) named unfolding confirmOwnMarker_def markerOn_def refused_at_def
    by (cases "markerReadingOf partitionMarkerForm (rl_comment r) (cf_instance cfg)") (auto simp: go_err)
  then have mark: "cf_instance cfg \<noteq> []" "rl_comment r = Some (marker_text partitionMarkerForm (cf_instance cfg))"
    unfolding ours_iff by auto
  from w(2) obtain r' where "r' \<in> set (so_relations st)" "?is r'" "child_of (cf_schema cfg) r'"
    unfolding confirmAttachedToTheEventLog_def isPartitionOf_def read_at_def by (auto simp: go_err list_ex_iff split: if_splits)
  with r ok have "child_of (cf_schema cfg) r" using relation_named_iff [OF ok] named by (metis option.inject)
  moreover have "\<forall>e \<in> set (rl_events r). \<forall>q \<in> set (so_queue st). references q e \<longrightarrow> reapable ranged q"
    using free r by (auto simp: list_ex_iff referenced_def reap_dead_rows_def)
  ultimately show "cf_instance cfg \<noteq> [] \<and> rl_comment r = Some (marker_text partitionMarkerForm (cf_instance cfg)) \<and>
      child_of (cf_schema cfg) r \<and> (\<forall>e \<in> set (rl_events r). \<forall>q \<in> set (so_queue st). references q e \<longrightarrow> reapable ranged q)"
    using mark by blast
qed

lemma dropOne_result:
  assumes "dropOne sv cfg ranged st = (st', res)"
  shows "st' = st \<or> st' = sv_others sv st \<or> (\<exists>n. dropWithinOneTransaction sv cfg ranged (sv_others sv st) = Inr (st', n))"
  using assms unfolding dropOne_def by (auto split: sum.splits prod.splits dest!: boundedTx_result)

text \<open>An event is in custody while its row is in a table retention may not drop: one that carries no marker of this
  instance, is not attached to its log, or holds a row the queue still has to deliver.\<close>

definition live :: "store \<Rightarrow> event_row \<Rightarrow> bool" where
  "live st e \<longleftrightarrow> (\<exists>q \<in> set (so_queue st). references q e \<and> q_status q \<noteq> Dead_status)"

definition droppable :: "schema_config \<Rightarrow> relation \<Rightarrow> bool" where
  "droppable cfg r \<longleftrightarrow> rl_schema r = cf_schema cfg \<and> child_of (cf_schema cfg) r \<and>
     rl_comment r = Some (marker_text partitionMarkerForm (cf_instance cfg))"

definition custody :: "schema_config \<Rightarrow> event_row \<Rightarrow> store \<Rightarrow> bool" where
  "custody cfg e st \<longleftrightarrow> store_ok st \<and> (\<exists>r \<in> set (so_relations st). e \<in> set (rl_events r) \<and> (live st e \<or> \<not> droppable cfg r))"

lemma drop_keeps_custody:
  assumes "custody cfg e st" "dropWithinOneTransaction sv cfg ranged st = Inr (st', n)"
  shows "custody cfg e st'"
proof -
  let ?is = "is_relation (cf_schema cfg) (rg_Name ranged)"
  from assms(1) obtain r where ok: "store_ok st" and r: "r \<in> set (so_relations st)" "e \<in> set (rl_events r)" "live st e \<or> \<not> droppable cfg r"
    by (auto simp: custody_def)
  note st' = drop_work(1) [OF ok assms(2)] and only = drop_work(2) [OF ok assms(2)]
  have "\<not> ?is r"
  proof
    assume "?is r"
    from only [OF r(1) this] \<open>?is r\<close> have "droppable cfg r" "\<forall>q \<in> set (so_queue st). references q e \<longrightarrow> reapable ranged q"
      using r(2) by (auto simp: droppable_def is_relation_def)
    with r(3) show False by (auto simp: live_def reapable_def)
  qed
  moreover have "live st' e \<longleftrightarrow> live st e" unfolding st' by (auto simp: live_def reapable_def)
  moreover have "store_ok st'" using ok unfolding st' store_ok_def by (simp add: distinct_map_filter)
  ultimately show ?thesis using r unfolding custody_def st' by auto
qed

text \<open>The store after one step of the pass: that of the drop, and what others did before the second look.\<close>

lemma drop_step_store:
  assumes "dropOne (svs (Dropping (rg_Name ranged))) cfg ranged (fst acc) = (st1, res)"
  shows "fst (drop_step svs cfg ranged acc) = st1 \<or>
    fst (drop_step svs cfg ranged acc) = sv_others (svs (Checking (rg_Name ranged))) st1"
  using assms by (cases acc) (auto split: sum.splits prod.splits bool.splits dest: noLongerCovered_store)

lemma dropExpired_keeps:
  assumes keep: "\<And>ph s. custody cfg e s \<Longrightarrow> custody cfg e (sv_others (svs ph) s)" and "custody cfg e (fst acc)"
  shows "custody cfg e (fst (dropExpired svs cfg expired acc))"
  using assms(2) unfolding dropExpired_def
proof (induction expired arbitrary: acc)
  case (Cons ranged expired)
  obtain st1 res where one: "dropOne (svs (Dropping (rg_Name ranged))) cfg ranged (fst acc) = (st1, res)" by fastforce
  from dropOne_result [OF one] have "custody cfg e st1" using Cons.prems keep drop_keeps_custody by blast
  with drop_step_store [where svs = svs, OF one] keep have "custody cfg e (fst (drop_step svs cfg ranged acc))" by auto
  then show ?case using Cons.IH by simp
qed simp

section \<open>What a pass observes\<close>

text \<open>What the passes rely on of the server: it renders a bound in a form whose instants read back, and renders the
  DEFAULT bound, and only that, as DEFAULT.\<close>

definition bounds_read_back :: "server \<Rightarrow> bool" where
  "bounds_read_back sv \<longleftrightarrow>
     (\<forall>a b name. rangeFrom (sv_parse sv) (sv_deparse sv (Bound_range a b)) name = Inr \<lparr>rg_From = a, rg_To = b, rg_Name = name\<rparr> \<and>
                 \<not> isDefaultBound (sv_deparse sv (Bound_range a b))) \<and> isDefaultBound (sv_deparse sv Bound_default)"

lemma observed_fold:
  assumes "fold_result (\<lambda>found (name, within, declaresABound, rendered).
      observed_add sv schema found name within (boundReadFrom declaresABound rendered)) found0 rows = Inr found"
    and "x \<in> set (op_Bounded found)" "x \<notin> set (op_Bounded found0)"
  shows "\<exists>name declares written. (name, schema, declares, Some written) \<in> set rows \<and>
    rangeFrom (sv_parse sv) written name = Inr x \<and> \<not> isDefaultBound written"
  using assms
proof (induction rows arbitrary: found0)
  case (Cons row rows)
  obtain name within declares rendered where row: "row = (name, within, declares, rendered)" by (cases row) auto
  from Cons.prems(1) obtain found1 where f1: "observed_add sv schema found0 name within (boundReadFrom declares rendered) = Inr found1"
    and rest: "fold_result (\<lambda>found (name, within, declaresABound, rendered).
      observed_add sv schema found name within (boundReadFrom declaresABound rendered)) found1 rows = Inr found"
    by (auto simp: row go_err)
  show ?case
  proof (cases "x \<in> set (op_Bounded found1)")
    case False
    with Cons.IH [OF rest Cons.prems(2)] show ?thesis by auto
  next
    case True
    with f1 Cons.prems(3) obtain w where "within = schema" "rendered = Some w" "rangeFrom (sv_parse sv) w name = Inr x" "\<not> isDefaultBound w"
      by (auto simp: observed_add_def boundReadFrom_def addRendered_def split: if_splits option.splits sum.splits)
    then show ?thesis by (intro exI [of _ name] exI [of _ declares] exI [of _ w]) (simp add: row)
  qed
qed simp

lemma observed_all:
  assumes "fold_result (\<lambda>found (name, within, declaresABound, rendered).
      observed_add sv schema found name within (boundReadFrom declaresABound rendered)) found0 rows = Inr found"
  shows "set (op_Bounded found0) \<subseteq> set (op_Bounded found) \<and>
    (\<forall>name within declares written x. (name, within, declares, Some written) \<in> set rows \<longrightarrow> \<not> isDefaultBound written \<longrightarrow>
       rangeFrom (sv_parse sv) written name = Inr x \<longrightarrow> x \<in> set (op_Bounded found))"
  using assms
proof (induction rows arbitrary: found0)
  case (Cons row rows)
  obtain name within declares rendered where row: "row = (name, within, declares, rendered)" by (cases row) auto
  from Cons.prems(1) obtain found1 where f1: "observed_add sv schema found0 name within (boundReadFrom declares rendered) = Inr found1"
    and rest: "fold_result (\<lambda>found (name, within, declaresABound, rendered).
      observed_add sv schema found name within (boundReadFrom declaresABound rendered)) found1 rows = Inr found"
    by (auto simp: row go_err)
  have grows: "set (op_Bounded found0) \<subseteq> set (op_Bounded found1)"
    and here: "\<And>w x. rendered = Some w \<Longrightarrow> \<not> isDefaultBound w \<Longrightarrow> rangeFrom (sv_parse sv) w name = Inr x \<Longrightarrow> x \<in> set (op_Bounded found1)"
    using f1 by (auto simp: observed_add_def boundReadFrom_def addRendered_def split: if_splits option.splits sum.splits)
  from Cons.IH [OF rest] grows here show ?case unfolding row by auto
qed simp

lemma observed_iff:
  assumes law: "bounds_read_back sv" and obs: "observePartitions sv schema st = Inr found"
    and ranges: "\<forall>r \<in> set (so_relations st). child_of schema r \<longrightarrow> (\<forall>t. rl_bound r \<noteq> Some (Bound_other t))"
  shows "x \<in> set (op_Bounded found) \<longleftrightarrow> (\<exists>r \<in> set (so_relations st). child_of schema r \<and> \<not> sv_vanished sv (rl_name r) \<and>
    rl_schema r = schema \<and> rl_bound r = Some (Bound_range (rg_From x) (rg_To x)) \<and> rg_Name x = rl_name r)" (is "?in \<longleftrightarrow> ?rel")
proof -
  from obs have fold: "fold_result (\<lambda>found (name, within, declaresABound, rendered).
      observed_add sv schema found name within (boundReadFrom declaresABound rendered))
      \<lparr>op_Bounded = [], op_Default = []\<rparr> (catalog_rows sv schema st) = Inr found"
    by (simp add: observePartitions_def read_at_def go_err)
  have law': "rangeFrom (sv_parse sv) (sv_deparse sv (Bound_range a b)) name = Inr \<lparr>rg_From = a, rg_To = b, rg_Name = name\<rparr>"
    "\<not> isDefaultBound (sv_deparse sv (Bound_range a b))" "isDefaultBound (sv_deparse sv Bound_default)" for a b name
    using law by (auto simp: bounds_read_back_def)
  show ?thesis
  proof
    assume ?in
    from observed_fold [OF fold this] obtain name declares written where
      row: "(name, schema, declares, Some written) \<in> set (catalog_rows sv schema st)"
        "rangeFrom (sv_parse sv) written name = Inr x" "\<not> isDefaultBound written" by auto
    then obtain r b where r: "r \<in> set (so_relations st)" "child_of schema r" "name = rl_name r" "rl_schema r = schema" "\<not> sv_vanished sv (rl_name r)"
      "rl_bound r = Some b" "written = sv_deparse sv b"
      by (auto simp: catalog_rows_def split: if_splits)
    with ranges row(3) law'(3) obtain a c where b: "b = Bound_range a c" by (cases b) auto
    with r row(2) law'(1) show ?rel by (intro bexI [of _ r]) auto
  next
    assume ?rel
    then obtain r where r: "r \<in> set (so_relations st)" "child_of schema r" "\<not> sv_vanished sv (rl_name r)"
      "rl_bound r = Some (Bound_range (rg_From x) (rg_To x))" "rg_Name x = rl_name r" by auto
    then have "(rl_name r, rl_schema r, True, Some (sv_deparse sv (Bound_range (rg_From x) (rg_To x)))) \<in> set (catalog_rows sv schema st)"
      by (auto simp: catalog_rows_def image_iff intro!: bexI [of _ r])
    with observed_all [OF fold] law'(1,2) r(5) show ?in by fastforce
  qed
qed


section \<open>Retention\<close>

definition quiet :: "servers \<Rightarrow> bool" where
  "quiet svs \<longleftrightarrow> (\<forall>ph s. sv_others (svs ph) s = s)"

lemma dropOne_quiet:
  assumes "quiet svs" "store_ok st" "dropOne (svs ph) cfg ranged st = (st1, res)"
  shows "store_ok st1 \<and> (\<forall>e. live st1 e = live st e) \<and>
    (\<forall>r \<in> set (so_relations st). r \<in> set (so_relations st1) \<or>
       is_relation (cf_schema cfg) (rg_Name ranged) r \<and> droppable cfg r \<and> (\<forall>e \<in> set (rl_events r). \<not> live st e))"
proof -
  from dropOne_result [OF assms(3)] assms(1) consider "st1 = st"
    | n where "dropWithinOneTransaction (svs ph) cfg ranged st = Inr (st1, n)" by (auto simp: quiet_def)
  then show ?thesis
  proof cases
    case (2 n)
    note eq = drop_work(1) [OF assms(2) 2] and only = drop_work(2) [OF assms(2) 2]
    have "store_ok st1" using assms(2) unfolding eq store_ok_def by (simp add: distinct_map_filter)
    moreover have "live st1 e = live st e" for e unfolding eq by (auto simp: live_def reapable_def)
    moreover have "is_relation (cf_schema cfg) (rg_Name ranged) r \<and> droppable cfg r \<and> (\<forall>e \<in> set (rl_events r). \<not> live st e)"
      if "r \<in> set (so_relations st)" "r \<notin> set (so_relations st1)" for r
    proof -
      from that have named: "is_relation (cf_schema cfg) (rg_Name ranged) r" unfolding eq by simp
      from only [OF that(1) named] named show ?thesis by (auto simp: droppable_def is_relation_def live_def reapable_def)
    qed
    ultimately show ?thesis by blast
  qed (use assms(2) in simp)
qed

lemma dropExpired_missing:
  assumes "quiet svs" "store_ok (fst acc)" "r \<in> set (so_relations (fst acc))" "r \<notin> set (so_relations (fst (dropExpired svs cfg expired acc)))"
  shows "\<exists>ranged \<in> set expired. is_relation (cf_schema cfg) (rg_Name ranged) r \<and> droppable cfg r \<and> (\<forall>e \<in> set (rl_events r). \<not> live (fst acc) e)"
  using assms(2-) unfolding dropExpired_def
proof (induction expired arbitrary: acc)
  case (Cons ranged expired)
  obtain st1 res where one: "dropOne (svs (Dropping (rg_Name ranged))) cfg ranged (fst acc) = (st1, res)" by fastforce
  note q = dropOne_quiet [OF assms(1) Cons.prems(1) one]
  have next_store: "fst (drop_step svs cfg ranged acc) = st1"
    using drop_step_store [where svs = svs, OF one] assms(1) by (auto simp: quiet_def)
  show ?case
  proof (cases "r \<in> set (so_relations st1)")
    case True
    with Cons.IH [of "drop_step svs cfg ranged acc"] Cons.prems(3) next_store q show ?thesis by auto
  next
    case False
    with q Cons.prems(2) show ?thesis by auto
  qed
qed simp

section \<open>A store for the witnesses\<close>

definition sample_parse :: "string \<Rightarrow> string \<Rightarrow> instant option" where
  "sample_parse layout written =
     Some (if HasPrefix written ''-'' then - int (dec_value (tl written)) else int (dec_value written))"

fun sample_deparse :: "bound \<Rightarrow> string" where
  "sample_deparse Bound_default = ''DEFAULT''"
| "sample_deparse (Bound_range a b) =
     rangeBoundOpening @ FormatInt a @ rangeBoundMiddle @ FormatInt b @ rangeBoundClosing"
| "sample_deparse (Bound_other t) = t"

definition calm_server :: server where
  "calm_server = \<lparr>sv_now = 100, sv_sanitize = (\<lambda>_. []), sv_parse = sample_parse, sv_deparse = sample_deparse,
     sv_timestamptz = (\<lambda>t. t), sv_vanished = (\<lambda>_. False), sv_refuses = (\<lambda>_. None), sv_commit = CommitOk, sv_others = (\<lambda>s. s),
     sv_meanwhile = (\<lambda>_ s. s)\<rparr>"

definition sample_schema_config :: schema_config where
  "sample_schema_config = \<lparr>cf_schema = ''noty'', cf_instance = ''a'',
     cf_retention = \<lparr>rt_PartitionInterval = 1000, rt_Precreate = 1000, rt_Keep = 50\<rparr>\<rparr>"

definition sample_partition :: "string \<Rightarrow> bound \<Rightarrow> string option \<Rightarrow> event_row list \<Rightarrow> relation" where
  "sample_partition name b comment es = \<lparr>rl_schema = ''noty'', rl_name = name, rl_comment = comment,
     rl_parent = Some (''noty'', TableEvents_name), rl_bound = Some b, rl_events = es\<rparr>"

definition sample_logged :: "int \<Rightarrow> instant \<Rightarrow> event_row" where
  "sample_logged i t = \<lparr>e_id = i, e_listener = ''l'', e_table_name = ''t'', e_operation = ''insert'', e_payload = ''{}'',
     e_txid = 0, e_occurred_at = t\<rparr>"

definition sample_store :: store where
  "sample_store = \<lparr>so_schemas = [(''noty'', None)],
     so_relations = [sample_partition PartitionDefault Bound_default None [],
        sample_partition ''ours'' (Bound_range 0 10) (Some ''pg_noty:v1:a:partition'') [sample_logged 1 5],
        sample_partition ''theirs'' (Bound_range 10 20) (Some ''pg_noty:v1:b:partition'') [sample_logged 2 15]],
     so_queue = []\<rparr>"

definition sample_stats :: MaintenanceStats where
  "sample_stats = \<lparr>ms_failures = 0, ms_defaultPartitionBlocked = 0, ms_defaultPartitionRows = 0, ms_retentionBlockedByLiveEvents = 0\<rparr>"


lemma sample_parse_FormatInt: "sample_parse layout (FormatInt i) = Some i"
proof -
  have "\<not> HasPrefix (dec_nat n) ''-''" for n
    using dec_nat_digits [of "CHR ''-''" n] is_digit_minus by (auto simp: HasPrefix_iff)
  then show ?thesis by (simp add: sample_parse_def FormatInt_def HasPrefix_def)
qed

lemma Cut_absent: "hd sep \<notin> set s \<Longrightarrow> sep \<noteq> [] \<Longrightarrow> Cut (s @ sep @ t) sep = Some (s, t)"
proof (induction s)
  case Nil
  then show ?case by (cases sep) (simp_all add: HasPrefix_def)
next
  case (Cons c s)
  then have "\<not> HasPrefix (c # s @ sep @ t) sep" by (cases sep) (auto simp: HasPrefix_def)
  with Cons show ?case by simp
qed

lemma sample_reads_back: "bounds_read_back calm_server"
proof -
  have free: "hd rangeBoundMiddle \<notin> set (FormatInt a)" for a
    using FormatInt_chars [of _ a] by (fastforce simp: rangeBoundMiddle_def SQ_def is_digit_def)
  have lit: "rangeBoundLiterals (sample_deparse (Bound_range a b)) = Some (FormatInt a, FormatInt b)" for a b
  proof -
    have "CutSuffix (FormatInt a @ rangeBoundMiddle @ FormatInt b @ rangeBoundClosing) rangeBoundClosing =
        Some (FormatInt a @ rangeBoundMiddle @ FormatInt b)"
      using CutSuffix_append [of "FormatInt a @ rangeBoundMiddle @ FormatInt b" rangeBoundClosing] by simp
    then show ?thesis
      using Cut_absent [OF free, of a "FormatInt b"] by (simp add: rangeBoundLiterals_def rangeBoundMiddle_def)
  qed
  have "rangeFrom sample_parse (sample_deparse (Bound_range a b)) name = Inr \<lparr>rg_From = a, rg_To = b, rg_Name = name\<rparr>" for a b name
    unfolding rangeFrom_def lit by (simp add: instantAt_def isoBoundLayouts_def sample_parse_FormatInt)
  moreover have "\<not> isDefaultBound (sample_deparse (Bound_range a b))" for a b
    by (simp add: isDefaultBound_def rangeBoundOpening_def)
  moreover have "isDefaultBound (sample_deparse Bound_default)" by (simp add: isDefaultBound_def)
  ultimately show ?thesis unfolding bounds_read_back_def by (simp add: calm_server_def del: sample_deparse.simps)
qed

lemma calm_server_calm [simp]:
  "sv_refuses calm_server at = None" "sv_others calm_server st = st" "sv_commit calm_server = CommitOk" "sv_now calm_server = 100"
  by (simp_all add: calm_server_def)

lemma sample_observed: "observePartitions calm_server ''noty'' sample_store =
  Inr \<lparr>op_Bounded = [\<lparr>rg_From = 0, rg_To = 10, rg_Name = ''ours''\<rparr>, \<lparr>rg_From = 10, rg_To = 20, rg_Name = ''theirs''\<rparr>], op_Default = PartitionDefault\<rparr>"
proof -
  have rows: "catalog_rows calm_server ''noty'' sample_store =
    [(PartitionDefault, ''noty'', True, Some ''DEFAULT''), (''ours'', ''noty'', True, Some (sv_deparse calm_server (Bound_range 0 10))),
     (''theirs'', ''noty'', True, Some (sv_deparse calm_server (Bound_range 10 20)))]"
    by (simp add: catalog_rows_def sample_store_def sample_partition_def child_of_def PartitionDefault_def calm_server_def)
  show ?thesis
    unfolding observePartitions_def rows using sample_reads_back
    by (simp add: bounds_read_back_def read_at_def observed_add_def boundReadFrom_def addRendered_def isDefaultBound_def)
qed


lemma sample_plan: "\<exists>plan. PlanMaintenance 100 (cf_retention sample_schema_config) ranges = Some plan"
  by (simp add: PlanMaintenance_def RequiredRanges_def sample_schema_config_def gridIndex_def floorDiv_def UnixNano_def Let_def
      wrap64_def go_int)

lemma sample_counted: "defaultPartitionRows calm_server ''noty'' PartitionDefault sample_store = Inr 0"
  by (simp add: defaultPartitionRows_def Qualified_def read_at_def relation_named_def sample_store_def sample_partition_def
      is_relation_def WhyUnusable_OK PartitionDefault_def NUL_def MaxIdentifierBytes_def)

lemma sample_observing: "observe calm_server sample_schema_config sample_store =
  (sample_store, Inr \<lparr>ob_now = 100, ob_partitions = [\<lparr>rg_From = 0, rg_To = 10, rg_Name = ''ours''\<rparr>, \<lparr>rg_From = 10, rg_To = 20, rg_Name = ''theirs''\<rparr>],
     ob_defaultRows = 0\<rparr>)"
  by (simp add: observe_def boundedTx_def refused_at_def observe_work_def dbNow_def read_at_def sample_observed
      sample_counted sample_schema_config_def)

section \<open>What retention removes\<close>

text \<open>C21. Retention destroys only what it may: whatever other sessions commit between its transactions, an event whose row
  lies in a table without this instance's marker, in a table not attached to its event log, or that the queue still has
  to deliver is kept; and when nothing interferes every table a pass removed was a partition of this instance whose range
  ended before the retention cutoff.\<close>

theorem retention_drops_only_expired_own_partitions:
  assumes pass: "ApplyRetention svs cfg (st, stats) = Some ((st', stats'), out)"
  shows "(\<forall>e. (\<forall>ph s. custody cfg e s \<longrightarrow> custody cfg e (sv_others (svs ph) s)) \<longrightarrow> custody cfg e st \<longrightarrow> custody cfg e st') \<and>
    (quiet svs \<and> store_ok st \<and> bounds_read_back (svs Observing) \<and>
       (\<forall>r \<in> set (so_relations st). child_of (cf_schema cfg) r \<longrightarrow> (\<forall>t. rl_bound r \<noteq> Some (Bound_other t))) \<longrightarrow>
     (\<forall>r \<in> set (so_relations st). r \<notin> set (so_relations st') \<longrightarrow> droppable cfg r \<and> (\<forall>e \<in> set (rl_events r). \<not> live st e) \<and>
       (\<exists>a b. rl_bound r = Some (Bound_range a b) \<and> b \<le> sv_now (svs Observing) - rt_Keep (cf_retention cfg))))"
proof -
  obtain st1 res where obs: "observe (svs Observing) cfg st = (st1, res)" by fastforce
  note st1 = observe_store [OF obs]
  show ?thesis
  proof (cases res)
    case (Inl e)
    with pass obs have "st' = st1" by (auto simp: ApplyRetention_def)
    then show ?thesis using st1 by (auto simp: quiet_def)
  next
    case (Inr seen)
    with pass obs obtain plan where plan: "PlanMaintenance (ob_now seen) (cf_retention cfg) (ob_partitions seen) = Some plan"
      and drop: "st' = fst (dropExpired svs cfg (pl_Drop plan) (st1, stats, 0, []))"
      by (auto simp: ApplyRetention_def split: option.splits prod.splits)
    have first: "custody cfg e st'" if "\<forall>ph s. custody cfg e s \<longrightarrow> custody cfg e (sv_others (svs ph) s)" "custody cfg e st" for e
      unfolding drop by (rule dropExpired_keeps) (use that st1 in auto)
    have second: "droppable cfg r \<and> (\<forall>e \<in> set (rl_events r). \<not> live st e) \<and>
       (\<exists>a b. rl_bound r = Some (Bound_range a b) \<and> b \<le> sv_now (svs Observing) - rt_Keep (cf_retention cfg))"
      if q: "quiet svs" and ok: "store_ok st" and law: "bounds_read_back (svs Observing)"
        and only: "\<forall>r \<in> set (so_relations st). child_of (cf_schema cfg) r \<longrightarrow> (\<forall>t. rl_bound r \<noteq> Some (Bound_other t))"
        and r: "r \<in> set (so_relations st)" "r \<notin> set (so_relations st')" for r
    proof -
      have same: "st1 = st" using st1 q by (simp add: quiet_def)
      from obs Inr same q have work: "observe_work (svs Observing) cfg st = Inr (st, seen)"
        by (auto simp: observe_def quiet_def split: prod.splits sum.splits dest!: boundedTx_ok)
      then obtain found where found: "observePartitions (svs Observing) (cf_schema cfg) st = Inr found"
          "ob_partitions seen = op_Bounded found" "ob_now seen = sv_now (svs Observing)"
        by (auto simp: observe_work_def dbNow_def read_at_def go_err)
      from dropExpired_missing [OF q, of "(st1, stats, 0, [])" r cfg "pl_Drop plan"] ok r same drop obtain ranged where
        ranged: "ranged \<in> set (pl_Drop plan)" "is_relation (cf_schema cfg) (rg_Name ranged) r"
        and free: "droppable cfg r" "\<forall>e \<in> set (rl_events r). \<not> live st e" by auto
      from plan ranged(1) have exp: "ranged \<in> set (op_Bounded found)" "rg_To ranged \<le> sv_now (svs Observing) - rt_Keep (cf_retention cfg)"
        by (auto simp: PlanMaintenance_def ExpiredRanges_def retainedByAge_def found Let_def split: option.splits)
      from observed_iff [OF law found(1) only, of ranged] exp(1) obtain r' where r': "r' \<in> set (so_relations st)"
        "rl_schema r' = cf_schema cfg" "rl_bound r' = Some (Bound_range (rg_From ranged) (rg_To ranged))" "rg_Name ranged = rl_name r'" by auto
      have "relation_key r' = relation_key r" using r' ranged(2) by (simp add: relation_key_def is_relation_def)
      with ok r(1) r'(1) have "r' = r" by (auto simp: store_ok_def distinct_map dest: inj_onD)
      with r'(3) exp(2) free show ?thesis by auto
    qed
    show ?thesis using first second by blast
  qed
qed

theorem retention_drops_only_expired_own_partitions_witness:
  "\<exists>out. ApplyRetention (\<lambda>_. calm_server) sample_schema_config (sample_store, sample_stats) = Some out \<and>
     custody sample_schema_config (sample_logged 2 15) (fst (fst out))"
proof -
  let ?e = "sample_logged 2 15"
  note obs = sample_observing
  obtain plan where plan: "PlanMaintenance 100 (cf_retention sample_schema_config)
      [\<lparr>rg_From = 0, rg_To = 10, rg_Name = ''ours''\<rparr>, \<lparr>rg_From = 10, rg_To = 20, rg_Name = ''theirs''\<rparr>] = Some plan"
    using sample_plan by blast
  obtain out where out: "ApplyRetention (\<lambda>_. calm_server) sample_schema_config (sample_store, sample_stats) = Some out"
    using obs plan by (cases "dropExpired (\<lambda>_. calm_server) sample_schema_config (pl_Drop plan) (sample_store, sample_stats, 0, [])")
      (simp add: ApplyRetention_def)
  have "custody sample_schema_config ?e sample_store"
    by (simp add: custody_def store_ok_def relation_key_def droppable_def sample_store_def sample_partition_def
        sample_schema_config_def marker_text_def marker_prefix_def partitionMarkerForm_def PartitionDefault_def)
  moreover obtain st' stats' res where o: "out = ((st', stats'), res)" by (cases out) auto
  ultimately have "custody sample_schema_config ?e st'"
    using retention_drops_only_expired_own_partitions [of "\<lambda>_. calm_server" sample_schema_config sample_store sample_stats st' stats' res] out by simp
  with out o show ?thesis by simp
qed

section \<open>A repair loses nothing\<close>

definition all_events :: "store \<Rightarrow> event_row list" where
  "all_events st = concat (map rl_events (so_relations st))"

lemma split_relation:
  assumes "store_ok st" "r \<in> set (so_relations st)" "is_relation schema name r"
  obtains as bs where "so_relations st = as @ r # bs" "\<forall>x \<in> set as \<union> set bs. \<not> is_relation schema name x"
proof -
  from assms(2) obtain as bs where split: "so_relations st = as @ r # bs" by (auto dest: split_list)
  moreover have "\<forall>x \<in> set as \<union> set bs. \<not> is_relation schema name x"
    using assms(1,3) unfolding store_ok_def split by (force simp: is_relation_key)
  ultimately show thesis using that by blast
qed

lemma update_where_none: "\<forall>x \<in> set xs. \<not> p x \<Longrightarrow> update_where p f xs = xs"
  unfolding update_where_def by (simp add: map_idI)

lemma update_where_append [simp]: "update_where p f (xs @ ys) = update_where p f xs @ update_where p f ys"
  by (simp add: update_where_def)

lemma update_where_Nil [simp]: "update_where p f [] = []"
  by (simp add: update_where_def)

lemma update_where_Cons [simp]: "update_where p f (x # xs) = (if p x then f x else x) # update_where p f xs"
  by (simp add: update_where_def)

lemma remove_events_result:
  assumes ok: "store_ok st" and present: "relation_named schema PartitionDefault st = Some d"
    and removed: "remove_events schema ranged st = Inr st'"
  shows "store_ok st'" "so_queue st' = so_queue st"
    "mset (all_events st') + mset (lifted_events schema ranged st) = mset (all_events st)"
    "x \<in> set (so_relations st') \<Longrightarrow> is_relation schema PartitionDefault x \<Longrightarrow>
      \<forall>e \<in> set (rl_events x). \<not> in_range (rg_From ranged) (rg_To ranged) (e_occurred_at e)"
    "r \<in> set (so_relations st) \<Longrightarrow> \<not> is_relation schema PartitionDefault r \<Longrightarrow> r \<in> set (so_relations st')"
    "\<exists>y \<in> set (so_relations st'). is_relation schema PartitionDefault y"
proof -
  let ?p = "\<lambda>e. in_range (rg_From ranged) (rg_To ranged) (e_occurred_at e)"
  let ?f = "\<lambda>r. r\<lparr>rl_events := filter (\<lambda>e. \<not> ?p e) (rl_events r)\<rparr>"
  have d: "d \<in> set (so_relations st)" "is_relation schema PartitionDefault d" using present relation_named_iff [OF ok] by auto
  from split_relation [OF ok d] obtain as bs where
    split: "so_relations st = as @ d # bs" and rest: "\<forall>x \<in> set as \<union> set bs. \<not> is_relation schema PartitionDefault x" .
  have st': "st' = st\<lparr>so_relations := as @ ?f d # bs\<rparr>"
    using removed d(2) rest by (auto simp: remove_events_def split update_where_none split: if_splits)
  have lifted: "lifted_events schema ranged st = filter ?p (rl_events d)" by (simp add: lifted_events_def default_rows_def present)
  show "store_ok st'" using ok by (simp add: store_ok_def st' split relation_key_def)
  show "so_queue st' = so_queue st" by (simp add: st')
  show "mset (all_events st') + mset (lifted_events schema ranged st) = mset (all_events st)"
    by (simp add: st' all_events_def split lifted)
  show "\<forall>e \<in> set (rl_events x). \<not> ?p e" if "x \<in> set (so_relations st')" "is_relation schema PartitionDefault x"
    using that rest by (auto simp: st')
  show "r \<in> set (so_relations st')" if "r \<in> set (so_relations st)" "\<not> is_relation schema PartitionDefault r"
    using that d(2) by (auto simp: st' split)
  show "\<exists>y \<in> set (so_relations st'). is_relation schema PartitionDefault y" using d(2) by (simp add: st' is_relation_def)
qed

definition new_partition :: "string \<Rightarrow> string \<Rightarrow> Range \<Rightarrow> event_row list \<Rightarrow> relation" where
  "new_partition schema inst ranged es =
     \<lparr>rl_schema = schema, rl_name = rg_Name ranged, rl_comment = Some (marker_text partitionMarkerForm inst),
      rl_parent = Some (schema, TableEvents_name), rl_bound = Some (Bound_range (rg_From ranged) (rg_To ranged)), rl_events = es\<rparr>"

text \<open>The bounds of the range are instants a timestamptz holds exactly.\<close>

definition stored_exactly :: "server \<Rightarrow> Range \<Rightarrow> bool" where
  "stored_exactly sv ranged \<longleftrightarrow> sv_timestamptz sv (rg_From ranged) = rg_From ranged \<and> sv_timestamptz sv (rg_To ranged) = rg_To ranged"

lemma create_and_claim:
  assumes exact: "stored_exactly sv ranged" and create: "create_partition sv schema ranged st = Inr st1"
    and claim: "claimMarker sv schema (rg_Name ranged) inst st1 = Inr st2"
  shows "st2 = st\<lparr>so_relations := so_relations st @ [new_partition schema inst ranged []]\<rparr>"
    "\<forall>x \<in> set (so_relations st). \<not> is_relation schema (rg_Name ranged) x"
    "x \<in> set (so_relations st) \<Longrightarrow> child_of schema x \<Longrightarrow> in_range (rg_From ranged) (rg_To ranged) t \<Longrightarrow> \<not> holds_instant t x"
proof -
  let ?from = "rg_From ranged" and ?to = "rg_To ranged"
  from create have free: "relation_named schema (rg_Name ranged) st = None"
    and apart: "\<forall>x \<in> set (so_relations st). child_of schema x \<longrightarrow> \<not> overlaps ?from ?to x"
    and st1: "st1 = st\<lparr>so_relations := so_relations st @ [\<lparr>rl_schema = schema, rl_name = rg_Name ranged, rl_comment = None,
                  rl_parent = Some (schema, TableEvents_name), rl_bound = Some (Bound_range ?from ?to), rl_events = []\<rparr>]\<rparr>"
    using exact unfolding create_partition_def stored_exactly_def refused_at_def
    by (auto simp: go_err Let_def list_ex_iff split: if_splits)
  show others: "\<forall>x \<in> set (so_relations st). \<not> is_relation schema (rg_Name ranged) x" using free relation_named_None by blast
  from claim have "st2 = comment_on_table schema (rg_Name ranged) (marker_text partitionMarkerForm inst) st1"
    unfolding claimMarker_def refused_at_def by (auto simp: go_err split: option.splits)
  then show "st2 = st\<lparr>so_relations := so_relations st @ [new_partition schema inst ranged []]\<rparr>"
    using others by (simp add: comment_on_table_def st1 update_where_none new_partition_def is_relation_def)
  show "\<not> holds_instant t x" if "x \<in> set (so_relations st)" "child_of schema x" "in_range ?from ?to t"
  proof
    assume "holds_instant t x"
    then obtain a b where "rl_bound x = Some (Bound_range a b)" "a \<le> t" "t < b"
      by (auto simp: holds_instant_def in_range_def split: option.splits bound.splits)
    then have "overlaps ?from ?to x" using that(3) by (simp add: overlaps_def in_range_def)
    with apart that(1,2) show False by blast
  qed
qed

lemma insert_moved:
  assumes others: "\<forall>x \<in> set rs. \<not> is_relation schema (rg_Name ranged) x"
    and apart: "\<And>x t. x \<in> set rs \<Longrightarrow> child_of schema x \<Longrightarrow> in_range (rg_From ranged) (rg_To ranged) t \<Longrightarrow> \<not> holds_instant t x"
    and "\<forall>e \<in> set moved. in_range (rg_From ranged) (rg_To ranged) (e_occurred_at e)"
    and "so_relations st = rs @ [new_partition schema inst ranged es]"
  shows "fold_result (insert_event schema) st moved = Inr (st\<lparr>so_relations := rs @ [new_partition schema inst ranged (es @ moved)]\<rparr>)"
  using assms(3,4)
proof (induction moved arbitrary: st es)
  case Nil
  then show ?case by simp
next
  case (Cons e moved)
  let ?new = "new_partition schema inst ranged"
  have "find (holds_instant (e_occurred_at e)) (filter (child_of schema) rs) = None"
    using apart Cons.prems(1) by (auto simp: find_None_iff)
  moreover have "child_of schema (?new es)" "holds_instant (e_occurred_at e) (?new es)"
    using Cons.prems(1) by (simp_all add: new_partition_def child_of_def holds_instant_def)
  ultimately have "find (holds_instant (e_occurred_at e)) (filter (child_of schema) (so_relations st)) = Some (?new es)"
    using Cons.prems(2) by (simp add: find_append)
  moreover have "update_where (\<lambda>r. is_relation schema (rg_Name ranged) r \<and> child_of schema r) (\<lambda>r. r\<lparr>rl_events := rl_events r @ [e]\<rparr>) rs = rs"
    by (rule update_where_none) (use others in blast)
  ultimately have "insert_event schema st e = Inr (st\<lparr>so_relations := rs @ [?new (es @ [e])]\<rparr>)"
    using Cons.prems(2) by (simp add: insert_event_def route_def new_partition_def is_relation_def child_of_def)
  with Cons.IH [of "st\<lparr>so_relations := rs @ [?new (es @ [e])]\<rparr>" "es @ [e]"] Cons.prems(1) show ?case by simp
qed


definition undisturbed :: "server \<Rightarrow> bool" where
  "undisturbed sv \<longleftrightarrow> (\<forall>name s. sv_meanwhile sv name s = s)"

lemma queue_apart: "lifted_events schema ranged (remove_queue ranged st) = lifted_events schema ranged st"
  by (simp add: lifted_events_def default_rows_def relation_named_def remove_queue_def)

lemma drain_result:
  assumes ok: "store_ok st" and calm: "undisturbed sv" and exact: "stored_exactly sv ranged" and work: "drain_through sv cfg ranged st = Inr (st', res)"
  shows "mset (all_events st') = mset (all_events st)" "mset (so_queue st') = mset (so_queue st)"
    "new_partition (cf_schema cfg) (cf_instance cfg) ranged (lifted_events (cf_schema cfg) ranged st) \<in> set (so_relations st')"
    "\<forall>x \<in> set (so_relations st'). is_relation (cf_schema cfg) PartitionDefault x \<longrightarrow>
       (\<forall>e \<in> set (rl_events x). \<not> in_range (rg_From ranged) (rg_To ranged) (e_occurred_at e))"
    "\<forall>r \<in> set (so_relations st). \<not> is_relation (cf_schema cfg) PartitionDefault r \<longrightarrow> r \<in> set (so_relations st')"
    "rr_Moved res = length (lifted_events (cf_schema cfg) ranged st)" "rr_QueueMoved res = length (lifted_queue ranged st)"
proof -
  let ?schema = "cf_schema cfg" and ?moved = "lifted_events (cf_schema cfg) ranged st" and ?queued = "lifted_queue ranged st"
  let ?st1 = "remove_queue ranged st"
  from work obtain n st2 st3 st4 st5 where w: "defaultPartitionRows sv ?schema PartitionDefault st = Inr n"
      "remove_events ?schema ranged ?st1 = Inr st2" "create_partition sv ?schema ranged st2 = Inr st3"
      "claimMarker sv ?schema (rg_Name ranged) (cf_instance cfg) st3 = Inr st4"
      "fold_result (insert_event ?schema) st4 ?moved = Inr st5" "insert_queue ?queued st5 = Inr st'"
      "rr_Moved res = length ?moved" "rr_QueueMoved res = length ?queued"
    using calm [unfolded undisturbed_def] queue_apart [of ?schema ranged st]
    unfolding drain_through_def refused_at_def Let_def by (auto simp: go_err split: if_splits)
  then obtain d where d: "relation_named ?schema PartitionDefault ?st1 = Some d"
    by (auto simp: defaultPartitionRows_def read_at_def go_err relation_named_def remove_queue_def split: prod.splits option.splits if_splits)
  have ok1: "store_ok ?st1" using ok by (simp add: store_ok_def remove_queue_def)
  have moved: "lifted_events ?schema ranged ?st1 = ?moved" by (rule queue_apart)
  note r2 = remove_events_result [OF ok1 d w(2), unfolded moved]
  note c4 = create_and_claim [OF exact w(3,4)]
  let ?new = "new_partition ?schema (cf_instance cfg) ranged"
  have "\<forall>e \<in> set ?moved. in_range (rg_From ranged) (rg_To ranged) (e_occurred_at e)" by (simp add: lifted_events_def)
  from insert_moved [OF c4(2,3) this, of st4 "cf_instance cfg" "[]"] c4(1) w(5)
  have st5: "st5 = st2\<lparr>so_relations := so_relations st2 @ [?new ?moved]\<rparr>" by simp
  have st': "st' = st5\<lparr>so_queue := so_queue st5 @ ?queued\<rparr>" using w(6) by (auto simp: insert_queue_def split: if_splits)
  show "mset (all_events st') = mset (all_events st)"
    using r2(3) by (simp add: st' st5 all_events_def new_partition_def remove_queue_def)
  show "mset (so_queue st') = mset (so_queue st)"
    by (simp add: st' st5 r2(2) remove_queue_def lifted_queue_def)
  show "?new ?moved \<in> set (so_relations st')" by (simp add: st' st5)
  show "\<forall>x \<in> set (so_relations st'). is_relation ?schema PartitionDefault x \<longrightarrow>
       (\<forall>e \<in> set (rl_events x). \<not> in_range (rg_From ranged) (rg_To ranged) (e_occurred_at e))"
  proof (intro ballI impI)
    fix x e assume x: "x \<in> set (so_relations st')" "is_relation ?schema PartitionDefault x" and e: "e \<in> set (rl_events x)"
    from r2(6) c4(2) have "rg_Name ranged \<noteq> PartitionDefault" by (auto simp: is_relation_def)
    with x have "x \<in> set (so_relations st2)" by (auto simp: st' st5 new_partition_def is_relation_def)
    with r2(4) [OF this x(2)] e show "\<not> in_range (rg_From ranged) (rg_To ranged) (e_occurred_at e)" by blast
  qed
  show "\<forall>r \<in> set (so_relations st). \<not> is_relation ?schema PartitionDefault r \<longrightarrow> r \<in> set (so_relations st')"
    using r2(5) by (auto simp: st' st5 remove_queue_def)
  show "rr_Moved res = length ?moved" "rr_QueueMoved res = length ?queued" using w(7,8) by simp_all
qed

end
