(* ===== verification/Schema_Passes.thy ===== *)
theory Schema_Passes
  imports Schema_Laws
begin

text \<open>
  The passes of the schema package as their callers see them: a repair of the DEFAULT partition moves rows and loses
  none, a maintenance pass only adds partitions and a pass that reports success covers the whole horizon, and which
  refusals reach the caller as a lock timeout.
\<close>

text \<open>C22. A repair of the DEFAULT partition moves rows and loses none, as long as no other session commits between the copy
  and the removal of the rows: either the tables are what they were and the operator is told why, or the new partition,
  marked as this instance's, holds exactly the rows of its range that the DEFAULT partition held, the DEFAULT partition
  holds none of them any more, no other table changed, and the event log and the queue are the same multisets of rows as
  before.\<close>

theorem repair_moves_and_loses_nothing:
  assumes "store_ok (sv_others sv st)" "undisturbed sv" "stored_exactly sv ranged"
    and call: "RepairDefaultPartition sv cfg ranged (st, stats) = ((st', stats'), r)"
  shows "(st' = st \<or> st' = sv_others sv st) \<and> (\<exists>e. r = Inl e) \<or>
    mset (all_events st') = mset (all_events (sv_others sv st)) \<and> mset (so_queue st') = mset (so_queue (sv_others sv st)) \<and>
    new_partition (cf_schema cfg) (cf_instance cfg) ranged (lifted_events (cf_schema cfg) ranged (sv_others sv st)) \<in> set (so_relations st') \<and>
    (\<forall>x \<in> set (so_relations st'). is_relation (cf_schema cfg) PartitionDefault x \<longrightarrow>
       (\<forall>e \<in> set (rl_events x). \<not> in_range (rg_From ranged) (rg_To ranged) (e_occurred_at e))) \<and>
    (\<forall>x \<in> set (so_relations (sv_others sv st)). \<not> is_relation (cf_schema cfg) PartitionDefault x \<longrightarrow> x \<in> set (so_relations st')) \<and>
    (\<forall>res. r = Inr res \<longrightarrow> rr_Moved res = length (lifted_events (cf_schema cfg) ranged (sv_others sv st)) \<and>
       rr_QueueMoved res = length (lifted_queue ranged (sv_others sv st)))"
proof (cases "drainFor (sv_sanitize sv) cfg ranged")
  case (Inl e)
  then show ?thesis using call by (auto simp: RepairDefaultPartition_def)
next
  case (Inr u)
  obtain st1 x where tx: "boundedTx sv \<lparr>ds_operation = ''drain the DEFAULT partition for range '' @ rg_Name ranged, ds_partition = rg_Name ranged\<rparr>
      (drain_through sv cfg ranged) st = (st1, x)" by fastforce
  with call Inr have st': "st' = st1" and r: "case x of Inl e \<Rightarrow> (\<exists>e'. r = Inl e') | Inr res \<Rightarrow> r = Inr res"
    by (auto simp: RepairDefaultPartition_def split: sum.splits)
  from boundedTx_result [OF tx] show ?thesis
  proof (elim disjE conjE exE)
    fix e assume "st1 = sv_others sv st" "x = Inl e"
    then show ?thesis using st' r by auto
  next
    fix res assume work: "drain_through sv cfg ranged (sv_others sv st) = Inr (st1, res)" and x: "x = Inr res"
    show ?thesis using drain_result [OF assms(1-3) work] r x unfolding st' by auto
  next
    fix res e assume work: "drain_through sv cfg ranged (sv_others sv st) = Inr (st1, res)" and x: "x = Inl e"
    show ?thesis using drain_result [OF assms(1-3) work] r x unfolding st' by auto
  qed
qed

section \<open>A maintenance pass\<close>

lemma createOne_result:
  assumes "createOne sv cfg ranged st = (st', r)" "stored_exactly sv ranged"
  shows "st' = st \<and> (\<exists>e. r = Inl e) \<or> st' = sv_others sv st \<and> (\<exists>e. r = Inl e) \<or>
    st' = (sv_others sv st)\<lparr>so_relations := so_relations (sv_others sv st) @ [new_partition (cf_schema cfg) (cf_instance cfg) ranged []]\<rparr>"
proof -
  have "st' = (sv_others sv st)\<lparr>so_relations := so_relations (sv_others sv st) @ [new_partition (cf_schema cfg) (cf_instance cfg) ranged []]\<rparr>"
    if "and_then (create_partition sv (cf_schema cfg) ranged (sv_others sv st)) (\<lambda>s1.
          and_then (claimMarker sv (cf_schema cfg) (rg_Name ranged) (cf_instance cfg) s1) (\<lambda>s2. Inr (s2, ()))) = Inr (st', x)" for x
    using that create_and_claim(1) [OF assms(2)] by (auto simp: go_err)
  with assms(1) show ?thesis
    unfolding createOne_def by (auto simp: Let_def split: prod.splits if_splits dest!: boundedTx_result)
qed

text \<open>A child of the log with the extent of a range.\<close>

definition in_place :: "string \<Rightarrow> store \<Rightarrow> Range \<Rightarrow> bool" where
  "in_place schema st ranged \<longleftrightarrow>
     (\<exists>r \<in> set (so_relations st). child_of schema r \<and> rl_bound r = Some (Bound_range (rg_From ranged) (rg_To ranged)))"

definition plain_bounds :: "string \<Rightarrow> store \<Rightarrow> bool" where
  "plain_bounds schema st \<longleftrightarrow> (\<forall>r \<in> set (so_relations st). child_of schema r \<longrightarrow> (\<forall>t. rl_bound r \<noteq> Some (Bound_other t)))"

definition grown :: "schema_config \<Rightarrow> store \<Rightarrow> store \<Rightarrow> bool" where
  "grown cfg st st' \<longleftrightarrow> (\<exists>news. so_relations st' = so_relations st @ news \<and>
     (\<forall>x \<in> set news. \<exists>ranged. x = new_partition (cf_schema cfg) (cf_instance cfg) ranged [])) \<and>
     so_queue st' = so_queue st \<and> so_schemas st' = so_schemas st"

lemma grown_refl: "grown cfg st st"
  by (simp add: grown_def)

lemma grown_trans: "grown cfg a b \<Longrightarrow> grown cfg b c \<Longrightarrow> grown cfg a c"
  unfolding grown_def by force

lemma grown_keeps:
  assumes "grown cfg st st'"
  shows "in_place (cf_schema cfg) st ranged \<Longrightarrow> in_place (cf_schema cfg) st' ranged"
    "plain_bounds (cf_schema cfg) st \<Longrightarrow> plain_bounds (cf_schema cfg) st'"
proof -
  from assms obtain news where st': "so_relations st' = so_relations st @ news"
    and news: "\<And>x. x \<in> set news \<Longrightarrow> \<exists>ranged. x = new_partition (cf_schema cfg) (cf_instance cfg) ranged []"
    by (auto simp: grown_def)
  show "in_place (cf_schema cfg) st' ranged" if "in_place (cf_schema cfg) st ranged"
    using that by (auto simp: in_place_def st')
  have "rl_bound x \<noteq> Some (Bound_other t)" if "x \<in> set news" for x t
    using news [OF that] by (auto simp: new_partition_def)
  then show "plain_bounds (cf_schema cfg) st'" if "plain_bounds (cf_schema cfg) st"
    using that by (auto simp: plain_bounds_def st')
qed

lemma covered_in_place:
  assumes "pass_covers sv cfg ranged st = (st', True)" "sv_others sv st = st" "bounds_read_back sv" "plain_bounds (cf_schema cfg) st"
  shows "in_place (cf_schema cfg) st ranged"
proof -
  from assms(1,2) obtain found where found: "observePartitions sv (cf_schema cfg) st = Inr found" "rangesNotYetObserved [ranged] (op_Bounded found) = []"
    unfolding pass_covers_def by (auto simp: go_err split: prod.splits sum.splits dest!: boundedTx_ok)
  then obtain x where "x \<in> set (op_Bounded found)" "sameExtentAs ranged x"
    by (auto simp: rangesNotYetObserved_def list_ex_iff split: if_splits)
  with observed_iff [OF assms(3) found(1), of x] assms(4) show ?thesis
    by (auto simp: in_place_def sameExtentAs_def plain_bounds_def)
qed

lemma create_step_result:
  assumes "quiet svs" "\<And>ph. bounds_read_back (svs ph)" "\<And>ph. stored_exactly (svs ph) ranged" "plain_bounds (cf_schema cfg) (fst acc)"
  shows "grown cfg (fst acc) (fst (create_step svs cfg ranged acc)) \<and>
    (\<exists>more. snd (snd (snd (create_step svs cfg ranged acc))) = snd (snd (snd acc)) @ more \<and>
       (more = [] \<longrightarrow> in_place (cf_schema cfg) (fst (create_step svs cfg ranged acc)) ranged))"
proof -
  obtain st stats created refused where acc: "acc = (st, stats, created, refused)" by (cases acc) auto
  obtain st1 r where one: "createOne (svs (Creating (rg_Name ranged))) cfg ranged st = (st1, r)" by fastforce
  let ?new = "new_partition (cf_schema cfg) (cf_instance cfg) ranged []"
  from createOne_result [OF one assms(3)] assms(1)
  have r1: "st1 = st \<and> (\<exists>e. r = Inl e) \<or> st1 = st\<lparr>so_relations := so_relations st @ [?new]\<rparr>" by (auto simp: quiet_def)
  then have g: "grown cfg st st1" by (auto simp: grown_def)
  have made: "in_place (cf_schema cfg) st1 ranged" if "r = Inr u" for u
    using r1 that by (auto simp: in_place_def new_partition_def child_of_def)
  obtain st2 b where look: "pass_covers (svs (Checking (rg_Name ranged))) cfg ranged st1 = (st2, b)" by fastforce
  have st2: "st2 = st1" using covers_store [OF look] assms(1) by (simp add: quiet_def)
  have plain: "plain_bounds (cf_schema cfg) st1" using grown_keeps(2) [OF g] assms(4) by (simp add: acc)
  have seen: "in_place (cf_schema cfg) st1 ranged" if b
    using covered_in_place [of "svs (Checking (rg_Name ranged))" cfg ranged st1 st2] look that plain assms(1,2) by (simp add: quiet_def)
  show ?thesis
    using one look g made seen by (cases r; cases b) (auto simp: acc st2)
qed

lemma converge_result:
  assumes "quiet svs" "\<And>ph. bounds_read_back (svs ph)" "\<And>ph ranged. ranged \<in> set wanted \<Longrightarrow> stored_exactly (svs ph) ranged"
    and "plain_bounds (cf_schema cfg) (fst acc)"
  shows "grown cfg (fst acc) (fst (converge svs cfg wanted acc)) \<and>
    (\<exists>more. snd (snd (snd (converge svs cfg wanted acc))) = snd (snd (snd acc)) @ more \<and>
       (more = [] \<longrightarrow> (\<forall>ranged \<in> set wanted. in_place (cf_schema cfg) (fst (converge svs cfg wanted acc)) ranged)))"
  using assms(3,4) unfolding converge_def
proof (induction wanted arbitrary: acc)
  case Nil
  then show ?case by (simp add: grown_refl)
next
  case (Cons ranged wanted)
  let ?acc = "create_step svs cfg ranged acc"
  from create_step_result [OF assms(1,2), of ranged cfg acc] Cons.prems obtain more1 where
    g1: "grown cfg (fst acc) (fst ?acc)" and m1: "snd (snd (snd ?acc)) = snd (snd (snd acc)) @ more1"
    "more1 = [] \<longrightarrow> in_place (cf_schema cfg) (fst ?acc) ranged" by auto
  have "plain_bounds (cf_schema cfg) (fst ?acc)" using grown_keeps(2) [OF g1] Cons.prems(2) by blast
  with Cons.IH [of ?acc] Cons.prems(1) obtain more2 where
    g2: "grown cfg (fst ?acc) (fst (foldl (\<lambda>a ranged. create_step svs cfg ranged a) ?acc wanted))"
    and m2: "snd (snd (snd (foldl (\<lambda>a ranged. create_step svs cfg ranged a) ?acc wanted))) = snd (snd (snd ?acc)) @ more2"
      "more2 = [] \<longrightarrow> (\<forall>ranged \<in> set wanted. in_place (cf_schema cfg) (fst (foldl (\<lambda>a ranged. create_step svs cfg ranged a) ?acc wanted)) ranged)"
    by auto
  show ?case
    using grown_trans [OF g1 g2] m1 m2 grown_keeps(1) [OF g2, of ranged] by (intro conjI exI [of _ "more1 @ more2"]) auto
qed


lemma observe_found:
  assumes "observe sv cfg st = (st1, Inr seen)"
  shows "\<exists>found. observePartitions sv (cf_schema cfg) (sv_others sv st) = Inr found \<and>
    ob_partitions seen = op_Bounded found \<and> ob_now seen = sv_now sv"
  using assms by (auto simp: observe_def observe_work_def dbNow_def read_at_def go_err split: prod.splits sum.splits dest!: boundedTx_ok)

lemma errors_Join_None: "errors_Join es = None \<longleftrightarrow> es = []"
  by (cases es) (auto simp: errors_Join_def)

text \<open>A \<open>timestamptz\<close> holds every whole microsecond.\<close>

definition stores_microseconds :: "server \<Rightarrow> bool" where
  "stores_microseconds sv \<longleftrightarrow> (\<forall>t. 1000 dvd t \<longrightarrow> sv_timestamptz sv t = t)"

lemma required_stored_exactly:
  assumes "servable cfg" "grid_in_reach now cfg" "RequiredRanges now cfg = Some required" "ranged \<in> set required" "stores_microseconds sv"
  shows "stored_exactly sv ranged"
proof -
  let ?d = "rt_PartitionInterval cfg"
  have "\<exists>k. rg_From ranged = k * ?d \<and> rg_To ranged = (k + 1) * ?d" using assms(3,4) RequiredRanges_exact [OF assms(1,2)] by auto
  then obtain k where "rg_From ranged = k * ?d" "rg_To ranged = (k + 1) * ?d" by blast
  moreover have "1000 dvd j * ?d" for j using servable_facts(2) [OF assms(1)] by (rule dvd_mult)
  ultimately show ?thesis using assms(5) unfolding stored_exactly_def stores_microseconds_def by presburger
qed

lemma required_reach:
  assumes "servable cfg" "grid_in_reach now cfg" "now \<le> t" "t \<le> now + rt_Precreate cfg"
  shows "\<exists>required. RequiredRanges now cfg = Some required \<and> (\<exists>ranged \<in> set required. in_range (rg_From ranged) (rg_To ranged) t)"
proof -
  let ?d = "rt_PartitionInterval cfg"
  have d: "0 < ?d" by (rule servable_facts(1) [OF assms(1)])
  have "t div ?d \<in> set [now div ?d..(now + rt_Precreate cfg) div ?d]" using assms(3,4) d by (simp add: zdiv_mono1)
  moreover have "in_range (t div ?d * ?d) ((t div ?d + 1) * ?d) t" using grid_contains [OF d, of t] by (simp add: in_range_def)
  ultimately show ?thesis
    unfolding RequiredRanges_exact [OF assms(1,2)] by (force simp: image_iff)
qed

text \<open>C23. A maintenance pass only adds: every relation, the queue and the schemas stay as they were and what is new is an empty
  partition marked as this instance's. A pass reports an error exactly when its outcome is a failure, and a pass that reports
  none has put in place, at its exact extent, every range the retention configuration requires at the database's
  clock, so that every instant up to the end of the pre-creation horizon has a partition of its own to land in.\<close>

theorem maintenance_pass_adds_what_is_missing:
  assumes "quiet svs" "\<And>ph. bounds_read_back (svs ph)" "plain_bounds (cf_schema cfg) st" "\<And>ph. stores_microseconds (svs ph)"
    and s: "servable (cf_retention cfg)" and g: "grid_in_reach (sv_now (svs Observing)) (cf_retention cfg)"
    and pass: "Maintain svs cfg (st, stats) = Some ((st', stats'), result, err)"
  shows "grown cfg st st' \<and> (err = None \<longleftrightarrow> rs_Outcome result \<noteq> OutcomeFailed) \<and> rs_Dropped result = 0 \<and>
    (err = None \<longrightarrow> (\<exists>required. RequiredRanges (sv_now (svs Observing)) (cf_retention cfg) = Some required \<and>
       (\<forall>ranged \<in> set required. in_place (cf_schema cfg) st' ranged)) \<and>
     (\<forall>t. sv_now (svs Observing) \<le> t \<longrightarrow> t \<le> sv_now (svs Observing) + rt_Precreate (cf_retention cfg) \<longrightarrow>
       (\<exists>r \<in> set (so_relations st'). child_of (cf_schema cfg) r \<and> holds_instant t r)))"
proof (cases "unservableHorizonIn (cf_retention cfg) = Some None")
  case False
  then show ?thesis using pass by (auto simp: Maintain_def failed_result_def grown_refl split: option.splits)
next
  case servable: True
  obtain st1 res where obs: "observe (svs Observing) cfg st = (st1, res)" by fastforce
  have same: "st1 = st" using observe_store [OF obs] assms(1) by (simp add: quiet_def)
  show ?thesis
  proof (cases res)
    case (Inl e)
    then show ?thesis using pass obs servable by (auto simp: Maintain_def failed_result_def same grown_refl)
  next
    case (Inr seen)
    obtain found where found: "observePartitions (svs Observing) (cf_schema cfg) st = Inr found"
        "ob_partitions seen = op_Bounded found" "ob_now seen = sv_now (svs Observing)"
      using observe_found obs Inr assms(1) by (fastforce simp: quiet_def)
    let ?acc = "(st, StoreDefaultPartitionRows (ob_defaultRows seen) stats, 0, [])"
    from pass obs Inr servable same obtain plan created refused where
      plan: "PlanMaintenance (sv_now (svs Observing)) (cf_retention cfg) (op_Bounded found) = Some plan"
      and conv: "converge svs cfg (pl_Create plan) ?acc = (st', stats', created, refused)"
      and out: "(result, err) = settle_pass created 0 refused"
      by (auto simp: Maintain_def found split: option.splits prod.splits)
    from plan obtain required where req: "RequiredRanges (sv_now (svs Observing)) (cf_retention cfg) = Some required"
      and create: "pl_Create plan = rangesNotYetObserved required (op_Bounded found)"
      by (auto simp: PlanMaintenance_def split: option.splits)
    have c: "grown cfg st st'" "refused = [] \<longrightarrow> (\<forall>ranged \<in> set (pl_Create plan). in_place (cf_schema cfg) st' ranged)"
      using converge_result [OF assms(1,2), of "pl_Create plan" cfg ?acc] required_stored_exactly [OF s g req _ assms(4)] assms(3) conv
      by (auto simp: create rangesNotYetObserved_def)
    have "in_place (cf_schema cfg) st ranged" if "ranged \<in> set required" "ranged \<notin> set (pl_Create plan)" for ranged
    proof -
      from that obtain x where "x \<in> set (op_Bounded found)" "sameExtentAs ranged x"
        by (auto simp: create rangesNotYetObserved_def list_ex_iff)
      with observed_iff [OF assms(2) found(1), of x] assms(3) show ?thesis
        by (auto simp: in_place_def sameExtentAs_def plain_bounds_def)
    qed
    then have "refused = [] \<longrightarrow> (\<forall>ranged \<in> set required. in_place (cf_schema cfg) st' ranged)"
      using c grown_keeps(1) [OF c(1)] by blast
    moreover have "\<exists>r \<in> set (so_relations st'). child_of (cf_schema cfg) r \<and> holds_instant t r"
      if "sv_now (svs Observing) \<le> t" "t \<le> sv_now (svs Observing) + rt_Precreate (cf_retention cfg)"
        "\<forall>ranged \<in> set required. in_place (cf_schema cfg) st' ranged" for t
      using required_reach [OF s g that(1,2)] req that(3) by (fastforce simp: in_place_def holds_instant_def)
    ultimately show ?thesis
      using out c(1) req by (auto simp: settle_pass_def outcomeOf_def errors_Join_None)
  qed
qed


theorem maintenance_pass_adds_what_is_missing_witness:
  "\<exists>st' stats' result err. Maintain (\<lambda>_. calm_server) sample_schema_config (sample_store, sample_stats) = Some ((st', stats'), result, err) \<and>
     grown sample_schema_config sample_store st' \<and> (err = None \<longleftrightarrow> rs_Outcome result \<noteq> OutcomeFailed)"
proof -
  have facts: "servable (cf_retention sample_schema_config)" "grid_in_reach 100 (cf_retention sample_schema_config)"
    by (simp_all add: sample_schema_config_def servable_def unservableHorizonIn_def horizonPartitionCount_def
        storedInstantGranularity_def relationIdentifiersOneDatabaseHolds_def Let_def go_int max_int64_def grid_in_reach_def in_int64_def min_int64_def)
  obtain plan where plan: "PlanMaintenance 100 (cf_retention sample_schema_config)
      [\<lparr>rg_From = 0, rg_To = 10, rg_Name = ''ours''\<rparr>, \<lparr>rg_From = 10, rg_To = 20, rg_Name = ''theirs''\<rparr>] = Some plan"
    using sample_plan by blast
  then obtain st' stats' result err where
    pass: "Maintain (\<lambda>_. calm_server) sample_schema_config (sample_store, sample_stats) = Some ((st', stats'), result, err)"
    using sample_observing facts(1)
    by (cases "converge (\<lambda>_. calm_server) sample_schema_config (pl_Create plan) (sample_store, StoreDefaultPartitionRows 0 sample_stats, 0, [])")
      (auto simp: Maintain_def servable_def settle_pass_def)
  moreover have "plain_bounds (cf_schema sample_schema_config) sample_store"
    by (simp add: plain_bounds_def sample_store_def sample_partition_def)
  ultimately show ?thesis
    using maintenance_pass_adds_what_is_missing [of "\<lambda>_. calm_server" sample_schema_config sample_store sample_stats st' stats' result err]
      sample_reads_back facts by (auto simp: quiet_def stores_microseconds_def calm_server_def)
qed

definition flooded_store :: store where
  "flooded_store = sample_store\<lparr>so_relations := sample_partition PartitionDefault Bound_default None [sample_logged 3 25, sample_logged 4 35]
     # tl (so_relations sample_store)\<rparr>"

definition sample_range :: Range where
  "sample_range = \<lparr>rg_From = 20, rg_To = 30, rg_Name = ''drained''\<rparr>"

theorem repair_moves_and_loses_nothing_witness:
  "\<exists>st' stats' r. RepairDefaultPartition calm_server sample_schema_config sample_range (flooded_store, sample_stats) = ((st', stats'), r) \<and>
     ((\<exists>e. r = Inl e) \<or> mset (all_events st') = mset (all_events flooded_store) \<and>
       new_partition ''noty'' ''a'' sample_range [sample_logged 3 25] \<in> set (so_relations st'))"
proof -
  obtain st' stats' r where call: "RepairDefaultPartition calm_server sample_schema_config sample_range (flooded_store, sample_stats) = ((st', stats'), r)"
    by (metis surj_pair)
  have "store_ok flooded_store"
    by (simp add: store_ok_def flooded_store_def sample_store_def sample_partition_def relation_key_def PartitionDefault_def)
  moreover have "lifted_events ''noty'' sample_range flooded_store = [sample_logged 3 25]"
    by (simp add: lifted_events_def default_rows_def relation_named_def flooded_store_def sample_partition_def is_relation_def
        in_range_def sample_range_def sample_logged_def)
  ultimately show ?thesis
    using repair_moves_and_loses_nothing [of calm_server flooded_store sample_range sample_schema_config sample_stats st' stats' r] call
    by (auto simp: stored_exactly_def undisturbed_def calm_server_def sample_schema_config_def)
qed


section \<open>Lock timeouts\<close>

text \<open>A lock timeout met by a read of \<open>catalog.go\<close> is finished before the bounded transaction classifies it, so that neither
  an observation nor a drain refused there reports \<open>ErrLockTimeout\<close>; one met by a statement that hands the driver's error
  back does.\<close>

definition driver_errors :: "server \<Rightarrow> bool" where
  "driver_errors sv \<longleftrightarrow> (\<forall>at e. sv_refuses sv at = Some e \<longrightarrow> er_sentinels e = [])"

lemma finished_plain: "er_sentinels e = [] \<Longrightarrow> er_sentinels (finished e secrets) = []" "er_server (finished e secrets) = None"
  "er_sentinels (wrapping a e b) = er_sentinels e" "er_server (wrapping a e b) = er_server e"
  by (auto simp: finished_def wrapping_def sentinelMatching_def packageSentinels_def)

lemma plain_error: "er_sentinels (errorf s) = []" "er_server (errorf s) = None"
  "er_sentinels (server_error c m) = []" "er_server (server_error c m) = Some \<lparr>sr_code = c, sr_message = m\<rparr>"
  by (simp_all add: errorf_def server_error_def)

lemma and_then_Inl: "and_then r f = Inl e \<longleftrightarrow> r = Inl e \<or> (\<exists>x. r = Inr x \<and> f x = Inl e)"
  by (cases r) auto

lemma unless_fault_Inl: "unless_fault r k = Inl e \<longleftrightarrow> r = Some e \<or> r = None \<and> k = Inl e"
  by (cases r) auto

lemma read_at_plain:
  assumes "driver_errors sv" "read_at sv at k = Inl e" "k = Inl e \<Longrightarrow> er_sentinels e = [] \<and> er_server e = None"
  shows "er_sentinels e = [] \<and> er_server e = None"
  using assms by (cases "sv_refuses sv at") (auto simp: read_at_def driver_errors_def finished_plain go_err)

lemma observePartitions_plain:
  assumes "driver_errors sv" "observePartitions sv schema st = Inl e"
  shows "er_sentinels e = [] \<and> er_server e = None"
proof -
  have add: "er_sentinels e = [] \<and> er_server e = None" if "observed_add sv schema found name within b = Inl e" for found name within b
    using that by (auto simp: observed_add_def addRendered_def finished_plain plain_error foreign_schema_error_def undeclaredBound_def
        unreadableBound_def split: if_splits observedBound.splits sum.splits)
  have "er_sentinels e = [] \<and> er_server e = None" if "fold_result (\<lambda>found (name, within, declaresABound, rendered).
      observed_add sv schema found name within (boundReadFrom declaresABound rendered)) found rows = Inl e" for found rows
    using that by (induction rows arbitrary: found) (auto simp: and_then_Inl dest: add)
  then show ?thesis using read_at_plain [OF assms(1) assms(2) [unfolded observePartitions_def]] by blast
qed

lemma defaultPartitionRows_plain:
  assumes "driver_errors sv" "defaultPartitionRows sv schema part st = Inl e"
  shows "er_sentinels e = [] \<and> er_server e = None"
  using assms(2) by (auto simp: defaultPartitionRows_def finished_plain plain_error dest!: read_at_plain [OF assms(1)]
      split: prod.splits if_splits option.splits)

lemma reads_lose_the_lock_timeout:
  assumes "driver_errors sv" "sv_refuses sv AtBegin = None" "sv_refuses sv AtLockTimeout = None" "sv_commit sv = CommitOk"
    and "sv_refuses sv AtDefaultCount = Some (server_error lockNotAvailable m)"
  shows "observe sv cfg st = (st', Inl e) \<Longrightarrow> ErrLockTimeout \<notin> set (er_sentinels e)"
    "RepairDefaultPartition sv cfg ranged (st, stats) = (out, Inl e) \<Longrightarrow> ErrLockTimeout \<notin> set (er_sentinels e)"
proof -
  have dbNow: "er_sentinels e = [] \<and> er_server e = None" if "dbNow sv = Inl e" for e
    using read_at_plain [OF assms(1) that [unfolded dbNow_def]] by simp
  have work: "er_sentinels e = [] \<and> er_server e = None" if "observe_work sv cfg s = Inl e" for s e
    using that observePartitions_plain [OF assms(1)] defaultPartitionRows_plain [OF assms(1)] dbNow
    by (auto simp: observe_work_def and_then_Inl)
  have tx: "er_sentinels e = []" if "boundedTx sv about w s = (s', Inl e)" "\<And>s e. w s = Inl e \<Longrightarrow> er_sentinels e = [] \<and> er_server e = None"
    for about s s' e and w :: "store \<Rightarrow> go_error + store \<times> 'x"
    using that(1) assms(2-4) that(2)
    by (fastforce simp: boundedTx_def refused_at_def Let_def classified_def go_err finished_plain split: sum.splits prod.splits)
  show "ErrLockTimeout \<notin> set (er_sentinels e)" if "observe sv cfg st = (st', Inl e)"
    using that tx [of _ "observe_work sv cfg"] work by (fastforce simp: observe_def finished_plain split: prod.splits sum.splits)
  have drain: "er_sentinels e = [] \<and> er_server e = None" if "drain_through sv cfg ranged s = Inl e" for s e
  proof -
    have stuck: "\<exists>e. defaultPartitionRows sv (cf_schema cfg) PartitionDefault s = Inl e"
      using assms(5) by (auto simp: defaultPartitionRows_def read_at_def go_err split: prod.splits)
    show ?thesis
      using that stuck observePartitions_plain [OF assms(1)] defaultPartitionRows_plain [OF assms(1)]
      by (cases "observePartitions sv (cf_schema cfg) s") (auto simp: drain_through_def Let_def go_err finished_plain plain_error split: if_splits)
  qed
  have names: "er_sentinels e = []" if "drainFor (sv_sanitize sv) cfg ranged = Inl e" for e
    using that by (auto simp: drainFor_def Let_def unless_fault_Inl finished_plain plain_error split: if_splits prod.splits)
  show "ErrLockTimeout \<notin> set (er_sentinels e)" if "RepairDefaultPartition sv cfg ranged (st, stats) = (out, Inl e)"
    using that tx [of _ "drain_through sv cfg ranged"] drain names
    by (fastforce simp: RepairDefaultPartition_def Let_def finished_plain split: prod.splits sum.splits)
qed

lemma create_reports_the_lock_timeout:
  assumes "sv_refuses sv AtBegin = None" "sv_refuses sv AtLockTimeout = None" "sv_refuses sv AtCreate = Some (server_error lockNotAvailable m)"
    and "snd (partitionObject (sv_sanitize sv) (cf_schema cfg) (rg_Name ranged)) = IdentifierOK"
      "snd (Qualified (sv_sanitize sv) (cf_schema cfg) TableEvents_name) = IdentifierOK"
  shows "\<exists>e. createOne sv cfg ranged st = (sv_others sv st, Inl e) \<and> ErrLockTimeout \<in> set (er_sentinels e)"
  using assms
  by (auto simp: createOne_def boundedTx_def refused_at_def Let_def create_partition_def go_err classified_def plain_error
      lockTimedOut_error_def sentinel_error_def finished_def sentinelMatching_def packageSentinels_def split: prod.splits)

section \<open>What the row counts of a drain do not show\<close>

definition sample_queued :: "int \<Rightarrow> instant \<Rightarrow> queue_row" where
  "sample_queued i t = \<lparr>q_event_id = i, q_occurred_at = t, q_listener = ''l'', q_status = Pending, q_attempts = 0,
     q_next_attempt_at = 0, q_leased_until = None, q_leased_by = None, q_dead_reason = None\<rparr>"

definition race_store :: store where
  "race_store = flooded_store\<lparr>so_queue := [sample_queued 3 25]\<rparr>"

text \<open>While the drain runs a worker acknowledges event 3 and an application commits event 5, both in the drained range.\<close>

definition acked_and_enqueued :: "store \<Rightarrow> store" where
  "acked_and_enqueued st = st\<lparr>so_queue := filter (\<lambda>q. q_event_id q \<noteq> 3) (so_queue st) @ [sample_queued 5 26],
     so_relations := update_where (is_relation ''noty'' PartitionDefault) (\<lambda>r. r\<lparr>rl_events := rl_events r @ [sample_logged 5 26]\<rparr>) (so_relations st)\<rparr>"

definition race_server :: server where
  "race_server = calm_server\<lparr>sv_meanwhile := (\<lambda>name s. if name = TableEventQueue then acked_and_enqueued s else s)\<rparr>"

lemma sample_rows [simp]: "e_occurred_at (sample_logged i t) = t" "e_id (sample_logged i t) = i"
  "q_occurred_at (sample_queued i t) = t" "q_event_id (sample_queued i t) = i"
  by (simp_all add: sample_logged_def sample_queued_def)

lemma race_server_simps [simp]:
  "sv_refuses race_server at = None" "sv_others race_server st = st" "sv_commit race_server = CommitOk"
  "sv_sanitize race_server = sv_sanitize calm_server" "sv_timestamptz race_server t = t" "sv_parse race_server = sv_parse calm_server"
  "sv_meanwhile race_server TableEventQueue st' = acked_and_enqueued st'" "sv_meanwhile race_server TableEvents_name st' = st'"
  by (simp_all add: race_server_def calm_server_def TableEventQueue_def TableEvents_name_def)

lemma race_observed: "observePartitions race_server ''noty'' race_store =
  Inr \<lparr>op_Bounded = [\<lparr>rg_From = 0, rg_To = 10, rg_Name = ''ours''\<rparr>, \<lparr>rg_From = 10, rg_To = 20, rg_Name = ''theirs''\<rparr>], op_Default = PartitionDefault\<rparr>"
proof -
  have "catalog_rows race_server ''noty'' race_store = catalog_rows calm_server ''noty'' sample_store"
    by (simp add: catalog_rows_def race_store_def flooded_store_def sample_store_def sample_partition_def child_of_def race_server_def
        PartitionDefault_def)
  moreover have add: "observed_add race_server = observed_add calm_server"
    by (intro ext) (simp add: observed_add_def addRendered_def split: observedBound.splits)
  ultimately show ?thesis using sample_observed unfolding observePartitions_def add by (simp add: read_at_def)
qed

lemma race_names: "drainFor (sv_sanitize calm_server) sample_schema_config sample_range = Inr ()"
  by (simp add: drainFor_def sample_range_def sample_schema_config_def partitionObject_def Qualified_def WhyUnusable_OK NUL_def
      MaxIdentifierBytes_def TableEvents_name_def PartitionDefault_def TableEventQueue_def holdingName_def ObjectName_def go_err)

lemma race_counted: "relation_named ''noty'' PartitionDefault st = Some r \<Longrightarrow>
    defaultPartitionRows race_server ''noty'' PartitionDefault st = Inr (int (length (rl_events r)))"
  by (simp add: defaultPartitionRows_def Qualified_def read_at_def WhyUnusable_OK PartitionDefault_def NUL_def MaxIdentifierBytes_def)

text \<open>Under READ COMMITTED the two counts agree although the rows differ: the drain succeeds, the queue row of event 5 is gone
  although event 5 is in the log, and the row of event 3, which had been acknowledged, is back.\<close>

lemma drain_can_lose_a_queue_row:
  "\<exists>st' stats' res. RepairDefaultPartition race_server sample_schema_config sample_range (race_store, sample_stats) = ((st', stats'), Inr res) \<and>
     sample_queued 5 26 \<in> set (so_queue (acked_and_enqueued race_store)) \<and> sample_queued 5 26 \<notin> set (so_queue st') \<and>
     sample_logged 5 26 \<in> set (all_events st') \<and> sample_queued 3 25 \<in> set (so_queue st')"
proof -
  let ?default = "sample_partition PartitionDefault Bound_default None"
  let ?others = "[sample_partition ''ours'' (Bound_range 0 10) (Some ''pg_noty:v1:a:partition'') [sample_logged 1 5],
        sample_partition ''theirs'' (Bound_range 10 20) (Some ''pg_noty:v1:b:partition'') [sample_logged 2 15]]"
  let ?db = "\<lambda>rs qs. \<lparr>so_schemas = [(''noty'', None)], so_relations = rs, so_queue = qs\<rparr>"
  let ?new = "new_partition ''noty'' ''a'' sample_range"
  let ?st2 = "?db (?default [sample_logged 4 35] # ?others) []"
  have st0: "race_store = ?db (?default [sample_logged 3 25, sample_logged 4 35] # ?others) [sample_queued 3 25]"
    by (simp add: race_store_def flooded_store_def sample_store_def)
  have st1: "remove_queue sample_range (acked_and_enqueued race_store) =
      ?db (?default [sample_logged 3 25, sample_logged 4 35, sample_logged 5 26] # ?others) []"
    by (simp add: st0 remove_queue_def acked_and_enqueued_def in_range_def sample_range_def sample_partition_def
        is_relation_def PartitionDefault_def)
  note relations = relation_named_def sample_partition_def is_relation_def PartitionDefault_def
  have free: "relation_named ''noty'' holding (?db (?default es # ?others) qs) = None"
    if "holding \<in> {holdingName TableEventQueue sample_range, holdingName TableEvents_name sample_range, ''drained''}" for holding es qs
    using that by (auto simp: relations holdingName_def ObjectName_def TableEvents_name_def TableEventQueue_def sample_range_def MaxIdentifierBytes_def)
  have queued: "lifted_queue sample_range race_store = [sample_queued 3 25]"
      "lifted_queue sample_range (acked_and_enqueued race_store) = [sample_queued 5 26]"
    by (simp_all add: st0 acked_and_enqueued_def lifted_queue_def in_range_def sample_range_def)
  have moved: "lifted_events ''noty'' sample_range (remove_queue sample_range (acked_and_enqueued race_store)) = [sample_logged 3 25, sample_logged 5 26]"
    unfolding st1 by (simp add: lifted_events_def default_rows_def relations in_range_def sample_range_def)
  have removed: "remove_events ''noty'' sample_range (remove_queue sample_range (acked_and_enqueued race_store)) = Inr ?st2"
    unfolding remove_events_def moved unfolding st1
    by (simp add: referenced_def sample_partition_def is_relation_def PartitionDefault_def in_range_def sample_range_def)
  have created: "create_partition race_server ''noty'' sample_range ?st2 = Inr (?st2\<lparr>so_relations := so_relations ?st2 @
      [\<lparr>rl_schema = ''noty'', rl_name = ''drained'', rl_comment = None, rl_parent = Some (''noty'', TableEvents_name),
        rl_bound = Some (Bound_range 20 30), rl_events = []\<rparr>]\<rparr>)"
    using free [of "''drained''"]
    by (simp add: create_partition_def refused_at_def Let_def sample_range_def sample_partition_def child_of_def overlaps_def default_blocks_def in_range_def)
  let ?st4 = "?st2\<lparr>so_relations := so_relations ?st2 @ [?new []]\<rparr>"
  have claimed: "claimMarker race_server ''noty'' ''drained'' ''a'' (?st2\<lparr>so_relations := so_relations ?st2 @
      [\<lparr>rl_schema = ''noty'', rl_name = ''drained'', rl_comment = None, rl_parent = Some (''noty'', TableEvents_name),
        rl_bound = Some (Bound_range 20 30), rl_events = []\<rparr>]\<rparr>) = Inr ?st4"
    by (simp add: claimMarker_def refused_at_def relations comment_on_table_def new_partition_def sample_range_def)
  let ?st5 = "?st2\<lparr>so_relations := so_relations ?st2 @ [?new [sample_logged 3 25, sample_logged 5 26]]\<rparr>"
  have restored: "fold_result (insert_event ''noty'') ?st4 [sample_logged 3 25, sample_logged 5 26] = Inr ?st5"
    by (simp add: insert_event_def route_def sample_partition_def child_of_def new_partition_def holds_instant_def in_range_def
        sample_range_def is_relation_def PartitionDefault_def)
  let ?st6 = "?st5\<lparr>so_queue := [sample_queued 3 25]\<rparr>"
  have requeued: "insert_queue [sample_queued 3 25] ?st5 = Inr ?st6"
    by (simp add: insert_queue_def in_log_def references_def new_partition_def)
  have counts: "defaultPartitionRows race_server ''noty'' PartitionDefault race_store = Inr 2"
      "defaultPartitionRows race_server ''noty'' PartitionDefault ?st6 = Inr 1"
    using race_counted [of race_store "?default [sample_logged 3 25, sample_logged 4 35]"] race_counted [of ?st6 "?default [sample_logged 4 35]"]
    by (simp_all add: st0 relation_named_def sample_partition_def is_relation_def)
  have "drain_through race_server sample_schema_config sample_range race_store = Inr (?st6, \<lparr>rr_Partition = ''drained'', rr_Moved = 2,
      rr_QueueMoved = 1, rr_DefaultRowsBefore = 2, rr_DefaultRowsAfter = 1\<rparr>)"
  proof -
    have ready: "whyUnrepairable sample_range \<lparr>op_Bounded = [\<lparr>rg_From = 0, rg_To = 10, rg_Name = ''ours''\<rparr>, \<lparr>rg_From = 10, rg_To = 20, rg_Name = ''theirs''\<rparr>],
        op_Default = PartitionDefault\<rparr> = []"
      by (simp add: whyUnrepairable_def PartitionDefault_def rangesNotYetObserved_def sameExtentAs_def sample_range_def)
    have lifts: "lift_rows race_server ''noty'' TableEventQueue TableEventQueue (holdingName TableEventQueue sample_range)
          [sample_queued 3 25] [sample_queued 5 26] race_store = Inr ()"
        "lift_rows race_server ''noty'' TableEvents_name PartitionDefault (holdingName TableEvents_name sample_range)
          [sample_logged 3 25, sample_logged 5 26] [sample_logged 3 25, sample_logged 5 26] (remove_queue sample_range (acked_and_enqueued race_store)) = Inr ()"
      using free unfolding st1 unfolding st0 by (simp_all add: lift_rows_def refused_at_def)
    have cfg: "cf_schema sample_schema_config = ''noty''" "cf_instance sample_schema_config = ''a''" "rg_Name sample_range = ''drained''"
      by (simp_all add: sample_schema_config_def sample_range_def)
    show ?thesis
      unfolding drain_through_def Let_def refused_at_def arrived_def cfg race_observed and_then_simps ready counts(1) queued race_server_simps
        lifts moved removed created claimed unless_fault_simps restored requeued
      using counts(2) by (simp add: arrived_def)
  qed
  then show ?thesis
    by (intro exI [of _ ?st6] exI [of _ "StoreDefaultPartitionRows 1 sample_stats"] exI conjI)
      (auto simp: RepairDefaultPartition_def race_names boundedTx_def refused_at_def acked_and_enqueued_def all_events_def new_partition_def
        sample_queued_def st0)
qed

end
