(* ===== verification/Schema_Boot.thy ===== *)
theory Schema_Boot
  imports Schema_Passes Migrations
begin

text \<open>
  The boot of the service: \<open>schema/bootstrap.go\<close>, \<open>schema/bootstrapschema.go\<close> and the advisory lock of
  \<open>schema/advisorylock.go\<close>, and the privilege set of \<open>schema/grants.go\<close>. The database is the ledger of the theory
  \<open>Migrations\<close> beside the store of the theory \<open>Schema_Store\<close>; a statement outside a transaction commits on its own.
\<close>

section \<open>The lock key\<close>

text \<open>\<open>hash/fnv\<close>, FNV-1a at 64 bits.\<close>

definition fnv64a :: "string \<Rightarrow> 64 word" where
  "fnv64a s = foldl (\<lambda>h c. (xor h (of_char c)) * 0x100000001b3) 0xcbf29ce484222325 s"

datatype lockDomain = bootstrapDomain | reconcileDomain

fun domain_text :: "lockDomain \<Rightarrow> string" where
  "domain_text bootstrapDomain = []"
| "domain_text reconcileDomain = ''reconcile'' @ [NUL]"

definition lock_text :: "lockDomain \<Rightarrow> string \<Rightarrow> string \<Rightarrow> string" where
  "lock_text domain schema inst = domain_text domain @ schema @ [NUL] @ inst"

definition lockKeyIn :: "lockDomain \<Rightarrow> string \<Rightarrow> string \<Rightarrow> int" where
  "lockKeyIn domain schema inst = sint (fnv64a (lock_text domain schema inst))"

definition lockKey :: "string \<Rightarrow> string \<Rightarrow> int" where
  "lockKey schema inst = lockKeyIn bootstrapDomain schema inst"

definition ReconcileLockKey :: "string \<Rightarrow> string \<Rightarrow> int" where
  "ReconcileLockKey schema inst = lockKeyIn reconcileDomain schema inst"

section \<open>The boot\<close>

text \<open>What one boot meets: \<open>bo_before\<close> is what others committed before the lock was taken, \<open>bo_quoted\<close> the verb \<open>%q\<close>.\<close>

record boot_server =
  bo_quoted :: "string \<Rightarrow> string"
  bo_sanitize :: sanitizer
  bo_acquire :: "go_error option"
  bo_lock :: "go_error option"
  bo_unlock :: "go_error option"
  bo_before :: "store mig_db \<Rightarrow> store mig_db"
  bo_read :: "go_error option"
  bo_create :: commit_result
  bo_mark :: commit_result
  bo_migrations :: mig_server
  bo_passes :: servers
  bo_coverage :: server

datatype boot_error = BootRefused go_error | BootMigration mig_error

record boot_state =
  bt_db :: "store mig_db"
  bt_locks :: "int list"

definition reservedSchemaPrefix :: string where
  "reservedSchemaPrefix = ''pg_''"

definition reservedSchemaName :: "(string \<Rightarrow> string) \<Rightarrow> string \<Rightarrow> go_error" where
  "reservedSchemaName quoted schema = finished (errorf (''the configured schema '' @ quoted schema @ '' begins with '' @
     quoted reservedSchemaPrefix @ '', which PostgreSQL reserves for its own schemas'')) []"

definition schemaObject :: "sanitizer \<Rightarrow> string \<Rightarrow> string \<times> IdentifierFault" where
  "schemaObject sanitize schema = Quoted sanitize schema"

definition schema_comment :: "string \<Rightarrow> store \<Rightarrow> string option" where
  "schema_comment schema st = Option.bind (map_of (so_schemas st) schema) (\<lambda>c. c)"

fun boot_ownershipRefusal :: "schema_config \<Rightarrow> markerReading \<Rightarrow> go_error option" where
  "boot_ownershipRefusal cfg (markerOurs named) = None"
| "boot_ownershipRefusal cfg markerAbsent = None"
| "boot_ownershipRefusal cfg (markerForeign named) = Some (finished (foreignInstance named (cf_instance cfg)) [])"
| "boot_ownershipRefusal cfg markerUnreadable = Some (finished (errorf (''schema '' @ cf_schema cfg @
     '' carries a comment that is not an ownership marker of this format, so this boot cannot tell whose schema it is: remove the comment, or point instance '' @
     cf_instance cfg @ '' at a schema of its own'')) [])"

definition createSchemaPrivilege :: string where "createSchemaPrivilege = ''CREATE''"

definition claimSchemaPrivilege :: string where "claimSchemaPrivilege = ''OWNERSHIP''"

definition schemaRefusal :: "schema_config \<Rightarrow> go_error \<Rightarrow> string \<Rightarrow> go_error" where
  "schemaRefusal cfg e privilege =
     (case er_server e of
        None \<Rightarrow> finished e []
      | Some refusal \<Rightarrow>
          if sr_code refusal \<noteq> insufficientPrivilege then finished e []
          else finished (wrapping [] (privilegeMissing (cf_schema cfg) privilege)
                 ('' (the server said: '' @ sr_message refusal @ '')'')) [])"

text \<open>A statement that commits on its own: it takes effect, is refused, or is lost after it took effect.\<close>

definition committing :: "commit_result \<Rightarrow> (store \<Rightarrow> store) \<Rightarrow> store \<Rightarrow> store \<times> go_error option" where
  "committing r effect st =
     (case r of CommitOk \<Rightarrow> (effect st, None) | CommitRefused e \<Rightarrow> (st, Some e) | CommitUnknown e \<Rightarrow> (effect st, Some e))"

definition create_schema :: "string \<Rightarrow> store \<Rightarrow> store" where
  "create_schema schema st =
     (if schema \<in> fst ` set (so_schemas st) then st else st\<lparr>so_schemas := so_schemas st @ [(schema, None)]\<rparr>)"

definition comment_on_schema :: "string \<Rightarrow> string \<Rightarrow> store \<Rightarrow> store" where
  "comment_on_schema schema str st =
     st\<lparr>so_schemas := map (\<lambda>(name, c). if name = schema then (name, Some str) else (name, c)) (so_schemas st)\<rparr>"

definition claimAndCreateSchema :: "boot_server \<Rightarrow> schema_config \<Rightarrow> store \<Rightarrow> store \<times> go_error option" where
  "claimAndCreateSchema sv cfg st =
     (let (target, fault) = schemaObject (bo_sanitize sv) (cf_schema cfg) in
      if fault \<noteq> IdentifierOK
      then (st, Some (finished (errorf (''the configured schema '' @ bo_quoted sv (cf_schema cfg) @ '' '' @ fault_text fault)) []))
      else case bo_read sv of
        Some e \<Rightarrow> (st, Some (finished e []))
      | None \<Rightarrow>
          let reading = markerReadingOf schemaMarkerForm (schema_comment (cf_schema cfg) st) (cf_instance cfg) in
          case boot_ownershipRefusal cfg reading of
            Some refusal \<Rightarrow> (st, Some refusal)
          | None \<Rightarrow>
              (case committing (bo_create sv) (create_schema (cf_schema cfg)) st of
                 (st1, Some e) \<Rightarrow> (st1, Some (schemaRefusal cfg e createSchemaPrivilege))
               | (st1, None) \<Rightarrow>
                   if reading \<noteq> markerAbsent then (st1, None)
                   else (case committing (bo_mark sv)
                             (comment_on_schema (cf_schema cfg) (marker_text schemaMarkerForm (cf_instance cfg))) st1 of
                           (st2, Some e) \<Rightarrow> (st2, Some (schemaRefusal cfg e claimSchemaPrivilege))
                         | (st2, None) \<Rightarrow> (st2, None))))"

section \<open>Coverage\<close>

record coverageReading =
  cr_now :: instant
  cr_bounded :: "Range list"

definition readCoverage :: "server \<Rightarrow> schema_config \<Rightarrow> store \<Rightarrow> store \<times> (go_error + coverageReading)" where
  "readCoverage sv cfg st0 =
     (case boundedTx sv \<lparr>ds_operation = observingWork, ds_partition = []\<rparr>
             (\<lambda>st. and_then (dbNow sv) (\<lambda>now.
                   and_then (observePartitions sv (cf_schema cfg) st) (\<lambda>found.
                   Inr (st, \<lparr>cr_now = now, cr_bounded = op_Bounded found\<rparr>)))) st0 of
        (st, Inl e) \<Rightarrow> (st, Inl (finished (wrapping (observingWork @ '': '') e []) []))
      | (st, Inr seen) \<Rightarrow> (st, Inr seen))"

definition shortCoverageRefusal :: "schema_config \<Rightarrow> coverageReading \<Rightarrow> go_error option" where
  "shortCoverageRefusal cfg seen =
     (let short = CoverageShortfall (cr_bounded seen) (cr_now seen) (rt_Precreate (cf_retention cfg)) in
      if short \<le> 0 then None else Some (finished (coverageShort short (rt_Precreate (cf_retention cfg))) []))"

definition refuseShortCoverage :: "server \<Rightarrow> schema_config \<Rightarrow> store \<Rightarrow> store \<times> go_error option" where
  "refuseShortCoverage sv cfg st0 =
     (case readCoverage sv cfg st0 of
        (st, Inl e) \<Rightarrow> (st, Some (finished e []))
      | (st, Inr seen) \<Rightarrow> (st, shortCoverageRefusal cfg seen))"

section \<open>The sequence\<close>

definition fresh_stats :: MaintenanceStats where
  "fresh_stats = \<lparr>ms_failures = 0, ms_defaultPartitionBlocked = 0, ms_defaultPartitionRows = 0, ms_retentionBlockedByLiveEvents = 0\<rparr>"

definition underTheLock :: "boot_server \<Rightarrow> (string \<times> bytes option) list option \<Rightarrow> store mig_exec \<Rightarrow> schema_config \<Rightarrow>
  store mig_db \<Rightarrow> (store mig_db \<times> boot_error option) option"
where
  "underTheLock sv files exec cfg db =
     (case claimAndCreateSchema sv cfg (md_rest db) of
        (st, Some e) \<Rightarrow> Some (db\<lparr>md_rest := st\<rparr>, Some (BootRefused (finished e [])))
      | (st, None) \<Rightarrow>
          (case migrateEmbedded files (bo_sanitize sv) (bo_migrations sv) exec (cf_schema cfg) (db\<lparr>md_rest := st\<rparr>) of
             (db1, run, Some e) \<Rightarrow> Some (db1, Some (BootMigration e))
           | (db1, run, None) \<Rightarrow>
               (case Maintain (bo_passes sv) cfg (md_rest db1, fresh_stats) of
                  None \<Rightarrow> None
                | Some ((st2, stats), answer) \<Rightarrow>
                    (case refuseShortCoverage (bo_coverage sv) cfg st2 of
                       (st3, refusal) \<Rightarrow> Some (db1\<lparr>md_rest := st3\<rparr>, map_option BootRefused refusal)))))"

text \<open>\<open>None\<close> is the panic of the arithmetic on an interval of zero.\<close>

definition Bootstrap :: "boot_server \<Rightarrow> (string \<times> bytes option) list option \<Rightarrow> store mig_exec \<Rightarrow> schema_config \<Rightarrow>
  boot_state \<Rightarrow> (boot_state \<times> boot_error option) option"
where
  "Bootstrap sv files exec cfg s =
     (if claimsReservedSchemaPrefix (cf_schema cfg)
      then Some (s, Some (BootRefused (reservedSchemaName (bo_quoted sv) (cf_schema cfg))))
      else case unservableHorizonIn (cf_retention cfg) of
        None \<Rightarrow> None
      | Some (Some unservable) \<Rightarrow> Some (s, Some (BootRefused (finished (unservable_error unservable) [])))
      | Some None \<Rightarrow>
          (case bo_acquire sv of
             Some e \<Rightarrow> Some (s, Some (BootRefused (finished e [])))
           | None \<Rightarrow>
               (case bo_lock sv of
                  Some e \<Rightarrow> Some (s, Some (BootRefused (finished e [])))
                | None \<Rightarrow>
                    let key = lockKey (cf_schema cfg) (cf_instance cfg) in
                    (case underTheLock sv files exec cfg (bo_before sv (bt_db s)) of
                       None \<Rightarrow> None
                     | Some (db, e) \<Rightarrow>
                         (case bo_unlock sv of
                            None \<Rightarrow> Some (\<lparr>bt_db = db, bt_locks = bt_locks s\<rparr>, e)
                          | Some lost \<Rightarrow>
                              Some (\<lparr>bt_db = db, bt_locks = key # bt_locks s\<rparr>,
                                    if e = None then Some (BootRefused (finished lost [])) else e))))))"

section \<open>Privileges\<close>

definition grantPrincipals :: "sanitizer \<Rightarrow> string \<Rightarrow> string \<Rightarrow> (string \<times> string) option" where
  "grantPrincipals sanitize schema role =
     (if claimsReservedSchemaPrefix schema then None
      else let (quotedSchema, fault) = Quoted sanitize schema in
        if fault \<noteq> IdentifierOK then None
        else let (quotedRole, roleFault) = Quoted sanitize role in
          if roleFault \<noteq> IdentifierOK then None else Some (quotedSchema, quotedRole))"

fun Compact :: "'a list \<Rightarrow> 'a list" where
  "Compact (x # y # xs) = (if x = y then Compact (y # xs) else x # Compact (y # xs))"
| "Compact xs = xs"

definition grant_target :: "sanitizer \<Rightarrow> string \<Rightarrow> string option" where
  "grant_target sanitize target =
     (case Cut target ''.'' of
        None \<Rightarrow> None
      | Some (schema, table) \<Rightarrow>
          if Contains table ''.'' then None
          else let (rendered, fault) = Qualified sanitize schema table in if fault \<noteq> IdentifierOK then None else Some rendered)"

fun all_of :: "('a \<Rightarrow> 'b option) \<Rightarrow> 'a list \<Rightarrow> 'b list option" where
  "all_of f [] = Some []"
| "all_of f (x # xs) = (case f x of None \<Rightarrow> None | Some y \<Rightarrow> map_option (\<lambda>ys. y # ys) (all_of f xs))"

definition grantTargets :: "sanitizer \<Rightarrow> string list \<Rightarrow> string list option" where
  "grantTargets sanitize targets = all_of (grant_target sanitize) (Compact (sort targets))"

definition GrantStatements :: "sanitizer \<Rightarrow> string \<Rightarrow> string \<Rightarrow> string list \<Rightarrow> string list" where
  "GrantStatements sanitize schema role targets =
     (case grantPrincipals sanitize schema role of
        None \<Rightarrow> []
      | Some (quotedSchema, quotedRole) \<Rightarrow>
          (case grantTargets sanitize targets of
             None \<Rightarrow> []
           | Some tables \<Rightarrow>
               [''ALTER SCHEMA '' @ quotedSchema @ '' OWNER TO '' @ quotedRole @ '';'',
                ''GRANT CREATE ON SCHEMA '' @ quotedSchema @ '' TO '' @ quotedRole @ '';'',
                ''GRANT USAGE ON SCHEMA '' @ quotedSchema @ '' TO '' @ quotedRole @ '';''] @
               map (\<lambda>table. ''GRANT TRIGGER ON TABLE '' @ table @ '' TO '' @ quotedRole @ '';'') tables))"

section \<open>Lock keys\<close>

lemma NUL_split:
  assumes "NUL \<notin> set a" "NUL \<notin> set b" "a @ NUL # x = b @ NUL # y"
  shows "a = b \<and> x = y"
  using assms by (auto simp: append_eq_append_conv2 Cons_eq_append_conv append_eq_Cons_conv)

text \<open>Two lock keys are hashed from the same bytes only for the same domain, schema and instance.\<close>

lemma lock_text_injective:
  assumes "NUL \<notin> set s" "NUL \<notin> set i" "NUL \<notin> set s'" "NUL \<notin> set i'" "lock_text d s i = lock_text d' s' i'"
  shows "d = d' \<and> s = s' \<and> i = i'"
proof -
  have r: "NUL \<notin> set ''reconcile''" by (simp add: NUL_def)
  have cross: False if "NUL \<notin> set a" "NUL \<notin> set b" "a @ NUL # b = ''reconcile'' @ NUL # x @ NUL # y" for a b x y
    using NUL_split [OF that(1) r that(3)] that(2) by simp
  show ?thesis
  proof (cases d)
    case bootstrapDomain
    then show ?thesis
      using assms NUL_split [of s s' i i'] cross [of s i s' i'] by (cases d') (simp_all add: lock_text_def)
  next
    case reconcileDomain
    then show ?thesis
      using assms NUL_split [of s s' i i'] cross [of s' i' s i, OF assms(3,4)] by (cases d') (simp_all add: lock_text_def)
  qed
qed

section \<open>What a boot leaves\<close>

lemma createOne_schemas: "createOne sv cfg ranged st = (st', r) \<Longrightarrow> sv_others sv st = st \<Longrightarrow> so_schemas st' = so_schemas st"
  unfolding createOne_def
  by (auto simp: Let_def go_err create_partition_def claimMarker_def refused_at_def comment_on_table_def
      split: prod.splits if_splits option.splits dest!: boundedTx_result)

lemma converge_schemas:
  assumes "quiet svs"
  shows "so_schemas (fst (converge svs cfg wanted acc)) = so_schemas (fst acc)"
  unfolding converge_def
proof (induction wanted arbitrary: acc)
  case (Cons ranged wanted)
  obtain st stats created refused where acc: "acc = (st, stats, created, refused)" by (cases acc) auto
  obtain st1 r where one: "createOne (svs (Creating (rg_Name ranged))) cfg ranged st = (st1, r)" by fastforce
  obtain st2 b where look: "pass_covers (svs (Checking (rg_Name ranged))) cfg ranged st1 = (st2, b)" by fastforce
  have "so_schemas st1 = so_schemas st" "st2 = st1"
    using createOne_schemas [OF one] covers_store [OF look] assms by (simp_all add: quiet_def)
  then have "so_schemas (fst (create_step svs cfg ranged acc)) = so_schemas (fst acc)"
    using one look by (cases r; cases b) (simp_all add: acc)
  then show ?case using Cons.IH [of "create_step svs cfg ranged acc"] by simp
qed simp

lemma Maintain_schemas:
  assumes "quiet svs" "Maintain svs cfg (st, stats) = Some ((st', stats'), answer)"
  shows "so_schemas st' = so_schemas st"
proof -
  obtain st1 res where obs: "observe (svs Observing) cfg st = (st1, res)" by fastforce
  have "st1 = st" using observe_store [OF obs] assms(1) by (simp add: quiet_def)
  then show ?thesis
    using assms(2) obs converge_schemas [OF assms(1), where cfg = cfg]
    by (auto simp: Maintain_def settle_pass_def split: option.splits sum.splits prod.splits) (metis fst_conv)+
qed

definition keeps_schemas :: "store mig_exec \<Rightarrow> migration list \<Rightarrow> bool" where
  "keeps_schemas exec corpus \<longleftrightarrow> (\<forall>m \<in> set corpus. \<forall>db db'. exec (mg_sql m) db = Some db' \<longrightarrow> so_schemas (md_rest db') = so_schemas (md_rest db))"

lemma run_all_schemas: "run_all exec ms db = Some db' \<Longrightarrow> keeps_schemas exec ms \<Longrightarrow> so_schemas (md_rest db') = so_schemas (md_rest db)"
proof (induction ms arbitrary: db)
  case (Cons m ms)
  then obtain d1 d2 where d: "exec (mg_sql m) db = Some d1" "ledger_insert m d1 = Some d2" "run_all exec ms d2 = Some db'"
    by (auto split: Option.bind_splits)
  have "so_schemas (md_rest d1) = so_schemas (md_rest db)" using Cons.prems(2) d(1) by (simp add: keeps_schemas_def)
  moreover have "md_rest d2 = md_rest d1" using d(2) by (auto simp: ledger_insert_def split: option.splits if_splits)
  ultimately show ?case using Cons.IH [OF d(3)] Cons.prems(2) by (simp add: keeps_schemas_def)
qed simp

lemma migrate_success:
  assumes "corpusFrom files = Inr corpus" "keeps_ledger exec corpus"
    and "migrateEmbedded files sanitize sv exec schemaName db = (db', run, None)"
  shows "recorded_in db' = map ledger_row corpus" "keeps_schemas exec corpus \<Longrightarrow> so_schemas (md_rest db') = so_schemas (md_rest db)"
proof -
  note cons = corpusFrom_consecutive [OF assms(1)]
  let ?pending = "drop (length (recorded_in db)) corpus"
  from assms(1,3) have good: "carried_forward corpus db" and pend: "apply_pending sv exec ?pending db \<lparr>mr_applied = [], mr_recorded = highestRecorded (recorded_in db)\<rparr> = (db', run, None)"
    by (auto simp: migrateEmbedded_def migrate_unfold [OF cons] split: if_splits)
  from apply_pending_result [OF pend] have run: "run_all exec ?pending db = Some db'" by (auto simp: ran_def)
  show "recorded_in db' = map ledger_row corpus" by (rule recorded_after [OF cons assms(2) good run])
  show "so_schemas (md_rest db') = so_schemas (md_rest db)" if "keeps_schemas exec corpus"
    by (rule run_all_schemas [OF run]) (use that in \<open>auto simp: keeps_schemas_def dest: in_set_dropD\<close>)
qed

lemma map_of_commented: "name \<in> fst ` set xs \<Longrightarrow> map_of (map (\<lambda>(n, c). if n = name then (n, Some str) else (n, c)) xs) name = Some (Some str)"
  by (induction xs) auto

lemma claim_success:
  assumes "claimAndCreateSchema sv cfg st = (st', None)"
  shows "schema_comment (cf_schema cfg) st' = Some (marker_text schemaMarkerForm (cf_instance cfg))"
proof -
  let ?schema = "cf_schema cfg" and ?marker = "marker_text schemaMarkerForm (cf_instance cfg)"
  let ?reading = "markerReadingOf schemaMarkerForm (schema_comment ?schema st) (cf_instance cfg)"
  from assms have free: "boot_ownershipRefusal cfg ?reading = None" and st': "(if ?reading \<noteq> markerAbsent then st' = create_schema ?schema st
      else st' = comment_on_schema ?schema ?marker (create_schema ?schema st))"
    by (auto simp: claimAndCreateSchema_def Let_def committing_def split: prod.splits if_splits option.splits commit_result.splits)
  show ?thesis
  proof (cases "?reading = markerAbsent")
    case True
    have "?schema \<in> fst ` set (so_schemas (create_schema ?schema st))" by (simp add: create_schema_def)
    with True st' show ?thesis by (simp add: comment_on_schema_def schema_comment_def map_of_commented)
  next
    case False
    with free obtain named where "?reading = markerOurs named" by (cases ?reading) auto
    then have "schema_comment ?schema st = Some ?marker" using ours_iff by blast
    moreover from this have "?schema \<in> fst ` set (so_schemas st)"
      by (auto simp: schema_comment_def Option.bind_eq_Some_conv dest!: map_of_SomeD intro: rev_image_eqI)
    ultimately show ?thesis using False st' by (simp add: create_schema_def)
  qed
qed

lemma claim_refused:
  assumes "schema_comment (cf_schema cfg) st = Some written" "written \<noteq> marker_text schemaMarkerForm (cf_instance cfg) \<or> cf_instance cfg = []"
  shows "\<exists>e. claimAndCreateSchema sv cfg st = (st, Some e)"
proof -
  let ?reading = "markerReadingOf schemaMarkerForm (Some written) (cf_instance cfg)"
  have "\<nexists>named. ?reading = markerOurs named" unfolding ours_iff using assms(2) by auto
  moreover have "?reading \<noteq> markerAbsent" by (auto simp: markerReadingOf_def split: option.splits)
  ultimately have "boot_ownershipRefusal cfg ?reading \<noteq> None" by (cases ?reading) auto
  with assms(1) show ?thesis by (auto simp: claimAndCreateSchema_def Let_def split: prod.splits option.splits)
qed

lemma coverage_reached:
  assumes "refuseShortCoverage sv cfg st = (st', None)" "sv_others sv st = st" "bounds_read_back sv" "plain_bounds (cf_schema cfg) st"
    and "sv_now sv \<le> t" "t < sv_now sv + rt_Precreate (cf_retention cfg)"
  shows "st' = st \<and> (\<exists>r \<in> set (so_relations st). child_of (cf_schema cfg) r \<and> holds_instant t r)"
proof -
  from assms(1,2) obtain found where found: "observePartitions sv (cf_schema cfg) st = Inr found" and same: "st' = st"
    and enough: "CoverageShortfall (op_Bounded found) (sv_now sv) (rt_Precreate (cf_retention cfg)) \<le> 0"
    by (auto simp: refuseShortCoverage_def readCoverage_def shortCoverageRefusal_def Let_def dbNow_def read_at_def go_err
        split: prod.splits sum.splits if_splits dest!: boundedTx_ok)
  from enough have "sv_now sv + rt_Precreate (cf_retention cfg) \<le> reach_over (sv_now sv) (sortedByStart (op_Bounded found))"
    by (auto simp: CoverageShortfall_def Let_def time_Sub_def max_int64_def min_int64_def split: if_splits)
  with reach_is_first_gap(2) [of "sv_now sv" t "op_Bounded found"] assms(5,6) obtain x where
    "x \<in> set (op_Bounded found)" "rg_From x \<le> t" "t < rg_To x" by (auto simp: covered_def)
  with observed_iff [OF assms(3) found, of x] assms(4) same show ?thesis
    by (fastforce simp: plain_bounds_def holds_instant_def in_range_def)
qed


lemma underTheLock_success:
  assumes corpus: "corpusFrom files = Inr corpus" and keeps: "keeps_ledger exec corpus" "keeps_schemas exec corpus"
    and calm: "quiet (bo_passes sv)" "\<And>st. sv_others (bo_coverage sv) st = st" "bounds_read_back (bo_coverage sv)"
    and run: "underTheLock sv files exec cfg db = Some (db', None)" and plain: "plain_bounds (cf_schema cfg) (md_rest db')"
  shows "recorded_in db' = map ledger_row corpus \<and>
    schema_comment (cf_schema cfg) (md_rest db') = Some (marker_text schemaMarkerForm (cf_instance cfg)) \<and>
    (\<forall>t. sv_now (bo_coverage sv) \<le> t \<longrightarrow> t < sv_now (bo_coverage sv) + rt_Precreate (cf_retention cfg) \<longrightarrow>
       (\<exists>r \<in> set (so_relations (md_rest db')). child_of (cf_schema cfg) r \<and> holds_instant t r))"
proof -
  from run obtain st db1 mrun st2 stats answer st3 where
    claim: "claimAndCreateSchema sv cfg (md_rest db) = (st, None)"
    and mig: "migrateEmbedded files (bo_sanitize sv) (bo_migrations sv) exec (cf_schema cfg) (db\<lparr>md_rest := st\<rparr>) = (db1, mrun, None)"
    and pass: "Maintain (bo_passes sv) cfg (md_rest db1, fresh_stats) = Some ((st2, stats), answer)"
    and cover: "refuseShortCoverage (bo_coverage sv) cfg st2 = (st3, None)" and db': "db' = db1\<lparr>md_rest := st3\<rparr>"
    unfolding underTheLock_def by (auto split: prod.splits option.splits)
  have st3: "st3 = st2"
    using cover calm(2) by (auto simp: refuseShortCoverage_def readCoverage_def go_err split: prod.splits sum.splits dest!: boundedTx_ok)
  have "recorded_in db' = map ledger_row corpus"
    using migrate_success(1) [OF corpus keeps(1) mig] by (simp add: db' recorded_in_def ledger_rows_def)
  moreover have "so_schemas (md_rest db') = so_schemas st"
    using Maintain_schemas [OF calm(1) pass] migrate_success(2) [OF corpus keeps(1) mig keeps(2)] by (simp add: db' st3)
  then have "schema_comment (cf_schema cfg) (md_rest db') = Some (marker_text schemaMarkerForm (cf_instance cfg))"
    using claim_success [OF claim] by (simp add: schema_comment_def)
  ultimately show ?thesis
    using coverage_reached [OF cover calm(2,3)] plain by (auto simp: db' st3)
qed

text \<open>C38. A boot that reports success leaves the schema complete: the ledger is the embedded corpus, the schema is marked as this
  instance's, every instant up to the pre-creation horizon has a partition of its own, and the advisory lock is given back. A
  boot that meets a schema with another comment, another instance's marker among them, refuses and changes nothing; the
  lock is given back whenever the unlock was answered.\<close>

theorem bootstrap_is_complete_or_refused:
  assumes "corpusFrom files = Inr corpus" "keeps_ledger exec corpus" "keeps_schemas exec corpus"
    and "quiet (bo_passes sv)" "\<And>st. sv_others (bo_coverage sv) st = st" "bounds_read_back (bo_coverage sv)"
    and boot: "Bootstrap sv files exec cfg s = Some (s', err)"
  shows "(err = None \<and> plain_bounds (cf_schema cfg) (md_rest (bt_db s')) \<longrightarrow>
      recorded_in (bt_db s') = map ledger_row corpus \<and>
      schema_comment (cf_schema cfg) (md_rest (bt_db s')) = Some (marker_text schemaMarkerForm (cf_instance cfg)) \<and>
      (\<forall>t. sv_now (bo_coverage sv) \<le> t \<longrightarrow> t < sv_now (bo_coverage sv) + rt_Precreate (cf_retention cfg) \<longrightarrow>
         (\<exists>r \<in> set (so_relations (md_rest (bt_db s'))). child_of (cf_schema cfg) r \<and> holds_instant t r))) \<and>
    (\<forall>written. schema_comment (cf_schema cfg) (md_rest (bo_before sv (bt_db s))) = Some written \<longrightarrow>
      written \<noteq> marker_text schemaMarkerForm (cf_instance cfg) \<longrightarrow>
      err \<noteq> None \<and> (bt_db s' = bt_db s \<or> bt_db s' = bo_before sv (bt_db s))) \<and>
    (bo_unlock sv = None \<or> err = None \<longrightarrow> bt_locks s' = bt_locks s)"
proof (intro conjI impI allI; (elim conjE)?)
  show "bt_locks s' = bt_locks s" if "bo_unlock sv = None \<or> err = None"
    using boot that by (auto simp: Bootstrap_def Let_def split: if_splits option.splits prod.splits)
next
  fix written assume w: "schema_comment (cf_schema cfg) (md_rest (bo_before sv (bt_db s))) = Some written"
    "written \<noteq> marker_text schemaMarkerForm (cf_instance cfg)"
  from claim_refused [OF w(1), of sv] w(2) obtain e where
    claim: "claimAndCreateSchema sv cfg (md_rest (bo_before sv (bt_db s))) = (md_rest (bo_before sv (bt_db s)), Some e)" by blast
  have locked: "underTheLock sv files exec cfg (bo_before sv (bt_db s)) = Some (bo_before sv (bt_db s), Some (BootRefused (finished e [])))"
    by (simp add: underTheLock_def claim)
  show "err \<noteq> None" "bt_db s' = bt_db s \<or> bt_db s' = bo_before sv (bt_db s)"
    using boot locked by (auto simp: Bootstrap_def Let_def split: if_splits option.splits)
next
  assume ok: "err = None" "plain_bounds (cf_schema cfg) (md_rest (bt_db s'))"
  from boot ok(1) have "underTheLock sv files exec cfg (bo_before sv (bt_db s)) = Some (bt_db s', None)"
    by (auto simp: Bootstrap_def Let_def split: if_splits option.splits prod.splits)
  from underTheLock_success [OF assms(1-6) this ok(2)]
  show "recorded_in (bt_db s') = map ledger_row corpus"
    "schema_comment (cf_schema cfg) (md_rest (bt_db s')) = Some (marker_text schemaMarkerForm (cf_instance cfg))"
    "\<And>t. sv_now (bo_coverage sv) \<le> t \<Longrightarrow> t < sv_now (bo_coverage sv) + rt_Precreate (cf_retention cfg) \<Longrightarrow>
       \<exists>r \<in> set (so_relations (md_rest (bt_db s'))). child_of (cf_schema cfg) r \<and> holds_instant t r" by blast+
qed


definition quiet_boot :: boot_server where
  "quiet_boot = \<lparr>bo_quoted = (\<lambda>s. s), bo_sanitize = (\<lambda>_. []), bo_acquire = None, bo_lock = None, bo_unlock = None,
     bo_before = (\<lambda>db. db), bo_read = None, bo_create = CommitOk, bo_mark = CommitOk, bo_migrations = sample_mig_server,
     bo_passes = (\<lambda>_. calm_server), bo_coverage = calm_server\<rparr>"

definition ledger_exec :: "store mig_exec" where
  "ledger_exec sql db = Some (db\<lparr>md_ledger := Some (ledger_rows db)\<rparr>)"

definition foreign_boot :: boot_state where
  "foreign_boot = \<lparr>bt_db = \<lparr>md_ledger = None, md_rest = sample_store\<lparr>so_schemas := [(''noty'', Some ''pg_noty:v1:b'')]\<rparr>\<rparr>, bt_locks = []\<rparr>"

theorem bootstrap_is_complete_or_refused_witness:
  "\<exists>s' err. Bootstrap quiet_boot sample_files ledger_exec sample_schema_config foreign_boot = Some (s', err) \<and> err \<noteq> None \<and>
     bt_db s' = bt_db foreign_boot \<and> bt_locks s' = []"
proof -
  obtain corpus where corpus: "corpusFrom sample_files = Inr corpus" using sample_corpus by blast
  have keeps: "keeps_ledger ledger_exec corpus" "keeps_schemas ledger_exec corpus"
    by (auto simp: keeps_ledger_def keeps_schemas_def ledger_exec_def ledger_rows_def split: option.splits)
  have foreign: "schema_comment (cf_schema sample_schema_config) (md_rest (bo_before quiet_boot (bt_db foreign_boot))) = Some ''pg_noty:v1:b''"
    by (simp add: schema_comment_def sample_schema_config_def quiet_boot_def foreign_boot_def)
  have other: "''pg_noty:v1:b'' \<noteq> marker_text schemaMarkerForm (cf_instance sample_schema_config)"
    by (simp add: marker_text_def marker_prefix_def schemaMarkerForm_def sample_schema_config_def)
  have db: "bo_before quiet_boot (bt_db foreign_boot) = bt_db foreign_boot" by (simp add: quiet_boot_def)
  from claim_refused [OF foreign] other obtain e where
    "claimAndCreateSchema quiet_boot sample_schema_config (md_rest (bt_db foreign_boot)) = (md_rest (bt_db foreign_boot), Some e)"
    unfolding db by blast
  then have "underTheLock quiet_boot sample_files ledger_exec sample_schema_config (bt_db foreign_boot) =
      Some (bt_db foreign_boot, Some (BootRefused (finished e [])))"
    by (simp add: underTheLock_def)
  moreover have "unservableHorizonIn (cf_retention sample_schema_config) = Some None"
    by (simp add: sample_schema_config_def unservableHorizonIn_def horizonPartitionCount_def storedInstantGranularity_def
        relationIdentifiersOneDatabaseHolds_def Let_def go_int max_int64_def)
  moreover have "\<not> claimsReservedSchemaPrefix (cf_schema sample_schema_config)"
    by (simp add: claimsReservedSchemaPrefix_def sample_schema_config_def lower_ascii_def)
  ultimately obtain s' err where boot: "Bootstrap quiet_boot sample_files ledger_exec sample_schema_config foreign_boot = Some (s', err)"
    using db by (simp add: Bootstrap_def Let_def quiet_boot_def)
  have "quiet (bo_passes quiet_boot)" "bo_coverage quiet_boot = calm_server" "bo_unlock quiet_boot = None"
    by (simp_all add: quiet_def quiet_boot_def)
  with bootstrap_is_complete_or_refused [OF corpus keeps _ _ _ boot] foreign other sample_reads_back boot db show ?thesis
    by (auto simp: foreign_boot_def)
qed

text \<open>A boot that fails late is not undone: with the claim refused, the schema it created stays.\<close>

lemma failed_claim_leaves_the_schema:
  assumes "bo_read sv = None" "bo_create sv = CommitOk" "bo_mark sv = CommitRefused e" "snd (schemaObject (bo_sanitize sv) (cf_schema cfg)) = IdentifierOK"
    and "cf_schema cfg \<notin> fst ` set (so_schemas st)"
  shows "claimAndCreateSchema sv cfg st = (st\<lparr>so_schemas := so_schemas st @ [(cf_schema cfg, None)]\<rparr>, Some (schemaRefusal cfg e claimSchemaPrivilege))"
proof -
  have "schema_comment (cf_schema cfg) st = None"
    using assms(5) by (simp add: schema_comment_def map_of_eq_None_iff [THEN iffD2])
  then show ?thesis
    using assms by (cases "schemaObject (bo_sanitize sv) (cf_schema cfg)")
      (simp add: claimAndCreateSchema_def Let_def committing_def create_schema_def markerReadingOf_def)
qed

section \<open>The privilege set\<close>

lemma all_of_Some: "all_of f xs = Some ys \<longleftrightarrow> map f xs = map Some ys"
  by (induction xs arbitrary: ys) (auto split: option.splits simp: Cons_eq_map_conv)

lemma set_Compact [simp]: "set (Compact xs) = set xs"
  by (induction xs rule: Compact.induct) auto

lemma distinct_Compact: "sorted xs \<Longrightarrow> distinct (Compact xs)"
proof (induction xs rule: Compact.induct)
  case (1 x y xs)
  show ?case
  proof (cases "x = y")
    case False
    with "1.prems" have "x \<notin> set (y # xs)" by (auto simp: order.strict_iff_order dest: order.antisym)
    then show ?thesis using 1 False by simp
  qed (use 1 in simp)
qed simp_all

lemma sorted_Compact: "sorted xs \<Longrightarrow> sorted (Compact xs)"
  by (induction xs rule: Compact.induct) auto

text \<open>The privilege set is all or nothing, one grant per distinct target, and does not depend on the order or the repetition of the
  configured targets.\<close>

lemma grants_depend_on_the_set:
  assumes "set targets = set targets'"
  shows "GrantStatements sanitize schema role targets = GrantStatements sanitize schema role targets'"
proof -
  have "Compact (sort xs) = sorted_list_of_set (set xs)" for xs :: "string list"
    by (rule sorted_distinct_set_unique) (auto simp: distinct_Compact intro: sorted_Compact)
  then have eq: "grantTargets sanitize targets = grantTargets sanitize targets'" using assms by (simp add: grantTargets_def)
  show ?thesis unfolding GrantStatements_def eq ..
qed

lemma grants_complete_or_none:
  "GrantStatements sanitize schema role targets = [] \<or>
    (\<forall>target \<in> set targets. \<exists>table quotedRole. grant_target sanitize target = Some table \<and> Quoted sanitize role = (quotedRole, IdentifierOK) \<and>
       ''GRANT TRIGGER ON TABLE '' @ table @ '' TO '' @ quotedRole @ '';'' \<in> set (GrantStatements sanitize schema role targets))"
proof (cases "grantPrincipals sanitize schema role")
  case (Some p)
  then obtain qs qr where p: "p = (qs, qr)" "Quoted sanitize role = (qr, IdentifierOK)"
    by (cases p) (auto simp: grantPrincipals_def Let_def split: if_splits prod.splits)
  show ?thesis
  proof (cases "grantTargets sanitize targets")
    case (Some tables)
    then have eq: "map (grant_target sanitize) (Compact (sort targets)) = map Some tables" by (simp add: grantTargets_def all_of_Some)
    have "\<exists>table \<in> set tables. grant_target sanitize target = Some table" if "target \<in> set targets" for target
    proof -
      have "grant_target sanitize target \<in> set (map (grant_target sanitize) (Compact (sort targets)))" using that by simp
      then show ?thesis unfolding eq by auto
    qed
    then show ?thesis using Some \<open>grantPrincipals sanitize schema role = Some p\<close> p by (fastforce simp: GrantStatements_def)
  qed (simp add: GrantStatements_def Some p)
qed (simp add: GrantStatements_def)

end
