(* ===== verification/Suggest.thy ===== *)
theory Suggest
  imports Storable_Text
begin

text \<open>
  The did-you-mean rule of the configuration loader, \<open>config/suggest.go\<close>: the edit distance of two names, computed in one
  row by rune, and the declared name closest to a written one. The reference is the least number of single-rune edits.
\<close>

section \<open>The code\<close>

text \<open>The conversion \<open>[]rune(s)\<close>: one rune per decoded sequence, \<open>RuneError\<close> for a byte that starts none.\<close>

function runes_of :: "string \<Rightarrow> nat list" where
  "runes_of s = (if s = [] then [] else fst (DecodeRune s) # runes_of (drop (max (snd (DecodeRune s)) 1) s))"
  by pat_completeness auto
termination
  by (relation "measure length") auto

declare runes_of.simps [simp del]

text \<open>One pass over the row: \<open>diagonal\<close> and \<open>left\<close> are the old and the new entry before the current column.\<close>

fun row_pass :: "'a \<Rightarrow> nat \<Rightarrow> nat \<Rightarrow> nat list \<Rightarrow> 'a list \<Rightarrow> nat list" where
  "row_pass c diagonal left (up # row) (t # ts) =
     (let substitution = (if c \<noteq> t then diagonal + 1 else diagonal);
          entry = min (up + 1) (min (left + 1) substitution)
      in entry # row_pass c up entry row ts)"
| "row_pass c diagonal left row ts = []"

fun rows :: "nat \<Rightarrow> 'a list \<Rightarrow> 'a list \<Rightarrow> nat list \<Rightarrow> nat list" where
  "rows i [] to row = row"
| "rows i (c # from) to row = rows (i + 1) from to (i # row_pass c (hd row) i (tl row) to)"

definition edit_row :: "'a list \<Rightarrow> 'a list \<Rightarrow> nat" where
  "edit_row from to = rows 1 from to [0..<length to + 1] ! length to"

definition editDistance :: "string \<Rightarrow> string \<Rightarrow> nat" where
  "editDistance a b = edit_row (runes_of a) (runes_of b)"

definition suggestionThreshold :: nat where
  "suggestionThreshold = 2"

definition closer :: "string \<Rightarrow> string \<times> nat \<Rightarrow> string \<Rightarrow> string \<times> nat" where
  "closer written best candidate =
     (let distance = editDistance written candidate in
      if distance < snd best \<or> distance = snd best \<and> candidate < fst best then (candidate, distance) else best)"

definition closestName :: "string \<Rightarrow> string list \<Rightarrow> string \<times> bool" where
  "closestName written candidates =
     (let best = foldl (closer written) ([], suggestionThreshold + 1) candidates
      in (fst best, snd best \<le> suggestionThreshold))"

section \<open>The reference\<close>

inductive edit1 :: "'a list \<Rightarrow> 'a list \<Rightarrow> bool" where
  edit_insert: "edit1 ys (z # ys)"
| edit_delete: "edit1 (y # ys) ys"
| edit_change: "edit1 (y # ys) (z # ys)"
| edit_later: "edit1 ys zs \<Longrightarrow> edit1 (y # ys) (y # zs)"

text \<open>The distance by recursion on both lists.\<close>

fun lev :: "'a list \<Rightarrow> 'a list \<Rightarrow> nat" where
  "lev [] ys = length ys"
| "lev xs [] = length xs"
| "lev (x # xs) (y # ys) = min (lev xs (y # ys) + 1) (min (lev (x # xs) ys + 1) (lev xs ys + (if x = y then 0 else 1)))"

section \<open>The recursion counts edits\<close>

lemma lev_Nil [simp]: "lev xs [] = length xs"
  by (cases xs) simp_all

lemma lev_insert: "lev xs (y # ys) \<le> lev xs ys + 1"
  by (cases xs) simp_all

lemma lev_Cons: "lev (x # xs) ys \<le> lev xs ys + 1"
  by (cases ys) simp_all

lemma lev_delete: "lev xs ys \<le> lev xs (y # ys) + 1"
proof (induction xs)
  case (Cons x xs)
  then show ?case using lev_Cons [of x xs ys] by auto
qed simp

lemma lev_change: "lev xs (z # ys) \<le> lev xs (y # ys) + 1"
proof (induction xs)
  case (Cons x xs)
  then show ?case by auto
qed simp

lemma lev_edit: "edit1 ys zs \<Longrightarrow> lev xs zs \<le> lev xs ys + 1"
proof (induction arbitrary: xs rule: edit1.induct)
  case (edit_later ys zs y)
  note later = edit_later.IH
  show ?case
  proof (induction xs)
    case Nil
    then show ?case using later [of "[]"] by simp
  next
    case (Cons x xs)
    then show ?case using later [of "x # xs"] later [of xs] by auto
  qed
qed (rule lev_insert lev_delete lev_change)+

lemma lev_refl [simp]: "lev xs xs = 0"
  by (induction xs) simp_all

lemma lev_least: "(edit1 ^^ n) xs ys \<Longrightarrow> lev xs ys \<le> n"
proof (induction n arbitrary: ys)
  case (Suc n)
  then obtain zs where "(edit1 ^^ n) xs zs" "edit1 zs ys" by auto
  with Suc.IH lev_edit [of zs ys xs] show ?case by fastforce
qed simp

lemma edits_later: "(edit1 ^^ n) xs ys \<Longrightarrow> (edit1 ^^ n) (z # xs) (z # ys)"
  by (induction n arbitrary: ys) (auto intro: edit_later relcomppI)

lemma edits_first: "edit1 xs ys \<Longrightarrow> (edit1 ^^ n) ys zs \<Longrightarrow> (edit1 ^^ Suc n) xs zs"
  by (rule relpowp_Suc_I2)

lemma lev_reached: "(edit1 ^^ lev xs ys) xs ys"
proof (induction xs ys rule: lev.induct)
  case (1 ys)
  then show ?case
  proof (induction ys)
    case (Cons y ys)
    then show ?case using relpowp_Suc_I [OF Cons.IH edit_insert] by simp
  qed simp
next
  case (2 x xs)
  have "(edit1 ^^ length zs) zs []" for zs :: "'a list"
  proof (induction zs)
    case (Cons z zs)
    then show ?case using edits_first [OF edit_delete Cons.IH] by simp
  qed simp
  from this [of "x # xs"] show ?case unfolding lev.simps(2) .
next
  case (3 x xs y ys)
  consider "lev (x # xs) (y # ys) = lev xs (y # ys) + 1" | "lev (x # xs) (y # ys) = lev (x # xs) ys + 1"
    | "lev (x # xs) (y # ys) = lev xs ys + (if x = y then 0 else 1)" by fastforce
  then show ?case
  proof cases
    case 1
    then show ?thesis using edits_first [OF edit_delete "3.IH"(1)] by simp
  next
    case 2
    then show ?thesis using relpowp_Suc_I [OF "3.IH"(2) edit_insert] by simp
  next
    case 3
    show ?thesis
    proof (cases "x = y")
      case True
      then show ?thesis using 3 edits_later [OF "3.IH"(3)] by simp
    next
      case False
      then show ?thesis using 3 edits_first [OF edit_change edits_later [OF "3.IH"(3)]] by simp
    qed
  qed
qed

lemma lev_eqI: "(edit1 ^^ n) xs ys \<Longrightarrow> (\<And>m. (edit1 ^^ m) xs ys \<Longrightarrow> n \<le> m) \<Longrightarrow> lev xs ys = n"
  using lev_least lev_reached by (metis le_antisym)

lemma edit1_append: "edit1 xs ys \<Longrightarrow> edit1 (zs @ xs) (zs @ ys)"
  by (induction zs) (auto intro: edit_later)

lemma edit1_context: "edit1 xs ys \<Longrightarrow> edit1 (xs @ zs) (ys @ zs)"
  by (induction rule: edit1.induct) (auto intro: edit1.intros)

lemma edit1_rev: "edit1 xs ys \<Longrightarrow> edit1 (rev xs) (rev ys)"
proof (induction rule: edit1.induct)
  case (edit_insert ys z)
  then show ?case using edit1_append [OF edit1.edit_insert [of "[]" z], of "rev ys"] by simp
next
  case (edit_delete y ys)
  then show ?case using edit1_append [OF edit1.edit_delete [of y "[]"], of "rev ys"] by simp
next
  case (edit_change y ys z)
  then show ?case using edit1_append [OF edit1.edit_change [of y "[]" z], of "rev ys"] by simp
next
  case (edit_later ys zs y)
  then show ?case using edit1_context by simp
qed

lemma edits_rev: "(edit1 ^^ n) xs ys \<Longrightarrow> (edit1 ^^ n) (rev xs) (rev ys)"
proof (induction n arbitrary: ys)
  case (Suc n)
  then show ?case by (metis edit1_rev relpowp_Suc_E relpowp_Suc_I)
qed simp

lemma lev_rev: "lev (rev xs) (rev ys) = lev xs ys"
  using lev_reached [of xs ys] lev_reached [of "rev xs" "rev ys"] lev_least edits_rev
  by (metis le_antisym rev_rev_ident)

section \<open>One row computes the recursion\<close>

text \<open>The entries of the row are the distances to the prefixes of the second list.\<close>

definition lev_prefix :: "'a list \<Rightarrow> 'a list \<Rightarrow> 'a list \<Rightarrow> nat" where
  "lev_prefix from past to = lev (rev from) (rev (past @ to))"

lemma lev_snoc: "lev (rev (from @ [c])) (rev (past @ [t])) =
    min (lev (rev from) (rev (past @ [t])) + 1)
      (min (lev (rev (from @ [c])) (rev past) + 1) (lev (rev from) (rev past) + (if c = t then 0 else 1)))"
  by simp

lemma row_pass_exact:
  "row_pass c (lev (rev from) (rev past)) (lev (rev (from @ [c])) (rev past))
     (map (\<lambda>j. lev (rev from) (rev (past @ take (Suc j) to))) [0..<length to]) to =
   map (\<lambda>j. lev (rev (from @ [c])) (rev (past @ take (Suc j) to))) [0..<length to]"
proof (induction to arbitrary: past)
  case (Cons t ts)
  have shift: "map f [0..<length (t # ts)] = f 0 # map (\<lambda>j. f (Suc j)) [0..<length ts]" for f :: "nat \<Rightarrow> nat"
    by (simp add: upt_conv_Cons map_Suc_upt [symmetric] del: upt_Suc)
  have entry: "min (lev (rev from) (rev (past @ [t])) + 1) (min (lev (rev (from @ [c])) (rev past) + 1)
      (if c \<noteq> t then lev (rev from) (rev past) + 1 else lev (rev from) (rev past))) = lev (rev (from @ [c])) (rev (past @ [t]))"
    unfolding lev_snoc by simp
  show ?case
    unfolding shift row_pass.simps Let_def using Cons.IH [of "past @ [t]"] entry by simp
qed simp

definition prefix_row :: "'a list \<Rightarrow> 'a list \<Rightarrow> nat list" where
  "prefix_row from to = map (\<lambda>j. lev (rev from) (rev (take j to))) [0..<length to + 1]"

lemma prefix_row_Cons: "prefix_row from to = length from # map (\<lambda>j. lev (rev from) (rev (take (Suc j) to))) [0..<length to]"
  by (simp add: prefix_row_def upt_conv_Cons map_Suc_upt [symmetric] del: upt_Suc)

lemma rows_exact: "rows (length past + 1) from to (prefix_row past to) = prefix_row (past @ from) to"
proof (induction "from" arbitrary: past)
  case (Cons c "from")
  have "(length past + 1) # row_pass c (hd (prefix_row past to)) (length past + 1) (tl (prefix_row past to)) to = prefix_row (past @ [c]) to"
    using row_pass_exact [of c past "[]" to] unfolding prefix_row_Cons by simp
  then show ?case using Cons.IH [of "past @ [c]"] by simp
qed simp

lemma edit_row_exact: "edit_row xs ys = lev xs ys"
proof -
  have "prefix_row [] ys = [0..<length ys + 1]"
    unfolding prefix_row_def by (rule nth_equalityI) (auto simp del: upt_Suc)
  with rows_exact [of "[]" xs ys] have "rows 1 xs ys [0..<length ys + 1] = prefix_row xs ys" by simp
  then show ?thesis by (simp add: edit_row_def prefix_row_def lev_rev del: upt_Suc)
qed

section \<open>Properties\<close>

lemma closest_fold:
  "foldl (closer w) ([], 3) cs = ([], 3) \<and> (\<forall>d \<in> set cs. 3 \<le> editDistance w d) \<or>
   (\<exists>c \<in> set cs. foldl (closer w) ([], 3) cs = (c, editDistance w c) \<and> editDistance w c < 3 \<and>
     (\<forall>d \<in> set cs. editDistance w c < editDistance w d \<or> editDistance w c = editDistance w d \<and> c \<le> d))"
proof (induction cs rule: rev_induct)
  case (snoc d cs)
  from snoc.IH show ?case
  proof (elim disjE bexE conjE)
    assume best: "foldl (closer w) ([], 3) cs = ([], 3)" and far: "\<forall>d \<in> set cs. 3 \<le> editDistance w d"
    have "foldl (closer w) ([], 3) (cs @ [d]) = (if editDistance w d < 3 then (d, editDistance w d) else ([], 3))"
      by (simp add: best) (simp add: closer_def Let_def)
    with far show ?thesis by (cases "editDistance w d < 3") auto
  next
    fix c assume c: "c \<in> set cs" "foldl (closer w) ([], 3) cs = (c, editDistance w c)" "editDistance w c < 3"
      and least: "\<forall>d \<in> set cs. editDistance w c < editDistance w d \<or> editDistance w c = editDistance w d \<and> c \<le> d"
    let ?nearer = "editDistance w d < editDistance w c \<or> editDistance w d = editDistance w c \<and> d < c"
    have step: "foldl (closer w) ([], 3) (cs @ [d]) = (if ?nearer then (d, editDistance w d) else (c, editDistance w c))"
      by (simp add: c(2)) (simp add: closer_def Let_def)
    show ?thesis
    proof (cases ?nearer)
      case True
      with step c least show ?thesis by (intro disjI2 bexI [of _ d]) auto
    next
      case False
      with step c least show ?thesis by (intro disjI2 bexI [of _ c]) auto
    qed
  qed
qed simp

text \<open>The did-you-mean rule is exact: the one-row computation is the least number of single-rune insertions, deletions and
  changes that turn one name into the other, a suggestion is made exactly when a candidate is at most two such edits away, and the
  candidate suggested is the closest, the first in byte order among equals, whatever order the candidates come in.\<close>

theorem suggestion_is_the_closest:
  "(edit1 ^^ editDistance a b) (runes_of a) (runes_of b) \<and>
   (\<forall>n. (edit1 ^^ n) (runes_of a) (runes_of b) \<longrightarrow> editDistance a b \<le> n) \<and>
   (closestName w cs = (c, found) \<longrightarrow>
     (found \<longleftrightarrow> (\<exists>d \<in> set cs. editDistance w d \<le> 2)) \<and>
     (found \<longrightarrow> c \<in> set cs \<and> (\<forall>d \<in> set cs. editDistance w c < editDistance w d \<or> editDistance w c = editDistance w d \<and> c \<le> d)))"
proof (intro conjI impI)
  show "(edit1 ^^ editDistance a b) (runes_of a) (runes_of b)" by (simp add: editDistance_def edit_row_exact lev_reached)
  show "\<forall>n. (edit1 ^^ n) (runes_of a) (runes_of b) \<longrightarrow> editDistance a b \<le> n" by (simp add: editDistance_def edit_row_exact lev_least)
  assume "closestName w cs = (c, found)"
  then have c: "c = fst (foldl (closer w) ([], 3) cs)" and found: "found \<longleftrightarrow> snd (foldl (closer w) ([], 3) cs) \<le> 2"
    by (simp_all add: closestName_def suggestionThreshold_def Let_def)
  from closest_fold [of w cs] show "found \<longleftrightarrow> (\<exists>d \<in> set cs. editDistance w d \<le> 2)"
    unfolding found by (auto simp: less_Suc_eq_le [symmetric] numeral_3_eq_3 numeral_2_eq_2 intro: bexI)
  from closest_fold [of w cs] found c
  show "c \<in> set cs" "\<forall>d \<in> set cs. editDistance w c < editDistance w d \<or> editDistance w c = editDistance w d \<and> c \<le> d" if found
    using that by auto
qed

theorem suggestion_is_the_closest_witness:
  "closestName ''tabel'' [''name'', ''table''] = (''table'', True)"
proof -
  have d: "editDistance ''tabel'' ''name'' = 3" "editDistance ''tabel'' ''table'' = 2" by code_simp+
  obtain c found where r: "closestName ''tabel'' [''name'', ''table''] = (c, found)" by (cases "closestName ''tabel'' [''name'', ''table'']")
  from suggestion_is_the_closest [of "[]" "[]" "''tabel''" "[''name'', ''table'']" c found] r d show ?thesis by auto
qed

end
