(* ===== verification/Diagnostics.thy ===== *)
theory Diagnostics
  imports Prelude "HOL-Library.Product_Lexorder"
begin

text \<open>
  The diagnostics of the configuration loader and the order they are reported in: \<open>config/diag.go\<close> and
  \<open>config/diagorder.go\<close>. Go iterates a map in any order, so the order in which the kept diagnostics come out of the map is a
  parameter, and so is the input's; the property is that neither is seen.
\<close>

section \<open>Diagnostics\<close>

type_synonym RuleID = string

record Diagnostic =
  dg_Rule :: RuleID
  dg_File :: string
  dg_Line :: int
  dg_Col :: int
  dg_Path :: string
  dg_Msg :: string
  dg_Hint :: string

record Positioned =
  ps_File :: string
  ps_Line :: int
  ps_Col :: int
  ps_Path :: string

definition yamlPathRoot :: string where
  "yamlPathRoot = ''$''"

definition diagnosticPath :: "string \<Rightarrow> string" where
  "diagnosticPath path = (if path = [] then yamlPathRoot else path)"

definition NewError :: "RuleID \<Rightarrow> Positioned \<Rightarrow> string \<Rightarrow> Diagnostic" where
  "NewError rule at msg = \<lparr>dg_Rule = rule, dg_File = ps_File at, dg_Line = ps_Line at, dg_Col = ps_Col at,
     dg_Path = diagnosticPath (ps_Path at), dg_Msg = msg, dg_Hint = []\<rparr>"

definition NewFileError :: "RuleID \<Rightarrow> string \<Rightarrow> string \<Rightarrow> Diagnostic" where
  "NewFileError rule file msg = \<lparr>dg_Rule = rule, dg_File = file, dg_Line = 0, dg_Col = 0, dg_Path = yamlPathRoot, dg_Msg = msg, dg_Hint = []\<rparr>"

definition WithHint :: "string \<Rightarrow> Diagnostic \<Rightarrow> Diagnostic" where
  "WithHint hint e = e\<lparr>dg_Hint := hint\<rparr>"

section \<open>Order and duplicates\<close>

record complaint =
  cp_file :: string
  cp_line :: int
  cp_col :: int
  cp_msg :: string

definition complaint_of :: "Diagnostic \<Rightarrow> complaint" where
  "complaint_of e = \<lparr>cp_file = dg_File e, cp_line = dg_Line e, cp_col = dg_Col e, cp_msg = dg_Msg e\<rparr>"

definition cmp_Compare :: "'a::linorder \<Rightarrow> 'a \<Rightarrow> int" where
  "cmp_Compare a b = (if a < b then -1 else if b < a then 1 else 0)"

definition compareByPosition :: "Diagnostic \<Rightarrow> Diagnostic \<Rightarrow> int" where
  "compareByPosition a b =
     (let order = cmp_Compare (dg_File a) (dg_File b) in if order \<noteq> 0 then order
      else let order = cmp_Compare (dg_Line a) (dg_Line b) in if order \<noteq> 0 then order
      else let order = cmp_Compare (dg_Col a) (dg_Col b) in if order \<noteq> 0 then order
      else let order = cmp_Compare (dg_Path a) (dg_Path b) in if order \<noteq> 0 then order
      else cmp_Compare (dg_Msg a) (dg_Msg b))"

definition prefersOver :: "Diagnostic \<Rightarrow> Diagnostic \<Rightarrow> bool" where
  "prefersOver e other =
     (if dg_Path e \<noteq> dg_Path other then dg_Path e < dg_Path other
      else if dg_Hint e = dg_Hint other then dg_Rule e < dg_Rule other
      else if dg_Hint other = [] then True
      else if dg_Hint e = [] then False
      else dg_Hint e < dg_Hint other)"

text \<open>The map of the best diagnostic per complaint, as an association list.\<close>

fun keep_best :: "Diagnostic \<Rightarrow> (complaint \<times> Diagnostic) list \<Rightarrow> (complaint \<times> Diagnostic) list" where
  "keep_best diag [] = [(complaint_of diag, diag)]"
| "keep_best diag ((about, kept) # best) =
     (if about = complaint_of diag then (about, if prefersOver diag kept then diag else kept) # best
      else (about, kept) # keep_best diag best)"

definition deduped :: "(Diagnostic list \<Rightarrow> Diagnostic list) \<Rightarrow> Diagnostic list \<Rightarrow> Diagnostic list" where
  "deduped iterate e = iterate (map snd (foldl (\<lambda>best diag. keep_best diag best) [] e))"

fun insert_by :: "('a \<Rightarrow> 'a \<Rightarrow> int) \<Rightarrow> 'a \<Rightarrow> 'a list \<Rightarrow> 'a list" where
  "insert_by compare x [] = [x]"
| "insert_by compare x (y # ys) = (if compare x y \<le> 0 then x # y # ys else y # insert_by compare x ys)"

text \<open>\<open>slices.SortFunc\<close>; no two diagnostics it is given compare equal, so that every sorting algorithm answers the same.\<close>

definition SortFunc :: "('a \<Rightarrow> 'a \<Rightarrow> int) \<Rightarrow> 'a list \<Rightarrow> 'a list" where
  "SortFunc compare xs = foldr (insert_by compare) xs []"

definition normalized :: "(Diagnostic list \<Rightarrow> Diagnostic list) \<Rightarrow> Diagnostic list \<Rightarrow> Diagnostic list" where
  "normalized iterate e = (if e = [] then [] else SortFunc compareByPosition (deduped iterate e))"

section \<open>Keys\<close>

definition position_key :: "Diagnostic \<Rightarrow> string \<times> int \<times> int \<times> string \<times> string" where
  "position_key d = (dg_File d, dg_Line d, dg_Col d, dg_Path d, dg_Msg d)"

definition preference_key :: "Diagnostic \<Rightarrow> string \<times> bool \<times> string \<times> string" where
  "preference_key d = (dg_Path d, dg_Hint d = [], dg_Hint d, dg_Rule d)"

lemma cmp_Compare_le: "cmp_Compare a b \<le> 0 \<longleftrightarrow> a \<le> b"
  by (auto simp: cmp_Compare_def)

lemma cmp_Compare_pair: "cmp_Compare (a, b) (c, d) = (if cmp_Compare a c \<noteq> 0 then cmp_Compare a c else cmp_Compare b d)"
  by (auto simp: cmp_Compare_def)

lemma compare_key: "compareByPosition a b \<le> 0 \<longleftrightarrow> position_key a \<le> position_key b"
  "compareByPosition a b < 0 \<longleftrightarrow> position_key a < position_key b"
proof -
  have eq: "compareByPosition a b = cmp_Compare (position_key a) (position_key b)"
    by (simp add: compareByPosition_def position_key_def cmp_Compare_pair Let_def)
  show "compareByPosition a b \<le> 0 \<longleftrightarrow> position_key a \<le> position_key b" by (simp add: eq cmp_Compare_le)
  show "compareByPosition a b < 0 \<longleftrightarrow> position_key a < position_key b" by (simp add: eq cmp_Compare_def)
qed

lemma prefers_key: "prefersOver a b \<longleftrightarrow> preference_key a < preference_key b"
  unfolding prefersOver_def preference_key_def by auto

lemma same_diagnostic: "complaint_of a = complaint_of b \<Longrightarrow> preference_key a = preference_key b \<Longrightarrow> a = b"
  by (auto simp: complaint_of_def preference_key_def intro: Diagnostic.equality)

lemma position_complaint: "position_key a = position_key b \<Longrightarrow> complaint_of a = complaint_of b"
  by (simp add: position_key_def complaint_of_def)

section \<open>Sorting\<close>

lemma mset_insert_by [simp]: "mset (insert_by compare x ys) = add_mset x (mset ys)"
  by (induction ys) auto

lemma mset_SortFunc [simp]: "mset (SortFunc compare xs) = mset xs"
  unfolding SortFunc_def by (induction xs) auto

lemma insert_by_sorted:
  "sorted (map position_key ys) \<Longrightarrow> sorted (map position_key (insert_by compareByPosition x ys))"
proof (induction ys)
  case (Cons y ys)
  have "set (insert_by compareByPosition x ys) = insert x (set ys)"
    using mset_insert_by [of compareByPosition x ys] by (metis set_mset_add_mset_insert set_mset_mset)
  then show ?case using Cons by (auto simp: compare_key)
qed simp

lemma SortFunc_sorted: "sorted (map position_key (SortFunc compareByPosition xs))"
  unfolding SortFunc_def by (induction xs) (auto intro: insert_by_sorted)

section \<open>What is kept\<close>

definition kept_of :: "Diagnostic set \<Rightarrow> Diagnostic set" where
  "kept_of D = {d \<in> D. \<forall>d' \<in> D. complaint_of d' = complaint_of d \<longrightarrow> preference_key d \<le> preference_key d'}"

lemma kept_unique: "d \<in> kept_of D \<Longrightarrow> d' \<in> kept_of D \<Longrightarrow> complaint_of d = complaint_of d' \<Longrightarrow> d = d'"
  by (rule same_diagnostic) (auto simp: kept_of_def intro: order.antisym)

lemma keep_best_keys: "fst ` set (keep_best diag best) = insert (complaint_of diag) (fst ` set best)"
proof (induction best)
  case (Cons entry best)
  then show ?case by (cases entry; cases "fst entry = complaint_of diag") (simp_all add: insert_commute)
qed simp

lemma keep_best_distinct: "distinct (map fst best) \<Longrightarrow> distinct (map fst (keep_best diag best))"
proof (induction best)
  case (Cons entry best)
  obtain about kept where e: "entry = (about, kept)" by fastforce
  show ?case
    using Cons keep_best_keys [of diag best] by (auto simp: e image_iff)
qed simp

lemma keep_best_map: "map_of (keep_best diag best) =
    (map_of best)(complaint_of diag \<mapsto> (case map_of best (complaint_of diag) of None \<Rightarrow> diag | Some kept \<Rightarrow> if prefersOver diag kept then diag else kept))"
proof (induction best)
  case (Cons entry best)
  then show ?case by (cases entry) (auto simp: fun_eq_iff)
qed simp

definition best_ok :: "(complaint \<rightharpoonup> Diagnostic) \<Rightarrow> Diagnostic set \<Rightarrow> bool" where
  "best_ok m D \<longleftrightarrow> (\<forall>c d. m c = Some d \<longleftrightarrow> d \<in> kept_of D \<and> complaint_of d = c) \<and> (\<forall>d \<in> D. m (complaint_of d) \<noteq> None)"

lemma best_ok_step:
  assumes "best_ok m D"
  shows "best_ok (m(complaint_of diag \<mapsto> (case m (complaint_of diag) of None \<Rightarrow> diag | Some kept \<Rightarrow> if prefersOver diag kept then diag else kept)))
    (insert diag D)"
proof -
  let ?c = "complaint_of diag"
  have m: "\<And>c d. m c = Some d \<longleftrightarrow> d \<in> kept_of D \<and> complaint_of d = c" and total: "\<And>d. d \<in> D \<Longrightarrow> m (complaint_of d) \<noteq> None"
    using assms by (auto simp: best_ok_def)
  have other: "d \<in> kept_of (insert diag D) \<longleftrightarrow> d \<in> kept_of D" if "complaint_of d \<noteq> ?c" for d
    using that by (auto simp: kept_of_def)
  define new where "new = (case m ?c of None \<Rightarrow> diag | Some kept \<Rightarrow> if prefersOver diag kept then diag else kept)"
  have "complaint_of new = ?c \<and> new \<in> insert diag D \<and> (\<forall>d \<in> insert diag D. complaint_of d = ?c \<longrightarrow> preference_key new \<le> preference_key d)"
  proof (cases "m ?c")
    case None
    then have "\<forall>d \<in> D. complaint_of d \<noteq> ?c" using total by force
    with None show ?thesis by (auto simp: new_def)
  next
    case (Some kept)
    then have k: "kept \<in> D" "complaint_of kept = ?c" "\<forall>d \<in> D. complaint_of d = ?c \<longrightarrow> preference_key kept \<le> preference_key d"
      using m [of ?c kept] by (auto simp: kept_of_def)
    show ?thesis
    proof (cases "prefersOver diag kept")
      case True
      then have "preference_key diag \<le> preference_key kept" by (simp add: prefers_key)
      with True Some k show ?thesis by (force simp: new_def)
    next
      case False
      then have "preference_key kept \<le> preference_key diag" by (simp add: prefers_key not_less)
      with False Some k show ?thesis by (simp add: new_def)
    qed
  qed
  then have new: "complaint_of new = ?c" "new \<in> insert diag D"
      "\<And>d. d \<in> insert diag D \<Longrightarrow> complaint_of d = ?c \<Longrightarrow> preference_key new \<le> preference_key d" by blast+
  then have kept: "new \<in> kept_of (insert diag D)" by (simp add: kept_of_def)
  have here: "d \<in> kept_of (insert diag D) \<and> complaint_of d = ?c \<longleftrightarrow> d = new" for d
    using kept_unique [of d "insert diag D" new] kept new(1) by auto
  show ?thesis
    unfolding best_ok_def new_def [symmetric] using m total other here by (auto simp: fun_upd_apply)
qed

lemma best_fold: "best_ok (map_of (foldl (\<lambda>best diag. keep_best diag best) [] e)) (set e) \<and>
    distinct (map fst (foldl (\<lambda>best diag. keep_best diag best) [] e))"
proof (induction e rule: rev_induct)
  case Nil
  then show ?case by (auto simp: best_ok_def kept_of_def)
next
  case (snoc diag e)
  let ?best = "foldl (\<lambda>best diag. keep_best diag best) [] e"
  have step: "foldl (\<lambda>best diag. keep_best diag best) [] (e @ [diag]) = keep_best diag ?best" "set (e @ [diag]) = insert diag (set e)" by simp_all
  from snoc show ?case unfolding step keep_best_map using best_ok_step [of "map_of ?best" "set e" diag] keep_best_distinct by blast
qed

lemma kept_list:
  assumes "distinct (map fst best)" "best_ok (map_of best) D"
  shows "set (map snd best) = kept_of D \<and> distinct (map position_key (map snd best))"
proof -
  have in_best: "(c, d) \<in> set best \<longleftrightarrow> d \<in> kept_of D \<and> complaint_of d = c" for c d
    using assms map_of_eq_Some_iff [OF assms(1)] by (simp add: best_ok_def)
  then have "set (map snd best) = kept_of D" by force
  moreover have "map fst best = map complaint_of (map snd best)" using in_best by (auto intro!: map_cong)
  with assms(1) have "distinct (map complaint_of (map snd best))" by simp
  then have "distinct (map position_key (map snd best))"
    unfolding distinct_map inj_on_def using position_complaint by metis
  ultimately show ?thesis by blast
qed

lemma normalized_kept:
  assumes "\<And>xs. mset (iterate xs) = mset xs"
  shows "set (normalized iterate e) = kept_of (set e) \<and> sorted (map position_key (normalized iterate e)) \<and>
    distinct (map position_key (normalized iterate e))"
proof (cases "e = []")
  case False
  let ?best = "foldl (\<lambda>best diag. keep_best diag best) [] e"
  from best_fold [of e] kept_list [of ?best "set e"]
  have k: "set (map snd ?best) = kept_of (set e)" "distinct (map position_key (map snd ?best))" by blast+
  have same: "mset (normalized iterate e) = mset (map snd ?best)" using False assms by (simp add: normalized_def deduped_def)
  then have "mset (map position_key (normalized iterate e)) = mset (map position_key (map snd ?best))" by (simp only: mset_map)
  then have "distinct (map position_key (normalized iterate e))" using k(2) mset_eq_imp_distinct_iff by blast
  moreover have "set (normalized iterate e) = kept_of (set e)" using same k(1) by (metis set_mset_mset)
  moreover have "sorted (map position_key (normalized iterate e))" using False SortFunc_sorted by (simp add: normalized_def)
  ultimately show ?thesis by blast
qed (simp add: normalized_def kept_of_def)

section \<open>Property\<close>

text \<open>C40. What the loader reports depends only on which diagnostics were raised: the order and the repetition of the input and the
  order in which Go iterates its map are not seen. The report is strictly ordered by position, has one diagnostic for each complaint
  raised and no other, and the one it keeps is never less preferred than one it drops.\<close>

theorem diagnostics_are_canonical:
  assumes "\<And>xs. mset (iterate xs) = mset xs" "\<And>xs. mset (iterate' xs) = mset xs" "set e = set e'"
  shows "normalized iterate e = normalized iterate' e' \<and>
    sorted_wrt (\<lambda>a b. compareByPosition a b < 0) (normalized iterate e) \<and>
    complaint_of ` set (normalized iterate e) = complaint_of ` set e \<and> distinct (map complaint_of (normalized iterate e)) \<and>
    (\<forall>d \<in> set (normalized iterate e). d \<in> set e \<and> (\<forall>d' \<in> set e. complaint_of d' = complaint_of d \<longrightarrow> \<not> prefersOver d' d))"
proof -
  note n = normalized_kept [OF assms(1), of e] and n' = normalized_kept [OF assms(2), of e']
  have inj: "inj_on position_key (kept_of (set e))" using n by (metis distinct_map)
  have "map position_key (normalized iterate e) = map position_key (normalized iterate' e')"
    using n n' assms(3) by (intro sorted_distinct_set_unique) auto
  then have same: "normalized iterate e = normalized iterate' e'"
    by (rule map_inj_on) (use n n' inj assms(3) in auto)
  have "sorted_wrt (\<lambda>a b. position_key a < position_key b) (normalized iterate e)"
    using n by (simp add: strict_sorted_iff sorted_wrt_map flip: sorted_wrt_map)
  then have strict: "sorted_wrt (\<lambda>a b. compareByPosition a b < 0) (normalized iterate e)"
    by (rule sorted_wrt_mono_rel [rotated]) (simp add: compare_key)
  have total: "complaint_of ` kept_of (set e) = complaint_of ` set e"
    using best_fold [of e] by (auto simp: best_ok_def kept_of_def image_iff) (metis (mono_tags, lifting) mem_Collect_eq)
  have once: "distinct (map complaint_of (normalized iterate e))"
    unfolding distinct_map using n kept_unique [of _ "set e"] by (auto simp: distinct_map inj_on_def)
  show ?thesis using same strict total once n by (auto simp: kept_of_def prefers_key not_less)
qed


definition sample_diagnostic :: "string \<Rightarrow> string \<Rightarrow> Diagnostic" where
  "sample_diagnostic path hint = \<lparr>dg_Rule = ''R41'', dg_File = ''f'', dg_Line = 3, dg_Col = 1, dg_Path = path, dg_Msg = ''m'', dg_Hint = hint\<rparr>"

theorem diagnostics_are_canonical_witness:
  "normalized (\<lambda>xs. xs) [sample_diagnostic ''$.b'' [], sample_diagnostic ''$.a'' ''h''] =
   normalized rev [sample_diagnostic ''$.a'' ''h'', sample_diagnostic ''$.b'' [], sample_diagnostic ''$.b'' []]"
  using diagnostics_are_canonical [of "\<lambda>xs. xs" rev "[sample_diagnostic ''$.b'' [], sample_diagnostic ''$.a'' ''h'']"
      "[sample_diagnostic ''$.a'' ''h'', sample_diagnostic ''$.b'' [], sample_diagnostic ''$.b'' []]"] by auto

end
