(* ===== verification/Env_Expansion.thy ===== *)
theory Env_Expansion
  imports Prelude
begin

text \<open>
  Environment references in configuration values: the grammar of \<open>config/envreference.go\<close> and what a scalar becomes in
  \<open>config/envexpansion.go\<close>. The environment is a map from names to values. The property reads the grammar from the author's side:
  a template of literal text, references and defaults, written with the one escape, expands to its meaning.
\<close>

section \<open>The grammar\<close>

definition referenceOpen :: string where "referenceOpen = ''${''"
definition referenceClose :: string where "referenceClose = ''}''"
definition escapeSentinel :: string where "escapeSentinel = ''$'' @ referenceOpen"
definition defaultMarker :: string where "defaultMarker = '':-''"

definition variableNamePattern :: string where
  "variableNamePattern = ''[A-Za-z_][A-Za-z0-9_]*''"

definition is_name_start :: "char \<Rightarrow> bool" where
  "is_name_start c \<longleftrightarrow> CHR ''A'' \<le> c \<and> c \<le> CHR ''Z'' \<or> CHR ''a'' \<le> c \<and> c \<le> CHR ''z'' \<or> c = CHR ''_''"

definition is_name_char :: "char \<Rightarrow> bool" where
  "is_name_char c \<longleftrightarrow> is_name_start c \<or> CHR ''0'' \<le> c \<and> c \<le> CHR ''9''"

fun variableName :: "string \<Rightarrow> bool" where
  "variableName [] = False"
| "variableName (c # s) = (is_name_start c \<and> list_all is_name_char s)"

definition emptyNameRefusal :: string where
  "emptyNameRefusal = ''malformed environment reference: a variable name is required''"
definition badNameRefusal :: string where
  "badNameRefusal = ''malformed environment reference: a variable name must match '' @ variableNamePattern"
definition unterminatedRefusal :: string where
  "unterminatedRefusal = ''malformed environment reference: no closing brace''"
definition escapeHint :: string where
  "escapeHint = ''write $${ to mean a literal ${''"

record fault =
  ft_message :: string
  ft_hint :: string

record reference =
  rf_width :: nat
  rf_name :: string
  rf_fallback :: string
  rf_hasDefault :: bool
  rf_refusal :: string

definition nameRefusal :: "string \<Rightarrow> string" where
  "nameRefusal name = (if name = [] then emptyNameRefusal else if \<not> variableName name then badNameRefusal else [])"

definition refused_reference :: "nat \<Rightarrow> string \<Rightarrow> reference" where
  "refused_reference width refusal = \<lparr>rf_width = width, rf_name = [], rf_fallback = [], rf_hasDefault = False, rf_refusal = refusal\<rparr>"

definition readReference :: "string \<Rightarrow> reference" where
  "readReference str =
     (if length str < length referenceOpen then refused_reference (length str) unterminatedRefusal
      else let inside = drop (length referenceOpen) str in
        case Cut inside referenceClose of
          None \<Rightarrow> refused_reference (length str) unterminatedRefusal
        | Some (body, _) \<Rightarrow>
            let width = length referenceOpen + length body + length referenceClose;
                (name, fallback, hasDefault) = (case Cut body defaultMarker of None \<Rightarrow> (body, [], False) | Some (n, d) \<Rightarrow> (n, d, True))
            in if nameRefusal name \<noteq> [] then refused_reference width (nameRefusal name)
               else \<lparr>rf_width = width, rf_name = name, rf_fallback = fallback, rf_hasDefault = hasDefault, rf_refusal = []\<rparr>)"

section \<open>Expansion\<close>

type_synonym EnvLookup = "string \<Rightarrow> string option"

record expansion =
  ex_text :: string
  ex_faults :: "fault list"
  ex_fromEnvironment :: bool

definition unresolved :: "reference \<Rightarrow> fault" where
  "unresolved r = \<lparr>ft_message = ''environment variable '' @ [CHR 0x22] @ rf_name r @ [CHR 0x22] @ '' is not set'',
     ft_hint = ''set '' @ rf_name r @ '', or write ${'' @ rf_name r @ '':-default} to supply a fallback''\<rparr>"

text \<open>A resolution is its bytes and whether the environment supplied them.\<close>

definition substitution :: "reference \<Rightarrow> EnvLookup \<Rightarrow> fault + string \<times> bool" where
  "substitution r env =
     (if rf_refusal r \<noteq> [] then Inl \<lparr>ft_message = rf_refusal r, ft_hint = escapeHint\<rparr>
      else let value = (case env (rf_name r) of None \<Rightarrow> [] | Some v \<Rightarrow> v) in
        if rf_hasDefault r \<and> value = [] then Inr (rf_fallback r, False)
        else if env (rf_name r) = None then Inl (unresolved r)
        else Inr (value, True))"

text \<open>What the loop of \<open>expand\<close> has built, and the result it answers: no text beside a fault.\<close>

definition settled :: "expansion \<Rightarrow> expansion" where
  "settled e = (if ex_faults e \<noteq> [] then e\<lparr>ex_text := []\<rparr> else e)"

definition joined :: "expansion \<Rightarrow> expansion \<Rightarrow> expansion" where
  "joined a b = \<lparr>ex_text = ex_text a @ ex_text b, ex_faults = ex_faults a @ ex_faults b,
     ex_fromEnvironment = (ex_fromEnvironment a \<or> ex_fromEnvironment b)\<rparr>"

definition literal :: "string \<Rightarrow> expansion" where
  "literal str = \<lparr>ex_text = str, ex_faults = [], ex_fromEnvironment = False\<rparr>"

lemma Cut_length: "Cut s sep = Some (a, b) \<Longrightarrow> length a + length sep + length b = length s"
proof (induction s arbitrary: a)
  case (Cons c s)
  show ?case
  proof (cases "HasPrefix (c # s) sep")
    case True
    then obtain t where t: "c # s = sep @ t" by (auto simp: HasPrefix_iff)
    from True Cons.prems have "a = []" "b = drop (length sep) (c # s)" by simp_all
    then show ?thesis using arg_cong [OF t, of length] unfolding t by simp
  next
    case False
    then show ?thesis using Cons by auto
  qed
qed (auto split: if_splits)

lemma readReference_width: "str \<noteq> [] \<Longrightarrow> 0 < rf_width (readReference str)"
  by (auto simp: readReference_def refused_reference_def Let_def referenceOpen_def split: option.splits prod.splits)

lemma readReference_fallback: "str \<noteq> [] \<Longrightarrow> length (rf_fallback (readReference str)) < length str"
  by (auto simp: readReference_def refused_reference_def Let_def referenceOpen_def split: option.splits prod.splits dest!: Cut_length)

lemma substitution_fallback: "substitution r env = Inr (t, False) \<Longrightarrow> t = rf_fallback r"
  by (auto simp: substitution_def Let_def split: if_splits)

function scan :: "EnvLookup \<Rightarrow> string \<Rightarrow> expansion" where
  "scan env str =
     (if str = [] then literal []
      else if HasPrefix str escapeSentinel then joined (literal referenceOpen) (scan env (drop (length escapeSentinel) str))
      else if \<not> HasPrefix str referenceOpen then joined (literal [hd str]) (scan env (tl str))
      else let found = readReference str;
               contributed = (case substitution found env of
                   Inl refused \<Rightarrow> \<lparr>ex_text = [], ex_faults = [refused], ex_fromEnvironment = False\<rparr>
                 | Inr (t, fromEnvironment) \<Rightarrow>
                     if fromEnvironment then \<lparr>ex_text = t, ex_faults = [], ex_fromEnvironment = True\<rparr> else settled (scan env t))
           in joined contributed (scan env (drop (rf_width found) str)))"
  by pat_completeness auto
termination
proof (relation "measure (\<lambda>(env, str). length str)", goal_cases)
  case 1
  then show ?case by simp
next
  case (2 env str)
  then show ?case by (simp add: escapeSentinel_def)
next
  case (3 env str)
  then show ?case by simp
next
  case (4 env str found r t fe)
  then show ?case using substitution_fallback readReference_fallback by auto
next
  case (5 env str found contributed)
  then show ?case using readReference_width by simp
qed

declare scan.simps [simp del]

definition expand :: "string \<Rightarrow> EnvLookup \<Rightarrow> expansion" where
  "expand str env = settled (scan env str)"


section \<open>Templates\<close>

text \<open>What an author writes: literal text, a reference, a reference with a default.\<close>

datatype piece = Literally string | Variable string | Defaulted string string

fun escape :: "string \<Rightarrow> string" where
  "escape [] = []"
| "escape [c] = [c]"
| "escape (c # d # s) = (if c = CHR ''$'' \<and> d = CHR ''{'' then escapeSentinel @ escape s else c # escape (d # s))"

fun write_piece :: "piece \<Rightarrow> string" where
  "write_piece (Literally t) = escape t"
| "write_piece (Variable n) = referenceOpen @ n @ referenceClose"
| "write_piece (Defaulted n d) = referenceOpen @ n @ defaultMarker @ escape d @ referenceClose"

fun piece_ok :: "piece \<Rightarrow> bool" where
  "piece_ok (Literally t) = True"
| "piece_ok (Variable n) = variableName n"
| "piece_ok (Defaulted n d) = (variableName n \<and> CHR ''}'' \<notin> set d)"

text \<open>A dollar sign before a reference would read as the escape, so literal text before one does not end in it.\<close>

fun joins_ok :: "piece list \<Rightarrow> bool" where
  "joins_ok (Literally t # Literally u # ps) = False"
| "joins_ok (Literally t # p # ps) = ((t \<noteq> [] \<longrightarrow> last t \<noteq> CHR ''$'') \<and> joins_ok (p # ps))"
| "joins_ok (p # ps) = joins_ok ps"
| "joins_ok [] = True"

fun meaning :: "EnvLookup \<Rightarrow> piece \<Rightarrow> expansion" where
  "meaning env (Literally t) = literal t"
| "meaning env (Variable n) = (case env n of
      None \<Rightarrow> \<lparr>ex_text = [], ex_faults = [unresolved (refused_reference 0 []\<lparr>rf_name := n\<rparr>)], ex_fromEnvironment = False\<rparr>
    | Some v \<Rightarrow> \<lparr>ex_text = v, ex_faults = [], ex_fromEnvironment = True\<rparr>)"
| "meaning env (Defaulted n d) = (case env n of
      Some (c # v) \<Rightarrow> \<lparr>ex_text = c # v, ex_faults = [], ex_fromEnvironment = True\<rparr>
    | _ \<Rightarrow> literal d)"

lemma marks: "referenceOpen = [CHR ''$'', CHR ''{'']" "escapeSentinel = [CHR ''$'', CHR ''$'', CHR ''{'']" "referenceClose = [CHR ''}'']"
  by (simp_all add: referenceOpen_def escapeSentinel_def referenceClose_def)

lemma HasPrefix_marks: "HasPrefix (c # s) (d # p) \<longleftrightarrow> c = d \<and> HasPrefix s p" "HasPrefix s []"
  by (simp_all add: HasPrefix_def)

lemma escape_head: "t \<noteq> [] \<Longrightarrow> \<exists>s. escape t = hd t # s"
  by (induction t rule: escape.induct) (auto simp: marks)

lemma escape_hd: "t \<noteq> [] \<Longrightarrow> hd (escape t @ rest) = hd t" "escape t = [] \<longleftrightarrow> t = []"
  using escape_head [of t] by (cases t; auto)+

lemma scan_literal:
  assumes "\<not> HasPrefix (c # s) escapeSentinel" "\<not> HasPrefix (c # s) referenceOpen"
  shows "scan env (c # s) = joined (literal [c]) (scan env s)"
  by (subst scan.simps) (simp add: assms)

lemma joined_literal: "joined (literal a) (joined (literal b) e) = joined (literal (a @ b)) e" "joined (literal []) e = e"
  by (simp_all add: joined_def literal_def)

text \<open>What may follow escaped text: nothing, or a reference when the text does not end in a dollar sign.\<close>

definition may_follow :: "string \<Rightarrow> string \<Rightarrow> bool" where
  "may_follow t rest \<longleftrightarrow> rest = [] \<or> hd rest \<noteq> CHR ''{'' \<and> (t \<noteq> [] \<longrightarrow> last t \<noteq> CHR ''$'')"

lemma scan_escape: "may_follow t rest \<Longrightarrow> scan env (escape t @ rest) = joined (literal t) (scan env rest)"
proof (induction t rule: escape.induct)
  case 1
  then show ?case by (simp add: joined_literal)
next
  case (2 c)
  then have "\<not> HasPrefix (c # rest) escapeSentinel" "\<not> HasPrefix (c # rest) referenceOpen"
    by (auto simp: may_follow_def marks HasPrefix_def)
  then show ?case by (simp add: scan_literal)
next
  case (3 c d s)
  show ?case
  proof (cases "c = CHR ''$'' \<and> d = CHR ''{''")
    case True
    then have "scan env (escape (c # d # s) @ rest) = joined (literal referenceOpen) (scan env (escape s @ rest))"
      by (subst scan.simps) (simp add: escapeSentinel_def referenceOpen_def HasPrefix_def)
    also have "scan env (escape s @ rest) = joined (literal s) (scan env rest)"
      using "3.IH"(1) True "3.prems" by (auto simp: may_follow_def split: if_splits)
    finally show ?thesis using True by (simp add: joined_literal marks)
  next
    case False
    have "\<exists>u. escape (d # s) @ rest = d # u \<and> (d = CHR ''$'' \<longrightarrow> \<not> HasPrefix u [CHR ''{''])"
    proof (cases s)
      case Nil
      then show ?thesis using "3.prems" by (cases rest) (auto simp: may_follow_def HasPrefix_def)
    next
      case (Cons e s')
      then show ?thesis using escape_head [of s] by (auto simp: marks HasPrefix_def)
    qed
    then have "\<not> HasPrefix (c # escape (d # s) @ rest) escapeSentinel" "\<not> HasPrefix (c # escape (d # s) @ rest) referenceOpen"
      using False by (auto simp: marks HasPrefix_marks)
    then have "scan env (escape (c # d # s) @ rest) = joined (literal [c]) (scan env (escape (d # s) @ rest))"
      using False by (auto simp: scan_literal)
    also have "scan env (escape (d # s) @ rest) = joined (literal (d # s)) (scan env rest)"
      using "3.IH"(2) False "3.prems" by (auto simp: may_follow_def)
    finally show ?thesis by (simp add: joined_literal)
  qed
qed


lemma Cut_found: "\<lbrakk>\<And>a b. s = a @ b \<Longrightarrow> b \<noteq> [] \<Longrightarrow> \<not> HasPrefix (b @ sep @ t) sep; sep \<noteq> []\<rbrakk> \<Longrightarrow> Cut (s @ sep @ t) sep = Some (s, t)"
proof (induction s)
  case Nil
  then show ?case by (cases sep) (simp_all add: HasPrefix_def)
next
  case (Cons c s)
  have "\<not> HasPrefix ((c # s) @ sep @ t) sep" using Cons.prems(1) [of "[]" "c # s"] by simp
  moreover have "Cut (s @ sep @ t) sep = Some (s, t)"
    using Cons.prems(1) [of "c # a" for a] Cons.prems(2) by (intro Cons.IH) auto
  ultimately show ?case by simp
qed

lemma Cut_none: "CHR '':'' \<notin> set s \<Longrightarrow> Cut s defaultMarker = None"
  by (induction s) (auto simp: defaultMarker_def HasPrefix_marks)

lemma name_chars:
  assumes "variableName n" "c \<in> set n"
  shows "c \<noteq> CHR '':'' \<and> c \<noteq> CHR ''}''"
proof -
  have "is_name_char c" using assms by (cases n) (auto simp: is_name_char_def list_all_iff)
  then show ?thesis by (auto simp: is_name_char_def is_name_start_def)
qed

lemma escape_brace: "CHR ''}'' \<notin> set d \<Longrightarrow> CHR ''}'' \<notin> set (escape d)"
  by (induction d rule: escape.induct) (auto simp: marks)

lemma length_marks: "length [CHR ''$'', CHR ''{''] = 2" "length [CHR ''}''] = 1" "drop 2 ([CHR ''$'', CHR ''{''] @ s) = s"
  by simp_all

lemma read_body:
  assumes "CHR ''}'' \<notin> set body"
  shows "readReference (referenceOpen @ body @ referenceClose @ rest) =
    (let (name, fallback, hasDefault) = (case Cut body defaultMarker of None \<Rightarrow> (body, [], False) | Some (n, d) \<Rightarrow> (n, d, True))
     in if nameRefusal name \<noteq> [] then refused_reference (length body + 3) (nameRefusal name)
        else \<lparr>rf_width = length body + 3, rf_name = name, rf_fallback = fallback, rf_hasDefault = hasDefault, rf_refusal = []\<rparr>)"
proof -
  have "Cut (body @ [CHR ''}''] @ rest) [CHR ''}''] = Some (body, rest)"
    by (rule Cut_found) (use assms in \<open>auto simp: HasPrefix_def neq_Nil_conv\<close>)
  then show ?thesis unfolding readReference_def marks Let_def length_marks by (simp add: numeral_3_eq_3 split: option.split prod.split)
qed

lemma read_variable:
  assumes "variableName n"
  shows "readReference (referenceOpen @ n @ referenceClose @ rest) =
    \<lparr>rf_width = length n + 3, rf_name = n, rf_fallback = [], rf_hasDefault = False, rf_refusal = []\<rparr>"
proof -
  have "CHR ''}'' \<notin> set n" "CHR '':'' \<notin> set n" using name_chars [OF assms] by blast+
  moreover have "n \<noteq> []" using assms by auto
  ultimately show ?thesis using assms by (simp add: read_body Cut_none nameRefusal_def)
qed

lemma read_default:
  assumes "variableName n" "CHR ''}'' \<notin> set d"
  shows "readReference (referenceOpen @ n @ defaultMarker @ escape d @ referenceClose @ rest) =
    \<lparr>rf_width = length n + length (escape d) + 5, rf_name = n, rf_fallback = escape d, rf_hasDefault = True, rf_refusal = []\<rparr>"
proof -
  have free: "CHR '':'' \<notin> set n" using name_chars [OF assms(1)] by blast
  have "n \<noteq> []" using assms(1) by auto
  have brace: "CHR ''}'' \<notin> set (n @ defaultMarker @ escape d)"
    using assms name_chars escape_brace [OF assms(2)] by (auto simp: defaultMarker_def)
  have "Cut (n @ defaultMarker @ escape d) defaultMarker = Some (n, escape d)"
    by (rule Cut_found) (use free in \<open>auto simp: defaultMarker_def HasPrefix_def neq_Nil_conv\<close>)
  then show ?thesis using read_body [OF brace, of rest] assms \<open>n \<noteq> []\<close> by (simp add: nameRefusal_def defaultMarker_def)
qed

lemma scan_reference:
  "scan env (referenceOpen @ s) = (let found = readReference (referenceOpen @ s);
      contributed = (case substitution found env of
          Inl refused \<Rightarrow> \<lparr>ex_text = [], ex_faults = [refused], ex_fromEnvironment = False\<rparr>
        | Inr (t, fromEnvironment) \<Rightarrow>
            if fromEnvironment then \<lparr>ex_text = t, ex_faults = [], ex_fromEnvironment = True\<rparr> else settled (scan env t))
     in joined contributed (scan env (drop (rf_width found) (referenceOpen @ s))))"
  by (subst scan.simps) (simp add: marks HasPrefix_marks)

lemma scan_Nil [simp]: "scan env [] = literal []"
  by (subst scan.simps) simp

lemma scan_escaped: "scan env (escape d) = literal d"
  using scan_escape [of d "[]" env] by (simp add: may_follow_def joined_def literal_def)

lemma scan_piece:
  assumes "piece_ok p" "\<And>t. p = Literally t \<Longrightarrow> may_follow t rest"
  shows "scan env (write_piece p @ rest) = joined (meaning env p) (scan env rest)"
proof (cases p)
  case (Literally t)
  then show ?thesis using assms scan_escape by simp
next
  case (Variable n)
  then have n: "variableName n" using assms by simp
  have "drop (length n + 3) (referenceOpen @ n @ referenceClose @ rest) = rest" by (simp add: marks numeral_3_eq_3)
  then show ?thesis
    using Variable read_variable [OF n, of rest]
    by (auto simp: scan_reference Let_def substitution_def unresolved_def split: option.splits simp del: drop_append)
next
  case (Defaulted n d)
  then have n: "variableName n" "CHR ''}'' \<notin> set d" using assms by auto
  have "drop (length n + length (escape d) + 5) (referenceOpen @ n @ defaultMarker @ escape d @ referenceClose @ rest) = rest"
    by (simp add: marks defaultMarker_def eval_nat_numeral)
  then show ?thesis
    using Defaulted read_default [OF n, of rest]
    by (auto simp: scan_reference Let_def substitution_def scan_escaped settled_def literal_def split: option.splits list.splits simp del: drop_append)
qed

lemma joins_ok_Cons:
  assumes "joins_ok (p # ps)"
  shows "joins_ok ps" "p = Literally t \<Longrightarrow> may_follow t (concat (map write_piece ps))"
proof -
  show "joins_ok ps" using assms by (cases p; cases ps; cases "hd ps") auto
  show "may_follow t (concat (map write_piece ps))" if "p = Literally t"
    using assms that by (cases ps; cases "hd ps") (auto simp: may_follow_def marks)
qed

lemma scan_template:
  "list_all piece_ok ps \<Longrightarrow> joins_ok ps \<Longrightarrow>
    scan env (concat (map write_piece ps)) = foldr (\<lambda>p e. joined (meaning env p) e) ps (literal [])"
proof (induction ps)
  case (Cons p ps)
  note j = joins_ok_Cons [OF Cons.prems(2)]
  from Cons.prems(1) have "scan env (write_piece p @ concat (map write_piece ps)) = joined (meaning env p) (scan env (concat (map write_piece ps)))"
    by (intro scan_piece j(2)) simp_all
  then show ?case using Cons.IH j(1) Cons.prems(1) by simp
qed simp

lemma fold_meaning: "foldr (\<lambda>p e. joined (meaning env p) e) ps (literal []) =
    \<lparr>ex_text = concat (map (ex_text \<circ> meaning env) ps), ex_faults = concat (map (ex_faults \<circ> meaning env) ps),
     ex_fromEnvironment = list_ex (ex_fromEnvironment \<circ> meaning env) ps\<rparr>"
  by (induction ps) (simp_all add: joined_def literal_def)

section \<open>Property\<close>

text \<open>C37. Interpolation means what the author wrote. A value written as a template, its literal text with the one escape and each
  default likewise, expands to the text of its pieces in order: literal text is never read as a reference, what the environment
  supplies is inserted verbatim and never read again, a default stands in for an unset and for an empty variable, and the faults
  are exactly the unset variables without a default, in order; a value with a fault gets no text at all. Whether the environment
  contributed is reported exactly.\<close>

theorem interpolation_means_what_was_written:
  fixes env :: EnvLookup
  assumes "list_all piece_ok ps" "joins_ok ps"
  defines "faults \<equiv> concat (map (ex_faults \<circ> meaning env) ps)"
  shows "expand (concat (map write_piece ps)) env =
    \<lparr>ex_text = (if faults = [] then concat (map (ex_text \<circ> meaning env) ps) else []), ex_faults = faults,
     ex_fromEnvironment = list_ex (ex_fromEnvironment \<circ> meaning env) ps\<rparr>"
  using scan_template [OF assms(1,2), of env] by (simp add: expand_def settled_def fold_meaning faults_def)

theorem interpolation_means_what_was_written_witness:
  "ex_text (expand ''a$${b}${N}${M:-x$${}'' (\<lambda>n. if n = ''N'' then Some ''${M}'' else None)) = ''a${b}${M}x${''"
proof -
  let ?ps = "[Literally ''a${b}'', Variable ''N'', Defaulted ''M'' ''x${'']" and ?env = "\<lambda>n. if n = ''N'' then Some ''${M}'' else None"
  have "list_all piece_ok ?ps" "joins_ok ?ps" by (simp_all add: is_name_start_def)
  from interpolation_means_what_was_written [OF this, of ?env] show ?thesis by (simp add: marks defaultMarker_def literal_def)
qed

end
