(* ===== verification/Conn_String.thy ===== *)
theory Conn_String
  imports Env_Expansion
begin

text \<open>
  Where a connection string holds its passwords and what is shown instead: libpq's keyword/value grammar
  (\<open>config/libpqgrammar.go\<close>), the password locators (\<open>config/connstring.go\<close>) and the replacement (\<open>config/redact.go\<close>).
  Offsets are byte offsets. The properties say what of a text is still shown once its passwords are replaced.
\<close>

section \<open>The keyword/value grammar\<close>

definition libpqSeparators :: string where
  "libpqSeparators = [CHR 0x20, CHR 0x09, CHR 0x0A, CHR 0x0B, CHR 0x0C, CHR 0x0D]"

definition separatorWidth :: "string \<Rightarrow> nat" where
  "separatorWidth str = length str - length (dropWhile (\<lambda>c. c \<in> set libpqSeparators) str)"

definition libpqValueAfter :: "string \<Rightarrow> nat \<Rightarrow> nat option" where
  "libpqValueAfter str afterKeyword =
     (let equals = afterKeyword + separatorWidth (drop afterKeyword str) in
      if \<not> HasPrefix (drop equals str) ''='' then None
      else let value = equals + 1 in Some (value + separatorWidth (drop value str)))"

section \<open>Locating passwords\<close>

record span =
  sp_from :: nat
  sp_to :: nat

abbreviation span_of :: "nat \<Rightarrow> nat \<Rightarrow> span" where
  "span_of a b \<equiv> \<lparr>sp_from = a, sp_to = b\<rparr>"

text \<open>The standard library's \<open>strings.Index\<close>, \<open>IndexByte\<close> and \<open>LastIndexByte\<close>.\<close>

definition Index :: "string \<Rightarrow> string \<Rightarrow> nat option" where
  "Index s sub = map_option (length \<circ> fst) (Cut s sub)"

fun IndexByte :: "string \<Rightarrow> char \<Rightarrow> nat option" where
  "IndexByte [] b = None"
| "IndexByte (c # s) b = (if c = b then Some 0 else map_option Suc (IndexByte s b))"

fun LastIndexByte :: "string \<Rightarrow> char \<Rightarrow> nat option" where
  "LastIndexByte [] b = None"
| "LastIndexByte (c # s) b = (case LastIndexByte s b of Some i \<Rightarrow> Some (Suc i) | None \<Rightarrow> if c = b then Some 0 else None)"

definition schemeSeparator :: string where "schemeSeparator = ''://''"

definition uriPasswordSpan :: "string \<Rightarrow> span option" where
  "uriPasswordSpan str =
     (case Index str schemeSeparator of
        None \<Rightarrow> None
      | Some scheme \<Rightarrow> let authority = scheme + length schemeSeparator in
          case LastIndexByte str (CHR ''@'') of
            None \<Rightarrow> None
          | Some host \<Rightarrow>
              if host < authority then None
              else case IndexByte (drop authority (take host str)) (CHR '':'') of
                  None \<Rightarrow> None
                | Some colon \<Rightarrow> Some (span_of (authority + colon + 1) host))"

definition passwordKeyword :: string where "passwordKeyword = ''password''"

lemma Index_bound: "Index s sub = Some i \<Longrightarrow> i + length sub \<le> length s"
  by (auto simp: Index_def dest: Cut_length)

text \<open>The loop of \<open>valueAfterKeyword\<close>, from the offset the scan has reached; the keyword is not empty at its one call.\<close>

function value_from :: "string \<Rightarrow> string \<Rightarrow> nat \<Rightarrow> nat option" where
  "value_from str keyword at =
     (case Index (drop at str) keyword of
        None \<Rightarrow> None
      | Some found \<Rightarrow>
          let afterKeyword = at + found + length keyword in
          case libpqValueAfter str afterKeyword of
            Some value \<Rightarrow> Some value
          | None \<Rightarrow> if keyword = [] then None else value_from str keyword afterKeyword)"
  by pat_completeness auto
termination
proof (relation "measure (\<lambda>(str, keyword, at). length str - at)", goal_cases)
  case 1
  then show ?case by simp
next
  case (2 str keyword at found after)
  from Index_bound [OF 2(1)] 2(2,4) show ?case by (cases keyword) auto
qed

declare value_from.simps [simp del]

definition valueAfterKeyword :: "string \<Rightarrow> string \<Rightarrow> nat option" where
  "valueAfterKeyword str keyword = value_from str keyword 0"

definition keywordPasswordSpans :: "string \<Rightarrow> span list" where
  "keywordPasswordSpans str =
     (case valueAfterKeyword str passwordKeyword of None \<Rightarrow> [] | Some value \<Rightarrow> [span_of value (length str)])"

fun merge_into :: "span list \<Rightarrow> span \<Rightarrow> span list" where
  "merge_into [] nxt = [nxt]"
| "merge_into [lst] nxt = (if sp_from nxt \<le> sp_to lst then [lst\<lparr>sp_to := max (sp_to lst) (sp_to nxt)\<rparr>] else [lst, nxt])"
| "merge_into (s # t # ss) nxt = s # merge_into (t # ss) nxt"

definition mergedSpans :: "span list \<Rightarrow> span list" where
  "mergedSpans ascending = foldl merge_into [] ascending"

definition passwordSpans :: "string \<Rightarrow> span list" where
  "passwordSpans str =
     (let found = keywordPasswordSpans str @ (case uriPasswordSpan str of None \<Rightarrow> [] | Some userinfo \<Rightarrow> [userinfo])
      in rev (mergedSpans (sort_key sp_from found)))"

section \<open>Replacing them\<close>

definition redactionPlaceholder :: string where "redactionPlaceholder = ''[redacted]''"

text \<open>The pattern \<open>^\$\{[A-Za-z_][A-Za-z0-9_]*\}$\<close> of \<open>bareEnvReference\<close>.\<close>

definition isBareEnvReference :: "string \<Rightarrow> bool" where
  "isBareEnvReference str =
     (case CutPrefix str referenceOpen of
        None \<Rightarrow> False
      | Some r \<Rightarrow> (case CutSuffix r referenceClose of None \<Rightarrow> False | Some name \<Rightarrow> variableName name))"

definition redactedText :: "string \<Rightarrow> string" where
  "redactedText str = (if isBareEnvReference str then str else redactionPlaceholder)"

definition replace_span :: "string \<Rightarrow> string \<times> span list \<Rightarrow> span \<Rightarrow> string \<times> span list" where
  "replace_span str acc password =
     (let (redacted, replaced) = acc in
      if isBareEnvReference (drop (sp_from password) (take (sp_to password) str)) then (redacted, replaced)
      else (take (sp_from password) redacted @ redactionPlaceholder @ drop (sp_to password) redacted, replaced @ [password]))"

definition redactedConnectionStringSpans :: "string \<Rightarrow> string \<times> span list" where
  "redactedConnectionStringSpans str = foldl (replace_span str) (str, []) (passwordSpans str)"

definition redactedConnectionString :: "string \<Rightarrow> string" where
  "redactedConnectionString str = fst (redactedConnectionStringSpans str)"

section \<open>What the locators find\<close>

lemma separatorWidth_takeWhile: "separatorWidth s = length (takeWhile (\<lambda>c. c \<in> set libpqSeparators) s)"
proof -
  have "length s = length (takeWhile (\<lambda>c. c \<in> set libpqSeparators) s) + length (dropWhile (\<lambda>c. c \<in> set libpqSeparators) s)"
    by (metis length_append takeWhile_dropWhile_id)
  then show ?thesis by (simp add: separatorWidth_def)
qed

lemma separatorWidth_bound: "separatorWidth s \<le> length s"
  by (simp add: separatorWidth_def)

lemma separatorWidth_append:
  "set ws \<subseteq> set libpqSeparators \<Longrightarrow> separatorWidth (ws @ s) = length ws + separatorWidth s"
  by (auto simp: separatorWidth_takeWhile takeWhile_append2 subset_iff)

lemma separatorWidth_within: "c \<notin> set libpqSeparators \<Longrightarrow> separatorWidth (s @ c # t) \<le> length s"
  by (induction s) (auto simp: separatorWidth_takeWhile)

lemma separatorWidth_stop: "s \<noteq> [] \<Longrightarrow> hd s \<notin> set libpqSeparators \<Longrightarrow> separatorWidth s = 0" "separatorWidth [] = 0"
  by (cases s) (auto simp: separatorWidth_takeWhile)

lemma libpqValueAfter_bound: "libpqValueAfter s i = Some v \<Longrightarrow> i < v \<and> v \<le> length s"
proof -
  assume a: "libpqValueAfter s i = Some v"
  define e where "e = i + separatorWidth (drop i s)"
  from a have h: "HasPrefix (drop e s) ''=''" and v: "v = e + 1 + separatorWidth (drop (e + 1) s)"
    by (auto simp: libpqValueAfter_def e_def Let_def split: if_splits)
  from h have "e < length s" by (auto simp: HasPrefix_def) (metis drop_eq_Nil list.discI not_le_imp_less take_Nil)
  then show ?thesis using v separatorWidth_bound [of "drop (e + 1) s"] by (auto simp: e_def)
qed

lemma value_from_bound: "value_from s kw i = Some v \<Longrightarrow> v \<le> length s"
proof (induction s kw i rule: value_from.induct)
  case (1 s kw i)
  from "1.prems" show ?case
    by (subst (asm) value_from.simps)
      (auto simp: Let_def split: option.splits if_splits dest: libpqValueAfter_bound intro: "1.IH")
qed

lemma valueAfterKeyword_bound: "valueAfterKeyword s kw = Some v \<Longrightarrow> v \<le> length s"
  by (simp add: valueAfterKeyword_def value_from_bound)

text \<open>Between a keyword and its value stand separators and the equals sign only.\<close>

lemma libpqValueAfter_stops:
  assumes "libpqValueAfter s i = Some v" "i \<le> p" "p < length s" "s ! p \<notin> set libpqSeparators" "s ! p \<noteq> CHR ''=''"
  shows "v \<le> p"
proof -
  define e where "e = i + separatorWidth (drop i s)"
  from assms(1) have h: "HasPrefix (drop e s) ''=''" and v: "v = e + 1 + separatorWidth (drop (e + 1) s)"
    by (auto simp: libpqValueAfter_def e_def Let_def split: if_splits)
  have split: "drop j s = drop j (take p s) @ s ! p # drop (Suc p) s" if "j \<le> p" for j
    using assms(3) that by (metis Cons_nth_drop_Suc append_take_drop_id drop_append length_take min.absorb2 diff_is_0_eq drop0 less_imp_le_nat)
  have "e \<le> p" using separatorWidth_within [OF assms(4), of "drop i (take p s)" "drop (Suc p) s"] split [OF assms(2)] assms(2,3)
    by (simp add: e_def)
  moreover have "e \<noteq> p" using h assms(3,5) by (auto simp: HasPrefix_def take_Suc hd_drop_conv_nth split: if_splits)
  ultimately have "e + 1 \<le> p" by simp
  with separatorWidth_within [OF assms(4), of "drop (e + 1) (take p s)" "drop (Suc p) s"] split [OF this] assms(3)
  show ?thesis by (simp add: v)
qed

lemma Cut_earliest: "Cut s sub = Some (a, b) \<Longrightarrow> HasPrefix (drop k s) sub \<Longrightarrow> sub \<noteq> [] \<Longrightarrow> length a \<le> k"
proof (induction s arbitrary: a k)
  case (Cons c s)
  show ?case
  proof (cases "HasPrefix (c # s) sub")
    case False
    then have "k \<noteq> 0" using Cons.prems(2) by (cases k) auto
    then obtain j where "k = Suc j" by (cases k) auto
    with False Cons show ?thesis by auto
  qed (use Cons.prems in auto)
qed (auto split: if_splits)

lemma Cut_exists: "HasPrefix (drop k s) sub \<Longrightarrow> sub \<noteq> [] \<Longrightarrow> Cut s sub \<noteq> None"
proof (induction s arbitrary: k)
  case (Cons c s)
  then show ?case by (cases k) (auto, blast)
qed (simp add: HasPrefix_def)

lemma Cut_at: "Cut s sub = Some (a, b) \<Longrightarrow> s = a @ sub @ b"
proof (induction s arbitrary: a)
  case (Cons c s)
  then show ?case by (cases "HasPrefix (c # s) sub") (auto simp: HasPrefix_iff)
qed (auto split: if_splits)

text \<open>Two occurrences of the keyword do not overlap, so the scan misses none.\<close>

lemma HasPrefix_nth: "HasPrefix (drop i s) sub \<Longrightarrow> k < length sub \<Longrightarrow> i + k < length s \<and> s ! (i + k) = sub ! k"
proof -
  assume a: "HasPrefix (drop i s) sub" "k < length sub"
  then obtain t where t: "drop i s = sub @ t" by (auto simp: HasPrefix_iff)
  then have "length s - i = length sub + length t" by (metis length_append length_drop)
  with a(2) have "i + k < length s" by simp
  moreover from this have "s ! (i + k) = drop i s ! k" by simp
  ultimately show ?thesis using t a(2) by (simp add: nth_append)
qed

lemma keyword_apart:
  assumes "HasPrefix (drop i s) passwordKeyword" "HasPrefix (drop p s) passwordKeyword" "i < p"
  shows "i + length passwordKeyword \<le> p"
proof (rule ccontr)
  assume "\<not> ?thesis"
  then have k: "p - i < 8" "0 < p - i" using assms(3) by (simp_all add: passwordKeyword_def)
  have "passwordKeyword ! (p - i) = passwordKeyword ! 0"
    using HasPrefix_nth [OF assms(1), of "p - i"] HasPrefix_nth [OF assms(2), of 0] k assms(3) by (simp add: passwordKeyword_def)
  moreover from k have "p - i \<in> {1, 2, 3, 4, 5, 6, 7}" by auto
  ultimately show False by (auto simp: passwordKeyword_def)
qed

lemma value_from_covers:
  "HasPrefix (drop p s) passwordKeyword \<Longrightarrow> libpqValueAfter s (p + length passwordKeyword) = Some w \<Longrightarrow> i \<le> p \<Longrightarrow>
    \<exists>v. value_from s passwordKeyword i = Some v \<and> (v = w \<or> v \<le> p)"
proof (induction "length s - i" arbitrary: i rule: less_induct)
  case less
  let ?kw = passwordKeyword
  have ne: "?kw \<noteq> []" by (simp add: passwordKeyword_def)
  have at_p: "HasPrefix (drop (p - i) (drop i s)) ?kw" using less.prems by simp
  from Cut_exists [OF this ne] obtain a b where cut: "Cut (drop i s) ?kw = Some (a, b)" by auto
  define q where "q = i + length a"
  have found: "Index (drop i s) ?kw = Some (length a)" by (simp add: Index_def cut)
  have q: "HasPrefix (drop q s) ?kw" using arg_cong [OF Cut_at [OF cut], of "drop (length a)"] by (simp add: q_def add.commute)
  have "q \<le> p" using Cut_earliest [OF cut at_p ne] less.prems(3) by (simp add: q_def)
  show ?case
  proof (cases "q = p")
    case True
    then show ?thesis using less.prems found by (subst value_from.simps) (simp add: Let_def q_def)
  next
    case False
    then have apart: "q + length ?kw \<le> p" using keyword_apart [OF q less.prems(1)] \<open>q \<le> p\<close> by simp
    have head: "p < length s" "s ! p = CHR ''p''" using HasPrefix_nth [OF less.prems(1), of 0] by (simp_all add: passwordKeyword_def)
    show ?thesis
    proof (cases "libpqValueAfter s (q + length ?kw)")
      case None
      have "length s - (q + length ?kw) < length s - i" using apart head(1) by (simp add: q_def passwordKeyword_def)
      from less.hyps [OF this less.prems(1,2) apart] None ne found
      show ?thesis by (subst value_from.simps) (simp add: Let_def q_def)
    next
      case (Some v)
      then have "v \<le> p" using apart head by (intro libpqValueAfter_stops [OF Some]) (auto simp: libpqSeparators_def)
      with Some found show ?thesis by (subst value_from.simps) (simp add: Let_def q_def)
    qed
  qed
qed

text \<open>The lead of a secret written under the keyword: everything up to it.\<close>

definition assigned :: "string \<Rightarrow> string \<Rightarrow> string \<Rightarrow> string" where
  "assigned pre ws gap = pre @ passwordKeyword @ ws @ ''='' @ gap"

lemma assigned_value:
  assumes "set ws \<subseteq> set libpqSeparators" "set gap \<subseteq> set libpqSeparators" "secret \<noteq> [] \<Longrightarrow> hd secret \<notin> set libpqSeparators"
  shows "libpqValueAfter (assigned pre ws gap @ secret) (length pre + length passwordKeyword) = Some (length (assigned pre ws gap))"
proof -
  have "separatorWidth (CHR ''='' # gap @ secret) = 0" by (rule separatorWidth_stop) (auto simp: libpqSeparators_def)
  moreover have "separatorWidth secret = 0" using assms(3) separatorWidth_stop by (cases secret) auto
  ultimately show ?thesis
    using assms(1,2) by (simp add: libpqValueAfter_def assigned_def Let_def separatorWidth_append HasPrefix_def)
qed

lemma assigned_covered:
  assumes "set ws \<subseteq> set libpqSeparators" "set gap \<subseteq> set libpqSeparators" "secret \<noteq> [] \<Longrightarrow> hd secret \<notin> set libpqSeparators"
  shows "\<exists>v. valueAfterKeyword (assigned pre ws gap @ secret) passwordKeyword = Some v \<and> (v = length (assigned pre ws gap) \<or> v \<le> length pre)"
  unfolding valueAfterKeyword_def
  by (rule value_from_covers [OF _ assigned_value [OF assms]]) (simp_all add: assigned_def)

section \<open>What the replacement shows\<close>

text \<open>One or two spans, replaced.\<close>

lemma Index_byte_none: "b \<notin> set s \<Longrightarrow> IndexByte s b = None" "b \<notin> set s \<Longrightarrow> LastIndexByte s b = None"
  by (induction s) auto

lemma IndexByte_first: "b \<notin> set s \<Longrightarrow> IndexByte (s @ b # t) b = Some (length s)"
  by (induction s) auto

lemma LastIndexByte_last: "b \<notin> set t \<Longrightarrow> LastIndexByte (s @ b # t) b = Some (length s)"
  by (induction s) (auto simp: Index_byte_none)

lemma LastIndexByte_bound: "LastIndexByte s b = Some i \<Longrightarrow> i < length s"
  by (induction s arbitrary: i) (auto split: option.splits if_splits)

lemma IndexByte_bound: "IndexByte s b = Some i \<Longrightarrow> i < length s"
  by (induction s arbitrary: i) (auto split: if_splits)

lemma uriPasswordSpan_bound: "uriPasswordSpan s = Some u \<Longrightarrow> sp_from u \<le> sp_to u \<and> sp_to u < length s"
  by (auto simp: uriPasswordSpan_def Let_def split: option.splits if_splits dest!: LastIndexByte_bound IndexByte_bound)

lemma LastIndexByte_nth: "LastIndexByte s b = Some i \<Longrightarrow> s ! i = b"
  by (induction s arbitrary: i) (auto split: option.splits if_splits)

lemma uriPasswordSpan_at: "uriPasswordSpan s = Some u \<Longrightarrow> s ! sp_to u = CHR ''@''"
  by (auto simp: uriPasswordSpan_def Let_def split: option.splits if_splits dest: LastIndexByte_nth)

lemma bare_chars: "isBareEnvReference s \<Longrightarrow> CHR ''@'' \<notin> set s \<and> CHR ''='' \<notin> set s"
proof -
  assume "isBareEnvReference s"
  then obtain n where n: "s = referenceOpen @ n @ referenceClose" "variableName n"
    by (auto simp: isBareEnvReference_def CutPrefix_Some CutSuffix_Some split: option.splits)
  have "is_name_char c" if "c \<in> set n" for c using n(2) that by (cases n) (auto simp: is_name_char_def list_all_iff)
  then have "CHR ''@'' \<notin> set n" "CHR ''='' \<notin> set n" by (fastforce simp: is_name_char_def is_name_start_def)+
  then show ?thesis by (simp add: n(1) marks)
qed

lemma redacted_marked: "CHR ''@'' \<in> set s \<or> CHR ''='' \<in> set s \<Longrightarrow> redactedText s = redactionPlaceholder"
  using bare_chars by (auto simp: redactedText_def)

lemma uri_tail_not_bare:
  assumes "uriPasswordSpan s = Some u"
  shows "\<not> isBareEnvReference (drop (sp_from u) s)"
proof -
  have "drop (sp_from u) s ! (sp_to u - sp_from u) = CHR ''@''" "sp_to u - sp_from u < length (drop (sp_from u) s)"
    using uriPasswordSpan_bound [OF assms] uriPasswordSpan_at [OF assms] by auto
  then have "CHR ''@'' \<in> set (drop (sp_from u) s)" by (metis nth_mem)
  then show ?thesis using bare_chars by blast
qed

lemma replace_span_text:
  "fst (replace_span s (r, l) p) = (if isBareEnvReference (drop (sp_from p) (take (sp_to p) s)) then r
     else take (sp_from p) r @ redactionPlaceholder @ drop (sp_to p) r)"
  by (simp add: replace_span_def)

lemma replaced_one:
  assumes "a \<le> b" "b \<le> length s"
  shows "fst (replace_span s (s, l) (span_of a b)) = take a s @ redactedText (drop a (take b s)) @ drop b s"
proof -
  have "s = take a s @ drop a (take b s) @ drop b s"
    using assms by (metis append_take_drop_id append_assoc take_take min.absorb1)
  then show ?thesis by (auto simp: replace_span_text redactedText_def)
qed

lemma replaced_two:
  assumes "a \<le> b" "b < v" "v \<le> length s"
  shows "fst (foldl (replace_span s) (s, []) [span_of v (length s), span_of a b]) =
    take a s @ redactedText (drop a (take b s)) @ drop b (take v s) @ redactedText (drop v s)"
proof -
  define r where "r = take v s @ redactedText (drop v s)"
  have first: "fst (replace_span s (s, []) (span_of v (length s))) = r"
    using replaced_one [of v "length s" s "[]"] assms by (simp add: r_def)
  have parts: "take a r = take a s" "drop b r = drop b (take v s) @ redactedText (drop v s)" "take b r = take b s"
    using assms by (simp_all add: r_def min_def)
  have "r = take a r @ drop a (take b r) @ drop b r"
    using assms by (metis append_take_drop_id append_assoc take_take min.absorb1)
  then show ?thesis using first parts
    by (cases "replace_span s (s, []) (span_of v (length s))") (auto simp: replace_span_text redactedText_def)
qed

lemma passwordSpans_cases:
  "passwordSpans s = (case (valueAfterKeyword s passwordKeyword, uriPasswordSpan s) of
     (None, None) \<Rightarrow> []
   | (Some v, None) \<Rightarrow> [span_of v (length s)]
   | (None, Some u) \<Rightarrow> [u]
   | (Some v, Some u) \<Rightarrow> if sp_to u < v then [span_of v (length s), u] else [span_of (min v (sp_from u)) (length s)])"
proof (cases "uriPasswordSpan s")
  case None
  then show ?thesis by (auto simp: passwordSpans_def keywordPasswordSpans_def mergedSpans_def split: option.splits)
next
  case (Some u)
  note bound = uriPasswordSpan_bound [OF Some] and kw = valueAfterKeyword_bound [of s passwordKeyword]
  show ?thesis
  proof (cases "valueAfterKeyword s passwordKeyword")
    case None
    with Some show ?thesis by (simp add: passwordSpans_def keywordPasswordSpans_def mergedSpans_def)
  next
    case (Some v)
    with \<open>uriPasswordSpan s = Some u\<close> bound kw [OF Some] show ?thesis
      by (cases u) (auto simp: passwordSpans_def keywordPasswordSpans_def mergedSpans_def min_def max_def)
  qed
qed

text \<open>The text shown, on every reading the locators can have.\<close>

lemma redacted_cases:
  "redactedConnectionString s = (case (valueAfterKeyword s passwordKeyword, uriPasswordSpan s) of
     (None, None) \<Rightarrow> s
   | (Some v, None) \<Rightarrow> take v s @ redactedText (drop v s)
   | (None, Some u) \<Rightarrow> take (sp_from u) s @ redactedText (drop (sp_from u) (take (sp_to u) s)) @ drop (sp_to u) s
   | (Some v, Some u) \<Rightarrow>
       if sp_to u < v then take (sp_from u) s @ redactedText (drop (sp_from u) (take (sp_to u) s)) @ drop (sp_to u) (take v s) @ redactedText (drop v s)
       else take (min v (sp_from u)) s @ redactedText (drop (min v (sp_from u)) s))"
proof -
  have one: "fst (replace_span s (s, []) u) = take (sp_from u) s @ redactedText (drop (sp_from u) (take (sp_to u) s)) @ drop (sp_to u) s"
    if "sp_from u \<le> sp_to u" "sp_to u \<le> length s" for u
    using replaced_one [of "sp_from u" "sp_to u" s "[]"] that by (cases u) simp
  have two: "fst (foldl (replace_span s) (s, []) [span_of v (length s), u]) =
      take (sp_from u) s @ redactedText (drop (sp_from u) (take (sp_to u) s)) @ drop (sp_to u) (take v s) @ redactedText (drop v s)"
    if "sp_from u \<le> sp_to u" "sp_to u < v" "v \<le> length s" for u v
    using replaced_two [of "sp_from u" "sp_to u" v s] that by (cases u) simp
  show ?thesis
    using uriPasswordSpan_bound [of s] valueAfterKeyword_bound [of s passwordKeyword]
    unfolding redactedConnectionString_def redactedConnectionStringSpans_def passwordSpans_cases
    by (auto simp: one two simp del: foldl.simps(2) split: option.splits) (auto simp: one)
qed

text \<open>A URI with a password, redacted.\<close>

lemma uri_redacted:
  assumes "CHR '':'' \<notin> set scheme" "CHR '':'' \<notin> set user" "CHR ''@'' \<notin> set host" "\<not> isBareEnvReference pw"
  defines "lead_in \<equiv> scheme @ schemeSeparator @ user @ '':''"
  defines "str \<equiv> lead_in @ pw @ ''@'' @ host"
  shows "redactedConnectionString str = (case valueAfterKeyword str passwordKeyword of
      None \<Rightarrow> lead_in @ redactionPlaceholder @ ''@'' @ host
    | Some v \<Rightarrow> if v \<le> length (lead_in @ pw) then take v lead_in @ redactionPlaceholder
        else let rest = v - length (lead_in @ pw @ ''@'') in
          lead_in @ redactionPlaceholder @ ''@'' @ take rest host @ redactedText (drop rest host))"
proof -
  have "Cut (scheme @ schemeSeparator @ user @ '':'' @ pw @ ''@'' @ host) schemeSeparator = Some (scheme, user @ '':'' @ pw @ ''@'' @ host)"
    by (rule Cut_found) (use assms(1) in \<open>auto simp: schemeSeparator_def HasPrefix_def neq_Nil_conv\<close>)
  then have idx: "Index str schemeSeparator = Some (length scheme)" by (simp add: Index_def str_def lead_in_def)
  have at: "LastIndexByte str (CHR ''@'') = Some (length (lead_in @ pw))"
    using LastIndexByte_last [OF assms(3), of "lead_in @ pw"] by (simp add: str_def)
  have "IndexByte (user @ CHR '':'' # pw) (CHR '':'') = Some (length user)" by (rule IndexByte_first [OF assms(2)])
  moreover have "drop (length scheme + 3) (take (length (lead_in @ pw)) str) = user @ CHR '':'' # pw"
    by (simp add: str_def lead_in_def schemeSeparator_def eval_nat_numeral)
  ultimately have uri: "uriPasswordSpan str = Some (span_of (length lead_in) (length (lead_in @ pw)))"
    unfolding uriPasswordSpan_def idx at by (simp add: Let_def lead_in_def schemeSeparator_def numeral_3_eq_3)
  have shown: "redactedText pw = redactionPlaceholder" using assms(4) by (simp add: redactedText_def)
  have tail: "redactedText (drop k str) = redactionPlaceholder" if "k \<le> length (lead_in @ pw)" for k
  proof -
    have "CHR ''@'' \<in> set (drop k str)" using that by (simp add: str_def)
    then show ?thesis by (blast intro: redacted_marked)
  qed
  show ?thesis
  proof (cases "valueAfterKeyword str passwordKeyword")
    case None
    then show ?thesis using uri shown by (simp add: redacted_cases) (simp add: str_def)
  next
    case (Some v)
    show ?thesis
    proof (cases "v \<le> length (lead_in @ pw)")
      case True
      then have "min v (length lead_in) \<le> length (lead_in @ pw)" by simp
      from tail [OF this] have "redactedConnectionString str = take (min v (length lead_in)) str @ redactionPlaceholder"
        using Some uri True by (simp add: redacted_cases)
      also have "take (min v (length lead_in)) str = take v lead_in" by (simp add: str_def min_def)
      finally show ?thesis using Some True by simp
    next
      case False
      then obtain j where "v = Suc (length (lead_in @ pw)) + j" by (metis less_iff_Suc_add linorder_not_le add_Suc)
      with Some uri shown False show ?thesis by (simp add: redacted_cases) (simp add: str_def)
    qed
  qed
qed

section \<open>Properties\<close>

text \<open>C36. The password of a connection URI is never shown. Whatever a password holds, colons, slashes, further at signs, a second
  scheme or the keyword itself, what is shown of the URI before it is a prefix of what was written, the placeholder stands for the
  password, and the host and what follows survive unless a password assignment starts before them; of a query that assigns a
  password only the part up to its value survives, then the placeholder or the bare environment reference written there.\<close>

theorem uri_password_is_contained:
  assumes "CHR '':'' \<notin> set scheme" "CHR '':'' \<notin> set user" "CHR ''@'' \<notin> set host" "\<not> isBareEnvReference pw"
  defines "lead_in \<equiv> scheme @ schemeSeparator @ user @ '':''"
  defines "str \<equiv> lead_in @ pw @ ''@'' @ host"
  shows "redactedConnectionString str = (case valueAfterKeyword str passwordKeyword of
      None \<Rightarrow> lead_in @ redactionPlaceholder @ ''@'' @ host
    | Some v \<Rightarrow> if v \<le> length (lead_in @ pw) then take v lead_in @ redactionPlaceholder
        else let rest = v - length (lead_in @ pw @ ''@'') in
          lead_in @ redactionPlaceholder @ ''@'' @ take rest host @ redactedText (drop rest host))"
  unfolding lead_in_def str_def by (rule uri_redacted [OF assms(1-4)])

theorem uri_password_is_contained_witness:
  "redactedConnectionString ''pg://u:a:b@c@h/db'' = ''pg://u:[redacted]@h/db''"
proof -
  have none: "valueAfterKeyword ''pg://u:a:b@c@h/db'' passwordKeyword = None" by code_simp
  have "\<not> isBareEnvReference ''a:b@c''" by code_simp
  from uri_password_is_contained [of "''pg''" "''u''" "''h/db''", OF _ _ _ this] none show ?thesis
    by (simp add: schemeSeparator_def redactionPlaceholder_def)
qed

text \<open>A password assigned under the keyword is never shown, whatever text precedes it, however the assignment is spaced, and
  whatever the secret holds after its first byte: what is shown is text from before the secret, possibly with a password of its own
  replaced, and then the placeholder.\<close>

theorem assigned_password_is_contained:
  fixes pre :: string
  assumes "set ws \<subseteq> set libpqSeparators" "set gap \<subseteq> set libpqSeparators" "secret \<noteq> [] \<Longrightarrow> hd secret \<notin> set libpqSeparators"
    and "\<not> isBareEnvReference secret"
  defines "lead_in \<equiv> assigned pre ws gap"
  shows "\<exists>k \<le> length lead_in. redactedConnectionString (lead_in @ secret) = take k lead_in @ redactionPlaceholder \<or>
    (\<exists>a b. a \<le> b \<and> b < k \<and> redactedConnectionString (lead_in @ secret) =
       take a lead_in @ redactedText (drop a (take b lead_in)) @ drop b (take k lead_in) @ redactionPlaceholder)"
proof -
  let ?s = "lead_in @ secret"
  from assigned_covered [OF assms(1-3), of pre]
  obtain v where v: "valueAfterKeyword ?s passwordKeyword = Some v" "v = length lead_in \<or> v \<le> length pre"
    by (auto simp: lead_in_def)
  have tail: "redactedText (drop k ?s) = redactionPlaceholder" if "k = length lead_in \<or> k \<le> length pre" for k
  proof (cases "k = length lead_in")
    case True
    then show ?thesis using assms(4) by (simp add: redactedText_def)
  next
    case False
    then have "CHR ''='' \<in> set (drop k ?s)" using that by (simp add: lead_in_def assigned_def)
    then show ?thesis by (blast intro: redacted_marked)
  qed
  have vle: "v \<le> length lead_in" using v(2) by (auto simp: lead_in_def assigned_def)
  show ?thesis
  proof (cases "uriPasswordSpan ?s")
    case None
    then show ?thesis using v tail [OF v(2)] vle by (intro exI [of _ v]) (simp add: redacted_cases)
  next
    case (Some u)
    show ?thesis
    proof (cases "sp_to u < v")
      case True
      then show ?thesis using Some v tail [OF v(2)] vle uriPasswordSpan_bound [OF Some]
        by (intro exI [of _ v] conjI disjI2 exI [of _ "sp_from u"] exI [of _ "sp_to u"]) (simp_all add: redacted_cases)
    next
      case False
      have "redactedText (drop (min v (sp_from u)) ?s) = redactionPlaceholder"
      proof (cases "v \<le> sp_from u")
        case True
        then show ?thesis using tail [OF v(2)] by (simp add: min_def)
      next
        case False
        then show ?thesis using uri_tail_not_bare [OF Some] bare_chars by (auto simp: redactedText_def min_def)
      qed
      then show ?thesis using Some v False vle by (intro exI [of _ "min v (sp_from u)"]) (simp add: redacted_cases)
    qed
  qed
qed

theorem assigned_password_is_contained_witness:
  "\<exists>k \<le> length ''host=h password = ''. redactedConnectionString ''host=h password = a b'' = take k ''host=h password = '' @ redactionPlaceholder \<or>
    (\<exists>a b. a \<le> b \<and> b < k \<and> redactedConnectionString ''host=h password = a b'' =
       take a ''host=h password = '' @ redactedText (drop a (take b ''host=h password = '')) @ drop b (take k ''host=h password = '') @ redactionPlaceholder)"
proof -
  have "\<not> isBareEnvReference ''a b''" by code_simp
  from assigned_password_is_contained [of "'' ''" "'' ''" "''a b''" "''host=h ''", OF _ _ _ this] show ?thesis
    by (simp add: assigned_def passwordKeyword_def libpqSeparators_def)
qed

end
