(* ===== verification/Config_Names.thy ===== *)
theory Config_Names
  imports Conn_String Quoting Storable_Text
begin

text \<open>
  The predicates of \<open>config/ident.go\<close> on single configuration values: names, identifiers, qualified tables, HTTP field names,
  connection strings and destination URLs. Go's Unicode letter table and \<open>net/url\<close>'s parser are parameters. The properties say that
  what these predicates accept is what the rest of the program can use.
\<close>

section \<open>Names\<close>

definition maxIdentifierBytes :: nat where "maxIdentifierBytes = 63"

definition name_start :: "char \<Rightarrow> bool" where
  "name_start c \<longleftrightarrow> CHR ''a'' \<le> c \<and> c \<le> CHR ''z''"

definition name_tail :: "char \<Rightarrow> bool" where
  "name_tail c \<longleftrightarrow> CHR ''a'' \<le> c \<and> c \<le> CHR ''z'' \<or> CHR ''0'' \<le> c \<and> c \<le> CHR ''9'' \<or> c = CHR ''_''"

fun nameCharsetPattern :: "string \<Rightarrow> bool" where
  "nameCharsetPattern [] = False"
| "nameCharsetPattern (c # s) = (name_start c \<and> list_all name_tail s)"

fun namePattern :: "string \<Rightarrow> bool" where
  "namePattern [] = False"
| "namePattern (c # s) = (name_start c \<and> list_all name_tail s \<and> length s \<le> 40)"

datatype nameDefect = nameOK | nameEmpty | nameBadCharset | nameTooLong

definition nameRuleDefect :: "string \<Rightarrow> nameDefect" where
  "nameRuleDefect value =
     (if namePattern value then nameOK
      else if value = [] then nameEmpty
      else if \<not> nameCharsetPattern value then nameBadCharset
      else nameTooLong)"

section \<open>Identifiers\<close>

type_synonym letters = "nat \<Rightarrow> bool"

text \<open>What \<open>unicode.IsLetter\<close> documents: the letters of ASCII are the two alphabets, and the replacement rune is a symbol.\<close>

definition letters_law :: "letters \<Rightarrow> bool" where
  "letters_law letter \<longleftrightarrow>
     (\<forall>r < 128. letter r \<longleftrightarrow> 65 \<le> r \<and> r \<le> 90 \<or> 97 \<le> r \<and> r \<le> 122) \<and> \<not> letter RuneError"

datatype identDefect = identOK | identEmpty | identBadCharset | identTooLong

definition isDigit :: "nat \<Rightarrow> bool" where
  "isDigit char \<longleftrightarrow> 48 \<le> char \<and> char \<le> 57"

definition isIdentifierStart :: "letters \<Rightarrow> nat \<Rightarrow> bool" where
  "isIdentifierStart letter char \<longleftrightarrow> char = 95 \<or> letter char"

definition isIdentifierChar :: "letters \<Rightarrow> nat \<Rightarrow> bool" where
  "isIdentifierChar letter char \<longleftrightarrow> isIdentifierStart letter char \<or> isDigit char \<or> char = 36"

text \<open>The runes Go's \<open>range\<close> visits.\<close>

function runes :: "string \<Rightarrow> nat list" where
  "runes s = (if s = [] then [] else fst (DecodeRune s) # runes (drop (max (snd (DecodeRune s)) 1) s))"
  by pat_completeness auto
termination
  by (relation "measure length") auto

declare runes.simps [simp del]

definition isIdentifierText :: "letters \<Rightarrow> string \<Rightarrow> bool" where
  "isIdentifierText letter value =
     (let (first, width) = DecodeRune value in
      isIdentifierStart letter first \<and> list_all (isIdentifierChar letter) (runes (drop width value)))"

definition identifierDefect :: "letters \<Rightarrow> string \<Rightarrow> identDefect" where
  "identifierDefect letter value =
     (if value = [] then identEmpty
      else if \<not> isIdentifierText letter value then identBadCharset
      else if length value > maxIdentifierBytes then identTooLong
      else identOK)"

definition reservedSchemaPrefix :: string where "reservedSchemaPrefix = ''pg_''"
definition suggestedSchema :: string where "suggestedSchema = ''noty''"

text \<open>\<open>strings.EqualFold\<close> against an ASCII prefix holding neither k nor s, whose letters have no fold outside ASCII.\<close>

definition hasPrefixFold :: "string \<Rightarrow> string \<Rightarrow> bool" where
  "hasPrefixFold value prefix \<longleftrightarrow> length value \<ge> length prefix \<and> map lower_ascii (take (length prefix) value) = map lower_ascii prefix"

definition usesReservedSchemaPrefix :: "string \<Rightarrow> bool" where
  "usesReservedSchemaPrefix name = hasPrefixFold name reservedSchemaPrefix"

section \<open>Tables\<close>

definition tableSeparator :: string where "tableSeparator = ''.''"

datatype tableFault = tableOK | tableNotQualified | tableSchemaPartInvalid | tableNamePartInvalid

definition splitQualifiedTable :: "string \<Rightarrow> (string \<times> string) option" where
  "splitQualifiedTable value =
     (case Cut value tableSeparator of
        None \<Rightarrow> None
      | Some (schema, table) \<Rightarrow> if Contains table tableSeparator then None else Some (schema, table))"

definition qualifiedTableFault :: "letters \<Rightarrow> string \<Rightarrow> tableFault \<times> identDefect" where
  "qualifiedTableFault letter value =
     (case splitQualifiedTable value of
        None \<Rightarrow> (tableNotQualified, identOK)
      | Some (schema, table) \<Rightarrow>
          if identifierDefect letter schema \<noteq> identOK then (tableSchemaPartInvalid, identifierDefect letter schema)
          else if identifierDefect letter table \<noteq> identOK then (tableNamePartInvalid, identifierDefect letter table)
          else (tableOK, identOK))"

section \<open>HTTP field names\<close>

definition tchar :: "char \<Rightarrow> bool" where
  "tchar c \<longleftrightarrow> CHR ''0'' \<le> c \<and> c \<le> CHR ''9'' \<or> CHR ''A'' \<le> c \<and> c \<le> CHR ''Z'' \<or> CHR ''a'' \<le> c \<and> c \<le> CHR ''z'' \<or>
     c \<in> set ''-!#$%&*+.^_|~'' \<or> c = CHR 0x27 \<or> c = CHR 0x60"

definition validHTTPFieldName :: "string \<Rightarrow> bool" where
  "validHTTPFieldName name \<longleftrightarrow> name \<noteq> [] \<and> list_all tchar name"

definition upper_ascii :: "char \<Rightarrow> char" where
  "upper_ascii c = (if 97 \<le> (of_char c :: nat) \<and> (of_char c :: nat) \<le> 122 then char_of ((of_char c :: nat) - 32) else c)"

text \<open>\<open>textproto.CanonicalMIMEHeaderKey\<close> on a field name: upper case at the start and after each hyphen, lower case elsewhere.\<close>

fun canonical_from :: "bool \<Rightarrow> string \<Rightarrow> string" where
  "canonical_from upper [] = []"
| "canonical_from upper (c # s) = (if upper then upper_ascii c else lower_ascii c) # canonical_from (c = CHR ''-'') s"

definition canonicalHTTPFieldName :: "string \<Rightarrow> string option" where
  "canonicalHTTPFieldName name = (if \<not> validHTTPFieldName name then None else Some (canonical_from True name))"

definition reservedHeaderPrefix :: string where "reservedHeaderPrefix = ''X-Pg-Noty-''"

definition usesReservedHeaderPrefix :: "string \<Rightarrow> bool" where
  "usesReservedHeaderPrefix name = hasPrefixFold name reservedHeaderPrefix"

section \<open>Connection strings\<close>

datatype connStringForm = connStringInvalid | connStringURI | connStringKeywordValue

definition connectionURIDesignator :: string where "connectionURIDesignator = ''postgresql://''"
definition shortConnectionURIDesignator :: string where "shortConnectionURIDesignator = ''postgres://''"

definition hasConnectionURIDesignator :: "string \<Rightarrow> bool" where
  "hasConnectionURIDesignator value \<longleftrightarrow> HasPrefix value connectionURIDesignator \<or> HasPrefix value shortConnectionURIDesignator"

definition isConnectionKeywordChar :: "letters \<Rightarrow> nat \<Rightarrow> bool" where
  "isConnectionKeywordChar letter char \<longleftrightarrow> isIdentifierStart letter char \<or> isDigit char"

text \<open>The loop of \<open>connectionKeywordWidth\<close>, from an offset.\<close>

function keyword_from :: "letters \<Rightarrow> string \<Rightarrow> nat \<Rightarrow> nat" where
  "keyword_from letter str at =
     (if at \<ge> length str then length str
      else let (char, width) = DecodeRune (drop at str) in
        if at = 0 \<and> \<not> isIdentifierStart letter char then 0
        else if \<not> isConnectionKeywordChar letter char then at
        else keyword_from letter str (at + max width 1))"
  by pat_completeness auto
termination
  by (relation "measure (\<lambda>(letter, str, at). length str - at)") auto

declare keyword_from.simps [simp del]

definition connectionKeywordWidth :: "letters \<Rightarrow> string \<Rightarrow> nat" where
  "connectionKeywordWidth letter str = keyword_from letter str 0"

definition beginsWithConnectionKeyword :: "letters \<Rightarrow> string \<Rightarrow> bool" where
  "beginsWithConnectionKeyword letter value =
     (let start = separatorWidth value; keyword = connectionKeywordWidth letter (drop start value) in
      keyword \<noteq> 0 \<and> libpqValueAfter value (start + keyword) \<noteq> None)"

definition connectionStringForm :: "letters \<Rightarrow> string \<Rightarrow> connStringForm" where
  "connectionStringForm letter value =
     (if hasConnectionURIDesignator value then connStringURI
      else if beginsWithConnectionKeyword letter value then connStringKeywordValue
      else connStringInvalid)"

section \<open>Destination URLs\<close>

datatype urlDefect = urlOK | urlEmpty | urlUnparseable | urlBadScheme | urlNoHost

text \<open>The parser answers the reason of its error, or the scheme and the host.\<close>

type_synonym url_parser = "string \<Rightarrow> string + string \<times> string"

definition destinationURLDefect :: "url_parser \<Rightarrow> string \<Rightarrow> urlDefect \<times> string" where
  "destinationURLDefect parse value =
     (if value = [] then (urlEmpty, [])
      else case parse value of
          Inl reason \<Rightarrow> (urlUnparseable, reason)
        | Inr (scheme, host) \<Rightarrow>
            if scheme \<noteq> ''http'' \<and> scheme \<noteq> ''https'' then (urlBadScheme, [])
            else if host = [] then (urlNoHost, [])
            else (urlOK, []))"

section \<open>What is accepted\<close>

lemma nameOK_iff: "nameRuleDefect v = nameOK \<longleftrightarrow> nameCharsetPattern v \<and> length v \<le> 41"
  by (cases v) (auto simp: nameRuleDefect_def)

lemma name_defect_exact:
  "nameRuleDefect v = nameTooLong \<longleftrightarrow> nameCharsetPattern v \<and> length v > 41"
  by (cases v) (auto simp: nameRuleDefect_def)

lemma name_chars_safe: "nameCharsetPattern v \<Longrightarrow> c \<in> set v \<Longrightarrow> c \<noteq> NUL \<and> c \<noteq> CHR '':'' \<and> c \<noteq> DQ"
proof -
  assume "nameCharsetPattern v" "c \<in> set v"
  then have "name_tail c" by (cases v) (auto simp: name_start_def name_tail_def list_all_iff)
  then show ?thesis by (auto simp: name_tail_def NUL_def DQ_def)
qed

lemma letters_reject:
  assumes "letters_law letter"
  shows "\<not> isIdentifierChar letter RuneError" "\<not> isIdentifierChar letter 0" "\<not> isIdentifierChar letter 46" "\<not> isIdentifierChar letter 34"
  using assms by (auto simp: letters_law_def isIdentifierChar_def isIdentifierStart_def isDigit_def RuneError_def)

lemma DecodeRune_ascii: "of_char c < (128::nat) \<Longrightarrow> DecodeRune (c # s) = (of_char c, 1)"
  by (simp add: DecodeRune_def byte_at_def)

text \<open>A text whose runes all pass a test that refuses the replacement rune and zero can be stored; an ASCII character it refuses
  does not occur in it.\<close>

lemma runes_storable:
  "list_all ok (runes s) \<Longrightarrow> \<not> ok RuneError \<Longrightarrow> \<not> ok 0 \<Longrightarrow> storable s"
proof (induction s rule: runes.induct)
  case (1 s)
  show ?case
  proof (cases "s = []")
    case True
    then show ?thesis by (simp add: storable_def ValidString.simps [of "[]"])
  next
    case ne: False
    let ?r = "fst (DecodeRune s)" and ?w = "snd (DecodeRune s)"
    from "1.prems"(1) ne have r: "ok ?r" and tl: "list_all ok (runes (drop (max ?w 1) s))"
      by (simp_all add: runes.simps [of s])
    then have good: "\<not> (?r = RuneError \<and> ?w \<le> 1)" and nz: "?r \<noteq> 0" using "1.prems" by metis+
    note g = decode_good_full [OF good ne]
    have IH: "storable (drop (max ?w 1) s)" by (rule "1.IH" [OF ne tl "1.prems"(2,3)])
    have "ValidString s" using IH ne good by (subst ValidString.simps) (simp add: storable_def)
    moreover have "NUL \<notin> set (take ?w s)" by (rule g(4) [OF nz])
    moreover have "max ?w 1 = ?w" using g(2) by simp
    then have "s = take ?w s @ drop (max ?w 1) s" by simp
    ultimately show ?thesis using IH by (metis Un_iff set_append storable_def)
  qed
qed

lemma identOK_usable:
  assumes "letters_law letter" "identifierDefect letter v = identOK"
  shows "WhyUnusable v = IdentifierOK" "storable v"
proof -
  from assms(2) have ne: "v \<noteq> []" and shape: "isIdentifierText letter v" and len: "length v \<le> 63"
    by (auto simp: identifierDefect_def maxIdentifierBytes_def split: if_splits)
  let ?r = "fst (DecodeRune v)" and ?w = "snd (DecodeRune v)"
  from shape have start: "isIdentifierChar letter ?r" and tl: "list_all (isIdentifierChar letter) (runes (drop ?w v))"
    by (auto simp: isIdentifierText_def isIdentifierChar_def Let_def split: prod.splits)
  then have "\<not> (?r = RuneError \<and> ?w \<le> 1)" using letters_reject(1) [OF assms(1)] by metis
  from decode_good_full(2) [OF this ne] have "max ?w 1 = ?w" by simp
  then have "list_all (isIdentifierChar letter) (runes v)" using start tl ne by (simp add: runes.simps [of v])
  then show "storable v" by (rule runes_storable) (use letters_reject [OF assms(1)] in auto)
  then show "WhyUnusable v = IdentifierOK" using ne len by (simp add: WhyUnusable_OK MaxIdentifierBytes_def storable_def)
qed

lemma reserved_prefixes_agree: "usesReservedSchemaPrefix n = claimsReservedSchemaPrefix n"
  by (simp add: usesReservedSchemaPrefix_def hasPrefixFold_def reservedSchemaPrefix_def claimsReservedSchemaPrefix_def
      lower_ascii_def numeral_3_eq_3)

lemma name_is_identifier: "nameRuleDefect v = nameOK \<Longrightarrow> WhyUnusable v = IdentifierOK"
proof -
  assume "nameRuleDefect v = nameOK"
  then have n: "nameCharsetPattern v" "length v \<le> 41" by (simp_all add: nameOK_iff)
  then have "NUL \<notin> set v" "v \<noteq> []" using name_chars_safe [OF n(1)] by auto
  with n(2) show ?thesis by (simp add: WhyUnusable_OK MaxIdentifierBytes_def)
qed

lemma splitQualifiedTable_Some: "splitQualifiedTable v = Some (schema, table) \<Longrightarrow> v = schema @ ''.'' @ table"
  by (auto simp: splitQualifiedTable_def tableSeparator_def dest: Cut_at split: option.splits if_splits)

section \<open>Field names differ only in case\<close>

lemma fold_code:
  "(if 97 \<le> a \<and> a \<le> 122 then a - 32 else a) = (if 97 \<le> b \<and> b \<le> 122 then b - 32 else b) \<longleftrightarrow>
   (if 65 \<le> a \<and> a \<le> 90 then a + 32 else a) = (if 65 \<le> b \<and> b \<le> 90 then b + 32 else b)" for a b :: nat
  by auto

lemma ascii_codes:
  "of_char (upper_ascii x) = (if 97 \<le> (of_char x :: nat) \<and> (of_char x :: nat) \<le> 122 then of_char x - 32 else (of_char x :: nat))"
  "of_char (lower_ascii x) = (if 65 \<le> (of_char x :: nat) \<and> (of_char x :: nat) \<le> 90 then of_char x + 32 else (of_char x :: nat))"
  by (auto simp: upper_ascii_def lower_ascii_def)

lemma fold_char: "upper_ascii c = upper_ascii d \<longleftrightarrow> lower_ascii c = lower_ascii d"
  using fold_code [of "of_char c" "of_char d"] unfolding ascii_codes [symmetric] by (simp only: of_char_eq_iff)

lemma fold_hyphen: "lower_ascii c = lower_ascii d \<Longrightarrow> c = CHR ''-'' \<longleftrightarrow> d = CHR ''-''"
proof -
  have "lower_ascii x = CHR ''-'' \<longleftrightarrow> x = CHR ''-''" for x
  proof -
    have "(of_char (lower_ascii x) = (45 :: nat)) \<longleftrightarrow> (of_char x = (45 :: nat))" by (auto simp: lower_ascii_def)
    moreover have "(of_char y = (45 :: nat)) \<longleftrightarrow> y = CHR ''-''" for y
      using of_char_eq_iff [of y "CHR ''-''", where 'a = nat] by simp
    ultimately show ?thesis by blast
  qed
  then show "lower_ascii c = lower_ascii d \<Longrightarrow> c = CHR ''-'' \<longleftrightarrow> d = CHR ''-''" by metis
qed

lemma canonical_fold: "canonical_from u n = canonical_from u m \<longleftrightarrow> map lower_ascii n = map lower_ascii m"
proof (induction n arbitrary: u m)
  case Nil
  then show ?case by (cases m) auto
next
  case (Cons c n)
  show ?case
  proof (cases m)
    case (Cons d m')
    then show ?thesis using Cons.IH [of "c = CHR ''-''" m'] fold_char [of c d] fold_hyphen [of c d] by auto
  qed simp
qed

section \<open>Properties\<close>

text \<open>C39. A table name the configuration accepts is one the program can use. It splits at its one dot into two parts, each part
  is an identifier the rest of the program accepts and text PostgreSQL can store, and the qualified name built from the parts
  through the driver's quoter is accepted and reads back as the same parts.\<close>

theorem accepted_table_is_usable:
  assumes "letters_law letter" "sanitizer_law san" "fst (qualifiedTableFault letter v) = tableOK"
  shows "\<exists>schema table q. splitQualifiedTable v = Some (schema, table) \<and> v = schema @ ''.'' @ table \<and>
    storable schema \<and> storable table \<and> Qualified san schema table = (q, IdentifierOK) \<and> SplitQualified q = Some (schema, table)"
proof -
  from assms(3) obtain schema table where parts: "splitQualifiedTable v = Some (schema, table)"
    and ok: "identifierDefect letter schema = identOK" "identifierDefect letter table = identOK"
    by (auto simp: qualifiedTableFault_def split: option.splits if_splits)
  note u = identOK_usable [OF assms(1) ok(1)] identOK_usable [OF assms(1) ok(2)]
  have "san [schema, table] = dquoted schema @ ''.'' @ dquoted table"
    using assms(2) u(2,4) by (simp add: sanitizer_law_def storable_def)
  moreover have "schema \<noteq> []" "table \<noteq> []" using u(1,3) by (auto simp: WhyUnusable_def)
  ultimately have "Qualified san schema table = (dquoted schema @ ''.'' @ dquoted table, IdentifierOK)"
    "SplitQualified (dquoted schema @ ''.'' @ dquoted table) = Some (schema, table)"
    using u SplitQualified_dquoted [of schema table] by (simp_all add: Qualified_def)
  then show ?thesis using parts splitQualifiedTable_Some u by blast
qed

theorem accepted_table_is_usable_witness:
  "\<exists>schema table q. splitQualifiedTable ''a.b'' = Some (schema, table) \<and> ''a.b'' = schema @ ''.'' @ table \<and>
    storable schema \<and> storable table \<and> Qualified (\<lambda>parts. Join (map dquoted parts) ''.'') schema table = (q, IdentifierOK) \<and>
    SplitQualified q = Some (schema, table)"
proof -
  let ?letter = "\<lambda>r. 65 \<le> r \<and> r \<le> 90 \<or> 97 \<le> r \<and> r \<le> (122::nat)"
  have letters: "letters_law ?letter" by (simp add: letters_law_def RuneError_def)
  have "sanitizer_law (\<lambda>parts. Join (map dquoted parts) ''.'')" by (simp add: sanitizer_law_def)
  moreover have "fst (qualifiedTableFault ?letter ''a.b'') = tableOK" by code_simp
  ultimately show ?thesis by (rule accepted_table_is_usable [OF letters])
qed

end
