(* ===== verification/Config_Merge.thy ===== *)
theory Config_Merge
  imports Config_Names Diagnostics Trigger_Sql
begin

text \<open>
  The configuration as written and as resolved: the decode targets of \<open>config/raw.go\<close> with the wrappers of \<open>presence.go\<close>,
  \<open>scalar.go\<close>, \<open>scalarlist.go\<close>, \<open>rawcontainer.go\<close>, \<open>rawheaders.go\<close> and \<open>rawoperations.go\<close>, the resolved types of
  \<open>config.go\<close>, the built-in defaults of \<open>defaults.go\<close> and the three-layer resolution of \<open>merge.go\<close>. A YAML node is a number,
  its identity; the position and the refusals of a value are those stage G resolves; the position fields of resolved values, which only diagnostics read, are left out.
\<close>

section \<open>Values as written\<close>

record presence =
  pr_Set :: bool
  pr_node :: nat
  pr_at :: "Positioned option"
  pr_refused :: "(Positioned \<times> fault) list"

definition Valid :: "'a presence_scheme \<Rightarrow> bool" where
  "Valid p \<longleftrightarrow> pr_Set p \<and> pr_refused p = []"

definition wasWritten :: "'a presence_scheme \<Rightarrow> bool" where
  "wasWritten p = pr_Set p"

definition where_at :: "'a presence_scheme \<Rightarrow> Positioned" where
  "where_at p = (case pr_at p of None \<Rightarrow> \<lparr>ps_File = [], ps_Line = 0, ps_Col = 0, ps_Path = []\<rparr> | Some at \<Rightarrow> at)"

record Str = presence + st_value :: string
record Integer = presence + in_value :: int
record Bool = presence + bo_value :: bool
record Dur = presence + du_value :: duration
record StrList = presence + sl_values :: "Str list"
record 'a mappingOf = presence + mp_Value :: 'a
record 'a listOf = presence + lo_Values :: "'a list"

record rawOperation =
  ro_Columns :: StrList
  ro_IsDistinct :: Bool
  ro_When :: Str

record namedOperation =
  no_Name :: Str
  no_Filter :: rawOperation

record rawOperations = presence + os_values :: "namedOperation list"

record writtenHeader =
  wh_Name :: Str
  wh_Value :: Str

record rawHeaders = presence + hd_values :: "writtenHeader list"

record rawDatabase =
  rdb_URL :: Str
  rdb_Schema :: Str
  rdb_ListenURL :: Str

record rawWorker =
  rwk_Concurrency :: Integer
  rwk_BatchSize :: Integer
  rwk_PollInterval :: Dur
  rwk_LeaseTimeout :: Dur
  rwk_DrainTimeout :: Dur
  rwk_AllowedDestinationCIDRs :: StrList

record rawRetention =
  rrt_Keep :: Dur
  rrt_PartitionInterval :: Dur
  rrt_Precreate :: Dur

record rawRetry =
  rry_MaxAttempts :: Integer
  rry_Backoff :: Str
  rry_InitialInterval :: Dur
  rry_MaxInterval :: Dur
  rry_Jitter :: Bool

record rawDefaults =
  rdf_Timeout :: Dur
  rdf_Retry :: "rawRetry mappingOf"
  rdf_Headers :: rawHeaders

record rawPayload =
  rpy_Mode :: Str
  rpy_Columns :: StrList
  rpy_Exclude :: StrList
  rpy_IncludeOld :: Bool
  rpy_MaxBytes :: Integer

record rawSigning =
  rsg_Secrets :: StrList

record rawDestination =
  rds_URL :: Str
  rds_Method :: Str
  rds_Headers :: rawHeaders
  rds_Signing :: "rawSigning mappingOf"

record rawListener =
  rli_Name :: Str
  rli_Enabled :: Bool
  rli_Table :: Str
  rli_Operations :: rawOperations
  rli_Payload :: "rawPayload mappingOf"
  rli_Destination :: "rawDestination mappingOf"
  rli_Retry :: "rawRetry mappingOf"
  rli_Timeout :: Dur
  rli_Concurrency :: Integer

record rawConfig =
  rcf_Version :: Integer
  rcf_Instance :: Str
  rcf_AutoReconcile :: Bool
  rcf_Database :: "rawDatabase mappingOf"
  rcf_Worker :: "rawWorker mappingOf"
  rcf_Retention :: "rawRetention mappingOf"
  rcf_Defaults :: "rawDefaults mappingOf"
  rcf_Listeners :: "rawListener listOf"

section \<open>Values as resolved\<close>

record Database =
  cdb_URL :: string
  cdb_Schema :: string
  cdb_ListenURL :: string

record Worker_settings =
  cwk_Concurrency :: int
  cwk_BatchSize :: int
  cwk_PollInterval :: duration
  cwk_LeaseTimeout :: duration
  cwk_DrainTimeout :: duration
  cwk_AllowedDestinationCIDRs :: "string list"

record Retention_settings =
  crt_Keep :: duration
  crt_PartitionInterval :: duration
  crt_Precreate :: duration

record Retry =
  cry_MaxAttempts :: int
  cry_Backoff :: string
  cry_InitialInterval :: duration
  cry_MaxInterval :: duration
  cry_Jitter :: bool

type_synonym Headers = "string \<rightharpoonup> string"

record Destination =
  cds_URL :: string
  cds_Method :: string
  cds_Headers :: Headers
  cds_Secrets :: "string list"

record DeliverySpec =
  cdl_Destination :: Destination
  cdl_Retry :: Retry
  cdl_Timeout :: duration
  cdl_Concurrency :: int

record configured_listener = Listener +
  li_Delivery :: DeliverySpec

record Config =
  ccf_Version :: int
  ccf_Instance :: string
  ccf_AutoReconcile :: bool
  ccf_Database :: Database
  ccf_Worker :: Worker_settings
  ccf_Retention :: Retention_settings
  ccf_Listeners :: "configured_listener list"

section \<open>Built-in defaults\<close>

definition second :: duration where "second = 1000000000"
definition minute :: duration where "minute = 60 * second"
definition hour :: duration where "hour = 60 * minute"

definition payloadModeFull :: string where "payloadModeFull = ''full''"
definition payloadModeCols :: string where "payloadModeCols = ''columns''"
definition payloadModeKeys :: string where "payloadModeKeys = ''keys_only''"

definition retryBackoffs :: "string list" where "retryBackoffs = [''exponential'', ''linear'', ''fixed'']"
definition payloadModes :: "string list" where "payloadModes = [payloadModeFull, payloadModeCols, payloadModeKeys]"
definition destinationMethods :: "string list" where "destinationMethods = [''POST'', ''PUT'', ''PATCH'']"

record listenerDefaults =
  ld_enabled :: bool
  ld_timeout :: duration
  ld_retry :: Retry
  ld_operationDistinct :: bool
  ld_payload :: Payload
  ld_destinationMethod :: string

record defaultState =
  df_database :: Database
  df_worker :: Worker_settings
  df_retention :: Retention_settings
  df_instance :: "string \<Rightarrow> string"
  df_autoReconcile :: bool
  df_listener :: listenerDefaults

text \<open>Go's zero value of the state; its instance function is nil, so a read of it before the row that sets it would panic, and
  here it answers nothing.\<close>

definition zero_defaults :: defaultState where
  "zero_defaults = \<lparr>df_database = \<lparr>cdb_URL = [], cdb_Schema = [], cdb_ListenURL = []\<rparr>,
     df_worker = \<lparr>cwk_Concurrency = 0, cwk_BatchSize = 0, cwk_PollInterval = 0, cwk_LeaseTimeout = 0, cwk_DrainTimeout = 0,
       cwk_AllowedDestinationCIDRs = []\<rparr>,
     df_retention = \<lparr>crt_Keep = 0, crt_PartitionInterval = 0, crt_Precreate = 0\<rparr>,
     df_instance = (\<lambda>_. []), df_autoReconcile = False,
     df_listener = \<lparr>ld_enabled = False, ld_timeout = 0,
       ld_retry = \<lparr>cry_MaxAttempts = 0, cry_Backoff = [], cry_InitialInterval = 0, cry_MaxInterval = 0, cry_Jitter = False\<rparr>,
       ld_operationDistinct = False,
       ld_payload = \<lparr>py_Mode = [], py_Columns = [], py_Exclude = [], py_IncludeOld = False, py_MaxBytes = 0\<rparr>,
       ld_destinationMethod = []\<rparr>\<rparr>"

abbreviation on_worker :: "(Worker_settings \<Rightarrow> Worker_settings) \<Rightarrow> defaultState \<Rightarrow> defaultState" where
  "on_worker f d \<equiv> d\<lparr>df_worker := f (df_worker d)\<rparr>"
abbreviation on_retention :: "(Retention_settings \<Rightarrow> Retention_settings) \<Rightarrow> defaultState \<Rightarrow> defaultState" where
  "on_retention f d \<equiv> d\<lparr>df_retention := f (df_retention d)\<rparr>"
abbreviation on_listener :: "(listenerDefaults \<Rightarrow> listenerDefaults) \<Rightarrow> defaultState \<Rightarrow> defaultState" where
  "on_listener f d \<equiv> d\<lparr>df_listener := f (df_listener d)\<rparr>"
abbreviation on_retry :: "(Retry \<Rightarrow> Retry) \<Rightarrow> defaultState \<Rightarrow> defaultState" where
  "on_retry f \<equiv> on_listener (\<lambda>l. l\<lparr>ld_retry := f (ld_retry l)\<rparr>)"
abbreviation on_payload :: "(Payload \<Rightarrow> Payload) \<Rightarrow> defaultState \<Rightarrow> defaultState" where
  "on_payload f \<equiv> on_listener (\<lambda>l. l\<lparr>ld_payload := f (ld_payload l)\<rparr>)"

definition builtInDefaults :: "(string \<times> (defaultState \<Rightarrow> defaultState)) list" where
  "builtInDefaults =
    [(''database.schema'', \<lambda>d. d\<lparr>df_database := (df_database d)\<lparr>cdb_Schema := suggestedSchema\<rparr>\<rparr>),
     (''instance'', \<lambda>d. d\<lparr>df_instance := (\<lambda>schema. schema)\<rparr>),
     (''auto_reconcile'', \<lambda>d. d\<lparr>df_autoReconcile := False\<rparr>),
     (''worker.concurrency'', on_worker (\<lambda>w. w\<lparr>cwk_Concurrency := 16\<rparr>)),
     (''worker.batch_size'', on_worker (\<lambda>w. w\<lparr>cwk_BatchSize := 100\<rparr>)),
     (''worker.poll_interval'', on_worker (\<lambda>w. w\<lparr>cwk_PollInterval := 10 * second\<rparr>)),
     (''worker.lease_timeout'', on_worker (\<lambda>w. w\<lparr>cwk_LeaseTimeout := 5 * minute\<rparr>)),
     (''worker.drain_timeout'', on_worker (\<lambda>w. w\<lparr>cwk_DrainTimeout := 30 * second\<rparr>)),
     (''retention.keep'', on_retention (\<lambda>r. r\<lparr>crt_Keep := 168 * hour\<rparr>)),
     (''retention.partition_interval'', on_retention (\<lambda>r. r\<lparr>crt_PartitionInterval := 24 * hour\<rparr>)),
     (''retention.precreate'', on_retention (\<lambda>r. r\<lparr>crt_Precreate := 168 * hour\<rparr>)),
     (''timeout'', on_listener (\<lambda>l. l\<lparr>ld_timeout := 5 * second\<rparr>)),
     (''retry.max_attempts'', on_retry (\<lambda>r. r\<lparr>cry_MaxAttempts := 5\<rparr>)),
     (''retry.backoff'', on_retry (\<lambda>r. r\<lparr>cry_Backoff := ''exponential''\<rparr>)),
     (''retry.initial_interval'', on_retry (\<lambda>r. r\<lparr>cry_InitialInterval := 10 * second\<rparr>)),
     (''retry.max_interval'', on_retry (\<lambda>r. r\<lparr>cry_MaxInterval := hour\<rparr>)),
     (''retry.jitter'', on_retry (\<lambda>r. r\<lparr>cry_Jitter := True\<rparr>)),
     (''enabled'', on_listener (\<lambda>l. l\<lparr>ld_enabled := True\<rparr>)),
     (''operations.update.is_distinct'', on_listener (\<lambda>l. l\<lparr>ld_operationDistinct := False\<rparr>)),
     (''payload.mode'', on_payload (\<lambda>p. p\<lparr>py_Mode := payloadModeFull\<rparr>)),
     (''payload.include_old'', on_payload (\<lambda>p. p\<lparr>py_IncludeOld := False\<rparr>)),
     (''payload.max_bytes'', on_payload (\<lambda>p. p\<lparr>py_MaxBytes := 262144\<rparr>)),
     (''destination.method'', on_listener (\<lambda>l. l\<lparr>ld_destinationMethod := ''POST''\<rparr>))]"

definition resolvedBuiltInDefaults :: defaultState where
  "resolvedBuiltInDefaults = fold (\<lambda>(_, f) d. f d) builtInDefaults zero_defaults"

section \<open>Resolution\<close>

definition mergedString :: "Str \<Rightarrow> string \<Rightarrow> string" where
  "mergedString raw inherited = (if pr_Set raw then st_value raw else inherited)"
definition mergedInt :: "Integer \<Rightarrow> int \<Rightarrow> int" where
  "mergedInt raw inherited = (if pr_Set raw then in_value raw else inherited)"
definition mergedBool :: "Bool \<Rightarrow> bool \<Rightarrow> bool" where
  "mergedBool raw inherited = (if pr_Set raw then bo_value raw else inherited)"
definition mergedDuration :: "Dur \<Rightarrow> duration \<Rightarrow> duration" where
  "mergedDuration raw inherited = (if pr_Set raw then du_value raw else inherited)"
definition mergedStrings :: "StrList \<Rightarrow> string list \<Rightarrow> string list" where
  "mergedStrings raw inherited = (if \<not> pr_Set raw then inherited else map st_value (sl_values raw))"

text \<open>What the five merges promise: a written value wins, whatever it is, and an absent one leaves what is inherited. Nothing else
  about a value is read.\<close>

locale layered_merge =
  fixes merged :: "'r \<Rightarrow> 'v \<Rightarrow> 'v" and was_set :: "'r \<Rightarrow> bool" and value_of :: "'r \<Rightarrow> 'v"
  assumes written: "was_set raw \<Longrightarrow> merged raw inherited = value_of raw"
    and absent: "\<not> was_set raw \<Longrightarrow> merged raw inherited = inherited"
begin

lemma nearest_written_wins:
  "merged listener (merged defaults built_in_value) =
    (if was_set listener then value_of listener else if was_set defaults then value_of defaults else built_in_value)"
  by (simp add: written absent)

lemma merged_satisfies:
  "\<lbrakk>was_set raw \<Longrightarrow> P (value_of raw); \<not> was_set raw \<Longrightarrow> P inherited\<rbrakk> \<Longrightarrow> P (merged raw inherited)"
  by (cases "was_set raw") (simp_all add: written absent)

end

interpretation strings: layered_merge mergedString pr_Set st_value
  by unfold_locales (simp_all add: mergedString_def)
interpretation integers: layered_merge mergedInt pr_Set in_value
  by unfold_locales (simp_all add: mergedInt_def)
interpretation flags: layered_merge mergedBool pr_Set bo_value
  by unfold_locales (simp_all add: mergedBool_def)
interpretation durations: layered_merge mergedDuration pr_Set du_value
  by unfold_locales (simp_all add: mergedDuration_def)
interpretation lists: layered_merge mergedStrings pr_Set "\<lambda>raw. map st_value (sl_values raw)"
  by unfold_locales (simp_all add: mergedStrings_def)

definition resolveDatabase :: "rawConfig \<Rightarrow> defaultState \<Rightarrow> Database \<times> string" where
  "resolveDatabase raw defaults =
     (let db = mp_Value (rcf_Database raw);
          resolved = (df_database defaults)\<lparr>cdb_URL := mergedString (rdb_URL db) [],
            cdb_Schema := mergedString (rdb_Schema db) (cdb_Schema (df_database defaults)),
            cdb_ListenURL := mergedString (rdb_ListenURL db) []\<rparr>
      in (resolved, mergedString (rcf_Instance raw) (df_instance defaults (cdb_Schema resolved))))"

definition resolveWorker :: "Worker_settings \<Rightarrow> rawWorker \<Rightarrow> Worker_settings" where
  "resolveWorker inherited raw = inherited\<lparr>
     cwk_Concurrency := mergedInt (rwk_Concurrency raw) (cwk_Concurrency inherited),
     cwk_BatchSize := mergedInt (rwk_BatchSize raw) (cwk_BatchSize inherited),
     cwk_PollInterval := mergedDuration (rwk_PollInterval raw) (cwk_PollInterval inherited),
     cwk_LeaseTimeout := mergedDuration (rwk_LeaseTimeout raw) (cwk_LeaseTimeout inherited),
     cwk_DrainTimeout := mergedDuration (rwk_DrainTimeout raw) (cwk_DrainTimeout inherited),
     cwk_AllowedDestinationCIDRs := mergedStrings (rwk_AllowedDestinationCIDRs raw) (cwk_AllowedDestinationCIDRs inherited)\<rparr>"

definition resolveRetention :: "Retention_settings \<Rightarrow> rawRetention \<Rightarrow> Retention_settings" where
  "resolveRetention inherited raw = inherited\<lparr>
     crt_Keep := mergedDuration (rrt_Keep raw) (crt_Keep inherited),
     crt_PartitionInterval := mergedDuration (rrt_PartitionInterval raw) (crt_PartitionInterval inherited),
     crt_Precreate := mergedDuration (rrt_Precreate raw) (crt_Precreate inherited)\<rparr>"

definition resolvePayload :: "rawPayload \<Rightarrow> Payload \<Rightarrow> Payload" where
  "resolvePayload raw inherited = inherited\<lparr>
     py_Mode := mergedString (rpy_Mode raw) (py_Mode inherited),
     py_Columns := mergedStrings (rpy_Columns raw) (py_Columns inherited),
     py_Exclude := mergedStrings (rpy_Exclude raw) (py_Exclude inherited),
     py_IncludeOld := mergedBool (rpy_IncludeOld raw) (py_IncludeOld inherited),
     py_MaxBytes := mergedInt (rpy_MaxBytes raw) (py_MaxBytes inherited)\<rparr>"

definition mergeRetry :: "Retry \<Rightarrow> rawRetry \<Rightarrow> Retry" where
  "mergeRetry inherited raw = inherited\<lparr>
     cry_MaxAttempts := mergedInt (rry_MaxAttempts raw) (cry_MaxAttempts inherited),
     cry_Backoff := mergedString (rry_Backoff raw) (cry_Backoff inherited),
     cry_InitialInterval := mergedDuration (rry_InitialInterval raw) (cry_InitialInterval inherited),
     cry_MaxInterval := mergedDuration (rry_MaxInterval raw) (cry_MaxInterval inherited),
     cry_Jitter := mergedBool (rry_Jitter raw) (cry_Jitter inherited)\<rparr>"

text \<open>The contract's operations in its order; the sort is stable.\<close>

definition declaredOperations :: "string list" where "declaredOperations = [''insert'', ''update'', ''delete'']"

fun index_of :: "string \<Rightarrow> string list \<Rightarrow> nat" where
  "index_of name [] = 0"
| "index_of name (d # ds) = (if d = name then 0 else Suc (index_of name ds))"

definition declaredOperationIndex :: "string \<Rightarrow> nat" where
  "declaredOperationIndex name = index_of name declaredOperations"

definition compareOperationNames :: "string \<Rightarrow> string \<Rightarrow> int" where
  "compareOperationNames a b =
     (let first = int (declaredOperationIndex a); second = int (declaredOperationIndex b) in
      if first \<noteq> second then first - second else cmp_Compare a b)"

definition resolve_operation :: "bool \<Rightarrow> namedOperation \<Rightarrow> Operation" where
  "resolve_operation defaultIsDistinct named = \<lparr>op_Kind = mergedString (no_Name named) [],
     op_Columns = mergedStrings (ro_Columns (no_Filter named)) [],
     op_IsDistinct = mergedBool (ro_IsDistinct (no_Filter named)) defaultIsDistinct,
     op_When = mergedString (ro_When (no_Filter named)) []\<rparr>"

definition resolveOperations :: "rawOperations \<Rightarrow> bool \<Rightarrow> Operation list" where
  "resolveOperations raw defaultIsDistinct =
     SortFunc (\<lambda>a b. compareOperationNames (op_Kind a) (op_Kind b)) (map (resolve_operation defaultIsDistinct) (os_values raw))"

definition merge_header :: "Headers \<Rightarrow> writtenHeader \<Rightarrow> Headers" where
  "merge_header resolved header =
     (case canonicalHTTPFieldName (mergedString (wh_Name header) []) of
        None \<Rightarrow> resolved
      | Some name \<Rightarrow> resolved(name \<mapsto> mergedString (wh_Value header) []))"

definition mergeHeaders :: "rawHeaders list \<Rightarrow> Headers" where
  "mergeHeaders layers =
     foldl (\<lambda>resolved layer. if \<not> pr_Set layer then resolved else foldl merge_header resolved (hd_values layer)) Map.empty layers"

definition resolveListener :: "rawListener \<Rightarrow> rawHeaders \<Rightarrow> listenerDefaults \<Rightarrow> configured_listener" where
  "resolveListener raw inheritedHeaders defaults =
     (let destination = mp_Value (rli_Destination raw) in
      \<lparr>li_Name = mergedString (rli_Name raw) [],
       li_Enabled = mergedBool (rli_Enabled raw) (ld_enabled defaults),
       li_Trigger = \<lparr>ts_Table = mergedString (rli_Table raw) [],
         ts_Operations = resolveOperations (rli_Operations raw) (ld_operationDistinct defaults),
         ts_Payload = resolvePayload (mp_Value (rli_Payload raw)) (ld_payload defaults)\<rparr>,
       li_Delivery = \<lparr>cdl_Destination = \<lparr>cds_URL = mergedString (rds_URL destination) [],
           cds_Method = mergedString (rds_Method destination) (ld_destinationMethod defaults),
           cds_Headers = mergeHeaders [inheritedHeaders, rds_Headers destination],
           cds_Secrets = mergedStrings (rsg_Secrets (mp_Value (rds_Signing destination))) []\<rparr>,
         cdl_Retry = mergeRetry (ld_retry defaults) (mp_Value (rli_Retry raw)),
         cdl_Timeout = mergedDuration (rli_Timeout raw) (ld_timeout defaults),
         cdl_Concurrency = mergedInt (rli_Concurrency raw) 0\<rparr>\<rparr>)"

definition resolveConfig :: "rawConfig \<Rightarrow> Config" where
  "resolveConfig raw =
     (let defaults = resolvedBuiltInDefaults;
          (database, instance_name) = resolveDatabase raw defaults;
          written = mp_Value (rcf_Defaults raw);
          inherited = (df_listener defaults)\<lparr>ld_timeout := mergedDuration (rdf_Timeout written) (ld_timeout (df_listener defaults)),
            ld_retry := mergeRetry (ld_retry (df_listener defaults)) (mp_Value (rdf_Retry written))\<rparr>
      in \<lparr>ccf_Version = mergedInt (rcf_Version raw) 0,
          ccf_Instance = instance_name,
          ccf_AutoReconcile = mergedBool (rcf_AutoReconcile raw) (df_autoReconcile defaults),
          ccf_Database = database,
          ccf_Worker = resolveWorker (df_worker defaults) (mp_Value (rcf_Worker raw)),
          ccf_Retention = resolveRetention (df_retention defaults) (mp_Value (rcf_Retention raw)),
          ccf_Listeners = map (\<lambda>listener. resolveListener listener (rdf_Headers written) inherited) (lo_Values (rcf_Listeners raw))\<rparr>)"

section \<open>Three layers\<close>

text \<open>Each retry setting of a listener is the listener's when written, else the defaults', else the built-in; a written zero counts.\<close>

lemma retry_is_layered:
  fixes d l :: rawRetry and b :: Retry
  defines "retry \<equiv> mergeRetry (mergeRetry b d) l"
  shows "cry_MaxAttempts retry = (if pr_Set (rry_MaxAttempts l) then in_value (rry_MaxAttempts l)
      else if pr_Set (rry_MaxAttempts d) then in_value (rry_MaxAttempts d) else cry_MaxAttempts b)"
    "cry_InitialInterval retry = (if pr_Set (rry_InitialInterval l) then du_value (rry_InitialInterval l)
      else if pr_Set (rry_InitialInterval d) then du_value (rry_InitialInterval d) else cry_InitialInterval b)"
    "cry_Jitter retry = (if pr_Set (rry_Jitter l) then bo_value (rry_Jitter l)
      else if pr_Set (rry_Jitter d) then bo_value (rry_Jitter d) else cry_Jitter b)"
  by (simp_all add: retry_def mergeRetry_def integers.nearest_written_wins durations.nearest_written_wins flags.nearest_written_wins)

text \<open>A listener's header replaces the inherited one of the same name, however either is capitalised.\<close>

lemma later_header_wins:
  assumes "canonicalHTTPFieldName (st_value (wh_Name w)) = Some n" "pr_Set (wh_Name w)" "pr_Set (wh_Value w)"
  shows "foldl merge_header m (ws @ [w]) n = Some (st_value (wh_Value w))"
  using assms by (simp add: merge_header_def strings.written)

lemma same_header:
  assumes "validHTTPFieldName a" "validHTTPFieldName b"
  shows "canonicalHTTPFieldName a = canonicalHTTPFieldName b \<longleftrightarrow> map lower_ascii a = map lower_ascii b"
  using assms by (simp add: canonicalHTTPFieldName_def canonical_fold)

end
