(* ===== verification/Config_Validate.thy ===== *)
theory Config_Validate
  imports Config_Merge When_Lexer
begin

text \<open>
  The semantic stages of the configuration loader: the rules on written values (\<open>config/validate.go\<close>, \<open>validatelists.go\<close>,
  \<open>validatestructured.go\<close>, \<open>validateprereq.go\<close>, \<open>validateanchor.go\<close>), the comparisons of effective values (\<open>compare.go\<close>),
  the warnings (\<open>warn.go\<close>) and how the pipeline concludes (\<open>load.go\<close>). A report is a diagnostic or the panic of a rule without an
  anchor; a pass is the list of its reports in order.
\<close>

section \<open>Anchors\<close>

datatype anchorClass = keyAnchor | mappingAnchor | valueAnchor | elementAnchor

datatype semanticAnchorUse = scalarValueUse | structuredValueUse | headerNameUse | headerValueUse | listElementUse | effectiveValueUse

record anchorSet =
  an_key :: "Positioned option"
  an_mapping :: "Positioned option"
  an_value :: "Positioned option"
  an_element :: "Positioned option"

fun semanticAnchors :: "anchorClass \<Rightarrow> anchorSet \<Rightarrow> Positioned option" where
  "semanticAnchors keyAnchor a = an_key a"
| "semanticAnchors mappingAnchor a = an_mapping a"
| "semanticAnchors valueAnchor a = an_value a"
| "semanticAnchors elementAnchor a = an_element a"

abbreviation no_anchor :: anchorSet where
  "no_anchor \<equiv> \<lparr>an_key = None, an_mapping = None, an_value = None, an_element = None\<rparr>"

definition scalar_rules :: "RuleID list" where
  "scalar_rules = [''R1'', ''R2'', ''R4'', ''R6'', ''R7'', ''R8'', ''R10'', ''R13'', ''R14'', ''R15'', ''R17'', ''R18'', ''R23'',
     ''R25'', ''R31'', ''R34'', ''R35'', ''R37'', ''R39'', ''R40'', ''R43'']"

definition stageHAnchorClass :: "RuleID \<Rightarrow> semanticAnchorUse \<Rightarrow> anchorClass option" where
  "stageHAnchorClass rule anchor_use = (case anchor_use of
      scalarValueUse \<Rightarrow> if rule \<in> set scalar_rules then Some valueAnchor else None
    | structuredValueUse \<Rightarrow> if rule \<in> {''R3'', ''R5'', ''R24'', ''R26'', ''R30'', ''R32'', ''R33'', ''R36''} then Some valueAnchor else None
    | headerNameUse \<Rightarrow> if rule \<in> {''R19'', ''R21''} then Some keyAnchor else None
    | headerValueUse \<Rightarrow> if rule = ''R19'' then Some valueAnchor else None
    | listElementUse \<Rightarrow> if rule \<in> {''R29'', ''R32'', ''R33'', ''R38''} then Some elementAnchor else None
    | effectiveValueUse \<Rightarrow> if rule \<in> {''R9'', ''R11'', ''R12'', ''R16'', ''R39''} then Some valueAnchor else None)"

datatype report = Reported Diagnostic | Panicked RuleID

definition reportPositionedAs :: "RuleID \<Rightarrow> Positioned \<Rightarrow> fault \<Rightarrow> Diagnostic" where
  "reportPositionedAs rule at why = WithHint (ft_hint why) (NewError rule at (ft_message why))"

definition reportSemanticUsing :: "RuleID \<Rightarrow> semanticAnchorUse \<Rightarrow> anchorSet \<Rightarrow> fault \<Rightarrow> report list" where
  "reportSemanticUsing rule anchor_use anchors why =
     (case stageHAnchorClass rule anchor_use of
        None \<Rightarrow> [Panicked rule]
      | Some class \<Rightarrow>
          (case semanticAnchors class anchors of
             None \<Rightarrow> [Panicked rule]
           | Some at \<Rightarrow> [Reported (reportPositionedAs rule at why)]))"

definition reportSemantic :: "RuleID \<Rightarrow> anchorSet \<Rightarrow> fault \<Rightarrow> report list" where
  "reportSemantic rule anchors why = reportSemanticUsing rule scalarValueUse anchors why"

definition semanticFault :: "string \<Rightarrow> fault" where
  "semanticFault message = \<lparr>ft_message = message, ft_hint = []\<rparr>"

definition at_value :: "'a presence_scheme \<Rightarrow> anchorSet" where
  "at_value p = no_anchor\<lparr>an_value := Some (where_at p)\<rparr>"

definition reportStructured :: "RuleID \<Rightarrow> 'a presence_scheme \<Rightarrow> fault \<Rightarrow> report list" where
  "reportStructured rule v why = reportSemanticUsing rule structuredValueUse (at_value v) why"

definition reportListElement :: "RuleID \<Rightarrow> Str \<Rightarrow> fault \<Rightarrow> report list" where
  "reportListElement rule entry why = reportSemanticUsing rule listElementUse (no_anchor\<lparr>an_element := Some (where_at entry)\<rparr>) why"

definition reportHeader :: "RuleID \<Rightarrow> semanticAnchorUse \<Rightarrow> writtenHeader \<Rightarrow> fault \<Rightarrow> report list" where
  "reportHeader rule anchor_use header why =
     reportSemanticUsing rule anchor_use (no_anchor\<lparr>an_key := Some (where_at (wh_Name header)), an_value := Some (where_at (wh_Value header))\<rparr>) why"

definition reportEffective :: "RuleID \<Rightarrow> Positioned \<Rightarrow> fault \<Rightarrow> report list" where
  "reportEffective rule at why = reportSemanticUsing rule effectiveValueUse (no_anchor\<lparr>an_value := Some at\<rparr>) why"

section \<open>What could not be read\<close>

text \<open>\<open>resolveEveryValue\<close> of \<open>config/resolvewalk.go\<close> walks the decoded document by reflection, in field order; here the walk is
  written out. Each wrapper reports what it refused (\<open>presence.go\<close>), under the rule of its kind.\<close>

definition RuleDecode :: RuleID where "RuleDecode = ''decode''"

definition resolveAs :: "RuleID \<Rightarrow> 'a presence_scheme \<Rightarrow> report list" where
  "resolveAs reportedBy p = map (\<lambda>(at, why). Reported (reportPositionedAs reportedBy at why)) (pr_refused p)"

definition resolve_plain :: "'a presence_scheme \<Rightarrow> report list" where
  "resolve_plain p = resolveAs RuleDecode p"

definition resolveSemanticAs :: "RuleID \<Rightarrow> 'a presence_scheme \<Rightarrow> report list" where
  "resolveSemanticAs reportedBy p =
     concat (map (\<lambda>(at, why). reportSemantic reportedBy (no_anchor\<lparr>an_value := Some at\<rparr>) why) (pr_refused p))"

definition conversionRuleAt :: "string \<Rightarrow> RuleID" where
  "conversionRuleAt path =
     (let leaf = (case LastIndexByte path (CHR ''.'') of None \<Rightarrow> path | Some dot \<Rightarrow> drop (dot + 1) path) in
      if leaf = ''jitter'' then ''R18'' else if leaf = ''enabled'' then ''R25'' else if leaf = ''is_distinct'' then ''R43''
      else if leaf = ''include_old'' then ''R34'' else [])"

definition resolve_Bool :: "Bool \<Rightarrow> report list" where
  "resolve_Bool b =
     (let rule = (if pr_Set b then conversionRuleAt (ps_Path (where_at b)) else []);
          reportedBy = (if rule = [] then RuleDecode else rule)
      in if reportedBy = RuleDecode then resolveAs reportedBy b else resolveSemanticAs reportedBy b)"

definition resolve_Dur :: "Dur \<Rightarrow> report list" where
  "resolve_Dur d = resolveSemanticAs ''R40'' d"

definition resolve_StrList :: "StrList \<Rightarrow> report list" where
  "resolve_StrList l = resolve_plain l @ concat (map resolve_plain (sl_values l))"

definition resolve_operations :: "rawOperations \<Rightarrow> report list" where
  "resolve_operations ops = resolve_plain ops @ concat (map (\<lambda>named. resolve_plain (no_Name named) @
     resolve_StrList (ro_Columns (no_Filter named)) @ resolve_Bool (ro_IsDistinct (no_Filter named)) @
     resolve_plain (ro_When (no_Filter named))) (os_values ops))"

definition resolve_headers :: "rawHeaders \<Rightarrow> report list" where
  "resolve_headers h = resolve_plain h @ concat (map (\<lambda>w. resolve_plain (wh_Name w) @ resolve_plain (wh_Value w)) (hd_values h))"

definition resolve_mapping :: "('a \<Rightarrow> report list) \<Rightarrow> 'a mappingOf \<Rightarrow> report list" where
  "resolve_mapping within m = resolve_plain m @ within (mp_Value m)"

definition resolve_retry :: "rawRetry \<Rightarrow> report list" where
  "resolve_retry r = resolve_plain (rry_MaxAttempts r) @ resolve_plain (rry_Backoff r) @ resolve_Dur (rry_InitialInterval r) @
     resolve_Dur (rry_MaxInterval r) @ resolve_Bool (rry_Jitter r)"

definition resolve_listener :: "rawListener \<Rightarrow> report list" where
  "resolve_listener l = resolve_plain (rli_Name l) @ resolve_Bool (rli_Enabled l) @ resolve_plain (rli_Table l) @
     resolve_operations (rli_Operations l) @
     resolve_mapping (\<lambda>p. resolve_plain (rpy_Mode p) @ resolve_StrList (rpy_Columns p) @ resolve_StrList (rpy_Exclude p) @
       resolve_Bool (rpy_IncludeOld p) @ resolve_plain (rpy_MaxBytes p)) (rli_Payload l) @
     resolve_mapping (\<lambda>d. resolve_plain (rds_URL d) @ resolve_plain (rds_Method d) @ resolve_headers (rds_Headers d) @
       resolve_mapping (\<lambda>s. resolve_StrList (rsg_Secrets s)) (rds_Signing d)) (rli_Destination l) @
     resolve_mapping resolve_retry (rli_Retry l) @ resolve_Dur (rli_Timeout l) @ resolve_plain (rli_Concurrency l)"

definition resolveEveryValue :: "rawConfig \<Rightarrow> report list" where
  "resolveEveryValue raw = resolve_plain (rcf_Version raw) @ resolve_plain (rcf_Instance raw) @ resolve_Bool (rcf_AutoReconcile raw) @
     resolve_mapping (\<lambda>d. resolve_plain (rdb_URL d) @ resolve_plain (rdb_Schema d) @ resolve_plain (rdb_ListenURL d)) (rcf_Database raw) @
     resolve_mapping (\<lambda>w. resolve_plain (rwk_Concurrency w) @ resolve_plain (rwk_BatchSize w) @ resolve_Dur (rwk_PollInterval w) @
       resolve_Dur (rwk_LeaseTimeout w) @ resolve_Dur (rwk_DrainTimeout w) @ resolve_StrList (rwk_AllowedDestinationCIDRs w)) (rcf_Worker raw) @
     resolve_mapping (\<lambda>r. resolve_Dur (rrt_Keep r) @ resolve_Dur (rrt_PartitionInterval r) @ resolve_Dur (rrt_Precreate r)) (rcf_Retention raw) @
     resolve_mapping (\<lambda>d. resolve_Dur (rdf_Timeout d) @ resolve_mapping resolve_retry (rdf_Retry d) @ resolve_headers (rdf_Headers d)) (rcf_Defaults raw) @
     resolve_plain (rcf_Listeners raw) @ concat (map resolve_listener (lo_Values (rcf_Listeners raw)))"

section \<open>Rules on written values\<close>

text \<open>The gate: a value that is absent or was not read is not judged.\<close>

definition reject :: "RuleID \<Rightarrow> 'a presence_scheme \<Rightarrow> bool \<Rightarrow> fault \<Rightarrow> report list" where
  "reject rule v broken why = (if \<not> Valid v \<or> \<not> broken then [] else reportSemantic rule (at_value v) why)"

definition readableList :: "string list \<Rightarrow> string" where
  "readableList vs = (if length vs < 2 then ''['' @ Join vs '' '' @ '']'' else Join (butlast vs) '', '' @ '' or '' @ last vs)"

definition between :: "RuleID \<Rightarrow> Integer \<Rightarrow> int \<Rightarrow> int \<Rightarrow> report list" where
  "between rule v low high = reject rule v (in_value v < low \<or> in_value v > high)
     (semanticFault (''must be in the range '' @ FormatInt low @ '' to '' @ FormatInt high))"

definition minConcurrency :: int where "minConcurrency = 1"
definition maxConcurrency :: int where "maxConcurrency = 1024"

definition concurrencyCanParticipateInComparison :: "int \<Rightarrow> bool" where
  "concurrencyCanParticipateInComparison v \<longleftrightarrow> v \<ge> minConcurrency \<and> v \<le> maxConcurrency"

definition validateConcurrencyRange :: "RuleID \<Rightarrow> Integer \<Rightarrow> report list" where
  "validateConcurrencyRange rule v = reject rule v (\<not> concurrencyCanParticipateInComparison (in_value v))
     (semanticFault (''must be in the range '' @ FormatInt minConcurrency @ '' to '' @ FormatInt maxConcurrency))"

definition atLeast :: "RuleID \<Rightarrow> Integer \<Rightarrow> int \<Rightarrow> report list" where
  "atLeast rule v low = reject rule v (in_value v < low) (semanticFault (''must be at least '' @ FormatInt low))"

definition positiveInt :: "RuleID \<Rightarrow> Integer \<Rightarrow> report list" where
  "positiveInt rule v = reject rule v (in_value v \<le> 0) (semanticFault ''must be greater than zero'')"

definition positiveDur :: "RuleID \<Rightarrow> Dur \<Rightarrow> report list" where
  "positiveDur rule v = reject rule v (du_value v \<le> 0) (semanticFault ''must be greater than zero'')"

definition oneOf :: "RuleID \<Rightarrow> Str \<Rightarrow> string list \<Rightarrow> report list" where
  "oneOf rule v permitted = reject rule v (st_value v \<notin> set permitted) (semanticFault (''must be one of '' @ readableList permitted))"

fun name_defect_text :: "nameDefect \<Rightarrow> string" where
  "name_defect_text nameOK = ''ok''"
| "name_defect_text nameEmpty = ''empty''"
| "name_defect_text nameBadCharset = ''illegal character''"
| "name_defect_text nameTooLong = ''over the character limit''"

fun ident_defect_text :: "identDefect \<Rightarrow> string" where
  "ident_defect_text identOK = ''ok''"
| "ident_defect_text identEmpty = ''empty''"
| "ident_defect_text identBadCharset = ''illegal character''"
| "ident_defect_text identTooLong = ''over the byte limit''"

fun url_defect_text :: "urlDefect \<Rightarrow> string" where
  "url_defect_text urlOK = ''ok''"
| "url_defect_text urlEmpty = ''empty''"
| "url_defect_text urlUnparseable = ''does not parse''"
| "url_defect_text urlBadScheme = ''scheme is neither http nor https''"
| "url_defect_text urlNoHost = ''no host''"

definition identifier_message :: "identDefect \<Rightarrow> string" where
  "identifier_message defect =
     ''must be a PostgreSQL identifier of at most '' @ FormatInt (int maxIdentifierBytes) @ '' bytes: '' @ ident_defect_text defect"

definition validateName :: "RuleID \<Rightarrow> Str \<Rightarrow> report list" where
  "validateName rule named =
     (if \<not> Valid named then []
      else let defect = nameRuleDefect (st_value named) in
        reject rule named (defect \<noteq> nameOK) (semanticFault (''must match ^[a-z][a-z0-9_]{0,40}$: '' @ name_defect_text defect)))"

definition validateRoot :: "rawConfig \<Rightarrow> report list" where
  "validateRoot raw = reject ''R1'' (rcf_Version raw) (in_value (rcf_Version raw) \<noteq> 1) (semanticFault ''must equal 1'') @
     validateName ''R2'' (rcf_Instance raw)"

definition validateConnection :: "letters \<Rightarrow> RuleID \<Rightarrow> Str \<Rightarrow> report list" where
  "validateConnection letter rule v =
     (if \<not> Valid v then []
      else if connectionStringForm letter (st_value v) = connStringInvalid
      then reportStructured rule v (semanticFault ''must be a postgres or postgresql URI, or a libpq keyword/value connection string'')
      else [])"

definition reservedSchemaFault :: fault where
  "reservedSchemaFault = \<lparr>ft_message = ''the prefix '' @ [CHR 0x22] @ ''pg_'' @ [CHR 0x22] @ '' is reserved for system schemas'',
     ft_hint = ''use '' @ [CHR 0x22] @ suggestedSchema @ [CHR 0x22] @ '' instead''\<rparr>"

definition validateDatabase :: "letters \<Rightarrow> rawDatabase \<Rightarrow> report list" where
  "validateDatabase letter raw =
     validateConnection letter ''R3'' (rdb_URL raw) @ validateConnection letter ''R5'' (rdb_ListenURL raw) @
     (if \<not> Valid (rdb_Schema raw) then []
      else let defect = identifierDefect letter (st_value (rdb_Schema raw)) in
        if defect \<noteq> identOK then reject ''R4'' (rdb_Schema raw) True (semanticFault (identifier_message defect))
        else reject ''R4'' (rdb_Schema raw) (usesReservedSchemaPrefix (st_value (rdb_Schema raw))) reservedSchemaFault)"

definition validateWorker :: "rawWorker \<Rightarrow> report list" where
  "validateWorker raw = validateConcurrencyRange ''R6'' (rwk_Concurrency raw) @ between ''R7'' (rwk_BatchSize raw) 1 10000 @
     positiveDur ''R8'' (rwk_PollInterval raw) @ positiveDur ''R8'' (rwk_LeaseTimeout raw) @ positiveDur ''R8'' (rwk_DrainTimeout raw)"

definition validateRetention :: "rawRetention \<Rightarrow> report list" where
  "validateRetention raw =
     positiveDur ''R10'' (rrt_Keep raw) @ positiveDur ''R10'' (rrt_PartitionInterval raw) @ positiveDur ''R10'' (rrt_Precreate raw)"

definition validateRetry :: "rawRetry \<Rightarrow> report list" where
  "validateRetry raw = atLeast ''R14'' (rry_MaxAttempts raw) 1 @ oneOf ''R15'' (rry_Backoff raw) retryBackoffs @
     positiveDur ''R17'' (rry_MaxInterval raw)"

definition validate_header :: "writtenHeader \<Rightarrow> report list" where
  "validate_header header =
     (case canonicalHTTPFieldName (st_value (wh_Name header)) of
        None \<Rightarrow> reportHeader ''R19'' headerNameUse header (semanticFault ''header name must be a valid HTTP field name'')
      | Some canonical \<Rightarrow>
          if usesReservedHeaderPrefix canonical
          then reportHeader ''R21'' headerNameUse header (semanticFault
            (''headers beginning with '' @ [CHR 0x22] @ reservedHeaderPrefix @ [CHR 0x22] @ '' are generated by pg_noty itself''))
          else []) @
     (if Valid (wh_Value header) \<and> st_value (wh_Value header) = []
      then reportHeader ''R19'' headerValueUse header (semanticFault ''header value must not be empty'') else [])"

definition validateHeaders :: "rawHeaders \<Rightarrow> report list" where
  "validateHeaders headers = concat (map validate_header (hd_values headers))"

definition validateDefaults :: "rawDefaults \<Rightarrow> report list" where
  "validateDefaults raw = positiveDur ''R13'' (rdf_Timeout raw) @ validateRetry (mp_Value (rdf_Retry raw)) @ validateHeaders (rdf_Headers raw)"

text \<open>A list whose entries are each acceptable and written once; \<open>first\<close> is the map of the entries seen, each with its line.\<close>

fun unique_from :: "RuleID \<Rightarrow> (string \<Rightarrow> fault option) \<Rightarrow> (string \<rightharpoonup> Str) \<Rightarrow> Str list \<Rightarrow> report list" where
  "unique_from rule invalid first [] = []"
| "unique_from rule invalid first (entry # entries) =
     (case invalid (st_value entry) of
        Some why \<Rightarrow> reportListElement rule entry why @ unique_from rule invalid first entries
      | None \<Rightarrow>
          (case first (st_value entry) of
             Some prior \<Rightarrow> reportListElement rule entry (semanticFault
                 (''entry duplicates the one first written on line '' @ FormatInt (ps_Line (where_at prior)))) @
               unique_from rule invalid first entries
           | None \<Rightarrow> unique_from rule invalid (first(st_value entry \<mapsto> entry)) entries))"

definition validateUniqueList :: "RuleID \<Rightarrow> StrList \<Rightarrow> (string \<Rightarrow> fault option) \<Rightarrow> report list" where
  "validateUniqueList rule l invalid = unique_from rule invalid Map.empty (sl_values l)"

definition identifierEntryFault :: "letters \<Rightarrow> string \<Rightarrow> fault option" where
  "identifierEntryFault letter v =
     (let defect = identifierDefect letter v in if defect = identOK then None else Some (semanticFault (identifier_message defect)))"

definition nonEmptyEntryFault :: "string \<Rightarrow> fault option" where
  "nonEmptyEntryFault v = (if v = [] then Some (semanticFault ''signing secret must not be empty'') else None)"

definition validateIdentifierList :: "letters \<Rightarrow> RuleID \<Rightarrow> StrList \<Rightarrow> bool \<Rightarrow> report list" where
  "validateIdentifierList letter rule l nonEmpty =
     (if \<not> Valid l then []
      else if nonEmpty \<and> sl_values l = [] then reportStructured rule l (semanticFault ''must hold at least one identifier'')
      else validateUniqueList rule l (identifierEntryFault letter))"

definition validateSigningSecrets :: "StrList \<Rightarrow> report list" where
  "validateSigningSecrets l = (if \<not> Valid l then [] else validateUniqueList ''R38'' l nonEmptyEntryFault)"

definition validateTable :: "letters \<Rightarrow> Str \<Rightarrow> report list" where
  "validateTable letter v =
     (if \<not> Valid v then []
      else case qualifiedTableFault letter (st_value v) of
          (tableNotQualified, _) \<Rightarrow> reportStructured ''R26'' v (semanticFault ''must be schema-qualified in schema.table form'')
        | (tableSchemaPartInvalid, defect) \<Rightarrow> reportStructured ''R26'' v (semanticFault (''schema part '' @ identifier_message defect))
        | (tableNamePartInvalid, defect) \<Rightarrow> reportStructured ''R26'' v (semanticFault (''table part '' @ identifier_message defect))
        | (tableOK, _) \<Rightarrow> [])"

fun names_from :: "(string \<rightharpoonup> Str) \<Rightarrow> rawListener list \<Rightarrow> report list" where
  "names_from first [] = []"
| "names_from first (l # ls) =
     (let name = rli_Name l in
      if \<not> Valid name then names_from first ls
      else case first (st_value name) of
          Some prior \<Rightarrow> reportStructured ''R24'' name (semanticFault
              (''must be unique; the first listener with this name is on line '' @ FormatInt (ps_Line (where_at prior)))) @ names_from first ls
        | None \<Rightarrow> names_from (first(st_value name \<mapsto> name)) ls)"

definition validateListenerNames :: "rawListener list \<Rightarrow> report list" where
  "validateListenerNames listeners = names_from Map.empty listeners"

definition updateOperation :: string where "updateOperation = ''update''"

definition validate_operation :: "letters \<Rightarrow> namedOperation \<Rightarrow> report list" where
  "validate_operation letter named =
     (if st_value (no_Name named) = updateOperation then validateIdentifierList letter ''R29'' (ro_Columns (no_Filter named)) False else []) @
     (if \<not> Valid (ro_When (no_Filter named)) then []
      else case forbiddenWhenReference (st_value (no_Name named)) (st_value (ro_When (no_Filter named))) of
          None \<Rightarrow> []
        | Some ref \<Rightarrow> reportStructured ''R30'' (ro_When (no_Filter named)) (semanticFault
            (br_Statement ref @ '' trigger's WHEN condition cannot reference '' @ br_Word ref @ '' values'')))"

definition validateOperations :: "letters \<Rightarrow> rawOperations \<Rightarrow> report list" where
  "validateOperations letter operations = concat (map (validate_operation letter) (os_values operations))"

definition validateDestinationURL :: "url_parser \<Rightarrow> Str \<Rightarrow> report list" where
  "validateDestinationURL parse v =
     (if \<not> Valid v then []
      else let (defect, reason) = destinationURLDefect parse (st_value v) in
        if defect = urlOK then []
        else reportStructured ''R36'' v (semanticFault (''must be a non-empty http or https URL with a host: '' @ url_defect_text defect @
               (if reason \<noteq> [] then '': '' @ reason else []))))"

definition validateDestination :: "url_parser \<Rightarrow> rawDestination \<Rightarrow> report list" where
  "validateDestination parse raw = validateDestinationURL parse (rds_URL raw) @ oneOf ''R37'' (rds_Method raw) destinationMethods @
     validateHeaders (rds_Headers raw) @ validateSigningSecrets (rsg_Secrets (mp_Value (rds_Signing raw)))"

definition payloadModeCanGovernCompatibility :: "Str \<Rightarrow> bool" where
  "payloadModeCanGovernCompatibility mode \<longleftrightarrow> \<not> pr_Set mode \<or> Valid mode \<and> st_value mode \<in> set payloadModes"

definition didYouMean :: "string \<Rightarrow> string" where
  "didYouMean candidate = ''did you mean '' @ [CHR 0x22] @ candidate @ [CHR 0x22] @ ''?''"

definition payloadColumnsKey :: string where "payloadColumnsKey = ''columns''"

definition hasPriorCorrection :: "Diagnostic list \<Rightarrow> 'a presence_scheme \<Rightarrow> string \<Rightarrow> bool" where
  "hasPriorCorrection prior at intended =
     (let path = ps_Path (where_at at) in
      case LastIndexByte path (CHR ''.'') of
        None \<Rightarrow> False
      | Some dot \<Rightarrow> let prefix = take (dot + 1) path in
          list_ex (\<lambda>diag. dg_Rule diag = ''R41'' \<and> HasPrefix (dg_Path diag) prefix \<and> dg_Hint diag = didYouMean intended) prior)"

definition validatePayloadCompatibility :: "Diagnostic list \<Rightarrow> rawPayload \<Rightarrow> report list" where
  "validatePayloadCompatibility prior raw =
     (let mode = (if pr_Set (rpy_Mode raw) then st_value (rpy_Mode raw) else payloadModeFull) in
      (if mode = payloadModeCols \<and> \<not> pr_Set (rpy_Columns raw) \<and> \<not> hasPriorCorrection prior (rpy_Mode raw) payloadColumnsKey
       then reportStructured ''R32'' (rpy_Mode raw) (semanticFault ''payload.columns is required when payload.mode is columns'') else []) @
      (if mode \<noteq> payloadModeCols \<and> pr_Set (rpy_Columns raw)
       then reportStructured ''R32'' (rpy_Columns raw) (semanticFault ''payload.columns is legal only when payload.mode is columns'') else []) @
      (if mode \<noteq> payloadModeFull \<and> pr_Set (rpy_Exclude raw)
       then reportStructured ''R33'' (rpy_Exclude raw) (semanticFault ''payload.exclude is legal only when payload.mode is full'') else []))"

definition validatePayload :: "letters \<Rightarrow> Diagnostic list \<Rightarrow> rawPayload \<Rightarrow> report list" where
  "validatePayload letter prior raw =
     (let govern = payloadModeCanGovernCompatibility (rpy_Mode raw) in
      validateIdentifierList letter ''R32'' (rpy_Columns raw) True @
      validateIdentifierList letter ''R33'' (rpy_Exclude raw) False @
      reject ''R31'' (rpy_Mode raw) (\<not> govern) (semanticFault (''must be one of '' @ readableList payloadModes)) @
      positiveInt ''R35'' (rpy_MaxBytes raw) @
      (if pr_Set (rpy_Columns raw) \<and> pr_Set (rpy_Exclude raw)
       then reportStructured ''R33'' (rpy_Exclude raw) (semanticFault ''payload.columns and payload.exclude are mutually exclusive'')
       else if \<not> govern then []
       else validatePayloadCompatibility prior raw))"

definition validateListener :: "letters \<Rightarrow> url_parser \<Rightarrow> Diagnostic list \<Rightarrow> rawListener \<Rightarrow> report list" where
  "validateListener letter parse prior raw =
     validateName ''R23'' (rli_Name raw) @ validateTable letter (rli_Table raw) @ validateOperations letter (rli_Operations raw) @
     positiveDur ''R13'' (rli_Timeout raw) @ validateConcurrencyRange ''R39'' (rli_Concurrency raw) @
     validateRetry (mp_Value (rli_Retry raw)) @ validatePayload letter prior (mp_Value (rli_Payload raw)) @
     validateDestination parse (mp_Value (rli_Destination raw))"

definition validate :: "letters \<Rightarrow> url_parser \<Rightarrow> rawConfig \<Rightarrow> Diagnostic list \<Rightarrow> report list" where
  "validate letter parse raw prior =
     validateRoot raw @ validateDatabase letter (mp_Value (rcf_Database raw)) @ validateWorker (mp_Value (rcf_Worker raw)) @
     validateRetention (mp_Value (rcf_Retention raw)) @ validateDefaults (mp_Value (rcf_Defaults raw)) @
     validateListenerNames (lo_Values (rcf_Listeners raw)) @
     concat (map (validateListener letter parse prior) (lo_Values (rcf_Listeners raw)))"

end
