(* ===== verification/Config_Effective.thy ===== *)
theory Config_Effective
  imports Config_Validate
begin

text \<open>
  The comparisons of effective values (\<open>config/compare.go\<close>), the warnings (\<open>config/warn.go\<close>), how the pipeline concludes
  (\<open>config/load.go\<close>), and what an accepted configuration promises the rest of the program. The listeners of the raw and of the
  resolved configuration are paired by position; resolution makes one for each.
\<close>

section \<open>Effective values\<close>

definition zero_Dur :: Dur where
  "zero_Dur = \<lparr>pr_Set = False, pr_node = 0, pr_at = None, pr_refused = [], du_value = 0\<rparr>"

definition zero_Int :: Integer where
  "zero_Int = \<lparr>pr_Set = False, pr_node = 0, pr_at = None, pr_refused = [], in_value = 0\<rparr>"

record effectiveDuration =
  ed_value :: duration
  ed_source :: Dur

record effectiveInt =
  ei_value :: int
  ei_source :: Integer

definition resolvedDuration :: "duration \<Rightarrow> Dur list \<Rightarrow> effectiveDuration" where
  "resolvedDuration v written =
     (case filter pr_Set written of [] \<Rightarrow> \<lparr>ed_value = v, ed_source = zero_Dur\<rparr> | src # _ \<Rightarrow> \<lparr>ed_value = v, ed_source = src\<rparr>)"

definition readable :: "effectiveDuration \<Rightarrow> bool" where
  "readable e \<longleftrightarrow> \<not> pr_Set (ed_source e) \<or> Valid (ed_source e)"

definition positive :: "effectiveDuration \<Rightarrow> bool" where
  "positive e \<longleftrightarrow> readable e \<and> ed_value e > 0"

definition resolvedInt :: "int \<Rightarrow> Integer list \<Rightarrow> effectiveInt" where
  "resolvedInt v written =
     (case filter pr_Set written of [] \<Rightarrow> \<lparr>ei_value = v, ei_source = zero_Int\<rparr> | src # _ \<Rightarrow> \<lparr>ei_value = v, ei_source = src\<rparr>)"

definition comparableConcurrency :: "effectiveInt \<Rightarrow> bool" where
  "comparableConcurrency e \<longleftrightarrow> (\<not> pr_Set (ei_source e) \<or> Valid (ei_source e)) \<and> concurrencyCanParticipateInComparison (ei_value e)"

definition comparisonAnchor :: "'a presence_scheme \<Rightarrow> 'b presence_scheme \<Rightarrow> Positioned option" where
  "comparisonAnchor left right =
     (if wasWritten left then Some (where_at left) else if wasWritten right then Some (where_at right) else None)"

definition report_at :: "RuleID \<Rightarrow> Positioned option \<Rightarrow> fault \<Rightarrow> report list" where
  "report_at rule anchor why = (case anchor of None \<Rightarrow> [] | Some at \<Rightarrow> reportEffective rule at why)"

section \<open>Comparisons\<close>

definition leaseComparisonFault :: fault where
  "leaseComparisonFault = semanticFault (''worker.lease_timeout must be greater than the largest effective listeners[].timeout; '' @
     ''increase the lease or lower the timeout because a lease no longer than a request timeout causes duplicate deliveries'')"
definition keepComparisonFault :: fault where
  "keepComparisonFault = semanticFault (''retention.keep must be at least retention.partition_interval; '' @
     ''increase retention.keep or lower retention.partition_interval'')"
definition precreateComparisonFault :: fault where
  "precreateComparisonFault = semanticFault (''retention.precreate must be at least retention.partition_interval; '' @
     ''increase retention.precreate or lower retention.partition_interval'')"
definition retryPositiveFault :: fault where
  "retryPositiveFault = semanticFault ''retry.initial_interval must be greater than zero''"
definition retryComparisonFault :: fault where
  "retryComparisonFault = semanticFault (''retry.initial_interval must be no greater than retry.max_interval; '' @
     ''lower retry.initial_interval or raise retry.max_interval'')"
definition concurrencyComparisonFault :: fault where
  "concurrencyComparisonFault = semanticFault (''listeners[].concurrency must be no greater than worker.concurrency; '' @
     ''lower the listener concurrency or raise worker.concurrency'')"

definition listener_timeout :: "rawConfig \<Rightarrow> rawListener \<times> configured_listener \<Rightarrow> effectiveDuration" where
  "listener_timeout raw = (\<lambda>(written, resolved).
     resolvedDuration (cdl_Timeout (li_Delivery resolved)) [rli_Timeout written, rdf_Timeout (mp_Value (rcf_Defaults raw))])"

definition larger :: "effectiveDuration option \<Rightarrow> effectiveDuration \<Rightarrow> effectiveDuration option" where
  "larger largest candidate =
     (if \<not> positive candidate then largest
      else case largest of None \<Rightarrow> Some candidate | Some l \<Rightarrow> if ed_value candidate > ed_value l then Some candidate else Some l)"

definition paired :: "rawConfig \<Rightarrow> Config \<Rightarrow> (rawListener \<times> configured_listener) list" where
  "paired raw cfg = zip (lo_Values (rcf_Listeners raw)) (ccf_Listeners cfg)"

definition largestListenerTimeout :: "rawConfig \<Rightarrow> Config \<Rightarrow> effectiveDuration option" where
  "largestListenerTimeout raw cfg = foldl larger None (map (listener_timeout raw) (paired raw cfg))"

definition validateLeaseComparison :: "RuleID \<Rightarrow> rawConfig \<Rightarrow> Config \<Rightarrow> report list" where
  "validateLeaseComparison rule raw cfg =
     (let lease = resolvedDuration (cwk_LeaseTimeout (ccf_Worker cfg)) [rwk_LeaseTimeout (mp_Value (rcf_Worker raw))] in
      case largestListenerTimeout raw cfg of
        None \<Rightarrow> []
      | Some timeout \<Rightarrow>
          if \<not> positive lease \<or> ed_value lease > ed_value timeout then []
          else report_at rule (comparisonAnchor (ed_source lease) (ed_source timeout)) leaseComparisonFault)"

definition validateAtLeast :: "RuleID \<Rightarrow> effectiveDuration \<Rightarrow> effectiveDuration \<Rightarrow> fault \<Rightarrow> report list" where
  "validateAtLeast rule left right why =
     (if \<not> positive left \<or> \<not> positive right \<or> ed_value left \<ge> ed_value right then []
      else report_at rule (comparisonAnchor (ed_source left) (ed_source right)) why)"

definition validateRetentionComparisons :: "RuleID \<Rightarrow> RuleID \<Rightarrow> rawConfig \<Rightarrow> Config \<Rightarrow> report list" where
  "validateRetentionComparisons keepRule precreateRule raw cfg =
     (let r = mp_Value (rcf_Retention raw);
          interval = resolvedDuration (crt_PartitionInterval (ccf_Retention cfg)) [rrt_PartitionInterval r];
          keep = resolvedDuration (crt_Keep (ccf_Retention cfg)) [rrt_Keep r];
          precreate = resolvedDuration (crt_Precreate (ccf_Retention cfg)) [rrt_Precreate r]
      in validateAtLeast keepRule keep interval keepComparisonFault @ validateAtLeast precreateRule precreate interval precreateComparisonFault)"

definition validateRetryComparison :: "RuleID \<Rightarrow> rawRetry \<Rightarrow> rawRetry \<Rightarrow> Retry \<Rightarrow> report list" where
  "validateRetryComparison rule defaults listener retry =
     (let initial = resolvedDuration (cry_InitialInterval retry) [rry_InitialInterval listener, rry_InitialInterval defaults] in
      if \<not> readable initial then []
      else if ed_value initial \<le> 0 then
        (if pr_Set (ed_source initial) then reportEffective rule (where_at (ed_source initial)) retryPositiveFault else [])
      else let maximum = resolvedDuration (cry_MaxInterval retry) [rry_MaxInterval listener, rry_MaxInterval defaults] in
        if \<not> positive maximum \<or> ed_value initial \<le> ed_value maximum then []
        else report_at rule (comparisonAnchor (ed_source initial) (ed_source maximum)) retryComparisonFault)"

definition validateConcurrencyComparison :: "RuleID \<Rightarrow> Integer \<Rightarrow> Integer \<Rightarrow> int \<Rightarrow> int \<Rightarrow> report list" where
  "validateConcurrencyComparison rule raw_worker raw_listener worker listener =
     (let left = resolvedInt listener [raw_listener]; right = resolvedInt worker [raw_worker] in
      if \<not> comparableConcurrency left \<or> \<not> comparableConcurrency right \<or> ei_value left \<le> ei_value right then []
      else report_at rule (comparisonAnchor (ei_source left) (ei_source right)) concurrencyComparisonFault)"

definition compare_listener :: "rawConfig \<Rightarrow> Config \<Rightarrow> rawListener \<times> configured_listener \<Rightarrow> report list" where
  "compare_listener raw cfg = (\<lambda>(written, resolved).
     validateRetryComparison ''R16'' (mp_Value (rdf_Retry (mp_Value (rcf_Defaults raw)))) (mp_Value (rli_Retry written))
       (cdl_Retry (li_Delivery resolved)) @
     validateConcurrencyComparison ''R39'' (rwk_Concurrency (mp_Value (rcf_Worker raw))) (rli_Concurrency written)
       (cwk_Concurrency (ccf_Worker cfg)) (cdl_Concurrency (li_Delivery resolved)))"

definition validateEffective :: "rawConfig \<Rightarrow> Config \<Rightarrow> report list" where
  "validateEffective raw cfg = validateLeaseComparison ''R9'' raw cfg @ validateRetentionComparisons ''R11'' ''R12'' raw cfg @
     concat (map (compare_listener raw cfg) (paired raw cfg))"

section \<open>Warnings\<close>

definition literalSecretWarning :: string where
  "literalSecretWarning = ''destination.signing.secrets should use an interpolated environment reference instead of a YAML literal; '' @
     ''move the secret to the environment and write ${VARIABLE_NAME}''"
definition drainTimeoutWarning :: string where
  "drainTimeoutWarning = ''worker.drain_timeout is smaller than the largest effective listeners[].timeout; '' @
     ''increase the drain timeout or lower the listener timeout so shutdown does not abandon in-flight requests''"

text \<open>The nodes whose text the environment supplied are a set of nodes.\<close>

definition literalSecretWarnings :: "rawConfig \<Rightarrow> nat set \<Rightarrow> Diagnostic list" where
  "literalSecretWarnings raw originals =
     concat (map (\<lambda>l. map (\<lambda>secret. NewError ''W1'' (where_at secret) literalSecretWarning)
       (filter (\<lambda>secret. pr_node secret \<notin> originals) (sl_values (rsg_Secrets (mp_Value (rds_Signing (mp_Value (rli_Destination l))))))))
       (lo_Values (rcf_Listeners raw)))"

definition drainTimeoutTooSmall :: "rawConfig \<Rightarrow> Config \<Rightarrow> Diagnostic option" where
  "drainTimeoutTooSmall raw cfg =
     (let drain = resolvedDuration (cwk_DrainTimeout (ccf_Worker cfg)) [rwk_DrainTimeout (mp_Value (rcf_Worker raw))] in
      case largestListenerTimeout raw cfg of
        None \<Rightarrow> None
      | Some timeout \<Rightarrow>
          if \<not> positive drain \<or> ed_value drain \<ge> ed_value timeout then None
          else case comparisonAnchor (ed_source drain) (ed_source timeout) of
              None \<Rightarrow> None
            | Some at \<Rightarrow> Some (NewError ''W2'' at drainTimeoutWarning))"

definition warningsFor :: "rawConfig \<Rightarrow> Config \<Rightarrow> nat set \<Rightarrow> Diagnostic list" where
  "warningsFor raw cfg originals = literalSecretWarnings raw originals @
     (case drainTimeoutTooSmall raw cfg of None \<Rightarrow> [] | Some w \<Rightarrow> [w])"

section \<open>The end of the pipeline\<close>

text \<open>From the decoded document on; the diagnostics of the shape stage are given. A panic ends the process, so that no outcome is
  left.\<close>

fun diagnostics_of :: "report list \<Rightarrow> Diagnostic list option" where
  "diagnostics_of [] = Some []"
| "diagnostics_of (Panicked rule # rs) = None"
| "diagnostics_of (Reported d # rs) = map_option (Cons d) (diagnostics_of rs)"

definition runPipeline :: "letters \<Rightarrow> url_parser \<Rightarrow> Diagnostic list \<Rightarrow> rawConfig \<Rightarrow> nat set \<Rightarrow>
    (Config option \<times> Diagnostic list \<times> Diagnostic list) option" where
  "runPipeline letter parse shape decoded originals =
     (let resolved = resolveConfig decoded in
      case (diagnostics_of (resolveEveryValue decoded), diagnostics_of (validate letter parse decoded shape),
            diagnostics_of (validateEffective decoded resolved)) of
        (Some conversions, Some semantics, Some effective) \<Rightarrow>
          let warnings = warningsFor decoded resolved originals; findings = shape @ conversions @ semantics @ effective in
          Some (if findings \<noteq> [] then (None, warnings, findings) else (Some resolved, warnings, []))
      | _ \<Rightarrow> None)"

end
