(* ===== verification/Config_Laws.thy ===== *)
theory Config_Laws
  imports Config_Effective
begin

text \<open>
  What loading promises: no rule panics for want of an anchor, and a configuration that comes out of the pipeline satisfies the
  invariants the worker, the retry policy, the partition arithmetic and the trigger compiler rely on.
\<close>

named_theorems calm_rules
named_theorems accepts

section \<open>Every rule has an anchor\<close>

definition calm :: "report list \<Rightarrow> bool" where
  "calm rs \<longleftrightarrow> (\<forall>r \<in> set rs. \<exists>d. r = Reported d)"

lemma calm_basic [calm_rules]: "calm []" "calm (a @ b) \<longleftrightarrow> calm a \<and> calm b" "calm (concat rss) \<longleftrightarrow> (\<forall>rs \<in> set rss. calm rs)"
  by (auto simp: calm_def)

lemma calm_diagnostics: "calm rs \<Longrightarrow> \<exists>ds. diagnostics_of rs = Some ds"
  by (induction rs rule: diagnostics_of.induct) (auto simp: calm_def)

lemma diagnostics_Nil: "diagnostics_of rs = Some [] \<longleftrightarrow> rs = []"
  by (induction rs rule: diagnostics_of.induct) auto

lemma calm_report: "stageHAnchorClass rule u = Some c \<Longrightarrow> semanticAnchors c a \<noteq> None \<Longrightarrow> calm (reportSemanticUsing rule u a why)"
  by (auto simp: calm_def reportSemanticUsing_def)

lemma calm_scalar [calm_rules]: "rule \<in> set scalar_rules \<Longrightarrow> calm (reject rule v b why)"
  by (auto simp: reject_def reportSemantic_def calm_basic at_value_def stageHAnchorClass_def intro!: calm_report)

lemma calm_structured [calm_rules]:
  "rule \<in> {''R3'', ''R5'', ''R24'', ''R26'', ''R30'', ''R32'', ''R33'', ''R36''} \<Longrightarrow> calm (reportStructured rule v why)"
  unfolding reportStructured_def by (rule calm_report [where c = valueAnchor]) (auto simp: at_value_def stageHAnchorClass_def)

lemma calm_element [calm_rules]: "rule \<in> {''R29'', ''R32'', ''R33'', ''R38''} \<Longrightarrow> calm (reportListElement rule v why)"
  unfolding reportListElement_def by (rule calm_report [where c = elementAnchor]) (auto simp: stageHAnchorClass_def)

lemma calm_header [calm_rules]:
  "rule \<in> {''R19'', ''R21''} \<Longrightarrow> calm (reportHeader rule headerNameUse h why)" "calm (reportHeader ''R19'' headerValueUse h why)"
  by (auto simp: reportHeader_def stageHAnchorClass_def intro!: calm_report)

lemma calm_effective [calm_rules]: "rule \<in> {''R9'', ''R11'', ''R12'', ''R16'', ''R39''} \<Longrightarrow> calm (reportEffective rule at why)"
  unfolding reportEffective_def by (rule calm_report [where c = valueAnchor]) (auto simp: stageHAnchorClass_def)

lemma calm_report_at [calm_rules]: "rule \<in> {''R9'', ''R11'', ''R12'', ''R16'', ''R39''} \<Longrightarrow> calm (report_at rule at why)"
  by (auto simp: report_at_def calm_rules split: option.splits)

lemma calm_unique [calm_rules]: "rule \<in> {''R29'', ''R32'', ''R33'', ''R38''} \<Longrightarrow> calm (unique_from rule invalid first es)"
  by (induction es arbitrary: first) (auto simp: calm_basic calm_element split: option.splits)

lemma calm_names [calm_rules]: "calm (names_from first ls)"
  by (induction ls arbitrary: first) (auto simp: calm_basic calm_structured Let_def split: option.splits)

lemma calm_resolve [calm_rules]: "calm (resolveAs rule p)"
  by (auto simp: calm_def resolveAs_def)

lemma calm_resolve_semantic [calm_rules]: "rule \<in> set scalar_rules \<Longrightarrow> calm (resolveSemanticAs rule p)"
  by (auto simp: calm_basic resolveSemanticAs_def reportSemantic_def stageHAnchorClass_def intro!: calm_report)

lemma scalar_members:
  "''R1'' \<in> set scalar_rules" "''R2'' \<in> set scalar_rules" "''R4'' \<in> set scalar_rules" "''R6'' \<in> set scalar_rules" "''R7'' \<in> set scalar_rules"
  "''R8'' \<in> set scalar_rules" "''R10'' \<in> set scalar_rules" "''R13'' \<in> set scalar_rules" "''R14'' \<in> set scalar_rules" "''R15'' \<in> set scalar_rules"
  "''R17'' \<in> set scalar_rules" "''R18'' \<in> set scalar_rules" "''R23'' \<in> set scalar_rules" "''R25'' \<in> set scalar_rules" "''R31'' \<in> set scalar_rules"
  "''R34'' \<in> set scalar_rules" "''R35'' \<in> set scalar_rules" "''R37'' \<in> set scalar_rules" "''R39'' \<in> set scalar_rules" "''R40'' \<in> set scalar_rules"
  "''R43'' \<in> set scalar_rules"
  by (simp_all add: scalar_rules_def)

lemma calm_Bool [calm_rules]: "calm (resolve_Bool b)"
  by (auto simp: resolve_Bool_def Let_def conversionRuleAt_def RuleDecode_def scalar_members intro!: calm_rules)

lemmas calm_defs = resolve_plain_def resolve_Dur_def resolve_StrList_def resolve_operations_def resolve_headers_def resolve_mapping_def
  resolve_retry_def between_def validateConcurrencyRange_def atLeast_def positiveInt_def positiveDur_def oneOf_def validateName_def Let_def

lemma calm_resolve_listener [calm_rules]: "calm (resolve_listener l)"
  by (simp add: resolve_listener_def calm_defs calm_rules scalar_members)

lemma calm_conversions: "calm (resolveEveryValue raw)"
  by (simp add: resolveEveryValue_def calm_defs calm_rules scalar_members)

lemma calm_validateHeaders [calm_rules]: "calm (validateHeaders h)"
  by (auto simp: validateHeaders_def validate_header_def calm_rules split: option.splits)

lemma calm_validateRetry [calm_rules]: "calm (validateRetry r)"
  by (simp add: validateRetry_def calm_defs calm_rules scalar_members)

lemma calm_identifiers [calm_rules]:
  "rule \<in> {''R29'', ''R32'', ''R33''} \<Longrightarrow> nonEmpty \<longrightarrow> rule \<noteq> ''R29'' \<Longrightarrow> calm (validateIdentifierList letter rule l nonEmpty)"
  by (auto simp: validateIdentifierList_def validateUniqueList_def calm_rules)

lemma calm_payload [calm_rules]: "calm (validatePayload letter prior raw)"
  by (auto simp: validatePayload_def validatePayloadCompatibility_def calm_defs calm_rules scalar_members)

lemma calm_validateListener [calm_rules]: "calm (validateListener letter parse prior l)"
proof -
  have "calm (validateTable letter t)" for t
    by (auto simp: validateTable_def calm_rules split: prod.splits tableFault.splits)
  moreover have "calm (validateOperations letter ops)" for ops
    by (auto simp: validateOperations_def validate_operation_def calm_rules split: option.splits)
  moreover have "calm (validateDestination parse d)" for d
    by (auto simp: validateDestination_def validateDestinationURL_def validateSigningSecrets_def validateUniqueList_def calm_defs calm_rules scalar_members
        split: prod.splits)
  ultimately show ?thesis by (simp add: validateListener_def calm_defs calm_rules scalar_members)
qed

lemma calm_validate: "calm (validate letter parse raw prior)"
  by (auto simp: validate_def validateRoot_def validateDatabase_def validateConnection_def validateWorker_def validateRetention_def
      validateDefaults_def validateListenerNames_def calm_defs calm_rules scalar_members)

lemma calm_effective_pass: "calm (validateEffective raw cfg)"
proof -
  have "calm (compare_listener raw cfg p)" for p
    by (auto simp: compare_listener_def validateRetryComparison_def validateConcurrencyComparison_def Let_def calm_rules split: prod.splits)
  then show ?thesis
    by (auto simp: validateEffective_def validateLeaseComparison_def validateRetentionComparisons_def validateAtLeast_def Let_def calm_rules
        split: option.splits)
qed

lemma pipeline_accepts:
  "runPipeline letter parse shape raw originals = Some (Some cfg, warnings, findings) \<Longrightarrow>
    shape = [] \<and> resolveEveryValue raw = [] \<and> validate letter parse raw [] = [] \<and> validateEffective raw cfg = [] \<and> cfg = resolveConfig raw \<and> findings = []"
  by (auto simp: runPipeline_def Let_def diagnostics_Nil split: option.splits if_splits)

section \<open>What no report means\<close>

lemma report_nonempty [accepts]: "reportSemanticUsing rule u a why \<noteq> []"
  by (simp add: reportSemanticUsing_def split: option.splits)

lemma reports_nonempty [accepts]:
  "reportStructured rule v why \<noteq> []" "reportListElement rule e why \<noteq> []" "reportHeader rule u h why \<noteq> []" "reportEffective rule at why \<noteq> []"
  by (simp_all add: reportStructured_def reportListElement_def reportHeader_def reportEffective_def report_nonempty)

lemma reject_Nil [accepts]: "reject rule v broken why = [] \<longleftrightarrow> (Valid v \<longrightarrow> \<not> broken)"
  by (auto simp: reject_def reportSemantic_def report_nonempty)

lemma report_at_Nil [accepts]: "report_at rule at why = [] \<longleftrightarrow> at = None"
  by (auto simp: report_at_def accepts split: option.splits)

lemma resolve_Nil [accepts]: "resolveAs rule p = [] \<longleftrightarrow> pr_refused p = []" "resolveSemanticAs rule p = [] \<longleftrightarrow> pr_refused p = []"
proof -
  show "resolveAs rule p = [] \<longleftrightarrow> pr_refused p = []" by (simp add: resolveAs_def)
  show "resolveSemanticAs rule p = [] \<longleftrightarrow> pr_refused p = []"
    by (cases "pr_refused p") (auto simp: resolveSemanticAs_def reportSemantic_def report_nonempty split: prod.splits)
qed

lemma resolve_Bool_Nil [accepts]: "resolve_Bool b = [] \<longleftrightarrow> pr_refused b = []"
  by (simp add: resolve_Bool_def Let_def accepts)

lemma scalar_Nil [accepts]:
  "between rule v low high = [] \<longleftrightarrow> (Valid v \<longrightarrow> low \<le> in_value v \<and> in_value v \<le> high)"
  "validateConcurrencyRange rule v = [] \<longleftrightarrow> (Valid v \<longrightarrow> 1 \<le> in_value v \<and> in_value v \<le> 1024)"
  "atLeast rule v low = [] \<longleftrightarrow> (Valid v \<longrightarrow> low \<le> in_value v)"
  "positiveInt rule v = [] \<longleftrightarrow> (Valid v \<longrightarrow> 0 < in_value v)"
  "positiveDur rule d = [] \<longleftrightarrow> (Valid d \<longrightarrow> 0 < du_value d)"
  "oneOf rule t permitted = [] \<longleftrightarrow> (Valid t \<longrightarrow> st_value t \<in> set permitted)"
  "validateName rule t = [] \<longleftrightarrow> (Valid t \<longrightarrow> nameRuleDefect (st_value t) = nameOK)"
  by (auto simp: between_def validateConcurrencyRange_def concurrencyCanParticipateInComparison_def minConcurrency_def maxConcurrency_def
      atLeast_def positiveInt_def positiveDur_def oneOf_def validateName_def Let_def accepts)

lemma upd_None: "(m(k \<mapsto> e)) a = None \<longleftrightarrow> a \<noteq> k \<and> m a = None"
  by simp

lemma unique_Nil:
  "unique_from rule invalid first es = [] \<longleftrightarrow>
    list_all (\<lambda>e. invalid (st_value e) = None) es \<and> distinct (map st_value es) \<and> (\<forall>e \<in> set es. first (st_value e) = None)"
proof (induction es arbitrary: first)
  case (Cons e es)
  show ?case
  proof (cases "invalid (st_value e) = None \<and> first (st_value e) = None")
    case True
    then show ?thesis using Cons.IH [of "first(st_value e \<mapsto> e)"] by (auto simp: upd_None image_iff simp del: fun_upd_apply)
  qed (auto simp: accepts split: option.splits)
qed simp

lemma lists_Nil [accepts]:
  "validateUniqueList rule l invalid = [] \<longleftrightarrow> list_all (\<lambda>e. invalid (st_value e) = None) (sl_values l) \<and> distinct (map st_value (sl_values l))"
  "validateSigningSecrets l = [] \<longleftrightarrow> (Valid l \<longrightarrow> list_all (\<lambda>e. st_value e \<noteq> []) (sl_values l) \<and> distinct (map st_value (sl_values l)))"
  by (auto simp: validateUniqueList_def validateSigningSecrets_def unique_Nil nonEmptyEntryFault_def list_all_iff)

lemma identifiers_Nil [accepts]:
  "validateIdentifierList letter rule l nonEmpty = [] \<longleftrightarrow> (Valid l \<longrightarrow> (nonEmpty \<longrightarrow> sl_values l \<noteq> []) \<and>
     list_all (\<lambda>e. identifierDefect letter (st_value e) = identOK) (sl_values l) \<and> distinct (map st_value (sl_values l)))"
  by (auto simp: validateIdentifierList_def accepts identifierEntryFault_def Let_def list_all_iff split: if_splits)

lemma names_Nil:
  "names_from first ls = [] \<Longrightarrow> \<forall>l \<in> set ls. Valid (rli_Name l) \<Longrightarrow>
    distinct (map (st_value \<circ> rli_Name) ls) \<and> (\<forall>l \<in> set ls. first (st_value (rli_Name l)) = None)"
proof (induction ls arbitrary: first)
  case (Cons l ls)
  let ?first = "first(st_value (rli_Name l) \<mapsto> rli_Name l)"
  from Cons.prems have new: "first (st_value (rli_Name l)) = None" "names_from ?first ls = []"
    by (auto simp: accepts Let_def split: option.splits)
  have "distinct (map (st_value \<circ> rli_Name) ls) \<and> (\<forall>l \<in> set ls. ?first (st_value (rli_Name l)) = None)"
    by (rule Cons.IH [OF new(2)]) (use Cons.prems(2) in simp)
  with new(1) show ?case by (auto simp: upd_None comp_def simp del: fun_upd_apply)
qed simp

lemma headers_Nil [accepts]:
  "validateHeaders h = [] \<longleftrightarrow> (\<forall>w \<in> set (hd_values h).
     (\<exists>n. canonicalHTTPFieldName (st_value (wh_Name w)) = Some n \<and> \<not> usesReservedHeaderPrefix n) \<and> (Valid (wh_Value w) \<longrightarrow> st_value (wh_Value w) \<noteq> []))"
  by (auto simp: validateHeaders_def validate_header_def accepts split: option.splits if_splits)

lemma table_Nil [accepts]: "validateTable letter v = [] \<longleftrightarrow> (Valid v \<longrightarrow> fst (qualifiedTableFault letter (st_value v)) = tableOK)"
  by (auto simp: validateTable_def accepts split: prod.splits tableFault.splits)

lemma url_Nil [accepts]: "validateDestinationURL parse v = [] \<longleftrightarrow> (Valid v \<longrightarrow> fst (destinationURLDefect parse (st_value v)) = urlOK)"
  by (auto simp: validateDestinationURL_def accepts split: prod.splits)

lemma connection_Nil [accepts]:
  "validateConnection letter rule v = [] \<longleftrightarrow> (Valid v \<longrightarrow> connectionStringForm letter (st_value v) \<noteq> connStringInvalid)"
  by (simp add: validateConnection_def accepts)

lemma Valid_read: "pr_refused p = [] \<Longrightarrow> Valid p \<longleftrightarrow> pr_Set p"
  by (simp add: Valid_def)

text \<open>The contract the scalar rules share: an unread value is not judged, no report means the value is good, and no rule panics.\<close>

locale gated_rule =
  fixes rule :: "'w \<Rightarrow> report list" and readable_value :: "'w \<Rightarrow> bool" and good_value :: "'w \<Rightarrow> bool"
  assumes exact: "rule w = [] \<longleftrightarrow> (readable_value w \<longrightarrow> good_value w)" and anchored: "calm (rule w)"
begin

lemma unread_not_judged: "\<not> readable_value w \<Longrightarrow> rule w = []"
  by (simp add: exact)

lemma breach_is_reported: "readable_value w \<Longrightarrow> \<not> good_value w \<Longrightarrow> \<exists>d ds. rule w = Reported d # ds"
  using exact [of w] anchored [of w] by (cases "rule w") (auto simp: calm_def)

end

interpretation version: gated_rule "\<lambda>v. reject ''R1'' v (in_value v \<noteq> 1) (semanticFault ''must equal 1'')" Valid "\<lambda>v. in_value v = 1"
  by unfold_locales (simp_all add: accepts calm_rules scalar_members)
interpretation instance_name: gated_rule "validateName ''R2''" Valid "\<lambda>v. nameRuleDefect (st_value v) = nameOK"
  by unfold_locales (auto simp: accepts calm_defs calm_rules scalar_members)
interpretation batch_size: gated_rule "\<lambda>v. between ''R7'' v 1 10000" Valid "\<lambda>v. 1 \<le> in_value v \<and> in_value v \<le> 10000"
  by unfold_locales (auto simp: accepts calm_defs calm_rules scalar_members)
interpretation worker_duration: gated_rule "positiveDur ''R8''" Valid "\<lambda>v. 0 < du_value v"
  by unfold_locales (auto simp: accepts calm_defs calm_rules scalar_members)
interpretation table_name: gated_rule "validateTable letter" Valid "\<lambda>v. fst (qualifiedTableFault letter (st_value v)) = tableOK" for letter
  by unfold_locales (auto simp: accepts validateTable_def calm_rules split: prod.splits tableFault.splits)

section \<open>The invariants of an accepted configuration\<close>

definition sound_worker :: "Worker_settings \<Rightarrow> bool" where
  "sound_worker w \<longleftrightarrow> 1 \<le> cwk_Concurrency w \<and> cwk_Concurrency w \<le> 1024 \<and> 1 \<le> cwk_BatchSize w \<and> cwk_BatchSize w \<le> 10000 \<and>
     0 < cwk_PollInterval w \<and> 0 < cwk_LeaseTimeout w \<and> 0 < cwk_DrainTimeout w"

definition sound_retention :: "Retention_settings \<Rightarrow> bool" where
  "sound_retention r \<longleftrightarrow> 0 < crt_PartitionInterval r \<and> crt_PartitionInterval r \<le> crt_Keep r \<and> crt_PartitionInterval r \<le> crt_Precreate r"

definition sound_retry :: "Retry \<Rightarrow> bool" where
  "sound_retry r \<longleftrightarrow> 1 \<le> cry_MaxAttempts r \<and> cry_Backoff r \<in> set retryBackoffs \<and>
     0 < cry_InitialInterval r \<and> cry_InitialInterval r \<le> cry_MaxInterval r"

definition sound_payload :: "letters \<Rightarrow> Payload \<Rightarrow> bool" where
  "sound_payload letter p \<longleftrightarrow> py_Mode p \<in> set payloadModes \<and> 0 < py_MaxBytes p \<and>
     distinct (py_Columns p) \<and> distinct (py_Exclude p) \<and>
     (\<forall>c \<in> set (py_Columns p) \<union> set (py_Exclude p). identifierDefect letter c = identOK) \<and>
     (py_Columns p \<noteq> [] \<longleftrightarrow> py_Mode p = payloadModeCols) \<and> (py_Exclude p \<noteq> [] \<longrightarrow> py_Mode p = payloadModeFull)"

definition sound_headers :: "Headers \<Rightarrow> bool" where
  "sound_headers h \<longleftrightarrow> (\<forall>n v. h n = Some v \<longrightarrow> (\<exists>written. canonicalHTTPFieldName written = Some n) \<and> \<not> usesReservedHeaderPrefix n \<and> v \<noteq> [])"

definition sound_operation :: "letters \<Rightarrow> Operation \<Rightarrow> bool" where
  "sound_operation letter op \<longleftrightarrow> (op_Kind op = updateOperation \<longrightarrow>
     distinct (op_Columns op) \<and> (\<forall>c \<in> set (op_Columns op). identifierDefect letter c = identOK)) \<and>
     (op_When op \<noteq> [] \<longrightarrow> forbiddenWhenReference (op_Kind op) (op_When op) = None)"

definition sound_listener :: "letters \<Rightarrow> url_parser \<Rightarrow> Worker_settings \<Rightarrow> configured_listener \<Rightarrow> bool" where
  "sound_listener letter parse w l \<longleftrightarrow>
     nameRuleDefect (li_Name l) = nameOK \<and> fst (qualifiedTableFault letter (ts_Table (li_Trigger l))) = tableOK \<and>
     (\<forall>op \<in> set (ts_Operations (li_Trigger l)). sound_operation letter op) \<and> sound_payload letter (ts_Payload (li_Trigger l)) \<and>
     sound_retry (cdl_Retry (li_Delivery l)) \<and>
     0 < cdl_Timeout (li_Delivery l) \<and> cdl_Timeout (li_Delivery l) < cwk_LeaseTimeout w \<and>
     0 \<le> cdl_Concurrency (li_Delivery l) \<and> cdl_Concurrency (li_Delivery l) \<le> cwk_Concurrency w \<and>
     (let d = cdl_Destination (li_Delivery l) in fst (destinationURLDefect parse (cds_URL d)) = urlOK \<and>
        cds_Method d \<in> set destinationMethods \<and> sound_headers (cds_Headers d) \<and> distinct (cds_Secrets d) \<and> [] \<notin> set (cds_Secrets d))"

text \<open>An instance name the author wrote is a name; one left out is the schema's.\<close>

definition sound_config :: "letters \<Rightarrow> url_parser \<Rightarrow> Config \<Rightarrow> bool" where
  "sound_config letter parse cfg \<longleftrightarrow> ccf_Version cfg = 1 \<and>
     identifierDefect letter (cdb_Schema (ccf_Database cfg)) = identOK \<and> \<not> usesReservedSchemaPrefix (cdb_Schema (ccf_Database cfg)) \<and>
     connectionStringForm letter (cdb_URL (ccf_Database cfg)) \<noteq> connStringInvalid \<and>
     (nameRuleDefect (ccf_Instance cfg) = nameOK \<or> ccf_Instance cfg = cdb_Schema (ccf_Database cfg)) \<and>
     sound_worker (ccf_Worker cfg) \<and> sound_retention (ccf_Retention cfg) \<and> distinct (map li_Name (ccf_Listeners cfg)) \<and>
     (\<forall>l \<in> set (ccf_Listeners cfg). sound_listener letter parse (ccf_Worker cfg) l)"

text \<open>What the stages before it leave in a decoded document: the keys the contract calls mandatory are written, and an entry of a
  mapping that is kept has its name and its value.\<close>

definition entries_written :: "rawHeaders \<Rightarrow> bool" where
  "entries_written h \<longleftrightarrow> (\<forall>w \<in> set (hd_values h). pr_Set (wh_Name w) \<and> pr_Set (wh_Value w))"

definition mandatory_written :: "rawConfig \<Rightarrow> bool" where
  "mandatory_written raw \<longleftrightarrow> pr_Set (rcf_Version raw) \<and> pr_Set (rdb_URL (mp_Value (rcf_Database raw))) \<and>
     entries_written (rdf_Headers (mp_Value (rcf_Defaults raw))) \<and>
     (\<forall>l \<in> set (lo_Values (rcf_Listeners raw)). pr_Set (rli_Name l) \<and> pr_Set (rli_Table l) \<and>
        pr_Set (rds_URL (mp_Value (rli_Destination l))) \<and> entries_written (rds_Headers (mp_Value (rli_Destination l))) \<and>
        (\<forall>named \<in> set (os_values (rli_Operations l)). pr_Set (no_Name named)))"

section \<open>Soundness of each part\<close>

lemma built_in:
  "df_worker resolvedBuiltInDefaults = \<lparr>cwk_Concurrency = 16, cwk_BatchSize = 100, cwk_PollInterval = 10 * second, cwk_LeaseTimeout = 5 * minute,
     cwk_DrainTimeout = 30 * second, cwk_AllowedDestinationCIDRs = []\<rparr>"
  "df_retention resolvedBuiltInDefaults = \<lparr>crt_Keep = 168 * hour, crt_PartitionInterval = 24 * hour, crt_Precreate = 168 * hour\<rparr>"
  "df_listener resolvedBuiltInDefaults = \<lparr>ld_enabled = True, ld_timeout = 5 * second,
     ld_retry = \<lparr>cry_MaxAttempts = 5, cry_Backoff = ''exponential'', cry_InitialInterval = 10 * second, cry_MaxInterval = hour, cry_Jitter = True\<rparr>,
     ld_operationDistinct = False,
     ld_payload = \<lparr>py_Mode = payloadModeFull, py_Columns = [], py_Exclude = [], py_IncludeOld = False, py_MaxBytes = 262144\<rparr>,
     ld_destinationMethod = ''POST''\<rparr>"
  "df_instance resolvedBuiltInDefaults = (\<lambda>schema. schema)"
  "cdb_Schema (df_database resolvedBuiltInDefaults) = ''noty''"
  by (simp_all add: resolvedBuiltInDefaults_def builtInDefaults_def zero_defaults_def suggestedSchema_def)

lemmas merged_defs = mergedString_def mergedInt_def mergedBool_def mergedDuration_def mergedStrings_def
lemmas time_units = second_def minute_def hour_def

lemma worker_sound:
  assumes "validateWorker raw = []"
    "pr_refused (rwk_Concurrency raw) = []" "pr_refused (rwk_BatchSize raw) = []" "pr_refused (rwk_PollInterval raw) = []"
    "pr_refused (rwk_LeaseTimeout raw) = []" "pr_refused (rwk_DrainTimeout raw) = []"
  shows "sound_worker (resolveWorker (df_worker resolvedBuiltInDefaults) raw)"
  using assms by (simp add: sound_worker_def resolveWorker_def validateWorker_def accepts Valid_read built_in merged_defs time_units)

lemma resolved_source:
  "pr_Set (ed_source (resolvedDuration v ws)) \<longleftrightarrow> (\<exists>w \<in> set ws. pr_Set w)" "ed_value (resolvedDuration v ws) = v"
  by (induction ws) (auto simp: resolvedDuration_def zero_Dur_def split: list.splits)

lemma resolved_readable: "\<forall>w \<in> set ws. pr_refused w = [] \<Longrightarrow> readable (resolvedDuration v ws)"
  by (induction ws) (auto simp: resolvedDuration_def readable_def Valid_def zero_Dur_def split: list.splits)

lemma anchor_None: "comparisonAnchor a b = None \<longleftrightarrow> \<not> pr_Set a \<and> \<not> pr_Set b"
  by (simp add: comparisonAnchor_def wasWritten_def)

lemma retention_sound:
  assumes "validateRetention (mp_Value (rcf_Retention raw)) = []" "validateRetentionComparisons ''R11'' ''R12'' raw cfg = []"
    "ccf_Retention cfg = resolveRetention (df_retention resolvedBuiltInDefaults) (mp_Value (rcf_Retention raw))"
    "pr_refused (rrt_Keep (mp_Value (rcf_Retention raw))) = []" "pr_refused (rrt_PartitionInterval (mp_Value (rcf_Retention raw))) = []"
    "pr_refused (rrt_Precreate (mp_Value (rcf_Retention raw))) = []"
  shows "sound_retention (ccf_Retention cfg)"
proof -
  let ?r = "mp_Value (rcf_Retention raw)"
  have p: "0 < crt_PartitionInterval (ccf_Retention cfg)" "0 < crt_Keep (ccf_Retention cfg)" "0 < crt_Precreate (ccf_Retention cfg)"
    using assms(1,3-) by (simp_all add: validateRetention_def resolveRetention_def accepts Valid_read built_in merged_defs time_units)
  then have pos: "positive (resolvedDuration (crt_PartitionInterval (ccf_Retention cfg)) [rrt_PartitionInterval ?r])"
    "positive (resolvedDuration (crt_Keep (ccf_Retention cfg)) [rrt_Keep ?r])"
    "positive (resolvedDuration (crt_Precreate (ccf_Retention cfg)) [rrt_Precreate ?r])"
    using assms(4-) by (simp_all add: positive_def resolved_readable resolved_source)
  have "crt_PartitionInterval (ccf_Retention cfg) \<le> crt_Keep (ccf_Retention cfg) \<or> \<not> pr_Set (rrt_Keep ?r) \<and> \<not> pr_Set (rrt_PartitionInterval ?r)"
    "crt_PartitionInterval (ccf_Retention cfg) \<le> crt_Precreate (ccf_Retention cfg) \<or> \<not> pr_Set (rrt_Precreate ?r) \<and> \<not> pr_Set (rrt_PartitionInterval ?r)"
    using assms(2) pos by (auto simp: validateRetentionComparisons_def validateAtLeast_def Let_def accepts anchor_None resolved_source split: if_splits)
  then show ?thesis using p assms(3)
    by (auto simp: sound_retention_def resolveRetention_def built_in merged_defs time_units)
qed

definition retry_read :: "rawRetry \<Rightarrow> bool" where
  "retry_read r \<longleftrightarrow> pr_refused (rry_MaxAttempts r) = [] \<and> pr_refused (rry_Backoff r) = [] \<and> pr_refused (rry_InitialInterval r) = [] \<and>
     pr_refused (rry_MaxInterval r) = [] \<and> pr_refused (rry_Jitter r) = []"

lemma resolve_retry_Nil [accepts]: "resolve_retry r = [] \<longleftrightarrow> retry_read r"
  by (simp add: resolve_retry_def retry_read_def resolve_plain_def resolve_Dur_def accepts)

lemma retry_sound:
  assumes "validateRetry d = []" "validateRetry l = []" "retry_read d" "retry_read l"
    "retry = mergeRetry (mergeRetry (ld_retry (df_listener resolvedBuiltInDefaults)) d) l" "validateRetryComparison ''R16'' d l retry = []"
  shows "sound_retry retry"
proof -
  let ?initial = "resolvedDuration (cry_InitialInterval retry) [rry_InitialInterval l, rry_InitialInterval d]"
  let ?maximum = "resolvedDuration (cry_MaxInterval retry) [rry_MaxInterval l, rry_MaxInterval d]"
  have basic: "1 \<le> cry_MaxAttempts retry" "cry_Backoff retry \<in> set retryBackoffs" "0 < cry_MaxInterval retry"
    using assms(1-5) by (auto simp: validateRetry_def mergeRetry_def accepts Valid_read retry_read_def built_in merged_defs time_units retryBackoffs_def)
  have initial: "readable ?initial" using assms(3,4) by (intro resolved_readable) (simp add: retry_read_def)
  have maximum: "positive ?maximum" using assms(3,4) basic(3) by (simp add: positive_def resolved_source resolved_readable retry_read_def)
  have pos: "0 < cry_InitialInterval retry"
  proof (rule ccontr)
    assume no: "\<not> ?thesis"
    then have "\<not> pr_Set (ed_source ?initial)"
      using assms(6) initial by (auto simp: validateRetryComparison_def Let_def accepts resolved_source(2) split: if_splits)
    then have "cry_InitialInterval retry = 10 * second" using assms(5) by (simp add: resolved_source mergeRetry_def built_in merged_defs)
    then show False using no by (simp add: second_def)
  qed
  have "cry_InitialInterval retry \<le> cry_MaxInterval retry"
  proof (rule ccontr)
    assume no: "\<not> ?thesis"
    then have "comparisonAnchor (ed_source ?initial) (ed_source ?maximum) = None"
      using assms(6) initial maximum pos by (auto simp: validateRetryComparison_def Let_def accepts resolved_source(2) split: if_splits)
    then have "cry_InitialInterval retry = 10 * second" "cry_MaxInterval retry = hour"
      using assms(5) by (simp_all add: anchor_None resolved_source mergeRetry_def built_in merged_defs)
    then show False using no by (simp add: time_units)
  qed
  with basic pos show ?thesis by (simp add: sound_retry_def)
qed

text \<open>The largest timeout: every positive candidate is at most the one found, and the one found is a candidate.\<close>

lemma larger_fold:
  "foldl larger acc es = result \<Longrightarrow> (\<forall>a. acc = Some a \<longrightarrow> positive a) \<Longrightarrow>
    (\<forall>e \<in> set es. positive e \<longrightarrow> (\<exists>l. result = Some l \<and> ed_value e \<le> ed_value l)) \<and>
    (\<forall>l. result = Some l \<longrightarrow> acc = Some l \<or> l \<in> set es \<and> positive l) \<and>
    (\<forall>a. acc = Some a \<longrightarrow> (\<exists>l. result = Some l \<and> ed_value a \<le> ed_value l))"
proof (induction es arbitrary: acc)
  case (Cons e es)
  have keep: "\<forall>a. larger acc e = Some a \<longrightarrow> positive a" using Cons.prems(2) by (auto simp: larger_def split: option.splits if_splits)
  from Cons.IH [OF _ this] Cons.prems(1)
  have IH: "\<forall>e \<in> set es. positive e \<longrightarrow> (\<exists>l. result = Some l \<and> ed_value e \<le> ed_value l)"
    "\<forall>l. result = Some l \<longrightarrow> larger acc e = Some l \<or> l \<in> set es \<and> positive l"
    "\<forall>a. larger acc e = Some a \<longrightarrow> (\<exists>l. result = Some l \<and> ed_value a \<le> ed_value l)" by simp_all
  have step: "\<exists>m. larger acc e = Some m \<and> ed_value x \<le> ed_value m" if "acc = Some x \<or> x = e \<and> positive e" for x
    using that by (auto simp: larger_def split: option.splits)
  have up: "\<exists>l. result = Some l \<and> ed_value x \<le> ed_value l" if x: "acc = Some x \<or> x = e \<and> positive e" for x
  proof -
    from step [OF x] obtain m where m: "larger acc e = Some m" "ed_value x \<le> ed_value m" by blast
    with IH(3) obtain l where "result = Some l" "ed_value m \<le> ed_value l" by blast
    with m(2) show ?thesis by auto
  qed
  have origin: "larger acc e = Some l \<Longrightarrow> acc = Some l \<or> l = e \<and> positive e" for l
    by (auto simp: larger_def split: option.splits if_splits)
  show ?case using IH(1,2) up origin by auto
qed simp

lemma paired_members:
  assumes "cfg = resolveConfig raw" "l \<in> set (ccf_Listeners cfg)"
  obtains r where "r \<in> set (lo_Values (rcf_Listeners raw))" "(r, l) \<in> set (paired raw cfg)"
    "l = resolveListener r (rdf_Headers (mp_Value (rcf_Defaults raw))) ((df_listener resolvedBuiltInDefaults)\<lparr>
       ld_timeout := mergedDuration (rdf_Timeout (mp_Value (rcf_Defaults raw))) (5 * second),
       ld_retry := mergeRetry (ld_retry (df_listener resolvedBuiltInDefaults)) (mp_Value (rdf_Retry (mp_Value (rcf_Defaults raw))))\<rparr>)"
  using assms by (auto simp: resolveConfig_def Let_def paired_def built_in zip_map2 zip_same_conv_map split: prod.splits)

lemma lease_sound:
  assumes cfg: "cfg = resolveConfig raw" and l: "(r, l) \<in> set (paired raw cfg)"
    and made: "\<And>r l. (r, l) \<in> set (paired raw cfg) \<Longrightarrow>
      cdl_Timeout (li_Delivery l) = mergedDuration (rli_Timeout r) (mergedDuration (rdf_Timeout (mp_Value (rcf_Defaults raw))) (5 * second))"
    and read: "pr_refused (rwk_LeaseTimeout (mp_Value (rcf_Worker raw))) = []" "positive (listener_timeout raw (r, l))"
    and lease: "0 < cwk_LeaseTimeout (ccf_Worker cfg)" and none: "validateLeaseComparison ''R9'' raw cfg = []"
  shows "cdl_Timeout (li_Delivery l) < cwk_LeaseTimeout (ccf_Worker cfg)"
proof -
  let ?lease = "resolvedDuration (cwk_LeaseTimeout (ccf_Worker cfg)) [rwk_LeaseTimeout (mp_Value (rcf_Worker raw))]"
  have pos: "positive ?lease" using read(1) lease by (simp add: positive_def resolved_source resolved_readable)
  from larger_fold [of None "map (listener_timeout raw) (paired raw cfg)", OF refl] l read(2)
  obtain t where t: "largestListenerTimeout raw cfg = Some t" "ed_value (listener_timeout raw (r, l)) \<le> ed_value t"
    "t \<in> listener_timeout raw ` set (paired raw cfg)"
    by (fastforce simp: largestListenerTimeout_def)
  then obtain r' l' where o: "(r', l') \<in> set (paired raw cfg)" "t = listener_timeout raw (r', l')" by auto
  have "ed_value t < cwk_LeaseTimeout (ccf_Worker cfg)"
  proof (rule ccontr)
    assume no: "\<not> ?thesis"
    then have "comparisonAnchor (ed_source ?lease) (ed_source t) = None"
      using none t(1) pos by (auto simp: validateLeaseComparison_def Let_def accepts resolved_source(2) split: if_splits)
    then have "\<not> pr_Set (rwk_LeaseTimeout (mp_Value (rcf_Worker raw)))" "\<not> pr_Set (rli_Timeout r')" "\<not> pr_Set (rdf_Timeout (mp_Value (rcf_Defaults raw)))"
      by (simp_all add: anchor_None o(2) listener_timeout_def resolved_source)
    then have "cwk_LeaseTimeout (ccf_Worker cfg) = 5 * minute" "ed_value t = 5 * second"
      using cfg made [OF o(1)] by (simp_all add: o(2) listener_timeout_def resolved_source resolveConfig_def resolveWorker_def Let_def built_in
          merged_defs split: prod.splits)
    then show False using no by (simp add: time_units)
  qed
  with t(2) show ?thesis by (simp add: listener_timeout_def resolved_source)
qed

lemma concurrency_sound:
  assumes "validateConcurrencyComparison ''R39'' w l worker (mergedInt l 0) = []" "validateConcurrencyRange ''R39'' l = []"
    "pr_refused w = []" "pr_refused l = []" "1 \<le> worker" "worker \<le> 1024"
  shows "0 \<le> mergedInt l 0 \<and> mergedInt l 0 \<le> worker"
  using assms by (cases "pr_Set l")
    (auto simp: validateConcurrencyComparison_def resolvedInt_def Let_def comparableConcurrency_def concurrencyCanParticipateInComparison_def
      minConcurrency_def maxConcurrency_def accepts Valid_read anchor_None zero_Int_def merged_defs split: if_splits)

lemma payload_sound:
  assumes "validatePayload letter [] raw = []" "pr_refused (rpy_Mode raw) = []" "pr_refused (rpy_Columns raw) = []"
    "pr_refused (rpy_Exclude raw) = []" "pr_refused (rpy_MaxBytes raw) = []"
  shows "sound_payload letter (resolvePayload raw (ld_payload (df_listener resolvedBuiltInDefaults)))"
proof -
  have none: "\<not> hasPriorCorrection [] (rpy_Mode raw) payloadColumnsKey" by (simp add: hasPriorCorrection_def Let_def split: option.splits)
  have modes: "payloadModeFull \<in> set payloadModes" "payloadModeFull \<noteq> payloadModeCols"
    by (simp_all add: payloadModes_def payloadModeFull_def payloadModeCols_def)
  show ?thesis using assms none modes
    by (auto simp: validatePayload_def validatePayloadCompatibility_def payloadModeCanGovernCompatibility_def sound_payload_def resolvePayload_def
        Let_def accepts Valid_read built_in merged_defs list_all_iff split: if_splits)
qed

definition headers_ok :: "rawHeaders \<Rightarrow> bool" where
  "headers_ok h \<longleftrightarrow> validateHeaders h = [] \<and> entries_written h \<and> (\<forall>w \<in> set (hd_values h). pr_refused (wh_Value w) = [])"

lemma merge_layer_sound:
  "sound_headers m \<Longrightarrow> \<forall>w \<in> set ws. pr_Set (wh_Name w) \<and> pr_Set (wh_Value w) \<and> st_value (wh_Value w) \<noteq> [] \<and>
      (\<exists>n. canonicalHTTPFieldName (st_value (wh_Name w)) = Some n \<and> \<not> usesReservedHeaderPrefix n) \<Longrightarrow>
    sound_headers (foldl merge_header m ws)"
proof (induction ws arbitrary: m)
  case (Cons w ws)
  have "sound_headers (merge_header m w)"
    using Cons.prems by (auto simp: merge_header_def mergedString_def sound_headers_def split: option.splits)
  then show ?case using Cons by simp
qed simp

lemma headers_sound:
  assumes "headers_ok a" "headers_ok b"
  shows "sound_headers (mergeHeaders [a, b])"
proof -
  have layer: "sound_headers (if \<not> pr_Set h then m else foldl merge_header m (hd_values h))" if "sound_headers m" "headers_ok h" for m h
    using that by (auto simp: headers_ok_def entries_written_def accepts Valid_read intro!: merge_layer_sound)
  have "sound_headers Map.empty" by (simp add: sound_headers_def)
  then show ?thesis using assms by (simp add: mergeHeaders_def layer)
qed

lemma set_SortFunc: "set (SortFunc compare xs) = set xs"
  by (metis mset_SortFunc set_mset_mset)

lemma operations_sound:
  assumes "validateOperations letter ops = []" "\<forall>named \<in> set (os_values ops). pr_Set (no_Name named)"
    "\<forall>named \<in> set (os_values ops). pr_refused (ro_Columns (no_Filter named)) = [] \<and> pr_refused (ro_When (no_Filter named)) = []"
  shows "\<forall>op \<in> set (resolveOperations ops d). sound_operation letter op"
proof -
  have "sound_operation letter (resolve_operation d named)" if "named \<in> set (os_values ops)" for named
  proof -
    from assms that have "validate_operation letter named = []" "pr_Set (no_Name named)"
      "pr_refused (ro_Columns (no_Filter named)) = []" "pr_refused (ro_When (no_Filter named)) = []"
      by (auto simp: validateOperations_def)
    then show ?thesis
      by (auto simp: sound_operation_def resolve_operation_def validate_operation_def accepts Valid_read merged_defs list_all_iff
          split: option.splits if_splits)
  qed
  then show ?thesis by (auto simp: resolveOperations_def set_SortFunc)
qed

lemmas resolve_defs = resolve_plain_def resolve_Dur_def resolve_StrList_def resolve_operations_def resolve_headers_def resolve_mapping_def

definition listener_read :: "rawListener \<Rightarrow> bool" where
  "listener_read l \<longleftrightarrow> (let p = mp_Value (rli_Payload l); d = mp_Value (rli_Destination l) in
     pr_refused (rli_Name l) = [] \<and> pr_refused (rli_Table l) = [] \<and> pr_refused (rli_Timeout l) = [] \<and> pr_refused (rli_Concurrency l) = [] \<and>
     retry_read (mp_Value (rli_Retry l)) \<and>
     (\<forall>named \<in> set (os_values (rli_Operations l)). pr_refused (ro_Columns (no_Filter named)) = [] \<and> pr_refused (ro_When (no_Filter named)) = []) \<and>
     pr_refused (rpy_Mode p) = [] \<and> pr_refused (rpy_Columns p) = [] \<and> pr_refused (rpy_Exclude p) = [] \<and> pr_refused (rpy_MaxBytes p) = [] \<and>
     pr_refused (rds_URL d) = [] \<and> pr_refused (rds_Method d) = [] \<and> pr_refused (rsg_Secrets (mp_Value (rds_Signing d))) = [] \<and>
     (\<forall>w \<in> set (hd_values (rds_Headers d)). pr_refused (wh_Value w) = []))"

lemma resolve_listener_read: "resolve_listener l = [] \<Longrightarrow> listener_read l"
  by (auto simp: resolve_listener_def listener_read_def resolve_defs accepts Let_def)

lemma root_read:
  assumes "resolveEveryValue raw = []"
  shows "pr_refused (rcf_Version raw) = []" "pr_refused (rcf_Instance raw) = []" "pr_refused (rdb_Schema (mp_Value (rcf_Database raw))) = []"
    "pr_refused (rdb_URL (mp_Value (rcf_Database raw))) = []"
    "pr_refused (rwk_Concurrency (mp_Value (rcf_Worker raw))) = []" "pr_refused (rwk_BatchSize (mp_Value (rcf_Worker raw))) = []"
    "pr_refused (rwk_PollInterval (mp_Value (rcf_Worker raw))) = []" "pr_refused (rwk_LeaseTimeout (mp_Value (rcf_Worker raw))) = []"
    "pr_refused (rwk_DrainTimeout (mp_Value (rcf_Worker raw))) = []"
    "pr_refused (rrt_Keep (mp_Value (rcf_Retention raw))) = []" "pr_refused (rrt_PartitionInterval (mp_Value (rcf_Retention raw))) = []"
    "pr_refused (rrt_Precreate (mp_Value (rcf_Retention raw))) = []"
    "pr_refused (rdf_Timeout (mp_Value (rcf_Defaults raw))) = []" "retry_read (mp_Value (rdf_Retry (mp_Value (rcf_Defaults raw))))"
    "\<forall>w \<in> set (hd_values (rdf_Headers (mp_Value (rcf_Defaults raw)))). pr_refused (wh_Value w) = []"
    "\<forall>l \<in> set (lo_Values (rcf_Listeners raw)). listener_read l"
  using assms by (simp_all add: resolveEveryValue_def resolve_defs accepts resolve_listener_read)

lemma resolved_timeout:
  assumes "cfg = resolveConfig raw" "(r, l) \<in> set (paired raw cfg)"
  shows "cdl_Timeout (li_Delivery l) = mergedDuration (rli_Timeout r) (mergedDuration (rdf_Timeout (mp_Value (rcf_Defaults raw))) (5 * second))"
  using assms by (auto simp: resolveConfig_def Let_def paired_def built_in zip_map2 zip_same_conv_map resolveListener_def split: prod.splits)

lemma listener_sound:
  assumes cfg: "cfg = resolveConfig raw" and l: "l \<in> set (ccf_Listeners cfg)"
    and none: "resolveEveryValue raw = []" "validate letter parse raw [] = []" "validateEffective raw cfg = []"
    and written: "mandatory_written raw" and worker: "sound_worker (ccf_Worker cfg)"
  shows "sound_listener letter parse (ccf_Worker cfg) l"
proof -
  let ?d = "mp_Value (rcf_Defaults raw)"
  from paired_members [OF cfg l] obtain r where r: "r \<in> set (lo_Values (rcf_Listeners raw))" "(r, l) \<in> set (paired raw cfg)"
    and made: "l = resolveListener r (rdf_Headers ?d) ((df_listener resolvedBuiltInDefaults)\<lparr>
       ld_timeout := mergedDuration (rdf_Timeout ?d) (5 * second),
       ld_retry := mergeRetry (ld_retry (df_listener resolvedBuiltInDefaults)) (mp_Value (rdf_Retry ?d))\<rparr>)" .
  note root = root_read [OF none(1)]
  have read: "listener_read r" using root(16) r(1) by blast
  have v: "validateListener letter parse [] r = []" "validateDefaults ?d = []" using none(2) r(1) by (auto simp: validate_def)
  have c: "compare_listener raw cfg (r, l) = []" using none(3) r(2) by (auto simp: validateEffective_def)
  have w: "pr_Set (rli_Name r)" "pr_Set (rli_Table r)" "pr_Set (rds_URL (mp_Value (rli_Destination r)))"
    using written r(1) by (auto simp: mandatory_written_def)
  have "nameRuleDefect (li_Name l) = nameOK" "fst (qualifiedTableFault letter (ts_Table (li_Trigger l))) = tableOK"
    using v(1) w read by (auto simp: made resolveListener_def validateListener_def listener_read_def accepts Valid_read merged_defs Let_def)
  moreover have "\<forall>op \<in> set (ts_Operations (li_Trigger l)). sound_operation letter op"
    using v(1) read written r(1)
    by (simp add: made resolveListener_def validateListener_def Let_def, intro operations_sound) (auto simp: mandatory_written_def listener_read_def Let_def)
  moreover have "sound_payload letter (ts_Payload (li_Trigger l))"
    using v(1) read by (simp add: made resolveListener_def validateListener_def Let_def payload_sound listener_read_def)
  moreover have "sound_retry (cdl_Retry (li_Delivery l))"
    using v c read root(14)
    by (intro retry_sound [of "mp_Value (rdf_Retry ?d)" "mp_Value (rli_Retry r)"])
      (simp_all add: made resolveListener_def validateListener_def validateDefaults_def compare_listener_def listener_read_def Let_def)
  moreover have timeout: "0 < cdl_Timeout (li_Delivery l)"
    using v read root(13) by (simp add: resolved_timeout [OF cfg r(2)] validateListener_def validateDefaults_def listener_read_def accepts Valid_read
        merged_defs second_def Let_def)
  moreover have "cdl_Timeout (li_Delivery l) < cwk_LeaseTimeout (ccf_Worker cfg)"
  proof (rule lease_sound [OF cfg r(2)])
    show "positive (listener_timeout raw (r, l))"
      using timeout read root(13) by (simp add: positive_def listener_timeout_def resolved_source resolved_readable listener_read_def Let_def)
  qed (use root(8) worker none(3) resolved_timeout [OF cfg] in \<open>auto simp: sound_worker_def validateEffective_def\<close>)
  moreover have "0 \<le> cdl_Concurrency (li_Delivery l) \<and> cdl_Concurrency (li_Delivery l) \<le> cwk_Concurrency (ccf_Worker cfg)"
    using concurrency_sound [of "rwk_Concurrency (mp_Value (rcf_Worker raw))" "rli_Concurrency r" "cwk_Concurrency (ccf_Worker cfg)"]
      v(1) c read root(5) worker
    by (simp add: made resolveListener_def validateListener_def compare_listener_def listener_read_def sound_worker_def Let_def)
  moreover have "fst (destinationURLDefect parse (cds_URL (cdl_Destination (li_Delivery l)))) = urlOK"
    "cds_Method (cdl_Destination (li_Delivery l)) \<in> set destinationMethods"
    "distinct (cds_Secrets (cdl_Destination (li_Delivery l)))" "[] \<notin> set (cds_Secrets (cdl_Destination (li_Delivery l)))"
    using v(1) w read by (auto simp: made resolveListener_def validateListener_def validateDestination_def listener_read_def accepts Valid_read
        merged_defs built_in destinationMethods_def list_all_iff Let_def)
  moreover have "sound_headers (cds_Headers (cdl_Destination (li_Delivery l)))"
    using v read root(15) written r(1)
    by (simp add: made resolveListener_def Let_def, intro headers_sound)
      (auto simp: headers_ok_def validateListener_def validateDestination_def validateDefaults_def mandatory_written_def listener_read_def Let_def)
  ultimately show ?thesis by (simp add: sound_listener_def Let_def)
qed

lemma runes_ascii: "list_all (\<lambda>c. of_char c < (128::nat)) s \<Longrightarrow> runes s = map of_char s"
  by (induction s) (simp_all add: runes.simps [of "[]"] runes.simps [of "c # s" for c s] DecodeRune_ascii)

lemma lower_identifier:
  assumes "letters_law letter" "s \<noteq> []" "length s \<le> 63" "list_all (\<lambda>c. 97 \<le> (of_char c :: nat) \<and> (of_char c :: nat) \<le> 122) s"
  shows "identifierDefect letter s = identOK"
proof -
  obtain c t where s: "s = c # t" using assms(2) by (cases s) auto
  have l: "letter (of_char x)" if "x \<in> set s" for x using assms(1,4) that by (auto simp: letters_law_def list_all_iff)
  have ascii: "(of_char c :: nat) < 128" "list_all (\<lambda>c. of_char c < (128::nat)) t" using assms(4) by (auto simp: s list_all_iff)
  have "isIdentifierText letter s"
    using l by (auto simp: s isIdentifierText_def DecodeRune_ascii [OF ascii(1)] runes_ascii [OF ascii(2)] isIdentifierStart_def isIdentifierChar_def list_all_iff)
  then show ?thesis using assms(2,3) by (simp add: identifierDefect_def maxIdentifierBytes_def)
qed

lemma noty_identifier: "letters_law letter \<Longrightarrow> identifierDefect letter ''noty'' = identOK"
  by (rule lower_identifier) simp_all

section \<open>Sample documents\<close>

definition text_of :: "string \<Rightarrow> Str" where
  "text_of s = \<lparr>pr_Set = True, pr_node = 1, pr_at = None, pr_refused = [], st_value = s\<rparr>"
definition no_text :: Str where "no_text = \<lparr>pr_Set = False, pr_node = 0, pr_at = None, pr_refused = [], st_value = []\<rparr>"
definition int_of_written :: "int \<Rightarrow> Integer" where
  "int_of_written i = \<lparr>pr_Set = True, pr_node = 1, pr_at = None, pr_refused = [], in_value = i\<rparr>"
definition no_flag :: Bool where "no_flag = \<lparr>pr_Set = False, pr_node = 0, pr_at = None, pr_refused = [], bo_value = False\<rparr>"
definition no_list :: StrList where "no_list = \<lparr>pr_Set = False, pr_node = 0, pr_at = None, pr_refused = [], sl_values = []\<rparr>"
definition no_headers :: rawHeaders where "no_headers = \<lparr>pr_Set = False, pr_node = 0, pr_at = None, pr_refused = [], hd_values = []\<rparr>"
definition mapping_of :: "'a \<Rightarrow> 'a mappingOf" where
  "mapping_of v = \<lparr>pr_Set = True, pr_node = 1, pr_at = None, pr_refused = [], mp_Value = v\<rparr>"
definition no_retry :: rawRetry where
  "no_retry = \<lparr>rry_MaxAttempts = zero_Int, rry_Backoff = no_text, rry_InitialInterval = zero_Dur, rry_MaxInterval = zero_Dur, rry_Jitter = no_flag\<rparr>"

definition sample_document :: "Str \<Rightarrow> rawListener list \<Rightarrow> rawConfig" where
  "sample_document schema ls = \<lparr>rcf_Version = int_of_written 1, rcf_Instance = no_text, rcf_AutoReconcile = no_flag,
     rcf_Database = mapping_of \<lparr>rdb_URL = text_of ''postgres://h/d'', rdb_Schema = schema, rdb_ListenURL = no_text\<rparr>,
     rcf_Worker = mapping_of \<lparr>rwk_Concurrency = int_of_written 4, rwk_BatchSize = zero_Int, rwk_PollInterval = zero_Dur,
       rwk_LeaseTimeout = zero_Dur, rwk_DrainTimeout = zero_Dur, rwk_AllowedDestinationCIDRs = no_list\<rparr>,
     rcf_Retention = mapping_of \<lparr>rrt_Keep = zero_Dur, rrt_PartitionInterval = zero_Dur, rrt_Precreate = zero_Dur\<rparr>,
     rcf_Defaults = mapping_of \<lparr>rdf_Timeout = zero_Dur, rdf_Retry = mapping_of no_retry, rdf_Headers = no_headers\<rparr>,
     rcf_Listeners = \<lparr>pr_Set = True, pr_node = 1, pr_at = None, pr_refused = [], lo_Values = ls\<rparr>\<rparr>"

definition sample_listener :: rawListener where
  "sample_listener = \<lparr>rli_Name = text_of ''orders'', rli_Enabled = no_flag, rli_Table = text_of ''app.orders'',
     rli_Operations = \<lparr>pr_Set = True, pr_node = 1, pr_at = None, pr_refused = [],
       os_values = [\<lparr>no_Name = text_of ''insert'', no_Filter = \<lparr>ro_Columns = no_list, ro_IsDistinct = no_flag, ro_When = no_text\<rparr>\<rparr>]\<rparr>,
     rli_Payload = mapping_of \<lparr>rpy_Mode = no_text, rpy_Columns = no_list, rpy_Exclude = no_list, rpy_IncludeOld = no_flag, rpy_MaxBytes = zero_Int\<rparr>,
     rli_Destination = mapping_of \<lparr>rds_URL = text_of ''http://h'', rds_Method = no_text, rds_Headers = no_headers,
       rds_Signing = mapping_of \<lparr>rsg_Secrets = no_list\<rparr>\<rparr>,
     rli_Retry = mapping_of no_retry, rli_Timeout = zero_Dur, rli_Concurrency = int_of_written 2\<rparr>"

definition ascii_letters :: letters where
  "ascii_letters r \<longleftrightarrow> 65 \<le> r \<and> r \<le> 90 \<or> 97 \<le> r \<and> r \<le> 122"

lemma ascii_letters_law: "letters_law ascii_letters"
  by (auto simp: letters_law_def ascii_letters_def RuneError_def)

lemmas sample_defs = text_of_def no_text_def int_of_written_def no_flag_def no_list_def no_headers_def mapping_of_def no_retry_def
  sample_document_def zero_Dur_def zero_Int_def

lemmas validate_defs = validate_def validateRoot_def validateDatabase_def validateWorker_def validateRetention_def validateDefaults_def
  validateRetry_def validateListenerNames_def Valid_def

lemma sample_root:
  "resolveEveryValue (sample_document (text_of s) []) = []"
  "identifierDefect letter s = identOK \<Longrightarrow> \<not> usesReservedSchemaPrefix s \<Longrightarrow> validate letter parse (sample_document (text_of s) []) [] = []"
  "validateEffective (sample_document (text_of s) []) (resolveConfig (sample_document (text_of s) [])) = []"
  "ccf_Instance (resolveConfig (sample_document (text_of s) [])) = s"
     apply (simp add: resolveEveryValue_def resolve_defs accepts sample_defs retry_read_def)
    apply (simp add: validate_defs accepts sample_defs connectionStringForm_def hasConnectionURIDesignator_def HasPrefix_def
      shortConnectionURIDesignator_def connectionURIDesignator_def)
   apply (simp add: validateEffective_def validateLeaseComparison_def largestListenerTimeout_def paired_def validateRetentionComparisons_def
      validateAtLeast_def resolvedDuration_def positive_def readable_def resolveConfig_def resolveRetention_def built_in merged_defs time_units sample_defs Let_def
      split: prod.splits)
  apply (simp add: resolveConfig_def resolveDatabase_def built_in merged_defs sample_defs Let_def)
  done

section \<open>The derived instance\<close>

definition listenChannelName :: "sanitizer \<Rightarrow> string \<Rightarrow> string \<times> IdentifierFault" where
  "listenChannelName san inst = Quoted san (''pg_noty_events_'' @ inst)"

text \<open>A written instance always names a channel. An instance left out is the schema's name, which the name rule never sees, so that
  an accepted configuration can have a channel PostgreSQL refuses.\<close>

lemma written_instance_has_a_channel: "nameRuleDefect inst = nameOK \<Longrightarrow> snd (listenChannelName san inst) = IdentifierOK"
proof -
  assume "nameRuleDefect inst = nameOK"
  then have n: "nameCharsetPattern inst" "length inst \<le> 41" by (simp_all add: nameOK_iff)
  then have "NUL \<notin> set inst" using name_chars_safe [OF n(1)] by auto
  moreover have "NUL \<notin> set ''pg_noty_events_''" by (simp add: NUL_def)
  ultimately have "WhyUnusable (''pg_noty_events_'' @ inst) = IdentifierOK" using n(2) by (auto simp: WhyUnusable_OK MaxIdentifierBytes_def)
  then show ?thesis by (simp add: listenChannelName_def Quoted_def)
qed

lemma derived_instance_may_have_no_channel:
  "\<exists>raw cfg warnings. runPipeline ascii_letters (\<lambda>_. Inl []) [] raw {} = Some (Some cfg, warnings, []) \<and>
     snd (listenChannelName san (ccf_Instance cfg)) = IdentifierTooLong"
proof -
  let ?s = "replicate 49 (CHR ''a'')" and ?raw = "sample_document (text_of (replicate 49 (CHR ''a''))) []"
  have "identifierDefect ascii_letters ?s = identOK" by (rule lower_identifier [OF ascii_letters_law]) (simp_all add: list_all_iff)
  moreover have "\<not> usesReservedSchemaPrefix ?s"
    by (simp add: usesReservedSchemaPrefix_def hasPrefixFold_def reservedSchemaPrefix_def lower_ascii_def numeral_eq_Suc)
  ultimately have "\<exists>w. runPipeline ascii_letters (\<lambda>_. Inl []) [] ?raw {} = Some (Some (resolveConfig ?raw), w, [])"
    using sample_root [where s = ?s] by (simp add: runPipeline_def Let_def)
  moreover have "WhyUnusable (''pg_noty_events_'' @ ?s) = IdentifierTooLong"
    by (simp add: WhyUnusable_def MaxIdentifierBytes_def NUL_def)
  then have "snd (listenChannelName san (ccf_Instance (resolveConfig ?raw))) = IdentifierTooLong"
    by (simp only: sample_root(4)) (simp add: listenChannelName_def Quoted_def)
  ultimately show ?thesis by blast
qed

lemma sample_table: "fst (qualifiedTableFault ascii_letters ''app.orders'') = tableOK"
proof -
  have "splitQualifiedTable ''app.orders'' = Some (''app'', ''orders'')"
    by (simp add: splitQualifiedTable_def tableSeparator_def HasPrefix_def)
  moreover have "identifierDefect ascii_letters ''app'' = identOK" "identifierDefect ascii_letters ''orders'' = identOK"
    by (rule lower_identifier [OF ascii_letters_law]; simp)+
  ultimately show ?thesis by (simp add: qualifiedTableFault_def)
qed

lemma sample_accepted:
  defines "raw \<equiv> sample_document no_text [sample_listener]"
  shows "resolveEveryValue raw = []" "validate ascii_letters (\<lambda>_. Inr (''http'', ''h'')) raw [] = []" "validateEffective raw (resolveConfig raw) = []"
proof -
  show "resolveEveryValue raw = []"
    by (simp add: raw_def resolveEveryValue_def resolve_listener_def resolve_defs accepts sample_defs sample_listener_def retry_read_def)
  have "validateDestination (\<lambda>_. Inr (''http'', ''h'')) (mp_Value (rli_Destination sample_listener)) = []"
    by (simp add: validateDestination_def destinationURLDefect_def accepts Valid_def sample_listener_def sample_defs)
  moreover have "validatePayload ascii_letters [] (mp_Value (rli_Payload sample_listener)) = []"
    by (simp add: validatePayload_def validatePayloadCompatibility_def payloadModeCanGovernCompatibility_def payloadModeFull_def
        payloadModeCols_def accepts Valid_def sample_listener_def sample_defs Let_def)
  moreover have "validateOperations ascii_letters (rli_Operations sample_listener) = []"
    by (simp add: validateOperations_def validate_operation_def updateOperation_def Valid_def sample_listener_def sample_defs)
  moreover have "validateName ''R23'' (rli_Name sample_listener) = []"
    by (simp add: accepts nameRuleDefect_def name_start_def name_tail_def sample_listener_def sample_defs)
  moreover have "validateTable ascii_letters (rli_Table sample_listener) = []"
    using sample_table by (simp add: accepts sample_listener_def sample_defs)
  moreover have "validateRetry (mp_Value (rli_Retry sample_listener)) = []"
    by (simp add: validateRetry_def accepts Valid_def sample_listener_def sample_defs)
  ultimately have "validateListener ascii_letters (\<lambda>_. Inr (''http'', ''h'')) [] sample_listener = []"
    by (simp add: validateListener_def accepts Valid_def) (simp add: sample_listener_def sample_defs)
  then show "validate ascii_letters (\<lambda>_. Inr (''http'', ''h'')) raw [] = []"
    by (simp add: raw_def validate_defs accepts sample_defs connectionStringForm_def hasConnectionURIDesignator_def HasPrefix_def
        shortConnectionURIDesignator_def connectionURIDesignator_def Let_def)
  obtain l where l: "ccf_Listeners (resolveConfig raw) = [l]" "cdl_Timeout (li_Delivery l) = 5 * second" "cdl_Concurrency (li_Delivery l) = 2"
    "cry_InitialInterval (cdl_Retry (li_Delivery l)) = 10 * second" "cry_MaxInterval (cdl_Retry (li_Delivery l)) = hour"
    by (auto simp: raw_def resolveConfig_def resolveListener_def mergeRetry_def built_in merged_defs sample_defs sample_listener_def Let_def split: prod.splits)
  have one: "paired raw (resolveConfig raw) = [(sample_listener, l)]" by (simp add: paired_def l(1)) (simp add: raw_def sample_defs)
  have w: "ccf_Worker (resolveConfig raw) = (df_worker resolvedBuiltInDefaults)\<lparr>cwk_Concurrency := 4\<rparr>"
    "ccf_Retention (resolveConfig raw) = df_retention resolvedBuiltInDefaults"
    by (simp_all add: raw_def resolveConfig_def resolveWorker_def resolveRetention_def built_in merged_defs sample_defs Let_def split: prod.splits)
  have "validateLeaseComparison ''R9'' raw (resolveConfig raw) = []"
    by (simp add: validateLeaseComparison_def largestListenerTimeout_def one larger_def resolved_source(2) listener_timeout_def l w built_in time_units Let_def)
  moreover have "validateRetentionComparisons ''R11'' ''R12'' raw (resolveConfig raw) = []"
    by (simp add: validateRetentionComparisons_def validateAtLeast_def resolved_source(2) w built_in time_units Let_def)
  moreover have "validateConcurrencyComparison ''R39'' a b 4 2 = []" for a b
    by (simp add: validateConcurrencyComparison_def resolvedInt_def Let_def split: list.splits)
  then have "compare_listener raw (resolveConfig raw) (sample_listener, l) = []"
    by (simp add: compare_listener_def validateRetryComparison_def resolved_source(2) l w built_in time_units Let_def)
  ultimately show "validateEffective raw (resolveConfig raw) = []" by (simp add: validateEffective_def one)
qed

lemma accepted_sound:
  assumes a: "runPipeline letter parse shape raw originals = Some (Some cfg, w, f)" and m: "mandatory_written raw" and lw: "letters_law letter"
  shows "sound_config letter parse cfg"
proof -
  from pipeline_accepts [OF a]
  have none: "resolveEveryValue raw = []" "validate letter parse raw [] = []" "validateEffective raw cfg = []" and cfg: "cfg = resolveConfig raw"
    by blast+
  note root = root_read [OF none(1)]
  have worker: "sound_worker (ccf_Worker cfg)"
    using none(2) root by (simp add: cfg resolveConfig_def Let_def worker_sound validate_def split: prod.splits)
  have retention: "sound_retention (ccf_Retention cfg)"
    using none(2,3) root by (intro retention_sound [of raw]) (simp_all add: cfg validate_def validateEffective_def resolveConfig_def Let_def split: prod.splits)
  have "identifierDefect letter ''noty'' = identOK" "\<not> usesReservedSchemaPrefix ''noty''"
    using noty_identifier [OF lw] by (simp_all add: usesReservedSchemaPrefix_def hasPrefixFold_def reservedSchemaPrefix_def lower_ascii_def)
  then have rest: "ccf_Version cfg = 1" "identifierDefect letter (cdb_Schema (ccf_Database cfg)) = identOK"
    "\<not> usesReservedSchemaPrefix (cdb_Schema (ccf_Database cfg))" "connectionStringForm letter (cdb_URL (ccf_Database cfg)) \<noteq> connStringInvalid"
    "nameRuleDefect (ccf_Instance cfg) = nameOK \<or> ccf_Instance cfg = cdb_Schema (ccf_Database cfg)"
    using none(2) root m by (auto simp: cfg resolveConfig_def resolveDatabase_def Let_def validate_def validateRoot_def validateDatabase_def
        mandatory_written_def accepts Valid_read merged_defs built_in split: if_splits)
  have "distinct (map (st_value \<circ> rli_Name) (lo_Values (rcf_Listeners raw)))"
    using none(2) root(16) m names_Nil [of Map.empty "lo_Values (rcf_Listeners raw)"]
    by (auto simp: validate_def validateListenerNames_def Valid_def mandatory_written_def listener_read_def Let_def)
  moreover have "map li_Name (ccf_Listeners cfg) = map (st_value \<circ> rli_Name) (lo_Values (rcf_Listeners raw))"
    using m by (auto simp: cfg resolveConfig_def resolveListener_def Let_def merged_defs mandatory_written_def split: prod.splits)
  ultimately show ?thesis using worker retention rest listener_sound [OF cfg _ none m worker] by (simp add: sound_config_def)
qed

section \<open>Properties\<close>

text \<open>C33. Loading a configuration never panics, and what it accepts is sound. Whatever was decoded, the semantic stages end with an
  outcome; when that is a configuration, there was no finding and it is the resolution of what was written; its version is 1, its
  schema is a usable identifier outside the reserved prefix, an instance name that was written is a name, the worker's ranges and
  durations hold, one partition interval fits into the retention and into the precreation horizon, listener names are unique, and
  every listener has a valid name, table, payload, operations and destination, a retry ladder between a positive interval and its
  maximum, a timeout the lease outlasts, and no more concurrency than the worker.\<close>

theorem accepted_configuration_is_sound:
  "\<exists>outcome warnings findings. runPipeline letter parse shape raw originals = Some (outcome, warnings, findings) \<and>
    (outcome = None \<longleftrightarrow> findings \<noteq> []) \<and>
    (\<forall>cfg. outcome = Some cfg \<and> mandatory_written raw \<and> letters_law letter \<longrightarrow> cfg = resolveConfig raw \<and> sound_config letter parse cfg)"
proof -
  obtain cs ss es where d: "diagnostics_of (resolveEveryValue raw) = Some cs" "diagnostics_of (validate letter parse raw shape) = Some ss"
    "diagnostics_of (validateEffective raw (resolveConfig raw)) = Some es"
    using calm_diagnostics calm_conversions calm_validate calm_effective_pass by metis
  show ?thesis using d accepted_sound [of letter parse shape raw originals] by (auto simp: runPipeline_def Let_def)
qed

theorem accepted_configuration_is_sound_witness:
  "sound_config ascii_letters (\<lambda>_. Inr (''http'', ''h'')) (resolveConfig (sample_document no_text [sample_listener]))"
proof -
  let ?raw = "sample_document no_text [sample_listener]" and ?parse = "\<lambda>_. Inr (''http'', ''h'')"
  have "mandatory_written ?raw"
    by (simp add: mandatory_written_def entries_written_def sample_defs sample_listener_def)
  moreover from sample_accepted obtain w where "runPipeline ascii_letters ?parse [] ?raw {} = Some (Some (resolveConfig ?raw), w, [])"
    by (auto simp: runPipeline_def Let_def)
  ultimately show ?thesis
    using accepted_configuration_is_sound [of ascii_letters ?parse "[]" ?raw "{}"] ascii_letters_law by auto
qed

end
