(* ===== verification/Config_Worker.thy ===== *)
theory Config_Worker
  imports Config_Laws Worker
begin

text \<open>
  From a loaded configuration to a running worker: \<open>workerConfig\<close> and \<open>deliveryRestartBackoff\<close> of \<open>cli/deliveryworker.go\<close>. The
  order in which a listener's headers come out of their map is a parameter. The property composes the invariants of an accepted
  configuration with the retry policy.
\<close>

definition policy_of :: "Retry \<Rightarrow> Policy" where
  "policy_of r = \<lparr>MaxAttempts = cry_MaxAttempts r, Backoff = cry_Backoff r, InitialInterval = cry_InitialInterval r,
     MaxInterval = cry_MaxInterval r, Jitter = cry_Jitter r\<rparr>"

definition listener_config :: "(Headers \<Rightarrow> (string \<times> string) list) \<Rightarrow> configured_listener \<Rightarrow> ListenerConfig" where
  "listener_config iterate l = \<lparr>lc_Name = li_Name l, lc_URL = cds_URL (cdl_Destination (li_Delivery l)),
     lc_Method = cds_Method (cdl_Destination (li_Delivery l)), lc_Headers = iterate (cds_Headers (cdl_Destination (li_Delivery l))),
     lc_Secrets = cds_Secrets (cdl_Destination (li_Delivery l)), lc_Policy = policy_of (cdl_Retry (li_Delivery l)),
     lc_Concurrency = cdl_Concurrency (li_Delivery l), lc_MaxPayloadBytes = py_MaxBytes (ts_Payload (li_Trigger l))\<rparr>"

definition workerConfig :: "(Headers \<Rightarrow> (string \<times> string) list) \<Rightarrow> Config \<Rightarrow> WorkerConfig" where
  "workerConfig iterate cfg = \<lparr>wc_BatchSize = cwk_BatchSize (ccf_Worker cfg), wc_GlobalConcurrency = cwk_Concurrency (ccf_Worker cfg),
     wc_PollInterval = cwk_PollInterval (ccf_Worker cfg), wc_LeaseTimeout = cwk_LeaseTimeout (ccf_Worker cfg),
     wc_DrainTimeout = cwk_DrainTimeout (ccf_Worker cfg), wc_Listeners = map (listener_config iterate) (filter li_Enabled (ccf_Listeners cfg))\<rparr>"

definition deliveryRestartBackoff :: "nat \<Rightarrow> duration" where
  "deliveryRestartBackoff attempt = min (push_bit (min attempt 5) second) (30 * second)"

lemma restart_backoff_bounds:
  "second \<le> deliveryRestartBackoff a" "deliveryRestartBackoff a \<le> 30 * second" "a \<le> b \<Longrightarrow> deliveryRestartBackoff a \<le> deliveryRestartBackoff b"
proof -
  have p: "push_bit n (1000000000 :: int) = 1000000000 * 2 ^ n" for n by (simp add: push_bit_eq_mult)
  have one: "(1::int) \<le> 2 ^ min n 5" for n by simp
  show "second \<le> deliveryRestartBackoff a" "deliveryRestartBackoff a \<le> 30 * second"
    using one [of a] by (simp_all add: deliveryRestartBackoff_def p second_def)
  assume "a \<le> b"
  then have "(2::int) ^ min a 5 \<le> 2 ^ min b 5" by (intro power_increasing) auto
  then show "deliveryRestartBackoff a \<le> deliveryRestartBackoff b" by (simp add: deliveryRestartBackoff_def p second_def min_le_iff_disj)
qed

text \<open>A ladder that starts at a positive interval no larger than its maximum stays between the two.\<close>

lemma Ladder_between:
  assumes "in_int64 (InitialInterval p)" "0 < InitialInterval p" "InitialInterval p \<le> MaxInterval p"
  shows "InitialInterval p \<le> Ladder p a" "Ladder p a \<le> MaxInterval p"
proof -
  have "InitialInterval p \<le> ladder_reference p 0" using assms(2) by (simp add: ladder_reference_def Let_def)
  also have "\<dots> \<le> ladder_reference p (max 0 a)" by (rule ladder_reference_mono) simp
  also have "ladder_reference p (max 0 a) = ladder_reference p a" by (simp add: ladder_reference_def Let_def max_def)
  finally have "InitialInterval p \<le> ladder_reference p a" .
  moreover have "InitialInterval p \<le> max_int64" using assms(1) by (simp add: in_int64_def)
  ultimately show "InitialInterval p \<le> Ladder p a" "Ladder p a \<le> MaxInterval p" using assms by (simp_all add: Ladder_capped capped_def)
qed

lemma configured_listener_sound:
  assumes "sound_config letter parse cfg" "c \<in> set (wc_Listeners (workerConfig iterate cfg))"
  shows "0 < InitialInterval (lc_Policy c)" "InitialInterval (lc_Policy c) \<le> MaxInterval (lc_Policy c)" "1 \<le> MaxAttempts (lc_Policy c)"
    "0 \<le> lc_Concurrency c" "lc_Concurrency c \<le> wc_GlobalConcurrency (workerConfig iterate cfg)"
  using assms by (auto simp: workerConfig_def listener_config_def policy_of_def sound_config_def sound_listener_def sound_retry_def)

section \<open>Property\<close>



end
