(* ===== verification/Config_Log.thy ===== *)
theory Config_Log
  imports Config_Merge
begin

text \<open>
  What a configuration looks like in a log: \<open>config/configlog.go\<close>, with the log sensitivity of each key as \<open>config/schema.go\<close>
  declares it. A log value is a tree. The order in which a header map is walked is a parameter, and the names are sorted. The property
  is that the log is the same whatever the secrets are.
\<close>

section \<open>Log values\<close>

datatype log_value = LogInt int | LogString string | LogBool bool | LogDuration duration | LogStrings "string list" | LogGroup "(string \<times> log_value) list"

datatype sensitivity = publicValue | urlPassword | entireValue

datatype levelName = noLevel | levelRoot | levelDatabase | levelWorker | levelRetention | levelDefaults | levelRetry | levelHeaders | levelListener
  | levelOperations | levelOperation | levelPayload | levelDestination | levelSigning

text \<open>The declared keys of each level with their log sensitivity; any other key is undeclared.\<close>

definition log_sensitivity :: "levelName \<Rightarrow> string \<Rightarrow> sensitivity option" where
  "log_sensitivity level key = map_of (case level of
      levelRoot \<Rightarrow> [(''version'', publicValue), (''instance'', publicValue), (''auto_reconcile'', publicValue), (''database'', publicValue),
        (''worker'', publicValue), (''retention'', publicValue), (''defaults'', publicValue), (''listeners'', publicValue)]
    | levelDatabase \<Rightarrow> [(''url'', urlPassword), (''schema'', publicValue), (''listen_url'', urlPassword)]
    | levelWorker \<Rightarrow> [(''concurrency'', publicValue), (''batch_size'', publicValue), (''poll_interval'', publicValue),
        (''lease_timeout'', publicValue), (''drain_timeout'', publicValue), (''allowed_destination_cidrs'', publicValue)]
    | levelRetention \<Rightarrow> [(''keep'', publicValue), (''partition_interval'', publicValue), (''precreate'', publicValue)]
    | levelDefaults \<Rightarrow> [(''timeout'', publicValue), (''retry'', publicValue), (''headers'', publicValue)]
    | levelOperations \<Rightarrow> [(''insert'', publicValue), (''update'', publicValue), (''delete'', publicValue)]
    | levelListener \<Rightarrow> [(''name'', publicValue), (''enabled'', publicValue), (''table'', publicValue), (''operations'', publicValue),
        (''payload'', publicValue), (''destination'', publicValue), (''retry'', publicValue), (''timeout'', publicValue), (''concurrency'', publicValue)]
    | levelOperation \<Rightarrow> [(''columns'', publicValue), (''is_distinct'', publicValue), (''when'', publicValue)]
    | levelPayload \<Rightarrow> [(''mode'', publicValue), (''columns'', publicValue), (''exclude'', publicValue), (''include_old'', publicValue),
        (''max_bytes'', publicValue)]
    | levelDestination \<Rightarrow> [(''url'', urlPassword), (''method'', publicValue), (''headers'', publicValue), (''signing'', publicValue)]
    | levelRetry \<Rightarrow> [(''max_attempts'', publicValue), (''backoff'', publicValue), (''initial_interval'', publicValue),
        (''max_interval'', publicValue), (''jitter'', publicValue)]
    | levelSigning \<Rightarrow> [(''secrets'', entireValue)]
    | levelHeaders \<Rightarrow> []
    | noLevel \<Rightarrow> []) key"

definition schemaLogString :: "levelName \<Rightarrow> string \<Rightarrow> string \<Rightarrow> string" where
  "schemaLogString level key v = (case log_sensitivity level key of
      None \<Rightarrow> redactionPlaceholder
    | Some publicValue \<Rightarrow> v
    | Some urlPassword \<Rightarrow> if CHR 0x0D \<in> set v \<or> CHR 0x0A \<in> set v then redactionPlaceholder else redactedConnectionString v
    | Some entireValue \<Rightarrow> redactionPlaceholder)"

section \<open>The log of a configuration\<close>

type_synonym walk = "Headers \<Rightarrow> string list"

definition indexed :: "log_value list \<Rightarrow> (string \<times> log_value) list" where
  "indexed vs = map (\<lambda>(i, v). (FormatInt (int i), v)) (enumerate 0 vs)"

definition logDatabase :: "Database \<Rightarrow> string \<times> log_value" where
  "logDatabase d = (''database'', LogGroup
     [(''url'', LogString (schemaLogString levelDatabase ''url'' (cdb_URL d))),
      (''schema'', LogString (schemaLogString levelDatabase ''schema'' (cdb_Schema d))),
      (''listen_url'', LogString (schemaLogString levelDatabase ''listen_url'' (cdb_ListenURL d)))])"

definition logWorker :: "Worker_settings \<Rightarrow> string \<times> log_value" where
  "logWorker w = (''worker'', LogGroup [(''concurrency'', LogInt (cwk_Concurrency w)), (''batch_size'', LogInt (cwk_BatchSize w)),
     (''poll_interval'', LogDuration (cwk_PollInterval w)), (''lease_timeout'', LogDuration (cwk_LeaseTimeout w)),
     (''drain_timeout'', LogDuration (cwk_DrainTimeout w))])"

definition logRetention :: "Retention_settings \<Rightarrow> string \<times> log_value" where
  "logRetention r = (''retention'', LogGroup [(''keep'', LogDuration (crt_Keep r)),
     (''partition_interval'', LogDuration (crt_PartitionInterval r)), (''precreate'', LogDuration (crt_Precreate r))])"

definition logOperations :: "Operation list \<Rightarrow> string \<times> log_value" where
  "logOperations ops = (''operations'', LogGroup (indexed (map (\<lambda>op. LogGroup [(''kind'', LogString (op_Kind op)),
     (''columns'', LogStrings (op_Columns op)), (''is_distinct'', LogBool (op_IsDistinct op)),
     (''when'', LogString (schemaLogString levelOperation ''when'' (op_When op)))]) ops)))"

definition logPayload :: "Payload \<Rightarrow> string \<times> log_value" where
  "logPayload p = (''payload'', LogGroup [(''mode'', LogString (schemaLogString levelPayload ''mode'' (py_Mode p))),
     (''columns'', LogStrings (py_Columns p)), (''exclude'', LogStrings (py_Exclude p)), (''include_old'', LogBool (py_IncludeOld p)),
     (''max_bytes'', LogInt (py_MaxBytes p))])"

definition logRetry :: "Retry \<Rightarrow> string \<times> log_value" where
  "logRetry r = (''retry'', LogGroup [(''max_attempts'', LogInt (cry_MaxAttempts r)),
     (''backoff'', LogString (schemaLogString levelRetry ''backoff'' (cry_Backoff r))),
     (''initial_interval'', LogDuration (cry_InitialInterval r)), (''max_interval'', LogDuration (cry_MaxInterval r)),
     (''jitter'', LogBool (cry_Jitter r))])"

definition logHeaders :: "walk \<Rightarrow> Headers \<Rightarrow> string \<times> log_value" where
  "logHeaders names h = (''headers'', LogGroup (map (\<lambda>name. (name, LogString redactionPlaceholder)) (sort (names h))))"

definition logSecrets :: "string list \<Rightarrow> string \<times> log_value" where
  "logSecrets secrets = (''secrets'', LogGroup (indexed (map (\<lambda>secret. LogString (schemaLogString levelSigning ''secrets'' secret)) secrets)))"

definition logDestination :: "walk \<Rightarrow> Destination \<Rightarrow> string \<times> log_value" where
  "logDestination names d = (''destination'', LogGroup
     [(''url'', LogString (schemaLogString levelDestination ''url'' (cds_URL d))),
      (''method'', LogString (schemaLogString levelDestination ''method'' (cds_Method d))),
      logHeaders names (cds_Headers d), (''signing'', LogGroup [logSecrets (cds_Secrets d)])])"

definition logListener :: "walk \<Rightarrow> configured_listener \<Rightarrow> log_value" where
  "logListener names l = LogGroup
     [(''name'', LogString (schemaLogString levelListener ''name'' (li_Name l))), (''enabled'', LogBool (li_Enabled l)),
      (''trigger'', LogGroup [(''table'', LogString (schemaLogString levelListener ''table'' (ts_Table (li_Trigger l)))),
        logOperations (ts_Operations (li_Trigger l)), logPayload (ts_Payload (li_Trigger l))]),
      (''delivery'', LogGroup [logDestination names (cdl_Destination (li_Delivery l)), logRetry (cdl_Retry (li_Delivery l)),
        (''timeout'', LogDuration (cdl_Timeout (li_Delivery l))), (''concurrency'', LogInt (cdl_Concurrency (li_Delivery l)))])]"

definition logListeners :: "walk \<Rightarrow> configured_listener list \<Rightarrow> string \<times> log_value" where
  "logListeners names ls = (''listeners'', LogGroup (indexed (map (logListener names) ls)))"

definition LogValue :: "walk \<Rightarrow> Config \<Rightarrow> log_value" where
  "LogValue names c = LogGroup [(''version'', LogInt (ccf_Version c)),
     (''instance'', LogString (schemaLogString levelRoot ''instance'' (ccf_Instance c))),
     logDatabase (ccf_Database c), logWorker (ccf_Worker c), logRetention (ccf_Retention c), logListeners names (ccf_Listeners c)]"

section \<open>Configurations that differ in their secrets\<close>

definition walk_law :: "walk \<Rightarrow> bool" where
  "walk_law names \<longleftrightarrow> (\<forall>h. finite (dom h) \<longrightarrow> distinct (names h) \<and> set (names h) = dom h)"

text \<open>Two URLs are alike when they are equal, or are one URI with two passwords, on one line and without a password parameter.\<close>

definition with_password :: "string \<Rightarrow> string \<Rightarrow> string \<Rightarrow> string \<Rightarrow> string" where
  "with_password scheme user pw host = (scheme @ schemeSeparator @ user @ '':'') @ pw @ ''@'' @ host"

definition one_line_uri :: "string \<Rightarrow> string \<Rightarrow> string \<Rightarrow> string \<Rightarrow> bool" where
  "one_line_uri scheme user pw host \<longleftrightarrow> CHR '':'' \<notin> set scheme \<and> CHR '':'' \<notin> set user \<and> CHR ''@'' \<notin> set host \<and> \<not> isBareEnvReference pw \<and>
     valueAfterKeyword (with_password scheme user pw host) passwordKeyword = None \<and>
     CHR 0x0D \<notin> set (with_password scheme user pw host) \<and> CHR 0x0A \<notin> set (with_password scheme user pw host)"

inductive url_alike :: "string \<Rightarrow> string \<Rightarrow> bool" where
  same: "url_alike u u"
| other_password: "one_line_uri scheme user pw host \<Longrightarrow> one_line_uri scheme user pw' host \<Longrightarrow>
    url_alike (with_password scheme user pw host) (with_password scheme user pw' host)"

definition headers_alike :: "Headers \<Rightarrow> Headers \<Rightarrow> bool" where
  "headers_alike h k \<longleftrightarrow> finite (dom h) \<and> dom h = dom k"

definition destination_alike :: "Destination \<Rightarrow> Destination \<Rightarrow> bool" where
  "destination_alike a b \<longleftrightarrow> url_alike (cds_URL a) (cds_URL b) \<and> cds_Method a = cds_Method b \<and> headers_alike (cds_Headers a) (cds_Headers b) \<and>
     length (cds_Secrets a) = length (cds_Secrets b)"

definition listener_alike :: "configured_listener \<Rightarrow> configured_listener \<Rightarrow> bool" where
  "listener_alike a b \<longleftrightarrow> li_Name a = li_Name b \<and> li_Enabled a = li_Enabled b \<and> li_Trigger a = li_Trigger b \<and>
     destination_alike (cdl_Destination (li_Delivery a)) (cdl_Destination (li_Delivery b)) \<and> cdl_Retry (li_Delivery a) = cdl_Retry (li_Delivery b) \<and>
     cdl_Timeout (li_Delivery a) = cdl_Timeout (li_Delivery b) \<and> cdl_Concurrency (li_Delivery a) = cdl_Concurrency (li_Delivery b)"

definition config_alike :: "Config \<Rightarrow> Config \<Rightarrow> bool" where
  "config_alike a b \<longleftrightarrow> ccf_Version a = ccf_Version b \<and> ccf_Instance a = ccf_Instance b \<and>
     url_alike (cdb_URL (ccf_Database a)) (cdb_URL (ccf_Database b)) \<and> cdb_Schema (ccf_Database a) = cdb_Schema (ccf_Database b) \<and>
     url_alike (cdb_ListenURL (ccf_Database a)) (cdb_ListenURL (ccf_Database b)) \<and>
     ccf_Worker a = ccf_Worker b \<and> ccf_Retention a = ccf_Retention b \<and> list_all2 listener_alike (ccf_Listeners a) (ccf_Listeners b)"

lemma url_logged:
  assumes "url_alike u v" "log_sensitivity level key = Some urlPassword"
  shows "schemaLogString level key u = schemaLogString level key v"
  using assms(1)
proof cases
  case (other_password scheme user pw host pw')
  have shown: "redactedConnectionString (with_password scheme user p host) = (scheme @ schemeSeparator @ user @ '':'') @ redactionPlaceholder @ ''@'' @ host"
    if "one_line_uri scheme user p host" for p
    using uri_redacted [of scheme user host p] that by (simp add: one_line_uri_def with_password_def)
  show ?thesis using other_password shown [OF other_password(3)] shown [OF other_password(4)] assms(2)
    by (simp add: schemaLogString_def one_line_uri_def)
qed simp

lemma headers_logged: "walk_law names \<Longrightarrow> headers_alike h k \<Longrightarrow> logHeaders names h = logHeaders names k"
proof -
  assume "walk_law names" "headers_alike h k"
  then have "distinct (names h)" "distinct (names k)" "set (names h) = set (names k)"
    by (auto simp: walk_law_def headers_alike_def)
  then have "sort (names h) = sort (names k)" by (metis sorted_list_of_set_sort_remdups distinct_remdups_id)
  then show ?thesis by (simp add: logHeaders_def)
qed

lemma secrets_logged: "length a = length b \<Longrightarrow> logSecrets a = logSecrets b"
proof -
  assume "length a = length b"
  then have "map (\<lambda>secret. LogString (schemaLogString levelSigning ''secrets'' secret)) a =
    map (\<lambda>secret. LogString (schemaLogString levelSigning ''secrets'' secret)) b"
    by (induction a b rule: list_induct2) (simp_all add: schemaLogString_def log_sensitivity_def)
  then show ?thesis by (simp add: logSecrets_def)
qed

lemma url_keys: "log_sensitivity levelDatabase ''url'' = Some urlPassword" "log_sensitivity levelDatabase ''listen_url'' = Some urlPassword"
  "log_sensitivity levelDestination ''url'' = Some urlPassword"
  by (simp_all add: log_sensitivity_def)

lemma listener_logged:
  assumes "walk_law names" "listener_alike a b"
  shows "logListener names a = logListener names b"
proof -
  let ?d = "cdl_Destination (li_Delivery a)" and ?e = "cdl_Destination (li_Delivery b)"
  have d: "destination_alike ?d ?e" using assms(2) by (simp add: listener_alike_def)
  then have u: "url_alike (cds_URL ?d) (cds_URL ?e)" and h: "headers_alike (cds_Headers ?d) (cds_Headers ?e)"
    and k: "length (cds_Secrets ?d) = length (cds_Secrets ?e)" and m: "cds_Method ?d = cds_Method ?e"
    by (simp_all add: destination_alike_def)
  have "logDestination names ?d = logDestination names ?e"
    unfolding logDestination_def url_logged [OF u url_keys(3)] headers_logged [OF assms(1) h] secrets_logged [OF k] m ..
  then show ?thesis using assms(2) by (simp add: logListener_def listener_alike_def)
qed

definition sample_logged :: "string \<Rightarrow> string \<Rightarrow> string \<Rightarrow> Config" where
  "sample_logged pw token secret = \<lparr>ccf_Version = 1, ccf_Instance = ''noty'', ccf_AutoReconcile = False,
     ccf_Database = \<lparr>cdb_URL = with_password ''postgres'' ''u'' pw ''h'', cdb_Schema = ''noty'', cdb_ListenURL = []\<rparr>,
     ccf_Worker = df_worker resolvedBuiltInDefaults, ccf_Retention = df_retention resolvedBuiltInDefaults,
     ccf_Listeners = [\<lparr>li_Name = ''l'', li_Enabled = True,
       li_Trigger = \<lparr>ts_Table = ''a.b'', ts_Operations = [], ts_Payload = ld_payload (df_listener resolvedBuiltInDefaults)\<rparr>,
       li_Delivery = \<lparr>cdl_Destination = \<lparr>cds_URL = ''http://h'', cds_Method = ''POST'', cds_Headers = [''Authorization'' \<mapsto> token], cds_Secrets = [secret]\<rparr>,
         cdl_Retry = ld_retry (df_listener resolvedBuiltInDefaults), cdl_Timeout = second, cdl_Concurrency = 0\<rparr>\<rparr>]\<rparr>"

section \<open>Property\<close>



end
