(* ===== verification/Spec2Isabelle.thy ===== *)
theory Spec2Isabelle
  imports Prelude Retry_Policy Quoting Signing Ssrf_Guard Storable_Text Event_Queue Queue_Laws Queue_Refinement Worker Worker_Laws
    Wakeup Calendar Partitions Trigger_Sql When_Lexer When_Grammar Reconcile_Plan Reconcile_Apply Reconcile_Gather
    Reconcile_Laws Reconcile_Safety Migrations Schema_Errors Schema_Store Schema_Retention Schema_Laws Schema_Passes
    Schema_Boot Suggest Diagnostics Env_Expansion Conn_String Config_Names Config_Merge Config_Validate Config_Effective
    Config_Laws Config_Worker Config_Log
begin

text \<open>
  A verification of pg_noty, a service that turns row changes in PostgreSQL into signed HTTP requests. A configuration names
  listeners; reconciliation installs triggers for them; a trigger writes an event and a queue row in the transaction of the change and
  notifies the service; a worker claims due rows under a lease, sends each event to its destination and settles the outcome; a
  maintenance pass keeps the partitions of the event log ahead of the clock and drops expired ones. The theories follow the packages
  under \<open>src/internal\<close>.

  \<^bold>\<open>Shared.\<close> \<open>Prelude\<close>: 64-bit wrap-around, the string functions of Go's standard library, results as sums, folds that stop at
  an error.

  \<^bold>\<open>Configuration\<close> (\<open>config\<close>). \<open>Env_Expansion\<close>: environment references in a scalar (\<open>envreference.go\<close>, \<open>envexpansion.go\<close>);
  a template expands to what its author wrote. \<open>Conn_String\<close>: libpq's grammar, password spans and their replacement
  (\<open>libpqgrammar.go\<close>, \<open>connstring.go\<close>, \<open>redact.go\<close>); no password is shown, whatever it holds. \<open>Config_Names\<close>: the predicates of
  \<open>ident.go\<close>; what they accept the rest of the program can use. \<open>Config_Merge\<close>: the document as written, the built-in defaults and
  the three-layer resolution (\<open>raw.go\<close>, \<open>presence.go\<close>, \<open>defaults.go\<close>, \<open>merge.go\<close>), with the contract of the merges as a locale.
  \<open>Config_Validate\<close> and \<open>Config_Effective\<close>: every semantic rule with the anchor of its diagnostic, the comparisons of effective
  values, the warnings and the end of the pipeline (\<open>validate*.go\<close>, \<open>compare.go\<close>, \<open>warn.go\<close>, \<open>load.go\<close>). \<open>Config_Laws\<close>: loading never
  panics for want of an anchor and what it accepts is sound. \<open>Config_Log\<close>: the log of a configuration is blind to its secrets
  (\<open>configlog.go\<close>). \<open>Suggest\<close> and \<open>Diagnostics\<close>: did-you-mean by edit distance and the canonical order of diagnostics.
  \<open>When_Lexer\<close> and \<open>When_Grammar\<close>: the scanner of a trigger's condition (\<open>whenlex.go\<close>) and the lexeme grammar it implements.

  \<^bold>\<open>Triggers\<close> (\<open>source\<close>). \<open>Quoting\<close>: identifiers, qualified names, literals, dollar quotes and bounded object names, each with a
  reader that inverts it. \<open>Trigger_Sql\<close>: validation and generation of trigger and function statements, and what a fired trigger ships.
  \<open>Storable_Text\<close>: text made acceptable to PostgreSQL, byte by byte.

  \<^bold>\<open>The queue\<close> (\<open>source\<close>). \<open>Event_Queue\<close>: the three service tables as a record of row lists and every operation on them (claim,
  acknowledge, negative acknowledge, dead letter, sweep, retry, list, observe, enqueue) as one transaction that may fail, commit, or
  commit without an acknowledgement. \<open>Queue_Laws\<close>: exact effects, exclusive leases, the invariant of every reachable state,
  redelivery, termination of the retry drain. \<open>Queue_Refinement\<close>: an abstract life of an event and the simulation, as a locale.

  \<^bold>\<open>Delivery\<close> (\<open>delivery\<close>, \<open>cli/deliveryworker.go\<close>). \<open>Retry_Policy\<close>: backoff, jitter, \<open>Retry-After\<close> and lease arithmetic at 64 bits.
  \<open>Signing\<close>: HMAC-SHA256 over words and signature headers. \<open>Ssrf_Guard\<close>: blocked addresses. \<open>Worker\<close> and \<open>Worker_Laws\<close>: admission,
  holding, dispatch, settlement and drain over an event port, a locale interpreted on the queue. \<open>Wakeup\<close>: the wake loop.
  \<open>Config_Worker\<close>: a worker built from an accepted configuration retries inside its bounds.

  \<^bold>\<open>Schema\<close> (\<open>schema\<close>). \<open>Calendar\<close> and \<open>Partitions\<close>: the grid, ranges, names, bounds and the maintenance plan. \<open>Migrations\<close>: corpus,
  ledger and runner. \<open>Schema_Errors\<close>: sentinels, classification, elision. \<open>Schema_Store\<close>: relations with markers and rows, the bounded
  transaction, observation and the maintenance pass. \<open>Schema_Retention\<close>: retention and the repair of the DEFAULT partition.
  \<open>Schema_Laws\<close>, \<open>Schema_Passes\<close>: what each pass may change. \<open>Schema_Boot\<close>: lock keys, bootstrap, privilege statements.

  \<^bold>\<open>Reconciliation\<close> (\<open>reconcile\<close>, \<open>cli/destroy.go\<close>). \<open>Reconcile_Plan\<close>: ownership, classification and the plan. \<open>Reconcile_Apply\<close>,
  \<open>Reconcile_Gather\<close>: catalog, registry, target resolution, apply and destroy. \<open>Reconcile_Laws\<close>, \<open>Reconcile_Safety\<close>: ownership is
  exactly our marker, apply is gated and atomic, foreign triggers survive.

  \<^bold>\<open>Conventions.\<close> A struct is a record with prefixed fields, an enumeration a datatype, an error a value of a sum or an option, a
  loop a recursive function with its termination proof; no definition needs fuel. Durations and instants are integers in nanoseconds,
  with wrap-around or saturation written out where the code has it. SQL statements are modelled by their effect on the tables; a
  transaction is atomic, and what other sessions do between two of its statements is a parameter only where a property is about it.
  Parameters stand for code outside the repository: the driver's quoter, JSON, \<open>time.Parse\<close>, \<open>net/url\<close>, the Unicode letter table, the
  iteration order of Go maps, clocks, the server's answers, and the scheduler's choices. Where a property needs documented behaviour
  of such a parameter, it is a named hypothesis with a concrete instance in the witness.

  \<^bold>\<open>Not modelled.\<close> The stages of the configuration loader that walk trees of the YAML library and the rendering of diagnostics; HTTP
  requests, DNS and the connection pool; the LISTEN connection and the waiting for the run lock; command wiring, metrics, health
  endpoints and error reporting. They are input and output, or glue around third-party code; the model takes their answers as
  parameters. Query collation is byte order.
\<close>

end
